(* ===== verification/Prelude.thy ===== *)
theory Prelude
  imports
    Complex_Main
    "HOL-Library.AList"
    "HOL-Library.List_Lexorder"
    "HOL-Library.Char_ord"
    "HOL-Library.Product_Lexorder"
begin

text \<open>
  What the component theories share.

  \<^item> Python's \<open>str\<close> is \<open>string\<close>, the list of the bytes of its UTF-8 encoding. Equality,
    concatenation, containment, prefixes and the order of strings agree with Python's on code
    points (UTF-8 preserves their order); \<open>py_len\<close> and \<open>py_take\<close> count code points by
    skipping continuation bytes. \<open>lower\<close>, \<open>strip\<close> and \<open>isdigit\<close> are those of the ASCII
    characters.
  \<^item> Python's \<open>dict\<close> is an association list in insertion order: \<open>map_of\<close> reads it,
    \<open>AList.update\<close> replaces in place or appends, as a \<open>dict\<close> does.
  \<^item> Python's stable \<open>sorted(xs, key=f)\<close> is \<open>sort_key f xs\<close>, with the lexicographic orders
    of the library on strings and tuples.
  \<^item> \<open>machine\<close> and \<open>growing_machine\<close> are the contracts of a component whose operations keep
    an invariant (and never decrease a measure); runs of operations inherit both.
\<close>

named_theorems py_defs "definitions of the string and dictionary helpers"

type_synonym ('k, 'v) dict = "('k \<times> 'v) list"

section \<open>Strings\<close>

definition em_dash :: string where
  "em_dash = [CHR 0xE2, CHR 0x80, CHR 0x94]"

definition ellipsis :: string where
  "ellipsis = [CHR 0xE2, CHR 0x80, CHR 0xA6]"

definition newline :: char where
  "newline = CHR 0x0A"

definition is_cont :: "char \<Rightarrow> bool" where
  "is_cont c \<longleftrightarrow> (let n = (of_char c :: nat) in 128 \<le> n \<and> n < 192)"

definition py_len :: "string \<Rightarrow> nat" where
  "py_len s = length (filter (\<lambda>c. \<not> is_cont c) s)"

text \<open>The prefix of \<open>n\<close> code points, Python's \<open>s[:n]\<close>.\<close>

fun py_take :: "nat \<Rightarrow> string \<Rightarrow> string" where
  "py_take n [] = []"
| "py_take n (c # cs) =
     (if is_cont c then c # py_take n cs
      else (case n of 0 \<Rightarrow> [] | Suc m \<Rightarrow> c # py_take m cs))"

definition lower_char :: "char \<Rightarrow> char" where
  "lower_char c = (let n = (of_char c :: nat) in if 65 \<le> n \<and> n \<le> 90 then char_of (n + 32) else c)"

definition upper_char :: "char \<Rightarrow> char" where
  "upper_char c = (let n = (of_char c :: nat) in if 97 \<le> n \<and> n \<le> 122 then char_of (n - 32) else c)"

definition py_lower :: "string \<Rightarrow> string" where
  "py_lower s = map lower_char s"

definition py_upper :: "string \<Rightarrow> string" where
  "py_upper s = map upper_char s"

definition is_space :: "char \<Rightarrow> bool" where
  "is_space c \<longleftrightarrow>
     (let n = (of_char c :: nat) in (9 \<le> n \<and> n \<le> 13) \<or> (28 \<le> n \<and> n \<le> 32))"

definition py_strip :: "string \<Rightarrow> string" where
  "py_strip s = rev (dropWhile is_space (rev (dropWhile is_space s)))"

definition is_digit_char :: "char \<Rightarrow> bool" where
  "is_digit_char c \<longleftrightarrow> (let n = (of_char c :: nat) in 48 \<le> n \<and> n \<le> 57)"

definition py_isdigit :: "string \<Rightarrow> bool" where
  "py_isdigit s \<longleftrightarrow> s \<noteq> [] \<and> list_all is_digit_char s"

definition py_startswith :: "string \<Rightarrow> string \<Rightarrow> bool" where
  "py_startswith s p \<longleftrightarrow> take (length p) s = p"

definition py_endswith :: "string \<Rightarrow> string \<Rightarrow> bool" where
  "py_endswith s p \<longleftrightarrow> py_startswith (rev s) (rev p)"

text \<open>\<open>sub in s\<close>.\<close>

fun py_in :: "string \<Rightarrow> string \<Rightarrow> bool" where
  "py_in sub [] \<longleftrightarrow> sub = []"
| "py_in sub (c # cs) \<longleftrightarrow> py_startswith (c # cs) sub \<or> py_in sub cs"

definition py_join :: "string \<Rightarrow> string list \<Rightarrow> string" where
  "py_join sep ss = (case ss of [] \<Rightarrow> [] | x # xs \<Rightarrow> x @ concat (map (\<lambda>y. sep @ y) xs))"

text \<open>\<open>s.replace(a, b)\<close> for one-character \<open>a\<close>.\<close>

definition replace_char :: "char \<Rightarrow> string \<Rightarrow> string \<Rightarrow> string" where
  "replace_char a b s = concat (map (\<lambda>c. if c = a then b else [c]) s)"

text \<open>\<open>s.split(c, 1)[0]\<close> for one character \<open>c\<close>, and \<open>s.rsplit(c, 1)[-1]\<close>.\<close>

definition before_char :: "char \<Rightarrow> string \<Rightarrow> string" where
  "before_char c s = takeWhile (\<lambda>x. x \<noteq> c) s"

definition after_last_char :: "char \<Rightarrow> string \<Rightarrow> string" where
  "after_last_char c s = rev (takeWhile (\<lambda>x. x \<noteq> c) (rev s))"

fun digits_of :: "nat \<Rightarrow> string" where
  "digits_of n = (if n < 10 then [char_of (n + 48)] else digits_of (n div 10) @ [char_of (n mod 10 + 48)])"

declare digits_of.simps [simp del]

definition str_of_nat :: "nat \<Rightarrow> string" where
  "str_of_nat n = digits_of n"

definition str_of_int :: "int \<Rightarrow> string" where
  "str_of_int i = (if i < 0 then ''-'' @ digits_of (nat (- i)) else digits_of (nat i))"

definition hex_digit :: "nat \<Rightarrow> char" where
  "hex_digit n = (if n < 10 then char_of (n + 48) else char_of (n + 87))"

text \<open>\<open>repr(s)\<close>: the quote is \<open>'\<close> unless the string holds \<open>'\<close> and no double quote.\<close>

definition repr_char :: "char \<Rightarrow> char \<Rightarrow> string" where
  "repr_char q c =
     (let n = (of_char c :: nat) in
      if c = q \<or> n = 92 then [CHR 0x5C, c]
      else if n = 10 then [CHR 0x5C, CHR ''n'']
      else if n = 13 then [CHR 0x5C, CHR ''r'']
      else if n = 9 then [CHR 0x5C, CHR ''t'']
      else if n < 32 \<or> n = 127 then [CHR 0x5C, CHR ''x'', hex_digit (n div 16), hex_digit (n mod 16)]
      else [c])"

definition py_repr :: "string \<Rightarrow> string" where
  "py_repr s =
     (let q = (if CHR 0x27 \<in> set s \<and> CHR 0x22 \<notin> set s then CHR 0x22 else CHR 0x27)
      in q # concat (map (repr_char q) s) @ [q])"

lemmas py_string_defs [py_defs] =
  py_lower_def py_strip_def py_startswith_def py_endswith_def py_join_def

lemma py_startswith_iff: "py_startswith s p \<longleftrightarrow> (\<exists>r. s = p @ r)"
  by (auto simp: py_startswith_def) (metis append_take_drop_id)

lemma py_in_iff: "py_in sub s \<longleftrightarrow> (\<exists>p q. s = p @ sub @ q)"
proof (induction s)
  case Nil
  then show ?case by auto
next
  case (Cons c cs)
  show ?case
  proof
    assume "py_in sub (c # cs)"
    then consider "py_startswith (c # cs) sub" | "py_in sub cs" by auto
    then show "\<exists>p q. c # cs = p @ sub @ q"
    proof cases
      case 1
      then show ?thesis by (metis append_Nil py_startswith_iff)
    next
      case 2
      then obtain p q where "cs = p @ sub @ q" using Cons.IH by blast
      then have "c # cs = (c # p) @ sub @ q" by simp
      then show ?thesis by blast
    qed
  next
    assume "\<exists>p q. c # cs = p @ sub @ q"
    then obtain p q where eq: "c # cs = p @ sub @ q" by blast
    show "py_in sub (c # cs)"
    proof (cases p)
      case Nil
      then have "py_startswith (c # cs) sub" using eq by (auto simp: py_startswith_iff)
      then show ?thesis by simp
    next
      case (Cons d p')
      then have "cs = p' @ sub @ q" using eq by simp
      then show ?thesis using Cons.IH by auto
    qed
  qed
qed

lemma py_lower_append [simp]: "py_lower (a @ b) = py_lower a @ py_lower b"
  by (simp add: py_lower_def)

lemma py_take_len: "py_len s \<le> n \<Longrightarrow> py_take n s = s"
  by (induction n s rule: py_take.induct) (auto simp: py_len_def split: nat.splits if_splits)

lemma py_len_le_length: "py_len s \<le> length s"
  by (simp add: py_len_def)

lemma py_len_take: "py_len (py_take n s) \<le> n"
  by (induction n s rule: py_take.induct) (auto simp: py_len_def split: nat.splits)

lemma py_len_append [simp]: "py_len (a @ b) = py_len a + py_len b"
  by (simp add: py_len_def)

lemma py_len_ellipsis [simp]: "py_len ellipsis = 1"
  by (simp add: py_len_def ellipsis_def is_cont_def)

section \<open>Dictionaries\<close>

definition dict_get :: "('k, 'v) dict \<Rightarrow> 'k \<Rightarrow> 'v \<Rightarrow> 'v" where
  "dict_get d k v = (case map_of d k of None \<Rightarrow> v | Some w \<Rightarrow> w)"

lemma map_of_update [simp]: "map_of (AList.update k v d) = (map_of d)(k \<mapsto> v)"
  by (rule update_conv')

lemma distinct_update [intro]: "distinct (map fst d) \<Longrightarrow> distinct (map fst (AList.update k v d))"
  by (rule distinct_update)

lemma update_fresh: "map_of d k = None \<Longrightarrow> AList.update k v d = d @ [(k, v)]"
  by (induction d) (auto split: if_splits)

lemma dict_get_update [simp]:
  "dict_get (AList.update k v d) k' w = (if k' = k then v else dict_get d k' w)"
  by (simp add: dict_get_def)

lemma dict_eqI:
  "map fst d = map fst e \<Longrightarrow> distinct (map fst d) \<Longrightarrow> (\<And>k. map_of d k = map_of e k) \<Longrightarrow> d = e"
proof (induction d arbitrary: e)
  case (Cons x d)
  then obtain y e' where e: "e = y # e'" "fst y = fst x" "map fst d = map fst e'" by (cases e) auto
  have "snd x = snd y" using Cons.prems(3) [of "fst x"] e(2) by (simp add: e(1))
  moreover have "map_of d k = map_of e' k" for k
  proof (cases "k = fst x")
    case True
    then have "map_of d k = None" "map_of e' k = None"
      using Cons.prems(2) e(3) by (simp_all add: map_of_eq_None_iff image_set del: set_map)
    then show ?thesis by simp
  next
    case False
    then show ?thesis using Cons.prems(3) [of k] e(2) by (simp add: e(1))
  qed
  ultimately show ?case using Cons e by (simp add: prod_eq_iff)
qed simp

text \<open>\<open>list(dict.fromkeys(xs))\<close>: the first occurrence of each element, in order.\<close>

fun dedup_aux :: "'a list \<Rightarrow> 'a list \<Rightarrow> 'a list" where
  "dedup_aux seen [] = []"
| "dedup_aux seen (x # xs) = (if x \<in> set seen then dedup_aux seen xs else x # dedup_aux (x # seen) xs)"

definition dedup :: "'a list \<Rightarrow> 'a list" where
  "dedup xs = dedup_aux [] xs"

lemma set_dedup_aux: "set (dedup_aux seen xs) = set xs - set seen"
  by (induction seen xs rule: dedup_aux.induct) auto

lemma distinct_dedup_aux: "distinct (dedup_aux seen xs)"
  by (induction seen xs rule: dedup_aux.induct) (auto simp: set_dedup_aux)

lemma set_dedup [simp]: "set (dedup xs) = set xs"
  by (simp add: dedup_def set_dedup_aux)

lemma distinct_dedup [simp]: "distinct (dedup xs)"
  by (simp add: dedup_def distinct_dedup_aux)

lemma map_of_pairs: "map_of (map (\<lambda>x. (x, g x)) xs) a = (if a \<in> set xs then Some (g a) else None)"
  by (induction xs) auto

section \<open>Sorting\<close>

text \<open>\<open>sorted(set(xs))\<close> is \<open>sort (remdups xs)\<close>.\<close>

lemma sort_filter_eq: "sort_key f (filter P xs) = filter P (sort_key f xs)"
  by (rule filter_sort [symmetric])

section \<open>Sums over results\<close>

fun result_map :: "('a \<Rightarrow> 'e + 'b) \<Rightarrow> 'a list \<Rightarrow> 'e + 'b list" where
  "result_map f [] = Inr []"
| "result_map f (x # xs) =
     (case f x of Inl e \<Rightarrow> Inl e
      | Inr y \<Rightarrow> (case result_map f xs of Inl e \<Rightarrow> Inl e | Inr ys \<Rightarrow> Inr (y # ys)))"

section \<open>Contracts of stateful components\<close>

locale machine =
  fixes step :: "'s \<Rightarrow> 'e \<Rightarrow> 's"
    and inv :: "'s \<Rightarrow> bool"
  assumes step_inv: "inv s \<Longrightarrow> inv (step s e)"
begin

lemma run_inv: "inv s \<Longrightarrow> inv (foldl step s es)"
  by (induction es arbitrary: s) (auto intro: step_inv)

lemma run_prefix_inv: "inv s \<Longrightarrow> inv (foldl step s (take n es))"
  by (rule run_inv)

end

locale growing_machine = machine step inv
  for step :: "'s \<Rightarrow> 'e \<Rightarrow> 's" and inv :: "'s \<Rightarrow> bool" +
  fixes below :: "'s \<Rightarrow> 's \<Rightarrow> bool"
  assumes below_refl: "below s s"
    and below_trans: "below s t \<Longrightarrow> below t u \<Longrightarrow> below s u"
    and step_below: "inv s \<Longrightarrow> below s (step s e)"
begin

lemma run_below: "inv s \<Longrightarrow> below s (foldl step s es)"
proof (induction es arbitrary: s)
  case Nil
  then show ?case by (simp add: below_refl)
next
  case (Cons e es)
  then have "below s (step s e)" and "below (step s e) (foldl step (step s e) es)"
    by (auto intro: step_below step_inv)
  then show ?case by (auto intro: below_trans)
qed

lemma run_append_below: "inv s \<Longrightarrow> below (foldl step s es) (foldl step s (es @ fs))"
  by (simp add: run_below run_inv)

end

end
