(* ===== verification/PyFloat.thy ===== *)
theory PyFloat
  imports Prelude "HOL-Library.Log_Nat"
begin

text \<open>
  Python's \<open>float\<close> is an IEEE 754 binary64 number. A value is the rational number it denotes,
  and every operation of the source rounds its exact result to the nearest binary64 number,
  ties to even (\<open>fl\<close>), subnormal numbers included. Infinities, NaN and the sign of zero are
  not modelled: no operation of the modelled code leaves the finite range on the values its
  schemas admit.

  The locale \<open>rounding\<close> is what the score and budget lemmas need of a rounding: it is
  monotone and exact on small integers. \<open>fl64\<close> interprets it on the binary64 rounding.
\<close>

type_synonym flt = rat

definition pow2 :: "int \<Rightarrow> rat" where
  "pow2 e = (if 0 \<le> e then 2 ^ nat e else 1 / 2 ^ nat (- e))"

text \<open>The exponent of the leading bit: \<open>2 ^ k \<le> x < 2 ^ (k + 1)\<close> for \<open>0 < x\<close>.\<close>

definition ilog2 :: "rat \<Rightarrow> int" where
  "ilog2 x = (case quotient_of x of (n, d) \<Rightarrow>
     let k = bitlen n - bitlen d in if pow2 k \<le> x then k else k - 1)"

text \<open>Round half to even.\<close>

definition rhe :: "rat \<Rightarrow> int" where
  "rhe x = (let f = \<lfloor>x\<rfloor>; r = x - of_int f in
     if r < 1/2 then f else if 1/2 < r then f + 1 else if even f then f else f + 1)"

definition ulp_exp :: "rat \<Rightarrow> int" where
  "ulp_exp x = max (ilog2 x - 52) (- 1074)"

definition fl :: "rat \<Rightarrow> flt" where
  "fl x = (if x = 0 then 0
     else let q = pow2 (ulp_exp \<bar>x\<bar>) in of_int (rhe (x / q)) * q)"

definition fadd :: "flt \<Rightarrow> flt \<Rightarrow> flt" where "fadd a b = fl (a + b)"
definition fsub :: "flt \<Rightarrow> flt \<Rightarrow> flt" where "fsub a b = fl (a - b)"
definition fmul :: "flt \<Rightarrow> flt \<Rightarrow> flt" where "fmul a b = fl (a * b)"
definition fdiv :: "flt \<Rightarrow> flt \<Rightarrow> flt" where "fdiv a b = fl (a / b)"

text \<open>\<open>sum(xs)\<close> over floats: a left fold from the integer 0 (CPython 3.11).\<close>

definition fsum :: "flt list \<Rightarrow> flt" where
  "fsum xs = foldl fadd 0 xs"

text \<open>\<open>round(x, n)\<close> and the digits of \<open>f"{x:.nf}"\<close>: correctly rounded from the exact value.\<close>

definition round_to :: "nat \<Rightarrow> flt \<Rightarrow> flt" where
  "round_to n x = fl (of_int (rhe (x * 10 ^ n)) / 10 ^ n)"

fun pad_left :: "nat \<Rightarrow> string \<Rightarrow> string" where
  "pad_left n s = (if length s < n then replicate (n - length s) (CHR ''0'') @ s else s)"

definition fmt_fixed :: "nat \<Rightarrow> flt \<Rightarrow> string" where
  "fmt_fixed n x =
     (let m = rhe (\<bar>x\<bar> * 10 ^ n);
          ds = pad_left (Suc n) (str_of_nat (nat m));
          k = length ds - n
      in (if x < 0 then ''-'' else []) @ take k ds @ (if n = 0 then [] else ''.'' @ drop k ds))"

section \<open>Powers of two\<close>

lemma pow2_pos [simp]: "0 < pow2 e"
  by (simp add: pow2_def)

lemma pow2_nonneg [simp]: "0 \<le> pow2 e"
  by (simp add: less_imp_le)

lemma pow2_nz [simp]: "pow2 e \<noteq> 0"
  by (metis pow2_pos less_irrefl)

lemma pow2_0 [simp]: "pow2 0 = 1"
  by (simp add: pow2_def)

lemma pow2_powi: "pow2 e = 2 powi e"
  by (simp add: pow2_def power_int_def field_simps)

lemma pow2_add: "pow2 (a + b) = pow2 a * pow2 b"
  by (simp add: pow2_powi power_int_add)

lemma pow2_diff: "pow2 (a - b) = pow2 a / pow2 b"
  by (simp add: pow2_powi power_int_diff)

lemma pow2_mono: "a \<le> b \<Longrightarrow> pow2 a \<le> pow2 b"
  by (simp add: pow2_powi power_int_increasing)

lemma pow2_strict: "a < b \<Longrightarrow> pow2 a < pow2 b"
  by (simp add: pow2_powi power_int_strict_increasing)

lemma pow2_less_iff: "pow2 a < pow2 b \<longleftrightarrow> a < b"
  by (meson linorder_not_le pow2_mono pow2_strict)

lemma pow2_nat: "0 \<le> e \<Longrightarrow> pow2 e = of_int (2 ^ nat e)"
  by (simp add: pow2_def)

section \<open>Round half even\<close>

lemma rhe_of_int [simp]: "rhe (of_int k) = k"
  by (simp add: rhe_def)

lemma rhe_cases: "rhe x = \<lfloor>x\<rfloor> \<or> rhe x = \<lfloor>x\<rfloor> + 1"
  by (simp add: rhe_def Let_def)

lemma rhe_mono: "x \<le> y \<Longrightarrow> rhe x \<le> rhe y"
proof -
  assume le: "x \<le> y"
  show ?thesis
  proof (cases "\<lfloor>x\<rfloor> = \<lfloor>y\<rfloor>")
    case True
    then show ?thesis using le by (auto simp: rhe_def Let_def)
  next
    case False
    then have "\<lfloor>x\<rfloor> + 1 \<le> \<lfloor>y\<rfloor>" using floor_mono [OF le] by linarith
    then show ?thesis using rhe_cases [of x] rhe_cases [of y] by linarith
  qed
qed

lemma rhe_minus: "rhe (- x) = - rhe x"
proof (cases "x = of_int \<lfloor>x\<rfloor>")
  case True
  then show ?thesis by (metis of_int_minus rhe_of_int)
next
  case False
  then have lt: "of_int \<lfloor>x\<rfloor> < x" using of_int_floor_le [of x] by linarith
  have fl: "\<lfloor>- x\<rfloor> = - \<lfloor>x\<rfloor> - 1"
  proof (rule floor_unique)
    show "of_int (- \<lfloor>x\<rfloor> - 1) \<le> - x" using floor_correct [of x] by simp
    show "- x < of_int (- \<lfloor>x\<rfloor> - 1) + 1" using lt by simp
  qed
  show ?thesis by (auto simp: rhe_def Let_def fl)
qed

lemma rhe_ge: "of_int k \<le> x \<Longrightarrow> k \<le> rhe x"
  by (metis rhe_mono rhe_of_int)

lemma rhe_le: "x \<le> of_int k \<Longrightarrow> rhe x \<le> k"
  by (metis rhe_mono rhe_of_int)

section \<open>The leading bit\<close>

lemma ilog2_bounds:
  assumes "0 < x"
  shows "pow2 (ilog2 x) \<le> x" and "x < pow2 (ilog2 x + 1)"
proof -
  obtain n d where nd: "quotient_of x = (n, d)" by (cases "quotient_of x")
  then have d: "0 < d" and x: "x = of_int n / of_int d"
    by (auto dest: quotient_of_denom_pos quotient_of_div)
  with assms have n: "0 < n" by (simp add: zero_less_divide_iff)
  let ?a = "bitlen n" and ?b = "bitlen d"
  have a: "1 \<le> ?a" and b: "1 \<le> ?b"
    using n d by (metis bitlen_eq_zero_iff bitlen_nonneg linorder_not_le int_one_le_iff_zero_less order_le_less)+
  have n1: "pow2 (?a - 1) \<le> of_int n" and n2: "of_int n < pow2 ?a"
    using bitlen_bounds [OF n] a by (simp_all add: pow2_nat of_int_less_iff del: of_int_power)
  have d1: "pow2 (?b - 1) \<le> of_int d" and d2: "of_int d < pow2 ?b"
    using bitlen_bounds [OF d] b by (simp_all add: pow2_nat of_int_less_iff del: of_int_power)
  let ?k = "?a - ?b"
  have d0: "(0 :: rat) < of_int d" using d by simp
  have lower: "pow2 (?k - 1) < x"
  proof -
    have "pow2 (?k - 1) * of_int d < pow2 (?k - 1) * pow2 ?b"
      using d2 by (simp add: mult_strict_left_mono)
    also have "\<dots> = pow2 (?a - 1)" by (simp add: pow2_add [symmetric])
    also have "\<dots> \<le> of_int n" by (rule n1)
    finally show ?thesis using d0 by (simp add: x pos_less_divide_eq)
  qed
  have upper: "x < pow2 (?k + 1)"
  proof -
    have "of_int n < pow2 ?a" by (rule n2)
    also have "\<dots> = pow2 (?k + 1) * pow2 (?b - 1)" by (simp add: pow2_add [symmetric])
    also have "\<dots> \<le> pow2 (?k + 1) * of_int d" using d1 by (simp add: mult_left_mono)
    finally show ?thesis using d0 by (simp add: x pos_divide_less_eq)
  qed
  have il: "ilog2 x = (if pow2 ?k \<le> x then ?k else ?k - 1)"
    by (simp add: ilog2_def nd Let_def)
  show "pow2 (ilog2 x) \<le> x" using lower by (simp add: il)
  show "x < pow2 (ilog2 x + 1)" using upper by (simp add: il)
qed

lemma ilog2_mono: "0 < x \<Longrightarrow> x \<le> y \<Longrightarrow> ilog2 x \<le> ilog2 y"
  using ilog2_bounds [of x] ilog2_bounds [of y]
  by (smt (verit, best) pow2_less_iff order_less_le_trans order_le_less_trans)

section \<open>The rounding\<close>

lemma fl_0 [simp]: "fl 0 = 0"
  by (simp add: fl_def)

lemma fl_minus: "fl (- x) = - fl x"
  by (simp add: fl_def Let_def rhe_minus)

lemma fl_nonneg: "0 \<le> x \<Longrightarrow> 0 \<le> fl x"
  using rhe_ge [of 0 "x / pow2 (ulp_exp \<bar>x\<bar>)"] by (simp add: fl_def Let_def)

lemma fl_repr:
  assumes "\<bar>m\<bar> < 2 ^ 53" and e: "- 1074 \<le> e"
  shows "fl (of_int m * pow2 e) = of_int m * pow2 e"
proof (cases "m = 0")
  case True
  then show ?thesis by simp
next
  case False
  let ?x = "of_int m * pow2 e"
  let ?u = "ulp_exp \<bar>?x\<bar>"
  have ax: "\<bar>?x\<bar> = of_int \<bar>m\<bar> * pow2 e" by (simp add: abs_mult)
  have pos: "0 < \<bar>?x\<bar>" using False by simp
  have "of_int \<bar>m\<bar> < pow2 53"
    using assms(1) by (simp add: pow2_nat of_int_less_iff del: of_int_power of_int_abs)
  then have "\<bar>?x\<bar> < pow2 53 * pow2 e" unfolding ax by (rule mult_strict_right_mono) simp
  then have "\<bar>?x\<bar> < pow2 (53 + e)" by (simp only: pow2_add)
  then have "pow2 (ilog2 \<bar>?x\<bar>) < pow2 (53 + e)"
    using ilog2_bounds(1) [OF pos] by (rule order_le_less_trans [rotated])
  then have ue: "?u \<le> e" using e by (simp add: pow2_less_iff ulp_exp_def)
  have "of_int (m * 2 ^ nat (e - ?u)) = of_int m * pow2 (e - ?u)"
    using ue by (simp add: pow2_nat)
  also have "\<dots> = ?x / pow2 ?u" by (simp add: pow2_diff)
  finally have quot: "?x / pow2 ?u = of_int (m * 2 ^ nat (e - ?u))" by simp
  then have "rhe (?x / pow2 ?u) = m * 2 ^ nat (e - ?u)" by (simp only: rhe_of_int)
  then have "of_int (rhe (?x / pow2 ?u)) * pow2 ?u = ?x" using quot by (metis nonzero_eq_divide_eq pow2_nz)
  then show ?thesis using pos by (simp add: fl_def Let_def)
qed

lemma fl_idem: "fl (fl x) = fl x"
proof (cases "x = 0")
  case True
  then show ?thesis by simp
next
  case False
  let ?u = "ulp_exp \<bar>x\<bar>" and ?m = "rhe (x / pow2 (ulp_exp \<bar>x\<bar>))"
  have fx: "fl x = of_int ?m * pow2 ?u" using False by (simp add: fl_def Let_def)
  have u: "- 1074 \<le> ?u" by (simp add: ulp_exp_def)
  have "\<bar>x\<bar> < pow2 (ilog2 \<bar>x\<bar> + 1)" using False by (intro ilog2_bounds(2)) simp
  also have "\<dots> \<le> pow2 (53 + ?u)" by (intro pow2_mono) (simp add: ulp_exp_def)
  finally have "\<bar>x\<bar> / pow2 ?u \<le> pow2 (53 + ?u) / pow2 ?u" by (simp add: divide_right_mono)
  also have "\<dots> = of_int (2 ^ 53)" by (simp add: pow2_diff [symmetric] pow2_nat)
  finally have b: "\<bar>x / pow2 ?u\<bar> \<le> of_int (2 ^ 53)" by (simp add: abs_divide)
  have "x / pow2 ?u \<le> of_int (2 ^ 53)" and "of_int (- (2 ^ 53)) \<le> x / pow2 ?u"
    using abs_le_D1 [OF b] abs_le_D2 [OF b] by (simp_all add: minus_le_iff)
  then have m: "\<bar>?m\<bar> \<le> 2 ^ 53" using rhe_le rhe_ge by (metis abs_le_iff minus_le_iff)
  show ?thesis
  proof (cases "\<bar>?m\<bar> = 2 ^ 53")
    case True
    define s where "s = sgn ?m"
    have s: "?m = s * 2 ^ 53" "\<bar>s\<bar> = 1"
      using True sgn_mult_abs [of ?m] by (auto simp: s_def abs_sgn_eq)
    have "of_int ?m * pow2 ?u = of_int s * (pow2 53 * pow2 ?u)" by (simp add: s(1) pow2_nat)
    also have "\<dots> = of_int s * pow2 (53 + ?u)" by (simp add: pow2_add)
    finally show ?thesis using fl_repr [of s "53 + ?u"] u s(2) by (simp add: fx)
  next
    case False
    then show ?thesis using m u fl_repr [of ?m ?u] by (simp add: fx)
  qed
qed

lemma fl_of_int: "\<bar>m\<bar> < 2 ^ 53 \<Longrightarrow> fl (of_int m) = of_int m"
  using fl_repr [of m 0] by simp

lemma fl_of_nat: "n < 2 ^ 53 \<Longrightarrow> fl (of_nat n) = of_nat n"
  using fl_of_int [of "int n"] by simp

lemma fl_numeral [simp]: "fl 1 = 1" "fl 100 = 100"
  using fl_of_int [of 1] fl_of_int [of 100] by simp_all

lemma fl_mono_pos:
  assumes "0 < x" and le: "x \<le> y"
  shows "fl x \<le> fl y"
proof -
  have y: "0 < y" using assms by simp
  have fx: "fl x = of_int (rhe (x / pow2 (ulp_exp x))) * pow2 (ulp_exp x)"
    using assms(1) by (simp add: fl_def Let_def)
  have fy: "fl y = of_int (rhe (y / pow2 (ulp_exp y))) * pow2 (ulp_exp y)"
    using y by (simp add: fl_def Let_def)
  have ule: "ulp_exp x \<le> ulp_exp y" using ilog2_mono [OF assms] by (simp add: ulp_exp_def)
  show ?thesis
  proof (cases "ulp_exp x = ulp_exp y")
    case True
    have "rhe (x / pow2 (ulp_exp y)) \<le> rhe (y / pow2 (ulp_exp y))"
      using le by (intro rhe_mono divide_right_mono) simp_all
    then show ?thesis by (simp add: fx fy True mult_right_mono)
  next
    case False
    let ?k = "ilog2 y" and ?u = "ulp_exp x"
    from False ule have ey: "ulp_exp y = ?k - 52" and lt: "ilog2 x < ?k" and uk: "?u < ?k - 52"
      by (auto simp: ulp_exp_def)
    have "of_int (2 ^ 52) = pow2 52" by (simp add: pow2_nat)
    also have "\<dots> = pow2 ?k / pow2 (?k - 52)" by (simp add: pow2_diff [symmetric])
    also have "\<dots> \<le> y / pow2 (?k - 52)" using ilog2_bounds(1) [OF y] by (simp add: divide_right_mono)
    finally have "2 ^ 52 \<le> rhe (y / pow2 (?k - 52))" by (rule rhe_ge)
    then have "pow2 52 \<le> of_int (rhe (y / pow2 (?k - 52)))"
      by (metis of_int_le_iff pow2_nat zero_le_numeral nat_numeral)
    then have "pow2 52 * pow2 (?k - 52) \<le> fl y" by (simp add: fy ey mult_right_mono)
    then have hi: "pow2 ?k \<le> fl y" by (simp add: pow2_add [symmetric])
    have "x < pow2 (ilog2 x + 1)" by (rule ilog2_bounds(2) [OF assms(1)])
    also have "\<dots> \<le> pow2 ?k" using lt by (intro pow2_mono) simp
    finally have "x / pow2 ?u \<le> pow2 ?k / pow2 ?u" by (simp add: divide_right_mono)
    also have "\<dots> = of_int (2 ^ nat (?k - ?u))" using uk by (simp add: pow2_diff [symmetric] pow2_nat)
    finally have "rhe (x / pow2 ?u) \<le> 2 ^ nat (?k - ?u)" by (rule rhe_le)
    then have "of_int (rhe (x / pow2 ?u)) \<le> pow2 (?k - ?u)" using uk
      by (metis of_int_le_iff pow2_nat diff_ge_0_iff_ge less_imp_le order_less_trans diff_less_eq less_add_same_cancel1 zero_less_numeral)
    then have "fl x \<le> pow2 (?k - ?u) * pow2 ?u" by (simp add: fx mult_right_mono)
    then have "fl x \<le> pow2 ?k" by (simp add: pow2_add [symmetric])
    then show ?thesis using hi by simp
  qed
qed

lemma fl_mono: "x \<le> y \<Longrightarrow> fl x \<le> fl y"
proof -
  assume le: "x \<le> y"
  consider "0 < x" | "x \<le> 0" "0 \<le> y" | "y < 0" by linarith
  then show ?thesis
  proof cases
    case 1
    then show ?thesis using le by (rule fl_mono_pos)
  next
    case 2
    then have "0 \<le> fl y" and "0 \<le> fl (- x)" by (simp_all add: fl_nonneg)
    then show ?thesis by (simp add: fl_minus)
  next
    case 3
    then have "fl (- y) \<le> fl (- x)" using le by (intro fl_mono_pos) simp_all
    then show ?thesis by (simp add: fl_minus)
  qed
qed

lemma fl_unit: "0 \<le> x \<Longrightarrow> x \<le> 1 \<Longrightarrow> 0 \<le> fl x \<and> fl x \<le> 1"
  using fl_mono [of x 1] fl_nonneg [of x] by simp

section \<open>What the components use of a rounding\<close>

locale rounding =
  fixes rnd :: "rat \<Rightarrow> rat"
  assumes rnd_mono: "x \<le> y \<Longrightarrow> rnd x \<le> rnd y"
    and rnd_int: "\<bar>m\<bar> < 2 ^ 53 \<Longrightarrow> rnd (of_int m) = of_int m"
    and rnd_idem: "rnd (rnd x) = rnd x"
begin

lemma rnd_0 [simp]: "rnd 0 = 0"
  using rnd_int [of 0] by simp

lemma rnd_within: "of_int a \<le> x \<Longrightarrow> x \<le> of_int b \<Longrightarrow> \<bar>a\<bar> < 2 ^ 53 \<Longrightarrow> \<bar>b\<bar> < 2 ^ 53
    \<Longrightarrow> of_int a \<le> rnd x \<and> rnd x \<le> of_int b"
  using rnd_mono [of "of_int a" x] rnd_mono [of x "of_int b"] by (simp add: rnd_int)

lemma sum_mono:
  "list_all2 (\<le>) xs ys \<Longrightarrow> a \<le> b
    \<Longrightarrow> foldl (\<lambda>s x. rnd (s + x)) a xs \<le> foldl (\<lambda>s x. rnd (s + x)) b ys"
  by (induction xs ys arbitrary: a b rule: list_all2_induct) (auto intro: rnd_mono add_mono)

lemma sum_ge_start:
  "list_all (\<lambda>x. 0 \<le> x) xs \<Longrightarrow> rnd a = a \<Longrightarrow> a \<le> foldl (\<lambda>s x. rnd (s + x)) a xs"
proof (induction xs arbitrary: a)
  case Nil
  then show ?case by simp
next
  case (Cons x xs)
  then have "a \<le> rnd (a + x)" using rnd_mono [of a "a + x"] by simp
  also have "\<dots> \<le> foldl (\<lambda>s x. rnd (s + x)) (rnd (a + x)) xs" using Cons by (simp add: rnd_idem)
  finally show ?case by simp
qed

lemma sum_nonneg: "list_all (\<lambda>x. 0 \<le> x) xs \<Longrightarrow> 0 \<le> a \<Longrightarrow> 0 \<le> foldl (\<lambda>s x. rnd (s + x)) a xs"
proof (induction xs arbitrary: a)
  case (Cons x xs)
  then have "0 \<le> rnd (a + x)" using rnd_mono [of 0 "a + x"] by simp
  then show ?case using Cons by simp
qed simp

end

interpretation fl64: rounding fl
  by unfold_locales (auto intro: fl_mono fl_of_int fl_idem)

end
