(* ===== verification/Ids.thy ===== *)
theory Ids
  imports Prelude "HOL-Library.Word"
begin

text \<open>
  Entity identifiers, \<open>engine/domain/ids.py\<close>: the generator's rejection sampling over a byte
  source and the validator every domain model calls. The byte source \<open>secrets.token_bytes\<close> is
  an argument \<open>rng\<close>, the batch of 24 bytes returned by the \<open>k\<close>-th call; fuel bounds the
  number of batches the \<open>while\<close> loop draws, and \<open>slug_loop_enough\<close> says how much is enough.
\<close>

type_synonym byte = "8 word"

datatype id_error = UnknownPrefix string | MalformedId string | WrongPrefix string string | OutOfFuel

definition id_alphabet :: string where
  "id_alphabet = ''ABCDEFGHJKMNPQRSTVWXYZ23456789''"

definition slug_len :: nat where
  "slug_len = 12"

definition entity_prefixes :: "string list" where
  "entity_prefixes = [''PRJ'', ''TGT'', ''RUN'', ''MOD'', ''FND'', ''EVD'', ''FLW'', ''TC'', ''RT'',
     ''EL'', ''FRM'', ''API'', ''SCR'', ''PD'', ''RPR'', ''DG'', ''RM'', ''PLN'']"

definition slug_cutoff :: nat where
  "slug_cutoff = 256 - 256 mod length id_alphabet"

text \<open>The inner \<open>for\<close> loop over one batch, with its \<open>continue\<close> and \<open>break\<close>.\<close>

fun take_bytes :: "string \<Rightarrow> byte list \<Rightarrow> string" where
  "take_bytes out [] = out"
| "take_bytes out (b # bs) =
     (if slug_cutoff \<le> unat b then take_bytes out bs
      else let out' = out @ [id_alphabet ! (unat b mod length id_alphabet)]
           in if length out' = slug_len then out' else take_bytes out' bs)"

fun slug_loop :: "nat \<Rightarrow> (nat \<Rightarrow> byte list) \<Rightarrow> nat \<Rightarrow> string \<Rightarrow> string option" where
  "slug_loop 0 rng k out = None"
| "slug_loop (Suc fuel) rng k out =
     (if length out < slug_len then slug_loop fuel rng (Suc k) (take_bytes out (rng k))
      else Some out)"

definition random_slug :: "nat \<Rightarrow> (nat \<Rightarrow> byte list) \<Rightarrow> string option" where
  "random_slug fuel rng = slug_loop fuel rng 0 []"

definition id_new :: "nat \<Rightarrow> (nat \<Rightarrow> byte list) \<Rightarrow> string \<Rightarrow> id_error + string" where
  "id_new fuel rng prefix =
     (if prefix \<notin> set entity_prefixes then Inl (UnknownPrefix prefix)
      else case random_slug fuel rng of None \<Rightarrow> Inl OutOfFuel
           | Some slug \<Rightarrow> Inr (prefix @ ''-'' @ slug))"

definition is_upper_char :: "char \<Rightarrow> bool" where
  "is_upper_char c \<longleftrightarrow> (let n = (of_char c :: nat) in 65 \<le> n \<and> n \<le> 90)"

text \<open>
  \<open>^[A-Z]{2,4}-[A-Z0-9]{12}$\<close> under \<open>re.match\<close>: \<open>$\<close> also matches just before a final
  newline, which no character class of the pattern contains.
\<close>

definition id_body_match :: "string \<Rightarrow> bool" where
  "id_body_match s \<longleftrightarrow>
     (let p = takeWhile is_upper_char s; r = dropWhile is_upper_char s
      in 2 \<le> length p \<and> length p \<le> 4 \<and>
         (case r of [] \<Rightarrow> False
          | c # slug \<Rightarrow> c = CHR ''-'' \<and> length slug = 12 \<and>
              list_all (\<lambda>d. is_upper_char d \<or> is_digit_char d) slug))"

definition id_regex_match :: "string \<Rightarrow> bool" where
  "id_regex_match s \<longleftrightarrow>
     (if s \<noteq> [] \<and> last s = newline then id_body_match (butlast s) else id_body_match s)"

definition validate_id :: "string \<Rightarrow> string option \<Rightarrow> id_error + string" where
  "validate_id v prefix =
     (if \<not> id_regex_match v then Inl (MalformedId v)
      else case prefix of
        None \<Rightarrow> Inr v
      | Some p \<Rightarrow> if \<not> py_startswith v (p @ ''-'') then Inl (WrongPrefix v p) else Inr v)"

section \<open>Lemmas\<close>

lemma alphabet_length [simp]: "length id_alphabet = 30"
  by (simp add: id_alphabet_def)

lemma alphabet_ok: "list_all (\<lambda>d. is_upper_char d \<or> is_digit_char d) id_alphabet"
  by (simp add: id_alphabet_def is_upper_char_def is_digit_char_def)

lemma alphabet_nth: "i < 30 \<Longrightarrow> is_upper_char (id_alphabet ! i) \<or> is_digit_char (id_alphabet ! i)"
  using alphabet_ok by (simp add: list_all_length)

lemma take_bytes_inv:
  "length out < slug_len \<Longrightarrow> set out \<subseteq> set id_alphabet \<Longrightarrow>
     length (take_bytes out bs) \<le> slug_len \<and> set (take_bytes out bs) \<subseteq> set id_alphabet"
  by (induction out bs rule: take_bytes.induct) (auto simp: Let_def)

definition good_bytes :: "byte list \<Rightarrow> nat" where
  "good_bytes bs = length (filter (\<lambda>b. unat b < slug_cutoff) bs)"

lemma take_bytes_length:
  "length out < slug_len \<Longrightarrow> length (take_bytes out bs) = min slug_len (length out + good_bytes bs)"
  by (induction out bs rule: take_bytes.induct) (auto simp: Let_def good_bytes_def)

lemma slug_loop_result:
  "slug_loop fuel rng k out = Some s \<Longrightarrow> length out \<le> slug_len \<Longrightarrow> set out \<subseteq> set id_alphabet \<Longrightarrow>
     length s = slug_len \<and> set s \<subseteq> set id_alphabet"
proof (induction fuel arbitrary: k out)
  case (Suc fuel)
  show ?case
  proof (cases "length out < slug_len")
    case True
    then show ?thesis using Suc take_bytes_inv [OF True Suc.prems(3)] by auto
  qed (use Suc.prems in auto)
qed simp

lemma slug_loop_enough:
  "slug_len \<le> length out + (\<Sum>i<n. good_bytes (rng (k + i))) \<Longrightarrow> length out \<le> slug_len \<Longrightarrow>
     n < fuel \<Longrightarrow> \<exists>s. slug_loop fuel rng k out = Some s"
proof (induction n arbitrary: k out fuel)
  case 0
  then show ?case by (cases fuel) auto
next
  case (Suc n)
  obtain m where m: "fuel = Suc m" "n < m" using Suc.prems(3) by (cases fuel) auto
  show ?case
  proof (cases "length out < slug_len")
    case True
    let ?o = "take_bytes out (rng k)"
    have sum: "(\<Sum>i<Suc n. good_bytes (rng (k + i))) = good_bytes (rng k) + (\<Sum>i<n. good_bytes (rng (Suc k + i)))"
      by (simp add: sum.lessThan_Suc_shift del: sum.lessThan_Suc)
    have "slug_len \<le> length ?o + (\<Sum>i<n. good_bytes (rng (Suc k + i)))"
      using Suc.prems(1) sum take_bytes_length [OF True, of "rng k"] by (simp del: sum.lessThan_Suc)
    moreover have "length ?o \<le> slug_len" using take_bytes_length [OF True, of "rng k"] by simp
    ultimately have "\<exists>s. slug_loop m rng (Suc k) ?o = Some s" using m by (intro Suc.IH)
    then show ?thesis using True m by simp
  qed (use m in simp)
qed

lemma prefixes_upper: "p \<in> set entity_prefixes \<Longrightarrow> 2 \<le> length p \<and> length p \<le> 4 \<and> list_all is_upper_char p"
  by (auto simp: entity_prefixes_def is_upper_char_def)

lemma id_body_match_new:
  assumes "p \<in> set entity_prefixes" and "length s = 12" and "set s \<subseteq> set id_alphabet"
  shows "id_body_match (p @ ''-'' @ s)"
proof -
  have up: "\<And>x. x \<in> set p \<Longrightarrow> is_upper_char x" using prefixes_upper [OF assms(1)] by (simp add: list_all_iff)
  have nd: "\<not> is_upper_char (CHR ''-'')" by (simp add: is_upper_char_def)
  have "takeWhile is_upper_char (p @ ''-'' @ s) = p" and "dropWhile is_upper_char (p @ ''-'' @ s) = ''-'' @ s"
    using up nd by (simp_all add: takeWhile_append dropWhile_append)
  moreover have "list_all (\<lambda>d. is_upper_char d \<or> is_digit_char d) s"
    using assms(3) alphabet_ok by (auto simp: list_all_iff)
  ultimately show ?thesis using prefixes_upper [OF assms(1)] assms(2) by (simp add: id_body_match_def)
qed

section \<open>Properties\<close>

text \<open>
  A generated identifier is always accepted: whatever bytes the random source returns,
  if the generator returns an identifier for a prefix, that prefix is registered, the slug is 12
  characters of the alphabet, and the validator accepts the identifier with that prefix.
\<close>

theorem id_new_valid:
  assumes "id_new fuel rng p = Inr i"
  shows "p \<in> set entity_prefixes \<and> length i = length p + 13 \<and>
    set (drop (length p + 1) i) \<subseteq> set id_alphabet \<and> validate_id i (Some p) = Inr i"
proof -
  obtain s where p: "p \<in> set entity_prefixes" and s: "slug_loop fuel rng 0 [] = Some s"
    and i: "i = p @ ''-'' @ s"
    using assms by (auto simp: id_new_def random_slug_def split: if_splits option.splits)
  have l: "length s = 12" and a: "set s \<subseteq> set id_alphabet"
    using slug_loop_result [OF s] by (auto simp: slug_len_def)
  have nl: "newline \<notin> set id_alphabet" by (simp add: newline_def id_alphabet_def)
  have "last i \<noteq> newline" using i l a nl by (metis append_is_Nil_conv last_appendR last_in_set
      length_0_conv subsetD zero_neq_numeral)
  then have "id_regex_match i" using id_body_match_new [OF p l a] i by (simp add: id_regex_match_def)
  then show ?thesis using p l a i by (simp add: validate_id_def py_startswith_def)
qed

theorem id_new_valid_witness:
  "validate_id ''FND-ABCDEFGHJKMN'' (Some ''FND'') = Inr ''FND-ABCDEFGHJKMN''"
proof -
  have "id_new 2 (\<lambda>_. [0, 1, 2, 3, 255, 4, 5, 6, 7, 8, 9, 10, 11]) ''FND'' = Inr ''FND-ABCDEFGHJKMN''"
    by code_simp
  from id_new_valid [OF this] show ?thesis by simp
qed

end
