(* ===== verification/Domain.thy ===== *)
theory Domain
  imports PyFloat Ids
begin

text \<open>
  The data model the components exchange: \<open>engine/domain/\<close> (finding, evidence, module
  result, run status, release decision) and the policy block of \<open>engine/config/schema.py\<close>.
  Literal types are datatypes with their wire names, entities are records; field bounds that
  the models validate are predicates (\<open>valid_finding\<close>, \<open>valid_policy\<close>).
  Times are integers (microseconds since the epoch, UTC).
\<close>

section \<open>The base model\<close>

text \<open>What \<open>str_strip_whitespace\<close> of \<open>SentinelModel\<close> (\<open>engine/domain/base.py\<close>) does to every string field, of the subclasses too.\<close>

definition is_model_space :: "char \<Rightarrow> bool" where
  "is_model_space c \<longleftrightarrow> (let n = (of_char c :: nat) in (9 \<le> n \<and> n \<le> 13) \<or> n = 32)"

definition model_strip :: "string \<Rightarrow> string" where
  "model_strip s = rev (dropWhile is_model_space (rev (dropWhile is_model_space s)))"

section \<open>Literals\<close>

datatype severity = Critical | High | Medium | Low | Info

fun severity_name :: "severity \<Rightarrow> string" where
  "severity_name Critical = ''critical''"
| "severity_name High = ''high''"
| "severity_name Medium = ''medium''"
| "severity_name Low = ''low''"
| "severity_name Info = ''info''"

datatype evidence_type = Screenshot | Video | Trace | Har | Console_Log | Network_Log | Dom_Snapshot
  | Stack_Trace | Api_Sample | Source_Ref

datatype module_status = M_passed | M_failed | M_skipped | M_errored | M_incomplete

fun module_status_name :: "module_status \<Rightarrow> string" where
  "module_status_name M_passed = ''passed''"
| "module_status_name M_failed = ''failed''"
| "module_status_name M_skipped = ''skipped''"
| "module_status_name M_errored = ''errored''"
| "module_status_name M_incomplete = ''incomplete''"

datatype run_status = R_passed | R_failed | R_incomplete | R_unsafe_blocked | R_dry_run

datatype release_decision = D_pass | D_pass_with_warnings | D_blocked | D_inconclusive
  | D_unsafe_target_rejected

datatype mode = Safe | Authorized_Destructive

fun mode_name :: "mode \<Rightarrow> string" where
  "mode_name Safe = ''safe''"
| "mode_name Authorized_Destructive = ''authorized_destructive''"

section \<open>Entities\<close>

record finding_location =
  loc_route :: "string option"
  loc_selector :: "string option"
  loc_file :: "string option"
  loc_line :: "nat option"

record evidence =
  ev_id :: string
  ev_type :: evidence_type
  ev_path :: string

record finding =
  f_id :: string
  f_run_id :: string
  f_module :: string
  f_category :: string
  f_severity :: severity
  f_confidence :: flt
  f_title :: string
  f_description :: string
  f_location :: finding_location
  f_evidence :: "evidence list"
  f_reproduction_steps :: "string list"
  f_affected_target :: "string option"
  f_recommendation :: "string option"
  f_created_at :: int

definition bounded_str :: "nat \<Rightarrow> nat \<Rightarrow> string \<Rightarrow> bool" where
  "bounded_str lo hi s \<longleftrightarrow> lo \<le> py_len s \<and> py_len s \<le> hi"

definition is_valid_id :: "string \<Rightarrow> string \<Rightarrow> bool" where
  "is_valid_id p i \<longleftrightarrow> validate_id i (Some p) = Inr i"

text \<open>The field constraints and validators of \<open>Finding\<close> (those of the modelled fields).\<close>

definition valid_finding :: "finding \<Rightarrow> bool" where
  "valid_finding f \<longleftrightarrow>
     is_valid_id ''FND'' (f_id f) \<and> is_valid_id ''RUN'' (f_run_id f) \<and>
     bounded_str 1 64 (f_module f) \<and> bounded_str 1 128 (f_category f) \<and>
     0 \<le> f_confidence f \<and> f_confidence f \<le> 1 \<and>
     bounded_str 1 300 (f_title f) \<and> bounded_str 1 8000 (f_description f) \<and>
     list_all (\<lambda>e. is_valid_id ''EVD'' (ev_id e)) (f_evidence f) \<and>
     (case f_affected_target f of None \<Rightarrow> True | Some t \<Rightarrow> py_len t \<le> 2048) \<and>
     (case f_recommendation f of None \<Rightarrow> True | Some t \<Rightarrow> py_len t \<le> 4000) \<and>
     (case loc_file (f_location f) of None \<Rightarrow> True | Some t \<Rightarrow> py_len t \<le> 2048) \<and>
     (case loc_route (f_location f) of None \<Rightarrow> True | Some t \<Rightarrow> py_len t \<le> 2048) \<and>
     (case loc_selector (f_location f) of None \<Rightarrow> True | Some t \<Rightarrow> py_len t \<le> 2048)"

record module_result =
  mr_id :: string
  mr_name :: string
  mr_status :: module_status
  mr_findings :: "finding list"
  mr_metrics :: "(string, flt) dict"
  mr_duration_ms :: nat
  mr_errors :: "string list"

record policy =
  min_quality_score :: int
  block_on_critical :: bool
  block_on_high_security :: bool
  max_flake_rate :: flt
  max_failed_p1_flows :: nat
  severity_penalty_high :: flt
  severity_penalty_medium :: flt
  severity_penalty_low :: flt

definition valid_policy :: "policy \<Rightarrow> bool" where
  "valid_policy p \<longleftrightarrow>
     0 \<le> min_quality_score p \<and> min_quality_score p \<le> 100 \<and>
     0 \<le> max_flake_rate p \<and> max_flake_rate p \<le> 1 \<and>
     10 \<le> severity_penalty_high p \<and> severity_penalty_high p \<le> 25 \<and>
     3 \<le> severity_penalty_medium p \<and> severity_penalty_medium p \<le> 10 \<and>
     1 \<le> severity_penalty_low p \<and> severity_penalty_low p \<le> 3"

definition default_policy :: policy where
  "default_policy = \<lparr>min_quality_score = 85, block_on_critical = True, block_on_high_security = True,
     max_flake_rate = fl (3 / 100), max_failed_p1_flows = 0, severity_penalty_high = 35 / 2,
     severity_penalty_medium = 13 / 2, severity_penalty_low = 2\<rparr>"

record modules_config =
  mc_functional :: bool
  mc_api :: bool
  mc_accessibility :: bool
  mc_performance :: bool
  mc_visual :: bool
  mc_security :: bool
  mc_chaos :: bool
  mc_llm_audit :: bool

text \<open>
  The modules a configuration enables, in canonical order: the same chain of tests in
  \<open>RunLifecycle._modules_to_run\<close> and in \<open>engine/ci/modes.py\<close>.
\<close>

definition modules_from_config :: "modules_config \<Rightarrow> string list" where
  "modules_from_config c =
     (if mc_functional c then [''functional''] else []) @
     (if mc_api c then [''api''] else []) @
     (if mc_accessibility c then [''accessibility''] else []) @
     (if mc_performance c then [''performance''] else []) @
     (if mc_visual c then [''visual''] else []) @
     (if mc_security c then [''security''] else []) @
     (if mc_chaos c then [''chaos''] else []) @
     (if mc_llm_audit c then [''llm_audit''] else [])"

lemma distinct_modules_from_config: "distinct (modules_from_config c)"
  by (simp add: modules_from_config_def)

definition sample_finding :: "string \<Rightarrow> string \<Rightarrow> severity \<Rightarrow> string \<Rightarrow> finding" where
  "sample_finding i m sev t = \<lparr>f_id = i, f_run_id = ''RUN-AAAAAAAAAAAA'', f_module = m,
     f_category = ''c'', f_severity = sev, f_confidence = 1, f_title = t, f_description = ''d'',
     f_location = \<lparr>loc_route = None, loc_selector = None, loc_file = None, loc_line = None\<rparr>,
     f_evidence = [], f_reproduction_steps = [], f_affected_target = None, f_recommendation = None,
     f_created_at = 0\<rparr>"

section \<open>The order of severities\<close>

text \<open>\<open>_SEVERITY_ORDER\<close> of \<open>engine/runs/compare.py\<close>.\<close>

fun severity_rank :: "severity \<Rightarrow> nat" where
  "severity_rank Info = 0"
| "severity_rank Low = 1"
| "severity_rank Medium = 2"
| "severity_rank High = 3"
| "severity_rank Critical = 4"

lemma severity_rank_inj: "severity_rank a = severity_rank b \<Longrightarrow> a = b"
  by (cases a; cases b) simp_all

instantiation severity :: linorder
begin

definition less_eq_severity :: "severity \<Rightarrow> severity \<Rightarrow> bool" where
  "less_eq_severity a b \<longleftrightarrow> severity_rank a \<le> severity_rank b"

definition less_severity :: "severity \<Rightarrow> severity \<Rightarrow> bool" where
  "less_severity a b \<longleftrightarrow> severity_rank a < severity_rank b"

instance
  by standard (auto simp: less_eq_severity_def less_severity_def intro: severity_rank_inj)

end

lemma severity_name_inj: "severity_name a = severity_name b \<Longrightarrow> a = b"
  by (cases a; cases b) simp_all

end
