(* ===== verification/Scoring.thy ===== *)
theory Scoring
  imports Domain
begin

text \<open>
  The quality score, \<open>engine/scoring/model.py\<close>: the penalty table, the component scores, the
  flake axis and the weighted, clamped and rounded total, all in binary64 arithmetic in the
  order the code evaluates it. \<open>compute_score\<close> returns the score record or the
  \<open>ValueError\<close> of \<open>_validate_weights\<close>; the identifier source is an argument.
\<close>

datatype score_error = Weight_Missing string | Weight_Negative string flt | Score_Invalid id_error

definition component_axes :: "string list" where
  "component_axes = [''functional'', ''security'', ''performance'', ''accessibility'', ''api'',
     ''visual'', ''llm_audit'', ''flake_risk'']"

definition default_weights :: "(string, flt) dict" where
  "default_weights = [(''functional'', fl (30 / 100)), (''security'', fl (20 / 100)),
     (''performance'', fl (15 / 100)), (''accessibility'', fl (10 / 100)), (''api'', fl (10 / 100)),
     (''visual'', fl (5 / 100)), (''llm_audit'', fl (5 / 100)), (''flake_risk'', fl (5 / 100))]"

definition critical_penalty :: flt where
  "critical_penalty = 30"

definition severity_buckets :: "severity list" where
  "severity_buckets = [Critical, High, Medium, Low, Info]"

section \<open>Priority tags\<close>

definition is_word_char :: "char \<Rightarrow> bool" where
  "is_word_char c \<longleftrightarrow>
     (let n = (of_char c :: nat) in
        (48 \<le> n \<and> n \<le> 57) \<or> (65 \<le> n \<and> n \<le> 90) \<or> n = 95 \<or> (97 \<le> n \<and> n \<le> 122))"

text \<open>\<open>@(p[0-3])\b\<close>, ignoring case, at the head of the string; and its leftmost match.\<close>

definition match_tag :: "string \<Rightarrow> string option" where
  "match_tag s = (case s of
     a # p # d # r \<Rightarrow>
       if a = CHR ''@'' \<and> lower_char p = CHR ''p'' \<and> d \<in> set ''0123'' \<and>
          (case r of [] \<Rightarrow> True | c # _ \<Rightarrow> \<not> is_word_char c)
       then Some [lower_char p, d] else None
   | _ \<Rightarrow> None)"

fun search_tag :: "string \<Rightarrow> string option" where
  "search_tag [] = None"
| "search_tag (c # cs) = (case match_tag (c # cs) of Some t \<Rightarrow> Some t | None \<Rightarrow> search_tag cs)"

definition finding_priority :: "finding \<Rightarrow> string option" where
  "finding_priority f = (case search_tag (f_title f) of
     Some t \<Rightarrow> Some t | None \<Rightarrow> search_tag (f_description f))"

section \<open>The score\<close>

record penalty_table =
  pt_critical :: flt
  pt_high :: flt
  pt_medium :: flt
  pt_low :: flt
  pt_info :: flt

fun for_severity :: "penalty_table \<Rightarrow> severity \<Rightarrow> flt" where
  "for_severity t Critical = pt_critical t"
| "for_severity t High = pt_high t"
| "for_severity t Medium = pt_medium t"
| "for_severity t Low = pt_low t"
| "for_severity t Info = pt_info t"

definition derive_penalty_table :: "policy \<Rightarrow> penalty_table" where
  "derive_penalty_table p = \<lparr>pt_critical = critical_penalty, pt_high = severity_penalty_high p,
     pt_medium = severity_penalty_medium p, pt_low = severity_penalty_low p, pt_info = 0\<rparr>"

fun validate_weights_from :: "string list \<Rightarrow> (string, flt) dict \<Rightarrow> score_error + unit" where
  "validate_weights_from [] w = Inr ()"
| "validate_weights_from (axis # rest) w =
     (case map_of w axis of
        None \<Rightarrow> Inl (Weight_Missing axis)
      | Some x \<Rightarrow> if x < 0 then Inl (Weight_Negative axis x) else validate_weights_from rest w)"

definition validate_weights :: "(string, flt) dict \<Rightarrow> score_error + unit" where
  "validate_weights w = validate_weights_from component_axes w"

definition axis_penalty :: "penalty_table \<Rightarrow> finding list \<Rightarrow> string \<Rightarrow> flt" where
  "axis_penalty t fs axis =
     fsum (map (\<lambda>f. for_severity t (f_severity f)) (filter (\<lambda>f. f_module f = axis) fs))"

definition component_scores :: "finding list \<Rightarrow> penalty_table \<Rightarrow> (string, flt) dict" where
  "component_scores fs t =
     map (\<lambda>axis. (axis, max 0 (fsub 100 (axis_penalty t fs axis))))
       (filter (\<lambda>axis. axis \<noteq> ''flake_risk'') component_axes)"

definition flake_rates :: "module_result list \<Rightarrow> flt list" where
  "flake_rates mrs = concat (map (\<lambda>mr. case map_of (mr_metrics mr) ''flake_rate'' of
     None \<Rightarrow> [] | Some r \<Rightarrow> [max 0 r]) mrs)"

definition flake_risk_score :: "module_result list \<Rightarrow> policy \<Rightarrow> flt" where
  "flake_risk_score mrs p =
     (let rates = flake_rates mrs in
      if rates = [] then 100
      else let avg = fdiv (fsum rates) (of_nat (length rates)); max_flake = max_flake_rate p in
        if max_flake \<le> 0 then (if 0 < avg then 0 else 100)
        else let ratio = min 1 (fdiv avg max_flake) in max 0 (fmul 100 (fsub 1 ratio)))"

fun penalties_add :: "penalty_table \<Rightarrow> (severity, flt) dict \<Rightarrow> finding list \<Rightarrow> (severity, flt) dict" where
  "penalties_add t out [] = out"
| "penalties_add t out (f # fs) =
     penalties_add t (AList.update (f_severity f)
       (round_to 4 (fadd (dict_get out (f_severity f) 0) (for_severity t (f_severity f)))) out) fs"

definition severity_penalties_breakdown :: "finding list \<Rightarrow> penalty_table \<Rightarrow> (severity, flt) dict" where
  "severity_penalties_breakdown fs t = penalties_add t (map (\<lambda>b. (b, 0)) severity_buckets) fs"

record quality_score =
  qs_id :: string
  qs_run_id :: string
  qs_total :: flt
  qs_components :: "(string, flt) dict"
  qs_weights :: "(string, flt) dict"
  qs_severity_penalties :: "(severity, flt) dict"

text \<open>\<open>sum(components[axis] * weights_map.get(axis, 0.0) for axis in COMPONENT_AXES)\<close>.\<close>

definition total_raw :: "(string, flt) dict \<Rightarrow> (string, flt) dict \<Rightarrow> flt" where
  "total_raw comps w = fsum (map (\<lambda>axis. fmul (dict_get comps axis 0) (dict_get w axis 0)) component_axes)"

definition all_components :: "finding list \<Rightarrow> module_result list \<Rightarrow> policy \<Rightarrow> (string, flt) dict" where
  "all_components fs mrs p =
     AList.update ''flake_risk'' (flake_risk_score mrs p) (component_scores fs (derive_penalty_table p))"

definition compute_score ::
  "finding list \<Rightarrow> module_result list \<Rightarrow> policy \<Rightarrow> string \<Rightarrow> (string \<Rightarrow> string)
     \<Rightarrow> (string, flt) dict option \<Rightarrow> score_error + quality_score" where
  "compute_score fs mrs p run_id new_id weights =
     (let w = (case weights of None \<Rightarrow> default_weights | Some w \<Rightarrow> w) in
      case validate_weights w of Inl e \<Rightarrow> Inl e
      | Inr _ \<Rightarrow>
        (let comps = all_components fs mrs p;
             total = max 0 (min 100 (total_raw comps w)) in
         case validate_id (new_id ''SCR'') (Some ''SCR'') of Inl e \<Rightarrow> Inl (Score_Invalid e)
         | Inr i \<Rightarrow> (case validate_id run_id (Some ''RUN'') of Inl e \<Rightarrow> Inl (Score_Invalid e)
           | Inr r \<Rightarrow> Inr \<lparr>qs_id = i, qs_run_id = r, qs_total = round_to 2 total,
               qs_components = map (\<lambda>axis. (axis, round_to 4 (dict_get comps axis 0))) component_axes,
               qs_weights = map (\<lambda>axis. (axis, round_to 4 (dict_get w axis 0))) component_axes,
               qs_severity_penalties = severity_penalties_breakdown fs (derive_penalty_table p)\<rparr>)))"

section \<open>Arithmetic\<close>

lemma round_to_mono: "x \<le> y \<Longrightarrow> round_to n x \<le> round_to n y"
  by (auto simp: round_to_def intro!: fl_mono divide_right_mono rhe_mono mult_right_mono)

lemma round_to_0 [simp]: "round_to n 0 = 0"
  using rhe_of_int [of 0] by (simp add: round_to_def)

lemma round_to_100 [simp]: "round_to n 100 = 100"
proof -
  have "(100 :: rat) * 10 ^ n = of_int (100 * 10 ^ n)" by simp
  then have "rhe (100 * 10 ^ n) = 100 * 10 ^ n" by (metis rhe_of_int)
  then show ?thesis by (simp add: round_to_def)
qed

lemma round_to_within: "0 \<le> x \<Longrightarrow> x \<le> 100 \<Longrightarrow> 0 \<le> round_to n x \<and> round_to n x \<le> 100"
  using round_to_mono [of 0 x n] round_to_mono [of x 100 n] by simp

lemma fsum_foldl: "fsum xs = foldl (\<lambda>s x. fl (s + x)) 0 xs"
  by (simp add: fsum_def fadd_def [abs_def])

lemma fsum_nonneg: "list_all (\<lambda>x. 0 \<le> x) xs \<Longrightarrow> 0 \<le> fsum xs"
  by (simp add: fsum_foldl fl64.sum_nonneg)

lemma fsum_mono: "list_all2 (\<le>) xs ys \<Longrightarrow> fsum xs \<le> fsum ys"
  by (simp add: fsum_foldl fl64.sum_mono)

lemma foldl_fl_fixed: "fl a = a \<Longrightarrow> fl (foldl (\<lambda>s x. fl (s + x)) a xs) = foldl (\<lambda>s x. fl (s + x)) a xs"
  by (induction xs arbitrary: a) (simp_all add: fl_idem)

lemma fsum_insert: "0 \<le> p \<Longrightarrow> fsum (xs @ ys) \<le> fsum (xs @ p # ys)"
proof -
  assume p: "0 \<le> p"
  let ?a = "foldl (\<lambda>s x. fl (s + x)) 0 xs"
  have a: "fl ?a = ?a" by (rule foldl_fl_fixed) simp
  have "?a = fl ?a" by (simp only: a)
  also have "\<dots> \<le> fl (?a + p)" using p by (intro fl_mono) simp
  finally have "foldl (\<lambda>s x. fl (s + x)) ?a ys \<le> foldl (\<lambda>s x. fl (s + x)) (fl (?a + p)) ys"
    by (rule fl64.sum_mono [rotated]) (simp add: list_all2_same)
  then show ?thesis by (simp add: fsum_foldl)
qed

lemma fl_le_100: "x \<le> 100 \<Longrightarrow> fl x \<le> 100"
  using fl_mono [of x 100] by simp

lemma penalty_nonneg: "valid_policy p \<Longrightarrow> 0 \<le> for_severity (derive_penalty_table p) s"
  by (cases s) (simp_all add: derive_penalty_table_def critical_penalty_def valid_policy_def)

lemma axis_penalty_nonneg: "valid_policy p \<Longrightarrow> 0 \<le> axis_penalty (derive_penalty_table p) fs axis"
  unfolding axis_penalty_def by (rule fsum_nonneg) (simp add: list_all_iff penalty_nonneg)

section \<open>Components\<close>

lemma flake_risk_within: "0 \<le> flake_risk_score mrs p \<and> flake_risk_score mrs p \<le> 100"
proof -
  have *: "max 0 (fmul 100 (fsub 1 (min 1 x))) \<le> 100" if "0 \<le> x" for x
  proof -
    have "fsub 1 (min 1 x) \<le> 1" using fl_mono [of "1 - min 1 x" 1] that by (simp add: fsub_def)
    then show ?thesis by (simp add: fmul_def fl_le_100)
  qed
  have "list_all (\<lambda>x. 0 \<le> x) (flake_rates mrs)"
    by (auto simp: list_all_iff flake_rates_def split: option.splits)
  then have avg: "0 \<le> fdiv (fsum (flake_rates mrs)) (of_nat (length (flake_rates mrs)))"
    by (simp add: fdiv_def fl_nonneg fsum_nonneg)
  have "0 \<le> fdiv (fdiv (fsum (flake_rates mrs)) (of_nat (length (flake_rates mrs)))) (max_flake_rate p)"
    if "0 < max_flake_rate p"
    using that avg by (subst fdiv_def) (simp add: fl_nonneg)
  from this [THEN *] show ?thesis by (auto simp: flake_risk_score_def Let_def not_le)
qed

lemma component_within:
  assumes "valid_policy p"
  shows "0 \<le> dict_get (all_components fs mrs p) axis 0 \<and> dict_get (all_components fs mrs p) axis 0 \<le> 100"
proof -
  have "map_of (component_scores fs t) axis = Some v \<Longrightarrow> \<exists>a. v = max 0 (fsub 100 (axis_penalty t fs a))" for t v
    by (auto simp: component_scores_def map_of_pairs split: if_splits)
  moreover have "max 0 (fsub 100 (axis_penalty (derive_penalty_table p) fs a)) \<le> 100" for a
    using axis_penalty_nonneg [OF assms] by (simp add: fsub_def fl_le_100)
  ultimately show ?thesis using flake_risk_within [of mrs p]
    by (fastforce simp: all_components_def dict_get_def split: option.splits)
qed

lemma axis_penalty_insert:
  "valid_policy p \<Longrightarrow> axis_penalty (derive_penalty_table p) (xs @ ys) a
     \<le> axis_penalty (derive_penalty_table p) (xs @ f # ys) a"
  by (simp add: axis_penalty_def fsum_insert penalty_nonneg)

lemma components_insert:
  assumes "valid_policy p"
  shows "dict_get (all_components (xs @ f # ys) mrs p) a 0 \<le> dict_get (all_components (xs @ ys) mrs p) a 0"
proof -
  have "fsub 100 (axis_penalty (derive_penalty_table p) (xs @ f # ys) a)
      \<le> fsub 100 (axis_penalty (derive_penalty_table p) (xs @ ys) a)"
    using axis_penalty_insert [OF assms] by (simp add: fsub_def fl_mono)
  then show ?thesis
    by (auto simp: all_components_def dict_get_def component_scores_def map_of_pairs max_def)
qed

lemma validate_weights_iff:
  "validate_weights w = Inr () \<longleftrightarrow> (\<forall>a\<in>set component_axes. \<exists>x. map_of w a = Some x \<and> 0 \<le> x)"
proof -
  have "validate_weights_from axes w = Inr () \<longleftrightarrow> (\<forall>a\<in>set axes. \<exists>x. map_of w a = Some x \<and> 0 \<le> x)" for axes
    by (induction axes) (auto split: option.splits)
  then show ?thesis by (simp add: validate_weights_def)
qed

lemma validate_weights_nonneg: "validate_weights w = Inr u \<Longrightarrow> a \<in> set component_axes \<Longrightarrow> 0 \<le> dict_get w a 0"
  using validate_weights_iff [of w] by (fastforce simp: dict_get_def)

lemma total_raw_mono:
  assumes "validate_weights w = Inr u" and "\<And>a. dict_get c a 0 \<le> dict_get d a 0"
  shows "total_raw c w \<le> total_raw d w"
  unfolding total_raw_def
proof (rule fsum_mono)
  have "fmul (dict_get c a 0) (dict_get w a 0) \<le> fmul (dict_get d a 0) (dict_get w a 0)"
    if "a \<in> set component_axes" for a
    unfolding fmul_def by (intro fl_mono mult_right_mono assms(2) validate_weights_nonneg [OF assms(1) that])
  then show "list_all2 (\<le>) (map (\<lambda>a. fmul (dict_get c a 0) (dict_get w a 0)) component_axes)
      (map (\<lambda>a. fmul (dict_get d a 0) (dict_get w a 0)) component_axes)"
    by (simp add: list_all2_conv_all_nth)
qed

lemma compute_score_fields:
  assumes "compute_score fs mrs p r g ws = Inr q"
  shows "qs_total q = round_to 2 (max 0 (min 100 (total_raw (all_components fs mrs p)
           (case ws of None \<Rightarrow> default_weights | Some w \<Rightarrow> w))))"
    and "qs_components q = map (\<lambda>a. (a, round_to 4 (dict_get (all_components fs mrs p) a 0))) component_axes"
    and "validate_weights (case ws of None \<Rightarrow> default_weights | Some w \<Rightarrow> w) = Inr ()"
    and "qs_severity_penalties q = severity_penalties_breakdown fs (derive_penalty_table p)"
  using assms by (auto simp: compute_score_def Let_def split: sum.splits)

lemma total_antitone:
  assumes "compute_score (xs @ ys) mrs p run_id g ws = Inr q"
    and "compute_score (xs @ f # ys) mrs p run_id' g' ws = Inr q'"
    and "valid_policy p"
  shows "qs_total q' \<le> qs_total q"
proof -
  have "total_raw (all_components (xs @ f # ys) mrs p) (case ws of None \<Rightarrow> default_weights | Some w \<Rightarrow> w)
      \<le> total_raw (all_components (xs @ ys) mrs p) (case ws of None \<Rightarrow> default_weights | Some w \<Rightarrow> w)"
    using compute_score_fields(3) [OF assms(1)] components_insert [OF assms(3)] by (rule total_raw_mono)
  then show ?thesis
    unfolding compute_score_fields(1) [OF assms(1)] compute_score_fields(1) [OF assms(2)]
    by (intro round_to_mono) (simp add: max_def min_def)
qed

section \<open>Exact penalties\<close>

text \<open>The default penalties are multiples of 1/2, on which no operation rounds.\<close>

lemma half_exact: "\<bar>k\<bar> < 2 ^ 53 \<Longrightarrow> fl (of_int k / 2) = of_int k / 2"
  using fl_repr [of k "-1"] by (simp add: pow2_def)

lemma round_half_exact: "\<bar>k\<bar> < 2 ^ 53 \<Longrightarrow> round_to 4 (of_int k / 2) = of_int k / 2"
proof -
  assume k: "\<bar>k\<bar> < 2 ^ 53"
  have "of_int k / 2 * 10 ^ 4 = (of_int (k * 5000) :: rat)" by simp
  then have "rhe (of_int k / 2 * 10 ^ 4) = k * 5000" by (metis rhe_of_int)
  then show ?thesis using half_exact [OF k] by (simp add: round_to_def)
qed

definition twice_penalty :: "severity \<Rightarrow> int" where
  "twice_penalty s = (case s of Critical \<Rightarrow> 60 | High \<Rightarrow> 35 | Medium \<Rightarrow> 13 | Low \<Rightarrow> 4 | Info \<Rightarrow> 0)"

lemma twice_penalty: "for_severity (derive_penalty_table default_policy) s = of_int (twice_penalty s) / 2"
  by (cases s) (simp_all add: derive_penalty_table_def default_policy_def twice_penalty_def critical_penalty_def)

definition severity_count :: "severity \<Rightarrow> finding list \<Rightarrow> nat" where
  "severity_count s fs = length (filter (\<lambda>f. f_severity f = s) fs)"

lemma penalties_add_exact:
  assumes "\<And>s. map_of out s = Some (of_int (int (c s) * twice_penalty s) / 2)"
    and "\<And>s. c s + length fs < 2 ^ 40"
  shows "map_of (penalties_add (derive_penalty_table default_policy) out fs) s
    = Some (of_int (int (c s + severity_count s fs) * twice_penalty s) / 2)"
  using assms
proof (induction fs arbitrary: out c)
  case Nil
  then show ?case by (simp add: severity_count_def)
next
  case (Cons f fs)
  let ?v = "f_severity f"
  let ?k = "int (Suc (c ?v)) * twice_penalty ?v"
  have "int (Suc (c ?v)) < 2 ^ 40" using Cons.prems(2) [of ?v] by simp
  then have k: "\<bar>?k\<bar> < 2 ^ 53" by (cases ?v) (simp_all add: twice_penalty_def)
  have "fadd (dict_get out ?v 0) (for_severity (derive_penalty_table default_policy) ?v) = of_int ?k / 2"
    using half_exact [OF k] Cons.prems(1) [of ?v]
    by (simp add: dict_get_def fadd_def twice_penalty algebra_simps add_divide_distrib)
  then have new: "round_to 4 (fadd (dict_get out ?v 0) (for_severity (derive_penalty_table default_policy) ?v))
      = of_int ?k / 2"
    by (simp only: round_half_exact [OF k])
  have "map_of (penalties_add (derive_penalty_table default_policy)
        (AList.update ?v (of_int ?k / 2) out) fs) s
      = Some (of_int (int ((c(?v := Suc (c ?v))) s + severity_count s fs) * twice_penalty s) / 2)"
    proof (intro Cons.IH)
    show "map_of (AList.update ?v (of_int ?k / 2) out) s = Some (of_int (int ((c(?v := Suc (c ?v))) s) * twice_penalty s) / 2)" for s
      using Cons.prems(1) by simp
    show "(c(?v := Suc (c ?v))) s + length fs < 2 ^ 40" for s
      using Cons.prems(2) [of s] by (auto simp: fun_upd_def)
  qed
  then show ?case by (simp add: new severity_count_def)
qed

text \<open>So the axis sums and the buckets depend on the multiset of the findings only.\<close>

lemma foldl_halves:
  "list_all (\<lambda>k. 0 \<le> k \<and> k \<le> 60) ks \<Longrightarrow> 0 \<le> a \<Longrightarrow> a + 60 * int (length ks) < 2 ^ 53 \<Longrightarrow>
     foldl fadd (of_int a / 2) (map (\<lambda>k. of_int k / 2) ks) = of_int (a + sum_list ks) / 2"
proof (induction ks arbitrary: a)
  case (Cons k ks)
  then have k: "\<bar>a + k\<bar> < 2 ^ 53" by simp
  have "fadd (of_int a / 2) (of_int k / 2) = of_int (a + k) / 2"
    using half_exact [OF k] by (simp add: fadd_def add_divide_distrib)
  moreover have "foldl fadd (of_int (a + k) / 2) (map (\<lambda>k. of_int k / 2) ks) = of_int (a + k + sum_list ks) / 2"
    using Cons.prems by (intro Cons.IH) simp_all
  ultimately show ?case by (simp only: list.map foldl.simps sum_list.Cons add.assoc)
qed simp

lemma twice_penalty_range: "0 \<le> twice_penalty s \<and> twice_penalty s \<le> 60"
  by (cases s) (simp_all add: twice_penalty_def)

lemma axis_penalty_exact:
  assumes "length fs < 2 ^ 40"
  shows "axis_penalty (derive_penalty_table default_policy) fs axis =
    of_int (sum_list (map (\<lambda>f. twice_penalty (f_severity f)) (filter (\<lambda>f. f_module f = axis) fs))) / 2"
proof -
  have "length (filter (\<lambda>f. f_module f = axis) fs) < 2 ^ 40" using assms
    by (meson length_filter_le order_le_less_trans)
  then have "0 + 60 * int (length (map (\<lambda>f. twice_penalty (f_severity f)) (filter (\<lambda>f. f_module f = axis) fs))) < 2 ^ 53"
    by simp
  from foldl_halves [OF _ order_refl this] show ?thesis
    by (simp add: axis_penalty_def fsum_def twice_penalty twice_penalty_range list_all_iff comp_def)
qed

lemma severity_penalties_keys:
  "map fst (severity_penalties_breakdown fs t) = severity_buckets"
proof -
  have "map fst (penalties_add t out fs) = severity_buckets" if "map fst out = severity_buckets" for out
    using that
  proof (induction t out fs rule: penalties_add.induct)
    case (2 t out f fs)
    have "f_severity f \<in> set (map fst out)"
      by (cases "f_severity f") (simp_all add: 2 severity_buckets_def)
    then show ?case using 2 by (simp add: update_keys)
  qed simp
  then show ?thesis by (simp add: severity_penalties_breakdown_def severity_buckets_def)
qed

lemma severity_penalties_value:
  assumes "length fs < 2 ^ 40"
  shows "map_of (severity_penalties_breakdown fs (derive_penalty_table default_policy)) s =
    Some (of_nat (severity_count s fs) * for_severity (derive_penalty_table default_policy) s)"
proof -
  have "map_of (map (\<lambda>b. (b, 0)) severity_buckets) s' = Some (of_int (int 0 * twice_penalty s') / 2 :: flt)" for s'
    by (cases s') (simp_all add: severity_buckets_def)
  from penalties_add_exact [where c = "\<lambda>_. 0", OF this] assms
  show ?thesis by (simp add: severity_penalties_breakdown_def twice_penalty)
qed

definition sample_score :: "finding list \<Rightarrow> score_error + quality_score" where
  "sample_score fs = compute_score fs [] default_policy ''RUN-AAAAAAAAAAAA'' (\<lambda>_. ''SCR-AAAAAAAAAAAA'') None"

definition high_api_finding :: finding where
  "high_api_finding = sample_finding ''FND-AAAAAAAAAAAA'' ''api'' High ''slow''"

lemma default_policy_valid: "valid_policy default_policy"
  by code_simp

lemma compute_score_total:
  assumes "validate_weights (case ws of None \<Rightarrow> default_weights | Some w \<Rightarrow> w) = Inr ()"
    and "validate_id (g ''SCR'') (Some ''SCR'') = Inr i" and "validate_id r (Some ''RUN'') = Inr r'"
  shows "compute_score fs mrs p r g ws = Inr (projr (compute_score fs mrs p r g ws))"
  using assms by (simp add: compute_score_def Let_def)

lemma sample_score_ok: "sample_score fs = Inr (projr (sample_score fs))"
proof -
  have "validate_weights default_weights = Inr ()"
    and "validate_id ''SCR-AAAAAAAAAAAA'' (Some ''SCR'') = Inr ''SCR-AAAAAAAAAAAA''"
    and "validate_id ''RUN-AAAAAAAAAAAA'' (Some ''RUN'') = Inr ''RUN-AAAAAAAAAAAA''" by code_simp+
  then show ?thesis unfolding sample_score_def by (intro compute_score_total) auto
qed

section \<open>Properties\<close>

text \<open>
  C6. The score is always in range: with a policy its schema admits, every total and every
  component that \<open>compute_score\<close> returns lies in 0..100, whatever findings, module metrics and
  weights it is given, after every float rounding of the code.
\<close>

theorem score_in_range:
  assumes "compute_score fs mrs p run_id g ws = Inr q" and "valid_policy p"
  shows "0 \<le> qs_total q \<and> qs_total q \<le> 100 \<and>
    (\<forall>(axis, v)\<in>set (qs_components q). axis \<in> set component_axes \<and> 0 \<le> v \<and> v \<le> 100)"
proof -
  have "0 \<le> qs_total q \<and> qs_total q \<le> 100"
    unfolding compute_score_fields(1) [OF assms(1)] by (rule round_to_within) simp_all
  moreover have "0 \<le> round_to 4 (dict_get (all_components fs mrs p) a 0) \<and>
      round_to 4 (dict_get (all_components fs mrs p) a 0) \<le> 100" for a
    using component_within [OF assms(2), of fs mrs a] by (intro round_to_within) simp_all
  ultimately show ?thesis by (auto simp: compute_score_fields(2) [OF assms(1)])
qed

theorem score_in_range_witness:
  "0 \<le> qs_total (projr (sample_score [high_api_finding]))
    \<and> qs_total (projr (sample_score [high_api_finding])) \<le> 100"
  using score_in_range [OF sample_score_ok [unfolded sample_score_def] default_policy_valid]
  by (simp add: sample_score_def)

text \<open>
  C7. Reporting more defects never improves a score: inserting a finding anywhere in the
  list leaves the total and every component equal or lower (findings, policy and weights
  otherwise the same), in binary64 arithmetic with its rounding errors.
\<close>

theorem score_antitone:
  assumes "compute_score (xs @ ys) mrs p run_id g ws = Inr q"
    and "compute_score (xs @ f # ys) mrs p run_id' g' ws = Inr q'"
    and "valid_policy p"
  shows "qs_total q' \<le> qs_total q \<and>
    (\<forall>axis. dict_get (qs_components q') axis 0 \<le> dict_get (qs_components q) axis 0)"
  using total_antitone [OF assms]
  by (auto simp: compute_score_fields(2) [OF assms(1)] compute_score_fields(2) [OF assms(2)]
      dict_get_def [of "map _ _"] map_of_pairs intro!: round_to_mono components_insert [OF assms(3)])

theorem score_antitone_witness:
  "qs_total (projr (sample_score [high_api_finding])) \<le> qs_total (projr (sample_score []))"
  using score_antitone [where xs = "[]" and ys = "[]" and f = high_api_finding,
      unfolded append_Nil, OF sample_score_ok [unfolded sample_score_def] sample_score_ok [unfolded sample_score_def] default_policy_valid]
  by (simp add: sample_score_def)

text \<open>
  A clean run scores exactly 100: with no finding and no module reporting a flake rate,
  the default weights give a total of 100 and 100 on each axis, although 0.30, 0.15 and the
  other weights are not binary64 numbers and the eight products are rounded and summed.
\<close>

theorem clean_run_scores_100:
  assumes "compute_score [] mrs p run_id g None = Inr q" and "flake_rates mrs = []"
  shows "qs_total q = 100 \<and> qs_components q = map (\<lambda>axis. (axis, 100)) component_axes"
proof -
  let ?c = "map (\<lambda>axis. (axis, 100 :: flt)) component_axes"
  have c: "all_components [] mrs p = ?c"
    using assms(2) fl_numeral(2)
    by (simp add: all_components_def component_scores_def axis_penalty_def fsum_def component_axes_def
        flake_risk_score_def fsub_def)
  have "round_to 2 (max 0 (min 100 (total_raw ?c default_weights))) = 100" by code_simp
  moreover have "map (\<lambda>a. (a, round_to 4 (dict_get ?c a 0))) component_axes = ?c"
    by (auto simp: dict_get_def map_of_pairs)
  ultimately show ?thesis
    using compute_score_fields(1, 2) [OF assms(1)] by (simp add: c)
qed

theorem clean_run_scores_100_witness: "qs_total (projr (sample_score [])) = 100"
  using clean_run_scores_100 [OF sample_score_ok [unfolded sample_score_def]]
  by (simp add: sample_score_def flake_rates_def)

text \<open>
  The persisted severity penalties are exact: under the default policy each bucket of
  \<open>severity_penalties_applied\<close> is the number of findings of that severity times its penalty,
  although the code accumulates and rounds one finding at a time (up to 2^40 findings).
\<close>

theorem severity_penalties_exact:
  assumes "length fs < 2 ^ 40"
  shows "map_of (severity_penalties_breakdown fs (derive_penalty_table default_policy)) s =
    Some (of_nat (severity_count s fs) * for_severity (derive_penalty_table default_policy) s)"
  by (rule severity_penalties_value [OF assms])

theorem severity_penalties_exact_witness:
  "map_of (severity_penalties_breakdown [high_api_finding, high_api_finding]
     (derive_penalty_table default_policy)) High = Some 35"
proof -
  have "length [high_api_finding, high_api_finding] < 2 ^ 40" by simp
  from severity_penalties_exact [OF this, of High] show ?thesis
    by (simp add: severity_count_def high_api_finding_def sample_finding_def derive_penalty_table_def
        default_policy_def)
qed

end
