(* ===== verification/Gate.thy ===== *)
theory Gate
  imports Scoring "HOL-Library.Multiset"
begin

text \<open>
  The release gate: \<open>engine/scoring/blockers.py\<close> (which findings force a block),
  \<open>decision.py\<close> (the decision ladder and its reasons) and \<open>policy_gate.py\<close>
  (\<open>apply_policy_gate\<close>). The lemmas show when a run passes, which findings block it, that the
  gate is monotone in the findings and that it does not depend on their order.
\<close>

record blocker =
  b_rule :: string
  b_finding :: "string option"
  b_justification :: string

definition is_critical :: "finding \<Rightarrow> bool" where
  "is_critical f \<longleftrightarrow> f_severity f = Critical"

definition is_high_security :: "finding \<Rightarrow> bool" where
  "is_high_security f \<longleftrightarrow> f_module f = ''security'' \<and> f_severity f = High"

definition is_failed_flow :: "string \<Rightarrow> finding \<Rightarrow> bool" where
  "is_failed_flow tag f \<longleftrightarrow> f_module f = ''functional'' \<and> finding_priority f = Some tag"

definition critical_blocker :: "finding \<Rightarrow> blocker" where
  "critical_blocker f = \<lparr>b_rule = ''critical_finding'', b_finding = Some (f_id f),
     b_justification = ''Critical finding '' @ f_id f @ '' in module '' @ py_repr (f_module f) @
       '': '' @ f_title f @ ''. policy.block_on_critical=true.''\<rparr>"

definition security_blocker :: "finding \<Rightarrow> blocker" where
  "security_blocker f = \<lparr>b_rule = ''security_high'', b_finding = Some (f_id f),
     b_justification = ''High-severity security finding '' @ f_id f @ '': '' @ f_title f @
       ''. policy.block_on_high_security=true.''\<rparr>"

definition p0_blocker :: "finding \<Rightarrow> blocker" where
  "p0_blocker f = \<lparr>b_rule = ''p0_flow_failed'', b_finding = Some (f_id f),
     b_justification = ''P0 functional flow failed: '' @ f_id f @ '' '' @ em_dash @ '' '' @ f_title f @
       ''. P0 failures always block release.''\<rparr>"

definition p1_blocker :: "nat \<Rightarrow> policy \<Rightarrow> blocker" where
  "p1_blocker n p = \<lparr>b_rule = ''too_many_p1_failures'', b_finding = None,
     b_justification = str_of_nat n @ '' P1 functional failures observed; policy.max_failed_p1_flows='' @
       str_of_nat (max_failed_p1_flows p) @ ''.''\<rparr>"

definition compute_blockers :: "finding list \<Rightarrow> policy \<Rightarrow> blocker list" where
  "compute_blockers findings p =
     (let fs = sort_key f_id findings;
          p1 = filter (is_failed_flow ''p1'') fs
      in (if block_on_critical p then map critical_blocker (filter is_critical fs) else []) @
         (if block_on_high_security p then map security_blocker (filter is_high_security fs) else []) @
         map p0_blocker (filter (is_failed_flow ''p0'') fs) @
         (if max_failed_p1_flows p < length p1 then [p1_blocker (length p1) p] else []))"

record policy_decision =
  pd_id :: string
  pd_run_id :: string
  pd_release :: release_decision
  pd_blocked_by :: "string list"
  pd_reasons :: "string list"

definition select_decision ::
  "quality_score option \<Rightarrow> blocker list \<Rightarrow> finding list \<Rightarrow> policy \<Rightarrow> run_status
     \<Rightarrow> release_decision \<times> string list" where
  "select_decision score blockers fs p status =
     (if status = R_unsafe_blocked then
        (D_unsafe_target_rejected, [''Run blocked by safety policy; no audit performed.''])
      else if status = R_incomplete then
        (D_inconclusive, [''Run did not complete (one or more modules errored). Score is not authoritative.''])
      else if status = R_dry_run then
        (D_inconclusive, [''Dry-run only '' @ em_dash @ '' execution plan built but no modules ran.''])
      else if blockers \<noteq> [] then
        (D_blocked, map (\<lambda>b. ''['' @ b_rule b @ ''] '' @ b_justification b) blockers)
      else let threshold = fl (of_int (min_quality_score p)) in
        if (case score of None \<Rightarrow> False | Some q \<Rightarrow> qs_total q < threshold) then
          (D_blocked, [''Quality score '' @ fmt_fixed 2 (case score of None \<Rightarrow> 0 | Some q \<Rightarrow> qs_total q) @
             '' is below the configured threshold ('' @ fmt_fixed 2 threshold @ '').''])
        else if list_ex (\<lambda>f. f_severity f = Medium) fs then
          (D_pass_with_warnings,
             [''Run passed but at least one medium-severity finding was recorded; review before release.''])
        else (D_pass, [''Run passed all gates with no critical, high, or medium findings.'']))"

definition decide ::
  "quality_score option \<Rightarrow> blocker list \<Rightarrow> finding list \<Rightarrow> policy \<Rightarrow> string \<Rightarrow> run_status
     \<Rightarrow> (string \<Rightarrow> string) \<Rightarrow> score_error + policy_decision" where
  "decide score blockers fs p run_id status new_id =
     (case select_decision score blockers fs p status of (d, reasons) \<Rightarrow>
        (case validate_id (new_id ''PD'') (Some ''PD'') of Inl e \<Rightarrow> Inl (Score_Invalid e)
         | Inr i \<Rightarrow> (case validate_id run_id (Some ''RUN'') of Inl e \<Rightarrow> Inl (Score_Invalid e)
           | Inr r \<Rightarrow> Inr \<lparr>pd_id = i, pd_run_id = r, pd_release = d,
               pd_blocked_by = List.map_filter b_finding blockers, pd_reasons = reasons\<rparr>)))"

definition apply_policy_gate ::
  "finding list \<Rightarrow> module_result list \<Rightarrow> policy \<Rightarrow> string \<Rightarrow> run_status \<Rightarrow> (string \<Rightarrow> string)
     \<Rightarrow> score_error + quality_score \<times> policy_decision \<times> blocker list" where
  "apply_policy_gate fs mrs p run_id status new_id =
     (case compute_score fs mrs p run_id new_id None of Inl e \<Rightarrow> Inl e
      | Inr score \<Rightarrow>
        (let blockers = compute_blockers fs p in
         case decide (Some score) blockers fs p run_id status new_id of Inl e \<Rightarrow> Inl e
         | Inr d \<Rightarrow> Inr (score, d, blockers)))"

section \<open>Lemmas\<close>

text \<open>The findings that the rules name one by one.\<close>

definition blocks :: "policy \<Rightarrow> finding \<Rightarrow> bool" where
  "blocks p f \<longleftrightarrow> (block_on_critical p \<and> is_critical f) \<or> (block_on_high_security p \<and> is_high_security f) \<or>
     is_failed_flow ''p0'' f"

definition p1_count :: "finding list \<Rightarrow> nat" where
  "p1_count fs = length (filter (is_failed_flow ''p1'') fs)"

lemma p1_count_sort [simp]: "length (filter P (sort_key k fs)) = length (filter P fs)"
  by (metis mset_filter mset_sort size_mset)

lemma no_blockers_iff:
  "compute_blockers fs p = [] \<longleftrightarrow> (\<forall>f\<in>set fs. \<not> blocks p f) \<and> p1_count fs \<le> max_failed_p1_flows p"
  by (auto simp: compute_blockers_def Let_def blocks_def p1_count_def filter_empty_conv not_less)

lemma b_finding_simps [simp]:
  "b_finding (critical_blocker f) = Some (f_id f)" "b_finding (security_blocker f) = Some (f_id f)"
  "b_finding (p0_blocker f) = Some (f_id f)" "b_finding (p1_blocker n p) = None"
  by (simp_all add: critical_blocker_def security_blocker_def p0_blocker_def p1_blocker_def)

lemma map_filter_blockers:
  "(\<And>f. b_finding (mk f) = Some (f_id f)) \<Longrightarrow> List.map_filter b_finding (map mk fs) = map f_id fs"
  by (induction fs) (simp_all add: map_filter_simps)

lemma map_filter_append: "List.map_filter h (xs @ ys) = List.map_filter h xs @ List.map_filter h ys"
  by (simp add: map_filter_def)

lemma blocked_by_eq:
  "List.map_filter b_finding (compute_blockers fs p) = map f_id
     ((if block_on_critical p then filter is_critical (sort_key f_id fs) else []) @
      (if block_on_high_security p then filter is_high_security (sort_key f_id fs) else []) @
      filter (is_failed_flow ''p0'') (sort_key f_id fs))"
  by (simp add: compute_blockers_def Let_def map_filter_append map_filter_blockers map_filter_simps)

lemma blocked_by_set:
  "set (List.map_filter b_finding (compute_blockers fs p)) = f_id ` {f \<in> set fs. blocks p f}"
  unfolding blocked_by_eq by (auto simp: blocks_def)

lemma apply_policy_gate_parts:
  assumes "apply_policy_gate fs mrs p run_id status g = Inr (q, d, bs)"
  shows "compute_score fs mrs p run_id g None = Inr q" and "bs = compute_blockers fs p"
    and "pd_release d = fst (select_decision (Some q) bs fs p status)"
    and "pd_blocked_by d = List.map_filter b_finding bs"
    and "pd_reasons d = snd (select_decision (Some q) bs fs p status)"
  using assms by (auto simp: apply_policy_gate_def decide_def Let_def split: sum.splits prod.splits)

lemma release_ladder:
  assumes "apply_policy_gate fs mrs p run_id status g = Inr (q, d, bs)"
  shows "pd_release d =
    (if status = R_unsafe_blocked then D_unsafe_target_rejected
     else if status = R_incomplete \<or> status = R_dry_run then D_inconclusive
     else if bs \<noteq> [] \<or> qs_total q < fl (of_int (min_quality_score p)) then D_blocked
     else if \<exists>f\<in>set fs. f_severity f = Medium then D_pass_with_warnings else D_pass)"
  by (simp add: apply_policy_gate_parts(3) [OF assms] select_decision_def Let_def list_ex_iff)

text \<open>A sorted list of findings with distinct ids is determined by its multiset.\<close>

lemma sort_ids_mset:
  assumes "mset fs = mset gs" and "distinct (map f_id fs)"
  shows "sort_key f_id fs = sort_key f_id gs"
proof (rule properties_for_sort_key)
  show "mset (sort_key f_id gs) = mset fs" using assms(1) by simp
  show "sorted (map f_id (sort_key f_id gs))" by simp
  show "filter (\<lambda>x. f_id k = f_id x) (sort_key f_id gs) = filter (\<lambda>x. f_id k = f_id x) fs"
    if "k \<in> set (sort_key f_id gs)" for k
  proof -
    have "distinct (map f_id gs)"
      using assms by (metis mset_map mset_eq_imp_distinct_iff)
    then have *: "filter (\<lambda>x. f_id k = f_id x) hs = [k]"
      if "k \<in> set hs" "distinct (map f_id hs)" for hs
      using that by (induction hs) (auto simp: filter_empty_conv image_iff)
    moreover have "k \<in> set fs" using that assms(1) by (metis mset_eq_setD set_sort)
    moreover have "distinct (map f_id (sort_key f_id gs))"
      using \<open>distinct (map f_id gs)\<close> by (metis mset_eq_imp_distinct_iff mset_map mset_sort)
    ultimately show ?thesis using that assms(2) by metis
  qed
qed

section \<open>Order independence\<close>

lemma severity_count_mset: "severity_count s fs = size (filter_mset (\<lambda>f. f_severity f = s) (mset fs))"
  by (simp add: severity_count_def flip: mset_filter)

lemma axis_penalty_mset:
  assumes "mset fs = mset gs" and "length fs < 2 ^ 40"
  shows "axis_penalty (derive_penalty_table default_policy) fs a = axis_penalty (derive_penalty_table default_policy) gs a"
proof -
  have "mset (map (\<lambda>f. twice_penalty (f_severity f)) (filter (\<lambda>f. f_module f = a) fs))
      = mset (map (\<lambda>f. twice_penalty (f_severity f)) (filter (\<lambda>f. f_module f = a) gs))"
    by (simp add: assms(1))
  then have "sum_list (map (\<lambda>f. twice_penalty (f_severity f)) (filter (\<lambda>f. f_module f = a) fs))
      = sum_list (map (\<lambda>f. twice_penalty (f_severity f)) (filter (\<lambda>f. f_module f = a) gs))"
    by (metis sum_mset_sum_list)
  moreover have "length gs < 2 ^ 40" using assms by (metis size_mset)
  ultimately show ?thesis by (simp only: axis_penalty_exact [OF assms(2)] axis_penalty_exact)
qed

lemma breakdown_mset:
  assumes "mset fs = mset gs" and "length fs < 2 ^ 40"
  shows "severity_penalties_breakdown fs (derive_penalty_table default_policy)
    = severity_penalties_breakdown gs (derive_penalty_table default_policy)"
proof (rule dict_eqI)
  have "length gs < 2 ^ 40" using assms by (metis size_mset)
  then show "map_of (severity_penalties_breakdown fs (derive_penalty_table default_policy)) s
      = map_of (severity_penalties_breakdown gs (derive_penalty_table default_policy)) s" for s
    by (simp only: severity_penalties_value assms severity_count_mset)
qed (simp_all add: severity_penalties_keys severity_buckets_def)

lemma compute_score_mset:
  assumes "mset fs = mset gs" and "length fs < 2 ^ 40"
    and pen: "derive_penalty_table p = derive_penalty_table default_policy"
  shows "compute_score fs mrs p r g w = compute_score gs mrs p r g w"
proof -
  have "all_components fs mrs p = all_components gs mrs p"
    by (simp add: all_components_def component_scores_def pen axis_penalty_mset [OF assms(1, 2)])
  then show ?thesis
    by (simp only: compute_score_def pen breakdown_mset [OF assms(1, 2)])
qed

lemma compute_blockers_mset:
  "mset fs = mset gs \<Longrightarrow> distinct (map f_id fs) \<Longrightarrow> compute_blockers fs p = compute_blockers gs p"
  by (simp add: compute_blockers_def sort_ids_mset [of fs gs])

lemma select_decision_mset:
  assumes "mset fs = mset gs"
  shows "select_decision q bs fs p st = select_decision q bs gs p st"
proof -
  have "list_ex (\<lambda>f. f_severity f = Medium) fs = list_ex (\<lambda>f. f_severity f = Medium) gs"
    using mset_eq_setD [OF assms] by (simp add: list_ex_iff)
  then show ?thesis unfolding select_decision_def by (simp only:)
qed

section \<open>Monotonicity\<close>

text \<open>How good a release decision is.\<close>

fun release_rank :: "release_decision \<Rightarrow> nat" where
  "release_rank D_pass = 2"
| "release_rank D_pass_with_warnings = 1"
| "release_rank D_blocked = 0"
| "release_rank D_inconclusive = 0"
| "release_rank D_unsafe_target_rejected = 0"

lemma no_blockers_insert:
  "compute_blockers (xs @ f # ys) p = [] \<Longrightarrow> compute_blockers (xs @ ys) p = []"
  by (auto simp: no_blockers_iff p1_count_def split: if_splits)

definition sample_gate :: "finding list \<Rightarrow> score_error + quality_score \<times> policy_decision \<times> blocker list" where
  "sample_gate fs = apply_policy_gate fs [] default_policy ''RUN-AAAAAAAAAAAA'' R_passed
     (\<lambda>p. p @ ''-AAAAAAAAAAAA'')"

lemma sample_gate_ok:
  "sample_gate fs = Inr (fst (projr (sample_gate fs)), fst (snd (projr (sample_gate fs))), snd (snd (projr (sample_gate fs))))"
proof -
  let ?g = "\<lambda>p. p @ ''-AAAAAAAAAAAA''"
  have 1: "validate_weights default_weights = Inr ()"
    and 2: "validate_id (?g ''SCR'') (Some ''SCR'') = Inr ''SCR-AAAAAAAAAAAA''"
    and 3: "validate_id (?g ''PD'') (Some ''PD'') = Inr ''PD-AAAAAAAAAAAA''"
    and 4: "validate_id ''RUN-AAAAAAAAAAAA'' (Some ''RUN'') = Inr ''RUN-AAAAAAAAAAAA''" by code_simp+
  have "compute_score fs [] default_policy ''RUN-AAAAAAAAAAAA'' ?g None
      = Inr (projr (compute_score fs [] default_policy ''RUN-AAAAAAAAAAAA'' ?g None))"
    using 1 2 4 by (intro compute_score_total) auto
  then obtain q where "compute_score fs [] default_policy ''RUN-AAAAAAAAAAAA'' ?g None = Inr q" by blast
  then have "\<exists>r. sample_gate fs = Inr r" using 3 4
    by (simp add: sample_gate_def apply_policy_gate_def decide_def Let_def case_prod_beta)
  then show ?thesis by auto
qed

section \<open>Properties\<close>

text \<open>
  C1. What a green gate guarantees, and that it is granted: the decision is \<open>pass\<close> or
  \<open>pass_with_warnings\<close> exactly when the run was not unsafe, incomplete or a dry run, no critical
  finding exists (if the policy blocks on them), no high security finding (likewise), no failed
  P0 functional flow, no more failed P1 flows than the policy admits, and the score reaches the
  threshold. Stated over the findings, through scoring, blockers and the decision ladder.
\<close>

theorem gate_pass_iff:
  assumes "apply_policy_gate fs mrs p run_id status g = Inr (q, d, bs)"
  shows "pd_release d \<in> {D_pass, D_pass_with_warnings} \<longleftrightarrow>
    status \<in> {R_passed, R_failed} \<and>
    (block_on_critical p \<longrightarrow> (\<forall>f\<in>set fs. f_severity f \<noteq> Critical)) \<and>
    (block_on_high_security p \<longrightarrow> (\<forall>f\<in>set fs. f_module f = ''security'' \<longrightarrow> f_severity f \<noteq> High)) \<and>
    (\<forall>f\<in>set fs. f_module f = ''functional'' \<longrightarrow> finding_priority f \<noteq> Some ''p0'') \<and>
    p1_count fs \<le> max_failed_p1_flows p \<and> fl (of_int (min_quality_score p)) \<le> qs_total q"
proof -
  have "pd_release d \<in> {D_pass, D_pass_with_warnings} \<longleftrightarrow>
      status \<in> {R_passed, R_failed} \<and> compute_blockers fs p = [] \<and> fl (of_int (min_quality_score p)) \<le> qs_total q"
    unfolding release_ladder [OF assms] apply_policy_gate_parts(2) [OF assms]
    by (cases status) (auto simp: not_less)
  then show ?thesis
    by (auto simp: no_blockers_iff blocks_def is_critical_def is_high_security_def is_failed_flow_def)
qed

theorem gate_pass_iff_witness:
  "pd_release (fst (snd (projr (sample_gate [sample_finding ''FND-AAAAAAAAAAAA'' ''api'' Critical ''x''])))) \<notin> {D_pass, D_pass_with_warnings}"
  unfolding gate_pass_iff [OF sample_gate_ok [unfolded sample_gate_def], folded sample_gate_def]
  by (simp add: sample_finding_def default_policy_def)

text \<open>
  C2. The gate is monotone: reporting one more finding, wherever it stands in the list, never
  improves the release decision (pass, then pass with warnings, then everything that does not
  release), for the same run, policy and module results.
\<close>

theorem gate_monotone:
  assumes "apply_policy_gate (xs @ ys) mrs p run_id status g = Inr (q, d, bs)"
    and "apply_policy_gate (xs @ f # ys) mrs p run_id' status g' = Inr (q', d', bs')"
    and "valid_policy p"
  shows "release_rank (pd_release d') \<le> release_rank (pd_release d)"
proof -
  have "qs_total q' \<le> qs_total q"
    using apply_policy_gate_parts(1) [OF assms(1)] apply_policy_gate_parts(1) [OF assms(2)] assms(3)
    by (rule total_antitone)
  moreover have "bs' = [] \<Longrightarrow> bs = []"
    unfolding apply_policy_gate_parts(2) [OF assms(1)] apply_policy_gate_parts(2) [OF assms(2)]
    by (rule no_blockers_insert)
  ultimately show ?thesis unfolding release_ladder [OF assms(1)] release_ladder [OF assms(2)] by auto
qed

theorem gate_monotone_witness:
  "release_rank (pd_release (fst (snd (projr (sample_gate [high_api_finding])))))
    \<le> release_rank (pd_release (fst (snd (projr (sample_gate [])))))"
  using gate_monotone [where xs = "[]" and ys = "[]" and f = high_api_finding, unfolded append_Nil,
      OF sample_gate_ok [unfolded sample_gate_def] sample_gate_ok [unfolded sample_gate_def] default_policy_valid]
  by (simp add: sample_gate_def)

text \<open>
  C8. The gate is reproducible: score, decision and blockers are the same whatever order the
  modules' findings arrive in (findings with distinct ids, the default penalties, and any weights
  of the remaining policy), down to the last bit of each float and the order of the reasons.
\<close>

theorem gate_order_independent:
  assumes "mset fs = mset gs" and "distinct (map f_id fs)" and "length fs < 2 ^ 40"
    and "derive_penalty_table p = derive_penalty_table default_policy"
  shows "apply_policy_gate fs mrs p run_id status g = apply_policy_gate gs mrs p run_id status g"
  unfolding apply_policy_gate_def decide_def compute_score_mset [OF assms(1, 3, 4)]
    compute_blockers_mset [OF assms(1, 2)] select_decision_mset [OF assms(1)] ..

theorem gate_order_independent_witness:
  "sample_gate [sample_finding ''FND-AAAAAAAAAAAA'' ''api'' High ''x'', sample_finding ''FND-BBBBBBBBBBBB'' ''api'' Low ''y'']
    = sample_gate [sample_finding ''FND-BBBBBBBBBBBB'' ''api'' Low ''y'', sample_finding ''FND-AAAAAAAAAAAA'' ''api'' High ''x'']"
  unfolding sample_gate_def
  by (rule gate_order_independent) (simp_all add: sample_finding_def)

text \<open>
  A decision names its culprits: \<open>blocked_by\<close> holds exactly the ids of the findings that
  match a per-finding rule of the policy, each of them an id of a finding of the run, and when
  the decision is \<open>blocked\<close> by such a finding its id is named, whatever the score.
\<close>

theorem gate_blocked_by_exact:
  assumes "apply_policy_gate fs mrs p run_id status g = Inr (q, d, bs)"
  shows "set (pd_blocked_by d) = f_id ` {f \<in> set fs. blocks p f} \<and>
    (pd_release d = D_blocked \<longrightarrow>
       pd_blocked_by d \<noteq> [] \<or> max_failed_p1_flows p < p1_count fs
         \<or> qs_total q < fl (of_int (min_quality_score p)))"
proof -
  have set: "set (pd_blocked_by d) = f_id ` {f \<in> set fs. blocks p f}"
    by (simp only: apply_policy_gate_parts(2, 4) [OF assms] blocked_by_set)
  moreover have "compute_blockers fs p \<noteq> [] \<or> qs_total q < fl (of_int (min_quality_score p))"
    if "pd_release d = D_blocked"
    using that unfolding release_ladder [OF assms] apply_policy_gate_parts(2) [OF assms]
    by (auto split: if_splits)
  ultimately show ?thesis by (auto simp: no_blockers_iff not_le)
qed

theorem gate_blocked_by_exact_witness:
  "set (pd_blocked_by (fst (snd (projr (sample_gate [sample_finding ''FND-AAAAAAAAAAAA'' ''api'' Critical ''x''])))))
    = {''FND-AAAAAAAAAAAA''}"
proof -
  let ?f = "sample_finding ''FND-AAAAAAAAAAAA'' ''api'' Critical ''x''"
  have "{f \<in> set [?f]. blocks default_policy f} = {?f}"
    by (auto simp: blocks_def is_critical_def sample_finding_def default_policy_def)
  then show ?thesis
    using gate_blocked_by_exact [OF sample_gate_ok [unfolded sample_gate_def], of "[?f]", folded sample_gate_def]
    by (simp add: sample_finding_def)
qed

end
