(* ===== verification/NetAddr.thy ===== *)
theory NetAddr
  imports Prelude
begin

text \<open>
  The parts of Python's standard library the safety policy rests on: \<open>ipaddress.ip_address\<close>
  with its classification properties (CPython 3.11, strict IPv4 octets, \<open>::\<close> compression, IPv4
  suffixes and scope ids of IPv6) and \<open>urllib.parse.urlparse(url).hostname\<close> on ASCII URLs.
  The lemmas show that a dotted quad parses back to its octets and classify it.
\<close>

section \<open>Splitting\<close>

fun split_on :: "char \<Rightarrow> string \<Rightarrow> string list" where
  "split_on c [] = [[]]"
| "split_on c (x # xs) =
     (if x = c then [] # split_on c xs
      else (case split_on c xs of [] \<Rightarrow> [[x]] | y # ys \<Rightarrow> (x # y) # ys))"

text \<open>\<open>s.partition(c)\<close> without the separator: the part after it is \<open>None\<close> when \<open>c\<close> is absent.\<close>

definition after_char :: "char \<Rightarrow> string \<Rightarrow> string option" where
  "after_char c s = (case dropWhile (\<lambda>x. x \<noteq> c) s of [] \<Rightarrow> None | _ # r \<Rightarrow> Some r)"

definition int_of_digits :: "string \<Rightarrow> int" where
  "int_of_digits s = foldl (\<lambda>a c. a * 10 + (int (of_char c) - 48)) 0 s"

section \<open>IPv4\<close>

definition parse_octet :: "string \<Rightarrow> int option" where
  "parse_octet s =
     (if \<not> py_isdigit s then None
      else if 3 < length s then None
      else if s \<noteq> ''0'' \<and> hd s = CHR ''0'' then None
      else let n = int_of_digits s in if 255 < n then None else Some n)"

definition parse_v4 :: "string \<Rightarrow> int option" where
  "parse_v4 s =
     (case split_on (CHR ''.'') s of
        [a, b, c, d] \<Rightarrow>
          (case (parse_octet a, parse_octet b, parse_octet c, parse_octet d) of
             (Some a, Some b, Some c, Some d) \<Rightarrow> Some (((a * 256 + b) * 256 + c) * 256 + d)
           | _ \<Rightarrow> None)
      | _ \<Rightarrow> None)"

definition quad :: "int \<Rightarrow> int \<Rightarrow> int \<Rightarrow> int \<Rightarrow> int" where
  "quad a b c d = ((a * 256 + b) * 256 + c) * 256 + d"

text \<open>\<open>ip in network\<close>: the leading bits agree.\<close>

definition in_net :: "nat \<Rightarrow> int \<Rightarrow> int \<times> nat \<Rightarrow> bool" where
  "in_net width ip net = (ip div 2 ^ (width - snd net) = fst net div 2 ^ (width - snd net))"

definition v4_private_networks :: "(int \<times> nat) list" where
  "v4_private_networks = [(quad 0 0 0 0, 8), (quad 10 0 0 0, 8), (quad 127 0 0 0, 8),
     (quad 169 254 0 0, 16), (quad 172 16 0 0, 12), (quad 192 0 0 0, 24), (quad 192 0 0 170, 31),
     (quad 192 0 2 0, 24), (quad 192 168 0 0, 16), (quad 198 18 0 0, 15), (quad 198 51 100 0, 24),
     (quad 203 0 113 0, 24), (quad 240 0 0 0, 4), (quad 255 255 255 255, 32)]"

definition v4_private_exceptions :: "(int \<times> nat) list" where
  "v4_private_exceptions = [(quad 192 0 0 9, 32), (quad 192 0 0 10, 32)]"

definition v4_is_private :: "int \<Rightarrow> bool" where
  "v4_is_private ip \<longleftrightarrow> list_ex (in_net 32 ip) v4_private_networks \<and>
     list_all (\<lambda>n. \<not> in_net 32 ip n) v4_private_exceptions"

definition v4_is_loopback :: "int \<Rightarrow> bool" where
  "v4_is_loopback ip \<longleftrightarrow> in_net 32 ip (quad 127 0 0 0, 8)"

definition v4_is_link_local :: "int \<Rightarrow> bool" where
  "v4_is_link_local ip \<longleftrightarrow> in_net 32 ip (quad 169 254 0 0, 16)"

section \<open>IPv6\<close>

definition hex_value :: "char \<Rightarrow> int option" where
  "hex_value c =
     (let n = (of_char c :: int) in
      if 48 \<le> n \<and> n \<le> 57 then Some (n - 48)
      else if 97 \<le> n \<and> n \<le> 102 then Some (n - 87)
      else if 65 \<le> n \<and> n \<le> 70 then Some (n - 55) else None)"

definition parse_hextet :: "string \<Rightarrow> int option" where
  "parse_hextet s =
     (if s = [] \<or> 4 < length s \<or> list_ex (\<lambda>c. hex_value c = None) s then None
      else Some (foldl (\<lambda>a c. a * 16 + the (hex_value c)) 0 s))"

fun parse_hextets :: "string list \<Rightarrow> int list option" where
  "parse_hextets [] = Some []"
| "parse_hextets (s # ss) =
     (case (parse_hextet s, parse_hextets ss) of (Some h, Some hs) \<Rightarrow> Some (h # hs) | _ \<Rightarrow> None)"

text \<open>\<open>'%x' % n\<close> for \<open>n < 65536\<close>.\<close>

definition hex_of :: "int \<Rightarrow> string" where
  "hex_of n = map (\<lambda>d. hex_digit (nat d))
     (dropWhile (\<lambda>d. d = 0) [n div 4096 mod 16, n div 256 mod 16, n div 16 mod 16] @ [n mod 16])"

definition v6_expand_suffix :: "string list \<Rightarrow> string list option" where
  "v6_expand_suffix parts =
     (if CHR ''.'' \<in> set (last parts) then
        (case parse_v4 (last parts) of None \<Rightarrow> None
         | Some ip \<Rightarrow> Some (butlast parts @ [hex_of (ip div 65536 mod 65536), hex_of (ip mod 65536)]))
      else Some parts)"

definition v6_shift :: "int \<Rightarrow> int list \<Rightarrow> int" where
  "v6_shift a hs = foldl (\<lambda>a h. a * 65536 + h) a hs"

definition v6_assemble :: "string list \<Rightarrow> nat \<Rightarrow> nat \<Rightarrow> nat \<Rightarrow> int option" where
  "v6_assemble parts hi skipped lo =
     (case (parse_hextets (take hi parts), parse_hextets (drop (length parts - lo) parts)) of
        (Some a, Some b) \<Rightarrow> Some (v6_shift (v6_shift 0 a * 65536 ^ skipped) b) | _ \<Rightarrow> None)"

definition v6_of_parts :: "string list \<Rightarrow> int option" where
  "v6_of_parts parts =
     (let n = length parts; skips = filter (\<lambda>i. parts ! i = []) [1..<n - 1] in
      if 9 < n then None
      else case skips of
        [] \<Rightarrow> if n \<noteq> 8 \<or> hd parts = [] \<or> last parts = [] then None else v6_assemble parts n 0 0
      | [k] \<Rightarrow>
          (let hi = (if hd parts = [] then k - 1 else k);
               lo = (if last parts = [] then n - k - 2 else n - k - 1) in
           if hd parts = [] \<and> hi \<noteq> 0 then None
           else if last parts = [] \<and> lo \<noteq> 0 then None
           else if 8 \<le> hi + lo then None
           else v6_assemble parts hi (8 - (hi + lo)) lo)
      | _ \<Rightarrow> None)"

definition parse_v6 :: "string \<Rightarrow> int option" where
  "parse_v6 s =
     (if CHR ''/'' \<in> set s then None
      else case after_char (CHR ''%'') s of
        Some scope \<Rightarrow> if scope = [] \<or> CHR ''%'' \<in> set scope then None
          else (let parts = split_on (CHR '':'') (before_char (CHR ''%'') s) in
            if length parts < 3 then None
            else case v6_expand_suffix parts of None \<Rightarrow> None | Some ps \<Rightarrow> v6_of_parts ps)
      | None \<Rightarrow> (let parts = split_on (CHR '':'') s in
            if length parts < 3 then None
            else case v6_expand_suffix parts of None \<Rightarrow> None | Some ps \<Rightarrow> v6_of_parts ps))"

definition v6_net :: "int list \<Rightarrow> nat \<Rightarrow> int \<times> nat" where
  "v6_net hs plen = (v6_shift 0 hs * 65536 ^ (8 - length hs), plen)"

definition v6_private_networks :: "(int \<times> nat) list" where
  "v6_private_networks = [(1, 128), (0, 128), v6_net [0, 0, 0, 0, 0, 0xFFFF] 96,
     v6_net [0x64, 0xFF9B, 1] 48, v6_net [0x100] 64, v6_net [0x2001] 23, v6_net [0x2001, 0xDB8] 32,
     v6_net [0x2002] 16, v6_net [0xFC00] 7, v6_net [0xFE80] 10]"

definition v6_private_exceptions :: "(int \<times> nat) list" where
  "v6_private_exceptions = [v6_net [0x2001, 1, 0, 0, 0, 0, 0, 1] 128,
     v6_net [0x2001, 1, 0, 0, 0, 0, 0, 2] 128, v6_net [0x2001, 3] 32, v6_net [0x2001, 4, 0x112] 48,
     v6_net [0x2001, 0x20] 28, v6_net [0x2001, 0x30] 28]"

definition v6_is_private :: "int \<Rightarrow> bool" where
  "v6_is_private ip \<longleftrightarrow>
     (if ip div 2 ^ 32 = 0xFFFF then v4_is_private (ip mod 2 ^ 32)
      else list_ex (in_net 128 ip) v6_private_networks \<and>
        list_all (\<lambda>n. \<not> in_net 128 ip n) v6_private_exceptions)"

definition v6_is_link_local :: "int \<Rightarrow> bool" where
  "v6_is_link_local ip \<longleftrightarrow> in_net 128 ip (v6_net [0xFE80] 10)"

section \<open>Addresses\<close>

datatype ip_addr = V4 int | V6 int

text \<open>\<open>ip_address(s)\<close>, \<open>None\<close> for \<open>ValueError\<close>.\<close>

definition ip_address :: "string \<Rightarrow> ip_addr option" where
  "ip_address s =
     (if CHR ''/'' \<in> set s then None
      else case parse_v4 s of Some n \<Rightarrow> Some (V4 n) | None \<Rightarrow> map_option V6 (parse_v6 s))"

fun ip_is_loopback :: "ip_addr \<Rightarrow> bool" where
  "ip_is_loopback (V4 n) \<longleftrightarrow> v4_is_loopback n"
| "ip_is_loopback (V6 n) \<longleftrightarrow> n = 1"

fun ip_is_private :: "ip_addr \<Rightarrow> bool" where
  "ip_is_private (V4 n) \<longleftrightarrow> v4_is_private n"
| "ip_is_private (V6 n) \<longleftrightarrow> v6_is_private n"

fun ip_is_link_local :: "ip_addr \<Rightarrow> bool" where
  "ip_is_link_local (V4 n) \<longleftrightarrow> v4_is_link_local n"
| "ip_is_link_local (V6 n) \<longleftrightarrow> v6_is_link_local n"

section \<open>URLs\<close>

definition is_scheme_char :: "char \<Rightarrow> bool" where
  "is_scheme_char c \<longleftrightarrow>
     (let n = (of_char c :: nat) in
        (48 \<le> n \<and> n \<le> 57) \<or> (65 \<le> n \<and> n \<le> 90) \<or> (97 \<le> n \<and> n \<le> 122) \<or> c \<in> set ''+-.'')"

definition is_ascii_alpha :: "char \<Rightarrow> bool" where
  "is_ascii_alpha c \<longleftrightarrow>
     (let n = (of_char c :: nat) in (65 \<le> n \<and> n \<le> 90) \<or> (97 \<le> n \<and> n \<le> 122))"

definition url_clean :: "string \<Rightarrow> string" where
  "url_clean url = filter (\<lambda>c. (of_char c :: nat) \<notin> {9, 10, 13})
     (dropWhile (\<lambda>c. (of_char c :: nat) \<le> 32) url)"

definition url_after_scheme :: "string \<Rightarrow> string" where
  "url_after_scheme url =
     (case after_char (CHR '':'') url of
        None \<Rightarrow> url
      | Some rest \<Rightarrow>
          (let s = before_char (CHR '':'') url in
           if s \<noteq> [] \<and> is_ascii_alpha (hd s) \<and> list_all is_scheme_char s then rest else url))"

text \<open>The network location, \<open>[]\<close> when the URL has none.\<close>

definition url_netloc :: "string \<Rightarrow> string" where
  "url_netloc url =
     (let u = url_after_scheme (url_clean url) in
      if take 2 u = ''//'' then takeWhile (\<lambda>c. c \<notin> set ''/?#'') (drop 2 u) else [])"

definition bracketed_part :: "string \<Rightarrow> string" where
  "bracketed_part s = (case after_char (CHR ''['') s of None \<Rightarrow> [] | Some r \<Rightarrow> before_char (CHR '']'') r)"

text \<open>\<open>v<hex digits>.<anything but a newline>\<close>, or an IPv6 address.\<close>

definition bracketed_ok :: "string \<Rightarrow> bool" where
  "bracketed_ok h \<longleftrightarrow>
     (if take 1 h = ''v'' then
        (let r = drop 1 h; x = takeWhile (\<lambda>c. hex_value c \<noteq> None) r; y = drop (length x) r in
         x \<noteq> [] \<and> 2 \<le> length y \<and> hd y = CHR ''.'' \<and> newline \<notin> set y)
      else (case ip_address h of Some (V6 _) \<Rightarrow> True | _ \<Rightarrow> False))"

definition netloc_hostname :: "string \<Rightarrow> string" where
  "netloc_hostname netloc =
     (let info = after_last_char (CHR ''@'') netloc;
          h = (if CHR ''['' \<in> set info then bracketed_part info else before_char (CHR '':'') info);
          name = before_char (CHR ''%'') h
      in py_lower name @ drop (length name) h)"

text \<open>\<open>urlparse(url).hostname\<close>: the outer \<open>None\<close> is a \<open>ValueError\<close>, the empty string stands
  for the \<open>None\<close> that Python returns.\<close>

definition url_hostname :: "string \<Rightarrow> string option" where
  "url_hostname url =
     (let netloc = url_netloc url in
      if (CHR ''['' \<in> set netloc) \<noteq> (CHR '']'' \<in> set netloc) then None
      else if CHR ''['' \<in> set netloc \<and> \<not> bracketed_ok (bracketed_part netloc) then None
      else Some (netloc_hostname netloc))"

section \<open>Lemmas\<close>

lemma split_on_notin: "c \<notin> set s \<Longrightarrow> split_on c s = [s]"
  by (induction s) auto

lemma split_on_sep: "c \<notin> set a \<Longrightarrow> split_on c (a @ c # b) = a # split_on c b"
  by (induction a) auto

text \<open>Decimal digits read back.\<close>

lemma of_char_digit: "n < 10 \<Longrightarrow> (of_char (char_of (n + 48) :: char) :: nat) = n + 48"
  by simp

lemma is_digit_char_of: "n < 10 \<Longrightarrow> is_digit_char (char_of (n + 48 :: nat))"
  by (simp add: is_digit_char_def Let_def)

lemma digits_of_digits: "list_all is_digit_char (digits_of n)"
proof (induction n rule: digits_of.induct)
  case (1 n)
  then show ?case by (subst digits_of.simps) (auto simp: is_digit_char_of)
qed

lemma digits_of_nonempty [simp]: "digits_of n \<noteq> []"
  by (subst digits_of.simps) auto

lemma int_of_digits_snoc: "int_of_digits (s @ [c]) = int_of_digits s * 10 + (int (of_char c) - 48)"
  by (simp add: int_of_digits_def of_char_digit)

lemma int_of_digits_of [simp]: "int_of_digits (digits_of n) = int n"
proof (induction n rule: digits_of.induct)
  case (1 n)
  show ?case
  proof (cases "n < 10")
    case True
    then show ?thesis by (subst digits_of.simps) (simp add: int_of_digits_def of_char_digit)
  next
    case False
    then have "int_of_digits (digits_of n) = int_of_digits (digits_of (n div 10)) * 10 + int (n mod 10)"
      by (subst digits_of.simps) (simp add: int_of_digits_snoc)
    then show ?thesis using 1 False div_mult_mod_eq [of n 10] by linarith
  qed
qed

lemma digits_of_length: "n < 10 ^ k \<Longrightarrow> 0 < k \<Longrightarrow> length (digits_of n) \<le> k"
proof (induction n arbitrary: k rule: digits_of.induct)
  case (1 n)
  show ?case
  proof (cases "n < 10")
    case True
    then show ?thesis using 1 by (subst digits_of.simps) simp
  next
    case False
    obtain j where j: "k = Suc j" using 1(3) by (cases k) auto
    have "0 < j" using 1(2) False j by (cases j) simp_all
    moreover have "n div 10 < 10 ^ j" using 1(2) j by (simp add: div_less_iff_less_mult mult.commute)
    ultimately have "length (digits_of (n div 10)) \<le> j" using 1(1) False by blast
    then show ?thesis using False j by (subst digits_of.simps) simp
  qed
qed

lemma char_of_not_zero: "0 < n \<Longrightarrow> n < 10 \<Longrightarrow> char_of (n + 48 :: nat) \<noteq> CHR ''0''"
proof
  assume n: "0 < n" "n < 10" and eq: "char_of (n + 48) = CHR ''0''"
  have "(of_char (char_of (n + 48) :: char) :: nat) = n + 48" using n(2) by (rule of_char_digit)
  then have "(of_char (CHR ''0'') :: nat) = n + 48" by (simp only: eq)
  then show False using n by simp
qed

lemma digits_of_no_zero: "0 < n \<Longrightarrow> hd (digits_of n) \<noteq> CHR ''0''"
proof (induction n rule: digits_of.induct)
  case (1 n)
  show ?case
  proof (cases "n < 10")
    case True
    then show ?thesis using char_of_not_zero [OF 1(2) True] by (subst digits_of.simps) simp
  next
    case False
    then have "hd (digits_of (n div 10)) \<noteq> CHR ''0''" using 1 by simp
    then show ?thesis using False by (subst digits_of.simps) simp
  qed
qed

lemma digits_of_0: "digits_of 0 = ''0''"
  by code_simp

lemma parse_octet_print: "n < 256 \<Longrightarrow> parse_octet (str_of_nat n) = Some (int n)"
  using digits_of_length [of n 3] digits_of_digits [of n] digits_of_no_zero [of n]
  by (cases "n = 0") (simp_all add: parse_octet_def str_of_nat_def py_isdigit_def digits_of_0 Let_def int_of_digits_def [of "''0''"])

lemma str_of_nat_clean: "\<not> is_digit_char c \<Longrightarrow> c \<notin> set (str_of_nat n)"
  using digits_of_digits [of n] by (auto simp: str_of_nat_def list_all_iff)

definition dotted :: "nat \<Rightarrow> nat \<Rightarrow> nat \<Rightarrow> nat \<Rightarrow> string" where
  "dotted a b c d = str_of_nat a @ ''.'' @ str_of_nat b @ ''.'' @ str_of_nat c @ ''.'' @ str_of_nat d"

lemma parse_v4_dotted:
  assumes "a < 256" "b < 256" "c < 256" "d < 256"
  shows "parse_v4 (dotted a b c d) = Some (quad (int a) (int b) (int c) (int d))"
proof -
  have dot: "\<not> is_digit_char (CHR ''.'')" by (simp add: is_digit_char_def)
  have "split_on (CHR ''.'') (dotted a b c d) = [str_of_nat a, str_of_nat b, str_of_nat c, str_of_nat d]"
    by (simp add: dotted_def split_on_sep split_on_notin str_of_nat_clean [OF dot])
  then show ?thesis using assms by (simp add: parse_v4_def parse_octet_print quad_def)
qed

text \<open>What evaluates an address by rewriting.\<close>

lemmas ip_eval = ip_address_def parse_v4_def parse_octet_def py_isdigit_def is_digit_char_def
  int_of_digits_def parse_v6_def after_char_def before_char_def v6_expand_suffix_def v6_of_parts_def
  v6_assemble_def v6_shift_def parse_hextet_def hex_value_def hex_of_def hex_digit_def
  v4_is_private_def v4_is_loopback_def v4_is_link_local_def v6_is_private_def v6_is_link_local_def
  v4_private_networks_def v4_private_exceptions_def v6_private_networks_def
  v6_private_exceptions_def in_net_def v6_net_def quad_def

lemmas url_eval = url_hostname_def url_netloc_def url_after_scheme_def url_clean_def is_scheme_char_def
  is_ascii_alpha_def netloc_hostname_def after_last_char_def bracketed_part_def bracketed_ok_def
  after_char_def before_char_def py_lower_def lower_char_def newline_def

end
