(* ===== verification/Safety.thy ===== *)
theory Safety
  imports NetAddr Domain
begin

text \<open>
  The safety policy: \<open>engine/policy/safety.py\<close> (host normalisation, locality, allowlist and the
  decision procedure \<open>SafetyPolicy.enforce\<close>), \<open>proof_of_authorization.py\<close>, \<open>forbidden_features.py\<close>
  and the wildcard check of \<open>engine/domain/target.py\<close>. The audit log is the list of the decisions
  written to it (before redaction); the file system and the YAML parser are one argument, the
  function that reads a proof document; times are microseconds, \<open>isofmt\<close> prints them.
\<close>

section \<open>Hosts\<close>

definition local_hosts :: "string list" where
  "local_hosts = [''localhost'', ''ip6-localhost'', ''ip6-loopback'']"

definition normalize_host :: "string \<Rightarrow> string" where
  "normalize_host value =
     (let cleaned = py_lower (py_strip value) in
      if py_startswith cleaned ''['' \<and> CHR '']'' \<in> set cleaned
      then drop 1 (before_char (CHR '']'') cleaned)
      else if 2 \<le> length (filter (\<lambda>c. c = CHR '':'') cleaned) then cleaned
      else case after_char (CHR '':'') cleaned of
        None \<Rightarrow> cleaned
      | Some tail \<Rightarrow> if py_isdigit tail then before_char (CHR '':'') cleaned else cleaned)"

definition is_local :: "string \<Rightarrow> bool" where
  "is_local host =
     (let name = normalize_host host in
      if name \<in> set local_hosts then True
      else case ip_address name of
        None \<Rightarrow> False
      | Some ip \<Rightarrow> ip_is_loopback ip \<or> ip_is_private ip \<or> ip_is_link_local ip)"

section \<open>Targets, proofs and decisions\<close>

record target =
  t_base_url :: string
  t_allowed_hosts :: "string list"
  t_mode :: mode
  t_proof :: "string option"

text \<open>\<open>Target._reject_wildcards\<close>: the first host with a wildcard is the error.\<close>

fun reject_wildcards :: "string list \<Rightarrow> string + string list" where
  "reject_wildcards [] = Inr []"
| "reject_wildcards (h # hs) =
     (if CHR ''*'' \<in> set h \<or> CHR ''?'' \<in> set h then Inl h
      else case reject_wildcards hs of Inl e \<Rightarrow> Inl e | Inr r \<Rightarrow> Inr (h # r))"

record proof_doc =
  po_host :: string
  po_actor :: string
  po_scope :: "string list"
  po_issued_at :: int
  po_expires_at :: int

text \<open>
  What reading a proof file gives: the file may be missing, its YAML malformed, its root no
  mapping, or the mapping refused by the model.
\<close>

datatype proof_source = Src_missing | Src_bad_yaml string | Src_not_mapping | Src_invalid string
  | Src_proof proof_doc

datatype safety_error = Unknown_host string | Missing_hostname string | Url_value_error
  | Destructive_without_proof string | Proof_file_not_found string | Proof_schema_error string
  | Decision_invalid

definition covers :: "proof_doc \<Rightarrow> string \<Rightarrow> string \<Rightarrow> int \<Rightarrow> bool" where
  "covers p host capability now =
     (if py_lower host \<noteq> py_lower (po_host p) then False
      else if capability \<notin> set (po_scope p) then False
      else po_issued_at p \<le> now \<and> now \<le> po_expires_at p)"

definition load_proof :: "(string \<Rightarrow> proof_source) \<Rightarrow> string \<Rightarrow> safety_error + proof_doc" where
  "load_proof read path =
     (case read path of
        Src_missing \<Rightarrow> Inl (Proof_file_not_found path)
      | Src_bad_yaml m \<Rightarrow> Inl (Proof_schema_error (''proof-of-authorization YAML invalid: '' @ m))
      | Src_not_mapping \<Rightarrow> Inl (Proof_schema_error ''proof-of-authorization root must be a mapping.'')
      | Src_invalid m \<Rightarrow> Inl (Proof_schema_error (''proof-of-authorization failed validation: '' @ m))
      | Src_proof p \<Rightarrow> Inr p)"

definition require_proof ::
  "(string \<Rightarrow> proof_source) \<Rightarrow> int \<Rightarrow> string option \<Rightarrow> string \<Rightarrow> string \<Rightarrow> safety_error + proof_doc" where
  "require_proof read clock path host capability =
     (case path of
        None \<Rightarrow> Inl (Destructive_without_proof host)
      | Some p \<Rightarrow> (case load_proof read p of
          Inl e \<Rightarrow> Inl e
        | Inr pf \<Rightarrow> if \<not> covers pf host capability clock then Inl (Destructive_without_proof host)
                   else Inr pf))"

record safety_decision =
  sd_allowed :: bool
  sd_reason :: string
  sd_host :: string
  sd_mode :: mode
  sd_evidence :: "string list"
  sd_decided_at :: int

definition safety_decision_of ::
  "bool \<Rightarrow> string \<Rightarrow> string \<Rightarrow> mode \<Rightarrow> string list \<Rightarrow> int \<Rightarrow> safety_error + safety_decision" where
  "safety_decision_of allowed reason host m evidence decided =
     (if bounded_str 1 2000 reason \<and> bounded_str 1 512 host
      then Inr \<lparr>sd_allowed = allowed, sd_reason = reason, sd_host = host, sd_mode = m,
             sd_evidence = evidence, sd_decided_at = decided\<rparr>
      else Inl Decision_invalid)"

definition extract_host :: "string \<Rightarrow> safety_error + string" where
  "extract_host url =
     (case url_hostname url of
        None \<Rightarrow> Inl Url_value_error
      | Some h \<Rightarrow> if h = [] then Inl (Missing_hostname url) else Inr (normalize_host h))"

definition is_allowlisted :: "string \<Rightarrow> string list \<Rightarrow> bool" where
  "is_allowlisted host allowed =
     (let normalized = normalize_host host in list_ex (\<lambda>h. normalize_host h = normalized) allowed)"

definition log_decision :: "safety_decision list option \<Rightarrow> safety_decision \<Rightarrow> safety_decision list option" where
  "log_decision audit d = map_option (\<lambda>l. l @ [d]) audit"

definition allow_reason :: "bool \<Rightarrow> mode \<Rightarrow> string" where
  "allow_reason local m =
     (if local \<and> m = Safe then ''Local target allowed in safe mode.''
      else if m = Safe then ''Allowlisted host allowed in safe mode.''
      else ''Destructive mode allowed with valid proof-of-authorization.'')"

definition proof_evidence ::
  "(int \<Rightarrow> string) \<Rightarrow> (string \<Rightarrow> proof_source) \<Rightarrow> int \<Rightarrow> target \<Rightarrow> mode \<Rightarrow> string \<Rightarrow> safety_error + string list" where
  "proof_evidence isofmt read clock t m host =
     (if m = Authorized_Destructive then
        (case require_proof read clock (t_proof t) host ''destructive'' of
           Inl e \<Rightarrow> Inl e
         | Inr p \<Rightarrow> Inr [''proof_actor='' @ po_actor p, ''proof_expires_at='' @ isofmt (po_expires_at p)])
      else Inr [])"

definition enforce ::
  "(int \<Rightarrow> string) \<Rightarrow> (string \<Rightarrow> proof_source) \<Rightarrow> int \<Rightarrow> target \<Rightarrow> mode option \<Rightarrow> safety_decision list option
     \<Rightarrow> int option \<Rightarrow> (safety_error + safety_decision) \<times> safety_decision list option" where
  "enforce isofmt read clock t requested audit now =
     (let decided = (case now of None \<Rightarrow> clock | Some n \<Rightarrow> n);
          m = (case requested of None \<Rightarrow> t_mode t | Some m \<Rightarrow> m) in
      case extract_host (t_base_url t) of Inl e \<Rightarrow> (Inl e, audit)
      | Inr host \<Rightarrow>
        (let evidence = [''base_url_host='' @ host, ''mode='' @ mode_name m];
             local = is_local host in
         if \<not> local \<and> \<not> is_allowlisted host (t_allowed_hosts t) then
           (case safety_decision_of False
               (''Host '' @ py_repr host @ '' is not in target.allowed_hosts and is not local.'')
               host m (evidence @ [''check=allowlist'', ''result=deny'']) decided of
              Inl e \<Rightarrow> (Inl e, audit)
            | Inr d \<Rightarrow> (Inl (Unknown_host host), log_decision audit d))
         else
           (case proof_evidence isofmt read clock t m host of Inl e \<Rightarrow> (Inl e, audit)
            | Inr extra \<Rightarrow>
              (case safety_decision_of True (allow_reason local m) host m
                  (evidence @ extra @ [''result=allow'']) decided of
                 Inl e \<Rightarrow> (Inl e, audit)
               | Inr d \<Rightarrow> (Inr d, log_decision audit d)))))"

section \<open>Forbidden capabilities\<close>

definition forbidden_capabilities :: "string list" where
  "forbidden_capabilities = [''bot_detection_bypass'', ''captcha_bypass'', ''captcha_solving'',
     ''stealth_automation'', ''fingerprint_evasion'', ''fingerprint_spoofing'', ''credential_stuffing'',
     ''session_theft'', ''cookie_theft'', ''data_exfiltration'', ''spam_automation'',
     ''platform_manipulation'', ''phishing'', ''proxy_rotation_for_evasion'', ''rate_limit_bypass'',
     ''unauthorized_exploit'', ''destructive_against_public'', ''undetectable_mode'']"

definition forbidden_cli_flags :: "string list" where
  "forbidden_cli_flags = [''--stealth'', ''--evade'', ''--evasion'', ''--bypass'', ''--bypass-captcha'',
     ''--bypass-rate-limit'', ''--undetectable'', ''--rotate-proxies'', ''--spoof-fingerprint'']"

definition assert_capability_allowed :: "string \<Rightarrow> string + unit" where
  "assert_capability_allowed c = (if c \<in> set forbidden_capabilities then Inl c else Inr ())"

definition assert_flag_allowed :: "string \<Rightarrow> string + unit" where
  "assert_flag_allowed f = (if f \<in> set forbidden_cli_flags then Inl f else Inr ())"

section \<open>Lemmas\<close>

lemma safety_decision_of_fields:
  "safety_decision_of a r h m ev t = Inr d \<Longrightarrow> sd_allowed d = a \<and> sd_host d = h \<and> sd_mode d = m"
  by (auto simp: safety_decision_of_def split: if_splits)

lemma require_proof_sound:
  "require_proof read clock path host cap = Inr p \<Longrightarrow>
     \<exists>f. path = Some f \<and> read f = Src_proof p \<and> py_lower host = py_lower (po_host p) \<and>
       cap \<in> set (po_scope p) \<and> po_issued_at p \<le> clock \<and> clock \<le> po_expires_at p"
  by (auto simp: require_proof_def load_proof_def covers_def split: option.splits sum.splits proof_source.splits if_splits)

lemma is_allowlisted_iff: "is_allowlisted h hs \<longleftrightarrow> normalize_host h \<in> normalize_host ` set hs"
  by (auto simp: is_allowlisted_def list_ex_iff) (metis image_eqI)

lemma digit_lower: "is_digit_char c \<Longrightarrow> lower_char c = c"
  by (auto simp: is_digit_char_def lower_char_def Let_def)

lemma digit_not_space: "is_digit_char c \<Longrightarrow> \<not> is_space c"
  by (auto simp: is_digit_char_def is_space_def Let_def)

lemma dotted_chars: "c \<in> set (dotted a b d e) \<Longrightarrow> is_digit_char c \<or> c = CHR ''.''"
  using str_of_nat_clean [of c] by (auto simp: dotted_def)

lemma dotted_nonempty: "dotted a b c d \<noteq> []"
  by (simp add: dotted_def)

lemma strip_id: "\<forall>c\<in>set s. \<not> is_space c \<Longrightarrow> py_strip s = s"
proof -
  assume *: "\<forall>c\<in>set s. \<not> is_space c"
  have "dropWhile is_space s = s" using * by (cases s) auto
  moreover have "dropWhile is_space (rev s) = rev s"
    using * by (metis dropWhile_eq_self_iff hd_in_set set_rev)
  ultimately show ?thesis by (simp add: py_strip_def)
qed

lemma normalize_dotted: "normalize_host (dotted a b c d) = dotted a b c d"
proof -
  have c: "x \<in> set (dotted a b c d) \<Longrightarrow> x \<noteq> CHR ''['' \<and> x \<noteq> CHR '':'' \<and> \<not> is_space x \<and> lower_char x = x" for x
    using dotted_chars [of x a b c d] digit_lower [of x] digit_not_space [of x]
    by (auto simp: is_digit_char_def is_space_def lower_char_def)
  have "py_strip (dotted a b c d) = dotted a b c d" using c by (intro strip_id) blast
  moreover have "py_lower (dotted a b c d) = dotted a b c d"
    using c by (simp add: py_lower_def map_idI)
  moreover have "\<not> py_startswith (dotted a b c d) ''[''"
    using c by (cases "dotted a b c d") (auto simp: py_startswith_def)
  moreover have "filter (\<lambda>x. x = CHR '':'') (dotted a b c d) = []" using c by (auto simp: filter_empty_conv)
  moreover have "dropWhile (\<lambda>x. x \<noteq> CHR '':'') (dotted a b c d) = []" using c by (simp add: dropWhile_eq_Nil_conv)
  then have "after_char (CHR '':'') (dotted a b c d) = None" by (simp only: after_char_def list.case)
  ultimately show ?thesis by (simp add: normalize_host_def Let_def)
qed

lemma dotted_not_named: "dotted a b c d \<notin> set local_hosts"
proof
  assume "dotted a b c d \<in> set local_hosts"
  then have "\<exists>x\<in>set (dotted a b c d). \<not> is_digit_char x \<and> x \<noteq> CHR ''.''"
    by (auto simp: local_hosts_def is_digit_char_def)
  then show False using dotted_chars [of _ a b c d] by blast
qed

lemma ip_address_dotted:
  assumes "a < 256" "b < 256" "c < 256" "d < 256"
  shows "ip_address (dotted a b c d) = Some (V4 (quad (int a) (int b) (int c) (int d)))"
proof -
  have "CHR ''/'' \<notin> set (dotted a b c d)"
    using dotted_chars [of "CHR ''/''" a b c d] by (auto simp: is_digit_char_def)
  then show ?thesis using assms by (simp add: ip_address_def parse_v4_dotted)
qed

section \<open>Classifying quads\<close>

lemma quad_div:
  assumes "0 \<le> a" "0 \<le> b" "b < 256" "0 \<le> c" "c < 256" "0 \<le> d" "d < 256"
  shows "quad a b c d div 2 ^ 24 = a" and "quad a b c d div 2 ^ 16 = a * 256 + b"
    and "quad a b c d div 2 ^ 8 = (a * 256 + b) * 256 + c"
    and "quad a b c d div 2 ^ 20 = a * 16 + b div 16" and "quad a b c d div 2 ^ 17 = a * 128 + b div 2"
    and "quad a b c d div 2 ^ 28 = a div 16" and "quad a b c d div 2 = ((a * 256 + b) * 256 + c) * 128 + d div 2"
proof -
  have 8: "quad a b c d div 2 ^ 8 = (a * 256 + b) * 256 + c" using assms by (simp add: quad_def)
  have 16: "quad a b c d div 2 ^ 16 = a * 256 + b"
  proof -
    have "quad a b c d div 2 ^ 16 = quad a b c d div 2 ^ 8 div 2 ^ 8" by (simp flip: zdiv_zmult2_eq)
    then show ?thesis using assms by (simp only: 8) simp
  qed
  have 24: "quad a b c d div 2 ^ 24 = a"
  proof -
    have "quad a b c d div 2 ^ 24 = quad a b c d div 2 ^ 16 div 2 ^ 8" by (simp flip: zdiv_zmult2_eq)
    then show ?thesis using assms by (simp only: 16) simp
  qed
  show "quad a b c d div 2 ^ 8 = (a * 256 + b) * 256 + c" by (rule 8)
  show "quad a b c d div 2 ^ 16 = a * 256 + b" by (rule 16)
  show "quad a b c d div 2 ^ 24 = a" by (rule 24)
  have "quad a b c d div 2 ^ 20 = quad a b c d div 2 ^ 16 div 2 ^ 4" by (simp flip: zdiv_zmult2_eq)
  then show "quad a b c d div 2 ^ 20 = a * 16 + b div 16" by (simp only: 16) simp
  have "quad a b c d div 2 ^ 17 = quad a b c d div 2 ^ 16 div 2" by (simp flip: zdiv_zmult2_eq)
  then show "quad a b c d div 2 ^ 17 = a * 128 + b div 2" by (simp only: 16)
  have "quad a b c d div 2 ^ 28 = quad a b c d div 2 ^ 24 div 2 ^ 4" by (simp flip: zdiv_zmult2_eq)
  then show "quad a b c d div 2 ^ 28 = a div 16" by (simp only: 24) simp
  show "quad a b c d div 2 = ((a * 256 + b) * 256 + c) * 128 + d div 2" unfolding quad_def by presburger
qed

definition public_quad :: "int \<Rightarrow> int \<Rightarrow> int \<Rightarrow> int \<Rightarrow> bool" where
  "public_quad a b c d \<longleftrightarrow>
     \<not> (a = 0 \<or> a = 10 \<or> a = 127 \<or> 240 \<le> a \<or> (a = 169 \<and> b = 254) \<or> (a = 172 \<and> 16 \<le> b \<and> b \<le> 31) \<or>
        (a = 192 \<and> b = 168) \<or> (a = 192 \<and> b = 0 \<and> c = 0 \<and> d \<noteq> 9 \<and> d \<noteq> 10) \<or>
        (a = 192 \<and> b = 0 \<and> c = 2) \<or> (a = 198 \<and> (b = 18 \<or> b = 19)) \<or>
        (a = 198 \<and> b = 51 \<and> c = 100) \<or> (a = 203 \<and> b = 0 \<and> c = 113))"

definition octets :: "int \<Rightarrow> int \<Rightarrow> int \<Rightarrow> int \<Rightarrow> bool" where
  "octets a b c d \<longleftrightarrow> 0 \<le> a \<and> a < 256 \<and> 0 \<le> b \<and> b < 256 \<and> 0 \<le> c \<and> c < 256 \<and> 0 \<le> d \<and> d < 256"

lemma in_net_quad:
  assumes "octets a b c d" and "octets x y z w"
  shows "in_net 32 (quad a b c d) (quad x y z w, 8) \<longleftrightarrow> a = x"
    and "in_net 32 (quad a b c d) (quad x y z w, 16) \<longleftrightarrow> a = x \<and> b = y"
    and "in_net 32 (quad a b c d) (quad x y z w, 24) \<longleftrightarrow> a = x \<and> b = y \<and> c = z"
    and "in_net 32 (quad a b c d) (quad x y z w, 12) \<longleftrightarrow> a = x \<and> b div 16 = y div 16"
    and "in_net 32 (quad a b c d) (quad x y z w, 15) \<longleftrightarrow> a = x \<and> b div 2 = y div 2"
    and "in_net 32 (quad a b c d) (quad x y z w, 4) \<longleftrightarrow> a div 16 = x div 16"
    and "in_net 32 (quad a b c d) (quad x y z w, 31) \<longleftrightarrow> a = x \<and> b = y \<and> c = z \<and> d div 2 = w div 2"
    and "in_net 32 (quad a b c d) (quad x y z w, 32) \<longleftrightarrow> a = x \<and> b = y \<and> c = z \<and> d = w"
proof -
  have bd: "0 \<le> a" "a < 256" "0 \<le> b" "b < 256" "0 \<le> c" "c < 256" "0 \<le> d" "d < 256"
    "0 \<le> x" "x < 256" "0 \<le> y" "y < 256" "0 \<le> z" "z < 256" "0 \<le> w" "w < 256"
    using assms by (simp_all add: octets_def)
  note q = quad_div [OF bd(1, 3-8)] quad_div [OF bd(9, 11-16)]
  have sub: "(32::nat) - 8 = 24" "(32::nat) - 16 = 16" "(32::nat) - 24 = 8" "(32::nat) - 12 = 20"
    "(32::nat) - 15 = 17" "(32::nat) - 4 = 28" "(32::nat) - 31 = 1" "(32::nat) - 32 = 0" by simp_all
  have split: "m * k + r = m' * k + r' \<longleftrightarrow> m = m' \<and> r = r'"
    if "0 \<le> r" "r < k" "0 \<le> r'" "r' < k" for m m' r r' k :: int
    using that by (metis div_pos_pos_trivial div_mult_self3 add.commute add_0 less_le_trans not_less add_left_cancel)
  note un = in_net_def fst_conv snd_conv sub power_one_right power_0 div_by_1
  show "in_net 32 (quad a b c d) (quad x y z w, 8) \<longleftrightarrow> a = x" by (simp only: un q)
  show "in_net 32 (quad a b c d) (quad x y z w, 16) \<longleftrightarrow> a = x \<and> b = y"
    using bd by (simp only: un q split)
  show "in_net 32 (quad a b c d) (quad x y z w, 24) \<longleftrightarrow> a = x \<and> b = y \<and> c = z"
    using bd by (simp only: un q split conj_assoc)
  show "in_net 32 (quad a b c d) (quad x y z w, 12) \<longleftrightarrow> a = x \<and> b div 16 = y div 16"
    using bd by (simp only: un q) (subst split; simp)
  show "in_net 32 (quad a b c d) (quad x y z w, 15) \<longleftrightarrow> a = x \<and> b div 2 = y div 2"
    using bd by (simp only: un q) (subst split; simp)
  show "in_net 32 (quad a b c d) (quad x y z w, 4) \<longleftrightarrow> a div 16 = x div 16" by (simp only: un q)
  show "in_net 32 (quad a b c d) (quad x y z w, 31) \<longleftrightarrow> a = x \<and> b = y \<and> c = z \<and> d div 2 = w div 2"
  proof -
    have "((a * 256 + b) * 256 + c) * 128 + d div 2 = ((x * 256 + y) * 256 + z) * 128 + w div 2
        \<longleftrightarrow> (a * 256 + b) * 256 + c = (x * 256 + y) * 256 + z \<and> d div 2 = w div 2"
      using bd by (intro split) presburger+
    then show ?thesis using bd by (simp only: un q split conj_assoc)
  qed
  show "in_net 32 (quad a b c d) (quad x y z w, 32) \<longleftrightarrow> a = x \<and> b = y \<and> c = z \<and> d = w"
    using bd by (simp only: un quad_def split conj_assoc)
qed

lemma v4_local_quad:
  assumes "octets a b c d"
  shows "v4_is_loopback (quad a b c d) \<or> v4_is_private (quad a b c d) \<or> v4_is_link_local (quad a b c d)
    \<longleftrightarrow> \<not> public_quad a b c d"
proof -
  have o: "octets 0 0 0 0" "octets 10 0 0 0" "octets 127 0 0 0" "octets 169 254 0 0" "octets 172 16 0 0"
    "octets 192 0 0 0" "octets 192 0 0 170" "octets 192 0 2 0" "octets 192 168 0 0" "octets 198 18 0 0"
    "octets 198 51 100 0" "octets 203 0 113 0" "octets 240 0 0 0" "octets 255 255 255 255"
    "octets 192 0 0 9" "octets 192 0 0 10" by (simp_all add: octets_def)
  have "b div 16 = 1 \<longleftrightarrow> 16 \<le> b \<and> b \<le> 31" "b div 2 = 9 \<longleftrightarrow> b = 18 \<or> b = 19"
    "a div 16 = 15 \<longleftrightarrow> 240 \<le> a" "d div 2 = 85 \<longleftrightarrow> d = 170 \<or> d = 171"
    using assms unfolding octets_def by presburger+
  then show ?thesis
    by (simp only: v4_is_loopback_def v4_is_link_local_def v4_is_private_def v4_private_networks_def
        v4_private_exceptions_def public_quad_def in_net_quad [OF assms] o list_ex_iff list_all_iff
        list.set ball_simps bex_simps)
      (cases "a = 192"; cases "a = 198"; simp; auto)
qed

lemma is_local_dotted:
  assumes "a < 256" "b < 256" "c < 256" "d < 256"
  shows "is_local (dotted a b c d) \<longleftrightarrow> \<not> public_quad (int a) (int b) (int c) (int d)"
proof -
  have "octets (int a) (int b) (int c) (int d)" using assms by (simp add: octets_def)
  from v4_local_quad [OF this] show ?thesis
    by (simp add: is_local_def normalize_dotted dotted_not_named ip_address_dotted [OF assms])
qed

text \<open>A URL whose authority is a dotted quad.\<close>

lemma url_hostname_dotted:
  assumes "r = [] \<or> hd r \<in> set ''/?#''" and "list_all (\<lambda>x. \<not> is_space x) r"
  shows "url_hostname (''http://'' @ dotted a b c d @ r) = Some (dotted a b c d)"
proof -
  have c: "x \<in> set (dotted a b c d) \<Longrightarrow> x \<noteq> CHR ''['' \<and> x \<noteq> CHR '']'' \<and> x \<noteq> CHR ''@'' \<and> x \<noteq> CHR '':''
      \<and> x \<noteq> CHR ''%'' \<and> x \<notin> set ''/?#'' \<and> lower_char x = x \<and> (of_char x :: nat) \<notin> {9, 10, 13}" for x
    using dotted_chars [of x a b c d] digit_lower [of x]
    by (auto simp: is_digit_char_def lower_char_def Let_def)
  have "\<forall>x\<in>set r. (of_char x :: nat) \<notin> {9, 10, 13}"
    using assms(2) by (auto simp: list_all_iff is_space_def Let_def)
  then have "url_clean (''http://'' @ dotted a b c d @ r) = ''http://'' @ dotted a b c d @ r"
    using c by (simp add: url_clean_def filter_id_conv)
  moreover have "url_after_scheme (''http://'' @ dotted a b c d @ r) = ''//'' @ dotted a b c d @ r"
    by (simp add: url_after_scheme_def after_char_def before_char_def is_ascii_alpha_def is_scheme_char_def)
  moreover have "takeWhile (\<lambda>x. x \<notin> set ''/?#'') (dotted a b c d @ r) = dotted a b c d"
    using c assms(1) by (cases r) (auto simp: takeWhile_append)
  ultimately have n: "url_netloc (''http://'' @ dotted a b c d @ r) = dotted a b c d"
    by (simp add: url_netloc_def Let_def)
  have "takeWhile (\<lambda>x. x \<noteq> CHR ''@'') (rev (dotted a b c d)) = rev (dotted a b c d)"
    using c by (auto simp: takeWhile_eq_all_conv)
  then have "after_last_char (CHR ''@'') (dotted a b c d) = dotted a b c d"
    by (simp only: after_last_char_def rev_rev_ident)
  moreover have "before_char (CHR '':'') (dotted a b c d) = dotted a b c d"
    "before_char (CHR ''%'') (dotted a b c d) = dotted a b c d"
    using c by (auto simp: before_char_def takeWhile_eq_all_conv)
  moreover have "py_lower (dotted a b c d) = dotted a b c d" using c by (simp add: py_lower_def map_idI)
  moreover have "CHR ''['' \<notin> set (dotted a b c d)" "CHR '']'' \<notin> set (dotted a b c d)" using c by blast+
  ultimately show ?thesis
    unfolding url_hostname_def n by (simp add: netloc_hostname_def Let_def)
qed

lemma not_unknown_host [simp]:
  "require_proof read clock p h c \<noteq> Inl (Unknown_host x)"
  "proof_evidence isofmt read clock t m h \<noteq> Inl (Unknown_host x)"
  "extract_host u \<noteq> Inl (Unknown_host x)"
  "safety_decision_of a r h m ev tm \<noteq> Inl (Unknown_host x)"
proof -
  show 1: "require_proof read clock p h c \<noteq> Inl (Unknown_host x)" for p h c
    by (auto simp: require_proof_def load_proof_def split: option.splits sum.splits proof_source.splits)
  show "proof_evidence isofmt read clock t m h \<noteq> Inl (Unknown_host x)"
    using 1 by (auto simp: proof_evidence_def split: sum.splits)
  show "extract_host u \<noteq> Inl (Unknown_host x)"
    by (auto simp: extract_host_def split: option.splits)
  show "safety_decision_of a r h m ev tm \<noteq> Inl (Unknown_host x)"
    by (simp add: safety_decision_of_def)
qed

lemma safety_decision_of_error: "safety_decision_of a r h m ev t = Inl e \<Longrightarrow> e = Decision_invalid"
  by (auto simp: safety_decision_of_def split: if_splits)

definition sample_target :: "string \<Rightarrow> string list \<Rightarrow> mode \<Rightarrow> target" where
  "sample_target url hosts m = \<lparr>t_base_url = url, t_allowed_hosts = hosts, t_mode = m, t_proof = Some ''proof.yaml''\<rparr>"

definition sample_proof :: "string \<Rightarrow> proof_source" where
  "sample_proof path = Src_proof \<lparr>po_host = ''staging.example.com'', po_actor = ''alice'',
     po_scope = [''functional'', ''destructive''], po_issued_at = 0, po_expires_at = 100\<rparr>"

definition sample_enforce :: "target \<Rightarrow> (safety_error + safety_decision) \<times> safety_decision list option" where
  "sample_enforce t = enforce str_of_int sample_proof 50 t None (Some []) None"

lemma sample_enforce_destructive:
  "sample_enforce (sample_target ''https://staging.example.com/'' [''staging.example.com:443''] Authorized_Destructive)
    = (Inr \<lparr>sd_allowed = True, sd_reason = ''Destructive mode allowed with valid proof-of-authorization.'',
         sd_host = ''staging.example.com'', sd_mode = Authorized_Destructive,
         sd_evidence = [''base_url_host=staging.example.com'', ''mode=authorized_destructive'',
           ''proof_actor=alice'', ''proof_expires_at='' @ str_of_int 100, ''result=allow''], sd_decided_at = 50\<rparr>,
       Some [\<lparr>sd_allowed = True, sd_reason = ''Destructive mode allowed with valid proof-of-authorization.'',
         sd_host = ''staging.example.com'', sd_mode = Authorized_Destructive,
         sd_evidence = [''base_url_host=staging.example.com'', ''mode=authorized_destructive'',
           ''proof_actor=alice'', ''proof_expires_at='' @ str_of_int 100, ''result=allow''], sd_decided_at = 50\<rparr>])"
proof -
  have h: "extract_host ''https://staging.example.com/'' = Inr ''staging.example.com''"
    by (simp add: extract_host_def url_eval normalize_host_def py_strip_def is_space_def py_startswith_def)
  have l: "is_local ''staging.example.com'' = False"
    by (simp add: is_local_def normalize_host_def ip_eval py_strip_def is_space_def py_startswith_def
        py_lower_def lower_char_def local_hosts_def)
  have a: "is_allowlisted ''staging.example.com'' [''staging.example.com:443'']"
    by (simp add: is_allowlisted_def normalize_host_def ip_eval py_strip_def is_space_def py_startswith_def
        py_lower_def lower_char_def)
  have p: "covers (case sample_proof f of Src_proof p \<Rightarrow> p) ''staging.example.com'' ''destructive'' 50" for f
    by (simp add: covers_def sample_proof_def)
  have b: "bounded_str (Suc 0) 512 ''staging.example.com''"
    "bounded_str (Suc 0) 2000 ''Destructive mode allowed with valid proof-of-authorization.''"
    by (simp_all add: bounded_str_def py_len_def is_cont_def)
  show ?thesis using l a p [of "''proof.yaml''"]
    by (simp add: sample_enforce_def enforce_def sample_target_def h proof_evidence_def require_proof_def
        load_proof_def sample_proof_def safety_decision_of_def b allow_reason_def log_decision_def)
qed

text \<open>
  A 6to4 address embeds a public IPv4 address (here 8.8.8.8), and addresses of the class E block
  are not private in the sense of RFC 1918; the library calls both private.
\<close>

lemma sixtofour_is_local: "is_local ''2002:808:808::1''" and class_e_is_local: "is_local ''240.1.2.3''"
  by (simp_all add: is_local_def normalize_host_def ip_eval py_strip_def is_space_def py_startswith_def
      py_lower_def lower_char_def local_hosts_def)

section \<open>Properties\<close>

text \<open>
  C17. No target is scanned outside the safety boundary: whenever \<open>enforce\<close> allows a target, the
  host of its URL is local or is one of the allowed hosts after normalisation, the decision is an
  allow decision in the effective mode, and in destructive mode the target's proof file was read,
  names that host, lists the capability \<open>destructive\<close> and is valid at the time of the check, for
  local hosts too.
\<close>

theorem enforce_sound:
  assumes "enforce isofmt read clock t req audit now = (Inr d, out)"
  shows "extract_host (t_base_url t) = Inr (sd_host d) \<and> sd_allowed d \<and>
    sd_mode d = (case req of None \<Rightarrow> t_mode t | Some m \<Rightarrow> m) \<and>
    (is_local (sd_host d) \<or> normalize_host (sd_host d) \<in> normalize_host ` set (t_allowed_hosts t)) \<and>
    (sd_mode d = Authorized_Destructive \<longrightarrow> (\<exists>path p. t_proof t = Some path \<and> read path = Src_proof p \<and>
       py_lower (sd_host d) = py_lower (po_host p) \<and> ''destructive'' \<in> set (po_scope p) \<and>
       po_issued_at p \<le> clock \<and> clock \<le> po_expires_at p))"
proof -
  let ?m = "case req of None \<Rightarrow> t_mode t | Some m \<Rightarrow> m"
  obtain host extra reason ev tm where host: "extract_host (t_base_url t) = Inr host"
    and ok: "is_local host \<or> is_allowlisted host (t_allowed_hosts t)"
    and pf: "proof_evidence isofmt read clock t ?m host = Inr extra"
    and d: "safety_decision_of True reason host ?m ev tm = Inr d"
    using assms unfolding enforce_def Let_def by (auto split: sum.splits if_splits)
  have "?m = Authorized_Destructive \<Longrightarrow> \<exists>p. require_proof read clock (t_proof t) host ''destructive'' = Inr p"
    using pf by (auto simp: proof_evidence_def split: sum.splits)
  then show ?thesis
    using host ok safety_decision_of_fields [OF d] require_proof_sound [of read clock "t_proof t" host "''destructive''"]
    by (auto simp: is_allowlisted_iff)
qed

theorem enforce_sound_witness:
  "is_local ''staging.example.com'' \<or> normalize_host ''staging.example.com'' \<in> {normalize_host ''staging.example.com:443''}"
  using enforce_sound [OF sample_enforce_destructive [unfolded sample_enforce_def]] by (simp add: sample_target_def)

text \<open>
  The audit log is append-only and its lines are the decisions: an allowed target adds its
  decision, a host outside the boundary adds one refusal that names it before the error is
  raised, and every other error (a URL without a host, a missing or insufficient proof) leaves
  the log as it was.
\<close>

theorem enforce_audit:
  assumes "enforce isofmt read clock t req (Some l) now = (r, out)"
  shows "case r of
      Inr d \<Rightarrow> out = Some (l @ [d])
    | Inl (Unknown_host h) \<Rightarrow> \<exists>d. out = Some (l @ [d]) \<and> \<not> sd_allowed d \<and> sd_host d = h
    | Inl _ \<Rightarrow> out = Some l"
  using assms unfolding enforce_def Let_def
  by (auto simp: log_decision_def split: sum.splits if_splits safety_error.splits
      dest: safety_decision_of_fields)

theorem enforce_audit_witness:
  "\<exists>d. snd (sample_enforce (sample_target ''https://staging.example.com/'' [''staging.example.com:443''] Authorized_Destructive))
     = Some ([] @ [d])"
  using enforce_audit [OF sample_enforce_destructive [unfolded sample_enforce_def]]
  by (simp add: sample_enforce_destructive)

text \<open>
  Public addresses need the allowlist: a target whose URL names an IPv4 address outside the
  special-purpose blocks (loopback, private, link-local, test networks, reserved) is refused
  with its address unless an allowed host normalises to exactly that address, whatever follows
  the authority in the URL, in every mode and with any proof.
\<close>

theorem public_ipv4_refused:
  assumes "t_base_url t = ''http://'' @ dotted a b c d @ r" and "r = [] \<or> hd r \<in> set ''/?#''"
    and "list_all (\<lambda>x. \<not> is_space x) r"
    and "a < 256" and "b < 256" and "c < 256" and "d < 256"
    and "public_quad (int a) (int b) (int c) (int d)"
    and "dotted a b c d \<notin> normalize_host ` set (t_allowed_hosts t)"
  shows "fst (enforce isofmt read clock t req audit now) \<in> {Inl (Unknown_host (dotted a b c d)), Inl Decision_invalid}"
proof -
  have "extract_host (t_base_url t) = Inr (dotted a b c d)"
    unfolding assms(1) extract_host_def url_hostname_dotted [OF assms(2, 3)]
    by (simp add: dotted_nonempty normalize_dotted)
  moreover have "\<not> is_local (dotted a b c d)" using assms by (simp add: is_local_dotted)
  moreover have "\<not> is_allowlisted (dotted a b c d) (t_allowed_hosts t)"
    using assms(9) by (simp add: is_allowlisted_iff normalize_dotted)
  ultimately show ?thesis unfolding enforce_def Let_def
    by (auto split: sum.splits dest: safety_decision_of_error)
qed

theorem public_ipv4_refused_witness:
  "fst (sample_enforce (sample_target (''http://'' @ dotted 8 8 8 8 @ ''/x'') [] Safe))
     \<in> {Inl (Unknown_host (dotted 8 8 8 8)), Inl Decision_invalid}"
  unfolding sample_enforce_def
  by (rule public_ipv4_refused [where r = "''/x''"])
    (simp_all add: sample_target_def is_space_def public_quad_def)

end
