(* ===== verification/Redaction.thy ===== *)
theory Redaction
  imports Domain
begin

text \<open>
  \<open>engine/policy/redaction.py\<close>: the structural redactor that every log line, audit entry and
  agent message passes through, and the header redactor. The regular-expression pass over one
  string (\<open>_redact_string\<close>: the built-in rules, then the entropy heuristic) is the argument
  \<open>scrub\<close>. Tuples and sets are lists, as the code coerces them; \<open>J_opaque\<close> is an object of
  another type, given by its \<open>repr\<close>.
\<close>

datatype json = J_null | J_bool bool | J_int int | J_float flt | J_str string
  | J_list "json list" | J_obj "(string \<times> json) list" | J_opaque string

definition redacted :: "string \<Rightarrow> string" where
  "redacted category = ''[REDACTED:'' @ category @ '']''"

definition secret_key_names :: "string list" where
  "secret_key_names = [''password'', ''passwd'', ''pwd'', ''secret'', ''token'', ''access_token'',
     ''refresh_token'', ''id_token'', ''auth_token'', ''session_token'', ''session_id'', ''sessionid'',
     ''csrf_token'', ''xsrf_token'', ''cookie'', ''cookies'', ''set_cookie'', ''set-cookie'',
     ''authorization'', ''proxy_authorization'', ''proxy-authorization'', ''api_key'', ''apikey'',
     ''api-key'', ''x_api_key'', ''x-api-key'', ''x_auth_token'', ''x-auth-token'', ''client_secret'',
     ''private_key'', ''privatekey'', ''rsa_private_key'', ''ssh_key'', ''service_account_key'',
     ''localstorage'', ''local_storage'', ''storage_state'', ''storage_state_json'']"

definition category_for_key :: "(string, string) dict" where
  "category_for_key = [(''password'', ''password''), (''passwd'', ''password''), (''pwd'', ''password''),
     (''secret'', ''secret_field''), (''token'', ''token''), (''access_token'', ''access_token''),
     (''refresh_token'', ''refresh_token''), (''id_token'', ''id_token''), (''auth_token'', ''auth_token''),
     (''session_token'', ''session_id''), (''session_id'', ''session_id''), (''sessionid'', ''session_id''),
     (''csrf_token'', ''csrf_token''), (''xsrf_token'', ''csrf_token''), (''cookie'', ''cookie''),
     (''set_cookie'', ''cookie''), (''set-cookie'', ''cookie''), (''authorization'', ''authorization''),
     (''proxy_authorization'', ''authorization''), (''proxy-authorization'', ''authorization''),
     (''api_key'', ''api_key''), (''apikey'', ''api_key''), (''api-key'', ''api_key''),
     (''x_api_key'', ''api_key''), (''x-api-key'', ''api_key''), (''x_auth_token'', ''auth_token''),
     (''x-auth-token'', ''auth_token''), (''client_secret'', ''client_secret''),
     (''private_key'', ''private_key''), (''privatekey'', ''private_key''),
     (''rsa_private_key'', ''private_key''), (''ssh_key'', ''private_key''),
     (''service_account_key'', ''gcp_service_account''), (''cookies'', ''cookie''),
     (''localstorage'', ''local_storage''), (''local_storage'', ''local_storage''),
     (''storage_state'', ''storage_state''), (''storage_state_json'', ''storage_state'')]"

definition key_category :: "string \<Rightarrow> string option" where
  "key_category key =
     (let lowered = replace_char (CHR ''-'') ''_'' (py_lower key) in
      if lowered \<in> set secret_key_names then Some (dict_get category_for_key lowered ''secret_field'')
      else None)"

fun redact :: "(string \<Rightarrow> string) \<Rightarrow> nat \<Rightarrow> json \<Rightarrow> json" where
  "redact scrub 0 v = J_str (redacted ''depth_limit'')"
| "redact scrub (Suc d) J_null = J_null"
| "redact scrub (Suc d) (J_bool b) = J_bool b"
| "redact scrub (Suc d) (J_int i) = J_int i"
| "redact scrub (Suc d) (J_float x) = J_float x"
| "redact scrub (Suc d) (J_str s) = J_str (scrub s)"
| "redact scrub (Suc d) (J_obj items) =
     J_obj (map (\<lambda>(k, sub). case key_category k of
         Some c \<Rightarrow> if sub \<noteq> J_null \<and> sub \<noteq> J_str [] then (k, J_str (redacted c)) else (k, redact scrub d sub)
       | None \<Rightarrow> (k, redact scrub d sub)) items)"
| "redact scrub (Suc d) (J_list vs) = J_list (map (redact scrub d) vs)"
| "redact scrub (Suc d) (J_opaque r) = J_str (scrub r)"

definition always_redact :: "string list" where
  "always_redact = [''authorization'', ''proxy-authorization'', ''cookie'', ''set-cookie'', ''x-api-key'',
     ''api-key'', ''x-auth-token'', ''x-csrf-token'', ''x-xsrf-token'']"

definition redact_headers :: "(string \<Rightarrow> string) \<Rightarrow> (string, string) dict \<Rightarrow> (string, string) dict" where
  "redact_headers scrub headers =
     foldl (\<lambda>out (name, v). let lowered = py_lower name in
         if lowered \<in> set always_redact then AList.update name (redacted lowered) out
         else AList.update name (scrub v) out) [] headers"

section \<open>Masking\<close>

text \<open>
  The part of a value that its redaction may depend on: what stands under a sensitive key is
  forgotten, unless it is null or an empty string, which the code leaves in place. An object is the
  list of its entries under their string keys: two keys of a Python mapping with the same text
  \<open>str(key)\<close>, which the code would merge, are not modelled.
\<close>

fun mask :: "json \<Rightarrow> json" where
  "mask (J_obj items) =
     J_obj (map (\<lambda>(k, sub).
         if key_category k \<noteq> None \<and> sub \<noteq> J_null \<and> sub \<noteq> J_str [] then (k, J_bool True)
         else (k, mask sub)) items)"
| "mask (J_list vs) = J_list (map mask vs)"
| "mask v = v"

lemma mask_blank [simp]: "mask v = J_null \<longleftrightarrow> v = J_null" "mask v = J_str [] \<longleftrightarrow> v = J_str []"
  by (cases v; simp)+

lemma redact_mask: "redact scrub d (mask v) = redact scrub d v"
proof (induction scrub d v rule: redact.induct)
  case (7 scrub d items)
  let ?F = "\<lambda>(k, sub). case key_category k of
      Some c \<Rightarrow> if sub \<noteq> J_null \<and> sub \<noteq> J_str [] then (k, J_str (redacted c)) else (k, redact scrub d sub)
    | None \<Rightarrow> (k, redact scrub d sub)"
  let ?G = "\<lambda>(k, sub). if key_category k \<noteq> None \<and> sub \<noteq> J_null \<and> sub \<noteq> J_str [] then (k, J_bool True) else (k, mask sub)"
  have "?F (?G e) = ?F e" if "e \<in> set items" for e
  proof (cases e)
    case (Pair k sub)
    have "redact scrub d (mask sub) = redact scrub d sub" if "key_category k = None \<or> sub = J_null \<or> sub = J_str []"
      using that
    proof (cases "key_category k")
      case None
      then show ?thesis using 7 \<open>e \<in> set items\<close> Pair by metis
    next
      case (Some c)
      with that show ?thesis by auto
    qed
    then show ?thesis by (simp add: Pair split: option.split)
  qed
  then have "map ?F (map ?G items) = map ?F items"
    unfolding map_map by (intro map_cong [OF refl]) (simp only: comp_apply)
  then show ?case by (simp only: mask.simps redact.simps)
qed simp_all

section \<open>Properties\<close>

text \<open>
  C39. Secrets do not reach what is logged: two values that agree except for what stands under
  sensitive keys (at any depth, in any object or list) are redacted to the same output. Null and the
  empty string are the exception: under a sensitive key they are left as they are, so the output
  shows whether a password, token, cookie or key stored under its name was set, and nothing else
  about it. The theorem compares values whose masks are equal, and the mask keeps exactly that. No
  assumption is made on the value-level pass.
\<close>

theorem redact_noninterference:
  assumes "mask v = mask w"
  shows "redact scrub d v = redact scrub d w"
  by (metis assms redact_mask)

theorem redact_noninterference_witness:
  "redact id 6 (J_obj [(''host'', J_str ''h''), (''X-Api-Key'', J_str ''hunter2'')])
     = redact id 6 (J_obj [(''host'', J_str ''h''), (''X-Api-Key'', J_list [J_str ''other''])])"
proof (rule redact_noninterference)
  have "key_category ''X-Api-Key'' = Some ''api_key''" by code_simp
  then show "mask (J_obj [(''host'', J_str ''h''), (''X-Api-Key'', J_str ''hunter2'')])
     = mask (J_obj [(''host'', J_str ''h''), (''X-Api-Key'', J_list [J_str ''other''])])" by simp
qed

text \<open>
  The header redactor's own list is not a superset of the sensitive names: a header called
  \<open>token\<close> or \<open>password\<close> only gets the value-level pass.
\<close>

lemma redact_headers_token: "redact_headers scrub [(''token'', v)] = [(''token'', scrub v)]"
proof -
  have "''token'' \<in> set secret_key_names" and "py_lower ''token'' \<notin> set always_redact" by code_simp+
  then show ?thesis by (simp add: redact_headers_def)
qed

end
