(* ===== verification/Shards.thy ===== *)
theory Shards
  imports Prelude
begin

text \<open>
  The distributed shard queue: the payloads and the coordinator contract of
  \<open>engine/runner/shards/protocol.py\<close> and its reference implementation
  \<open>engine/runner/shards/in_memory.py\<close>. Every method runs under one lock, so an execution is a
  sequence of operations (\<open>coord_op\<close>); the clock values an operation reads are its arguments, in
  microseconds. \<open>coord_inv\<close> is the well-formedness of the task table and the queue, kept by every
  operation (interpretation of \<open>growing_machine\<close>); the locale \<open>shard_coordinator\<close> states what a
  worker relies on and the interpretation \<open>mem\<close> shows that the implementation provides it.
\<close>

section \<open>Payloads\<close>

datatype shard_status = S_pending | S_in_progress | S_completed | S_failed | S_lost

record shard_task =
  sk_id :: string
  sk_run_id :: string
  sk_index :: int
  sk_total :: int
  sk_spec_paths :: "string list"

datatype shard_error = Bad_shard_index int int | Already_enqueued string | Unknown_task string
  | Wrong_worker string string

definition make_shard_task ::
  "string \<Rightarrow> string \<Rightarrow> int \<Rightarrow> int \<Rightarrow> string list \<Rightarrow> shard_error + shard_task" where
  "make_shard_task i r idx tot specs =
     (if idx < 1 \<or> tot < 1 then Inl (Bad_shard_index idx tot)
      else if tot < idx then Inl (Bad_shard_index idx tot)
      else Inr \<lparr>sk_id = i, sk_run_id = r, sk_index = idx, sk_total = tot, sk_spec_paths = specs\<rparr>)"

record shard_lease =
  sl_task :: shard_task
  sl_worker_id :: string
  sl_leased_at :: int
  sl_expires_at :: int

record shard_result =
  sr_task_id :: string
  sr_run_id :: string
  sr_worker_id :: string
  sr_status :: shard_status
  sr_findings_json :: string
  sr_module_results_json :: string
  sr_error_message :: string

section \<open>The in-memory coordinator\<close>

record task_state =
  ts_task :: shard_task
  ts_status :: shard_status
  ts_worker_id :: string
  ts_leased_until :: "int option"
  ts_error_message :: string

record coordinator =
  co_tasks :: "(string, task_state) dict"
  co_queue :: "string list"
  co_results :: "(string, shard_result list) dict"

definition empty_coordinator :: coordinator where
  "empty_coordinator = \<lparr>co_tasks = [], co_queue = [], co_results = []\<rparr>"

definition enqueue :: "shard_task \<Rightarrow> coordinator \<Rightarrow> shard_error + coordinator" where
  "enqueue t s =
     (if map_of (co_tasks s) (sk_id t) \<noteq> None then Inl (Already_enqueued (sk_id t))
      else Inr (s\<lparr>co_tasks := AList.update (sk_id t)
                     \<lparr>ts_task = t, ts_status = S_pending, ts_worker_id = [], ts_leased_until = None,
                      ts_error_message = []\<rparr> (co_tasks s),
                  co_queue := co_queue s @ [sk_id t]\<rparr>))"

definition lease_expired :: "int \<Rightarrow> task_state \<Rightarrow> bool" where
  "lease_expired now st \<longleftrightarrow> ts_status st = S_in_progress \<and>
     (case ts_leased_until st of None \<Rightarrow> False | Some u \<Rightarrow> u < now)"

definition reclaim_expired :: "int \<Rightarrow> coordinator \<Rightarrow> coordinator" where
  "reclaim_expired now s =
     s\<lparr>co_tasks := map (\<lambda>(i, st). (i, if lease_expired now st
          then st\<lparr>ts_status := S_pending, ts_worker_id := [], ts_leased_until := None\<rparr> else st)) (co_tasks s),
       co_queue := co_queue s @ map (\<lambda>(i, st). sk_id (ts_task st)) (filter (\<lambda>(i, st). lease_expired now st) (co_tasks s))\<rparr>"

text \<open>The \<open>while self._queue\<close> loop of \<open>claim\<close>: stale entries are dropped.\<close>

fun claim_loop ::
  "string \<Rightarrow> int \<Rightarrow> int \<Rightarrow> (string, task_state) dict \<Rightarrow> string list
     \<Rightarrow> shard_lease option \<times> (string, task_state) dict \<times> string list" where
  "claim_loop w lease now tasks [] = (None, tasks, [])"
| "claim_loop w lease now tasks (i # q) =
     (case map_of tasks i of
        None \<Rightarrow> claim_loop w lease now tasks q
      | Some st \<Rightarrow>
          if ts_status st \<noteq> S_pending then claim_loop w lease now tasks q
          else (Some \<lparr>sl_task = ts_task st, sl_worker_id = w, sl_leased_at = now,
                      sl_expires_at = now + 1000000 * lease\<rparr>,
                AList.update i (st\<lparr>ts_status := S_in_progress, ts_worker_id := w,
                                   ts_leased_until := Some (now + 1000000 * lease)\<rparr>) tasks,
                q))"

definition claim :: "string \<Rightarrow> int \<Rightarrow> int \<Rightarrow> int \<Rightarrow> coordinator \<Rightarrow> shard_lease option \<times> coordinator" where
  "claim w lease now now' s =
     (let s' = reclaim_expired now s in
      case claim_loop w lease now' (co_tasks s') (co_queue s') of
        (l, tasks, q) \<Rightarrow> (l, s'\<lparr>co_tasks := tasks, co_queue := q\<rparr>))"

definition heartbeat :: "string \<Rightarrow> string \<Rightarrow> int \<Rightarrow> coordinator \<Rightarrow> bool \<times> coordinator" where
  "heartbeat w i now s =
     (case map_of (co_tasks s) i of
        None \<Rightarrow> (False, s)
      | Some st \<Rightarrow>
          if ts_worker_id st \<noteq> w then (False, s)
          else if ts_status st \<noteq> S_in_progress then (False, s)
          else if (case ts_leased_until st of None \<Rightarrow> True | Some u \<Rightarrow> u < now)
          then (False, s\<lparr>co_tasks := AList.update i (st\<lparr>ts_status := S_lost\<rparr>) (co_tasks s)\<rparr>)
          else (True, s\<lparr>co_tasks := AList.update i
                  (st\<lparr>ts_leased_until := Some (now + 1000000 * 60)\<rparr>) (co_tasks s)\<rparr>))"

definition complete :: "shard_result \<Rightarrow> coordinator \<Rightarrow> shard_error + coordinator" where
  "complete r s =
     (case map_of (co_tasks s) (sr_task_id r) of
        None \<Rightarrow> Inl (Unknown_task (sr_task_id r))
      | Some st \<Rightarrow>
          if ts_worker_id st \<noteq> [] \<and> ts_worker_id st \<noteq> sr_worker_id r
          then Inl (Wrong_worker (sr_worker_id r) (ts_worker_id st))
          else Inr (s\<lparr>co_tasks := AList.update (sr_task_id r) (st\<lparr>ts_status := S_completed\<rparr>) (co_tasks s),
                      co_results := AList.update (sr_run_id r) (dict_get (co_results s) (sr_run_id r) [] @ [r])
                                      (co_results s)\<rparr>))"

definition fail_task :: "string \<Rightarrow> string \<Rightarrow> string \<Rightarrow> coordinator \<Rightarrow> shard_error + coordinator" where
  "fail_task i w msg s =
     (case map_of (co_tasks s) i of
        None \<Rightarrow> Inl (Unknown_task i)
      | Some st \<Rightarrow>
          if ts_worker_id st \<noteq> [] \<and> ts_worker_id st \<noteq> w then Inl (Wrong_worker w (ts_worker_id st))
          else Inr (s\<lparr>co_tasks := AList.update i (st\<lparr>ts_status := S_failed, ts_error_message := msg\<rparr>)
                                    (co_tasks s)\<rparr>))"

definition results :: "string \<Rightarrow> coordinator \<Rightarrow> shard_result list" where
  "results run_id s = dict_get (co_results s) run_id []"

definition pending :: "string \<Rightarrow> coordinator \<Rightarrow> nat" where
  "pending run_id s = length (filter (\<lambda>(i, st). sk_run_id (ts_task st) = run_id \<and>
     ts_status st \<in> {S_pending, S_in_progress}) (co_tasks s))"

section \<open>Executions\<close>

datatype coord_op = Enqueue shard_task | Claim string int int int | Heartbeat string string int
  | Complete shard_result | Fail string string string

text \<open>The state after an operation; one that raises leaves the state as it was.\<close>

fun coord_step :: "coordinator \<Rightarrow> coord_op \<Rightarrow> coordinator" where
  "coord_step s (Enqueue t) = (case enqueue t s of Inl _ \<Rightarrow> s | Inr s' \<Rightarrow> s')"
| "coord_step s (Claim w lease now now') = snd (claim w lease now now' s)"
| "coord_step s (Heartbeat w i now) = snd (heartbeat w i now s)"
| "coord_step s (Complete r) = (case complete r s of Inl _ \<Rightarrow> s | Inr s' \<Rightarrow> s')"
| "coord_step s (Fail i w msg) = (case fail_task i w msg s of Inl _ \<Rightarrow> s | Inr s' \<Rightarrow> s')"

inductive reachable :: "coordinator \<Rightarrow> bool" where
  start: "reachable empty_coordinator"
| step: "reachable s \<Longrightarrow> reachable (coord_step s op)"

section \<open>The invariant\<close>

definition status_of :: "coordinator \<Rightarrow> string \<Rightarrow> shard_status option" where
  "status_of s i = map_option ts_status (map_of (co_tasks s) i)"

text \<open>Over the lookup function of the table and the queue.\<close>

definition queue_inv :: "(string \<Rightarrow> task_state option) \<Rightarrow> string list \<Rightarrow> bool" where
  "queue_inv m q \<longleftrightarrow> distinct q \<and> set q \<subseteq> dom m \<and>
     (\<forall>i st. m i = Some st \<longrightarrow> sk_id (ts_task st) = i \<and>
        (ts_status st = S_pending \<longrightarrow> i \<in> set q) \<and>
        (ts_status st = S_in_progress \<longrightarrow> i \<notin> set q \<and> ts_leased_until st \<noteq> None))"

definition coord_inv :: "coordinator \<Rightarrow> bool" where
  "coord_inv s \<longleftrightarrow> distinct (map fst (co_tasks s)) \<and> queue_inv (map_of (co_tasks s)) (co_queue s)"

lemma coord_inv_upd:
  "coord_inv (s\<lparr>co_tasks := t, co_queue := q\<rparr>) \<longleftrightarrow> distinct (map fst t) \<and> queue_inv (map_of t) q"
  by (simp add: coord_inv_def)

lemma map_of_map_val: "map_of (map (\<lambda>(i, v). (i, f v)) d) = (\<lambda>i. map_option f (map_of d i))"
  by (induction d) auto

definition reset_expired :: "int \<Rightarrow> task_state \<Rightarrow> task_state" where
  "reset_expired now st = (if lease_expired now st
     then st\<lparr>ts_status := S_pending, ts_worker_id := [], ts_leased_until := None\<rparr> else st)"

lemma reclaim_tasks:
  "co_tasks (reclaim_expired now s) = map (\<lambda>(i, st). (i, reset_expired now st)) (co_tasks s)"
  by (simp add: reclaim_expired_def reset_expired_def cong: if_cong)

lemma reclaim_lookup:
  "map_of (co_tasks (reclaim_expired now s)) = (\<lambda>i. map_option (reset_expired now) (map_of (co_tasks s) i))"
  by (simp add: reclaim_tasks map_of_map_val)

lemma reclaim_results [simp]: "co_results (reclaim_expired now s) = co_results s"
  by (simp add: reclaim_expired_def)

lemma reset_simps [simp]:
  "ts_task (reset_expired now st) = ts_task st"
  "ts_status (reset_expired now st) = (if lease_expired now st then S_pending else ts_status st)"
  "ts_leased_until (reset_expired now st) = (if lease_expired now st then None else ts_leased_until st)"
  "ts_worker_id (reset_expired now st) = (if lease_expired now st then [] else ts_worker_id st)"
  by (simp_all add: reset_expired_def)

lemma reclaim_queue:
  assumes "coord_inv s"
  shows "co_queue (reclaim_expired now s) =
    co_queue s @ map fst (filter (\<lambda>(i, st). lease_expired now st) (co_tasks s))"
  using assms by (auto simp: reclaim_expired_def coord_inv_def queue_inv_def intro!: map_cong)

lemma queue_inv_reclaim:
  assumes "queue_inv m q" and "distinct xs" and xs: "set xs = {i. \<exists>st. m i = Some st \<and> lease_expired now st}"
  shows "queue_inv (\<lambda>i. map_option (reset_expired now) (m i)) (q @ xs)"
proof -
  have e: "lease_expired now st \<Longrightarrow> ts_status st = S_in_progress" for st by (simp add: lease_expired_def)
  have "set q \<inter> set xs = {}" using assms(1) e unfolding xs queue_inv_def by blast
  then show ?thesis using assms(1, 2) e unfolding queue_inv_def by (auto simp: xs split: if_splits)
qed

lemma reclaim_inv:
  assumes "coord_inv s"
  shows "coord_inv (reclaim_expired now s)"
proof -
  have dist: "distinct (map fst (co_tasks s))" and q: "queue_inv (map_of (co_tasks s)) (co_queue s)"
    using assms by (simp_all add: coord_inv_def)
  have "set (map fst (filter (\<lambda>(i, st). lease_expired now st) (co_tasks s)))
      = {i. \<exists>st. map_of (co_tasks s) i = Some st \<and> lease_expired now st}"
    using dist by (force simp: image_iff)
  from queue_inv_reclaim [OF q distinct_map_filter [OF dist] this] show ?thesis
    using dist by (simp add: coord_inv_def reclaim_queue [OF assms] reclaim_tasks map_of_map_val comp_def case_prod_beta)
qed

lemma queue_inv_update:
  assumes "queue_inv m q" and "m i = Some st" and "ts_task st' = ts_task st"
    and "ts_status st' \<in> {S_completed, S_failed, S_lost} \<or>
      (ts_status st = S_in_progress \<and> ts_status st' = S_in_progress \<and> ts_leased_until st' \<noteq> None)"
  shows "queue_inv (m(i \<mapsto> st')) q"
  using assms unfolding queue_inv_def by (auto simp: domIff)

section \<open>Claims\<close>

definition is_pending :: "(string, task_state) dict \<Rightarrow> string \<Rightarrow> bool" where
  "is_pending tasks i \<longleftrightarrow> (\<exists>st. map_of tasks i = Some st \<and> ts_status st = S_pending)"

definition leased :: "string \<Rightarrow> int \<Rightarrow> int \<Rightarrow> task_state \<Rightarrow> task_state" where
  "leased w lease now st = st\<lparr>ts_status := S_in_progress, ts_worker_id := w,
     ts_leased_until := Some (now + 1000000 * lease)\<rparr>"

text \<open>The loop takes the first pending id of the queue, and drops what stands before it.\<close>

lemma claim_loop_none:
  "\<forall>i\<in>set q. \<not> is_pending tasks i \<Longrightarrow> claim_loop w lease now tasks q = (None, tasks, [])"
  by (induction q) (auto simp: is_pending_def split: option.split)

lemma claim_loop_some:
  assumes "\<forall>j\<in>set p. \<not> is_pending tasks j" and "map_of tasks i = Some st" and "ts_status st = S_pending"
  shows "claim_loop w lease now tasks (p @ i # q) =
    (Some \<lparr>sl_task = ts_task st, sl_worker_id = w, sl_leased_at = now, sl_expires_at = now + 1000000 * lease\<rparr>,
     AList.update i (leased w lease now st) tasks, q)"
  using assms by (induction p) (auto simp: is_pending_def leased_def split: option.split)

lemma claim_loop_cases:
  obtains (none) "\<forall>i\<in>set q. \<not> is_pending tasks i" "claim_loop w lease now tasks q = (None, tasks, [])"
  | (some) p i st q' where "q = p @ i # q'" "\<forall>j\<in>set p. \<not> is_pending tasks j" "map_of tasks i = Some st"
      "ts_status st = S_pending"
      "claim_loop w lease now tasks q =
        (Some \<lparr>sl_task = ts_task st, sl_worker_id = w, sl_leased_at = now, sl_expires_at = now + 1000000 * lease\<rparr>,
         AList.update i (leased w lease now st) tasks, q')"
proof (cases "\<exists>i\<in>set q. is_pending tasks i")
  case True
  then obtain p i q' where q: "q = p @ i # q'" "is_pending tasks i" "\<forall>j\<in>set p. \<not> is_pending tasks j"
    by (rule split_list_first_propE)
  from q(2) obtain st where st: "map_of tasks i = Some st" "ts_status st = S_pending" by (auto simp: is_pending_def)
  show ?thesis by (rule some [OF q(1, 3) st]) (simp add: q(1) claim_loop_some [OF q(3) st])
next
  case False
  then have *: "\<forall>i\<in>set q. \<not> is_pending tasks i" by blast
  show ?thesis by (rule none [OF * claim_loop_none [OF *]])
qed

lemma queue_inv_claim:
  assumes "queue_inv m (p @ i # q)" and "m i = Some st" and "ts_status st = S_pending"
    and "\<forall>j\<in>set p. \<forall>st. m j = Some st \<longrightarrow> ts_status st \<noteq> S_pending"
  shows "queue_inv (m(i \<mapsto> leased w lease now st)) q"
proof -
  have "j \<in> set q" if "m j = Some st'" "ts_status st' = S_pending" "j \<noteq> i" for j st'
    using assms(1, 4) that unfolding queue_inv_def by fastforce
  then show ?thesis using assms unfolding queue_inv_def leased_def by (auto simp: domIff)
qed

lemma queue_inv_drop:
  "queue_inv m q \<Longrightarrow> \<forall>j\<in>set q. \<forall>st. m j = Some st \<longrightarrow> ts_status st \<noteq> S_pending \<Longrightarrow> queue_inv m []"
  unfolding queue_inv_def by auto

lemma claim_cases:
  assumes "coord_inv s"
  obtains (none) "claim w lease now now' s = (None, (reclaim_expired now s)\<lparr>co_queue := []\<rparr>)"
      "\<forall>i. \<not> is_pending (co_tasks (reclaim_expired now s)) i"
  | (some) i st q where "map_of (co_tasks (reclaim_expired now s)) i = Some st" "ts_status st = S_pending"
      "claim w lease now now' s =
        (Some \<lparr>sl_task = ts_task st, sl_worker_id = w, sl_leased_at = now', sl_expires_at = now' + 1000000 * lease\<rparr>,
         (reclaim_expired now s)\<lparr>co_tasks := AList.update i (leased w lease now' st) (co_tasks (reclaim_expired now s)),
           co_queue := q\<rparr>)"
      "coord_inv (snd (claim w lease now now' s))"
proof -
  let ?s = "reclaim_expired now s"
  note inv = reclaim_inv [OF assms, of now, unfolded coord_inv_def]
  show ?thesis
  proof (cases rule: claim_loop_cases [of "co_queue ?s" "co_tasks ?s" w lease now'])
    case none
    moreover have "is_pending (co_tasks ?s) i \<Longrightarrow> i \<in> set (co_queue ?s)" for i
      using inv unfolding queue_inv_def is_pending_def by blast
    ultimately show ?thesis using that(1) by (auto simp: claim_def Let_def)
  next
    case (some p i st q)
    have new: "queue_inv ((map_of (co_tasks ?s))(i \<mapsto> leased w lease now' st)) q"
      using inv some(1-4) by (intro queue_inv_claim) (auto simp: is_pending_def)
    have eq: "claim w lease now now' s =
        (Some \<lparr>sl_task = ts_task st, sl_worker_id = w, sl_leased_at = now', sl_expires_at = now' + 1000000 * lease\<rparr>,
         ?s\<lparr>co_tasks := AList.update i (leased w lease now' st) (co_tasks ?s), co_queue := q\<rparr>)"
      by (simp only: claim_def Let_def some(5) prod.case)
    have "distinct (map fst (AList.update i (leased w lease now' st) (co_tasks ?s)))"
      using inv by (intro distinct_update) (rule conjunct1)
    then have "coord_inv (snd (claim w lease now now' s))"
      unfolding eq snd_conv coord_inv_upd using new by simp
    then show ?thesis by (rule that(2) [OF some(3, 4) eq])
  qed
qed

lemma claim_inv:
  assumes "coord_inv s"
  shows "coord_inv (snd (claim w lease now now' s))"
  using assms
proof (cases rule: claim_cases [of s w lease now now'])
  case none
  have "queue_inv (map_of (co_tasks (reclaim_expired now s))) []"
    using reclaim_inv [OF assms, of now] none(2) unfolding coord_inv_def queue_inv_def is_pending_def by auto
  moreover have "distinct (map fst (co_tasks (reclaim_expired now s)))"
    using reclaim_inv [OF assms, of now] by (simp add: coord_inv_def)
  ultimately show ?thesis by (simp add: none(1) coord_inv_def)
next
  case some
  then show ?thesis by blast
qed

section \<open>Every operation keeps the invariant\<close>

lemma enqueue_inv: "coord_inv s \<Longrightarrow> enqueue t s = Inr s' \<Longrightarrow> coord_inv s'"
  by (auto simp: enqueue_def coord_inv_def queue_inv_def distinct_update split: if_splits)

lemma update_inv:
  assumes "coord_inv s" and "map_of (co_tasks s) i = Some st" and "ts_task st' = ts_task st"
    and "ts_status st' \<in> {S_completed, S_failed, S_lost} \<or>
      (ts_status st = S_in_progress \<and> ts_status st' = S_in_progress \<and> ts_leased_until st' \<noteq> None)"
  shows "coord_inv (s\<lparr>co_tasks := AList.update i st' (co_tasks s)\<rparr>)"
  using assms queue_inv_update [of "map_of (co_tasks s)" "co_queue s" i st st']
  by (simp add: coord_inv_def distinct_update)

lemma heartbeat_inv: "coord_inv s \<Longrightarrow> coord_inv (snd (heartbeat w i now s))"
  by (auto simp: heartbeat_def intro!: update_inv split: option.split)

lemma complete_inv: "coord_inv s \<Longrightarrow> complete r s = Inr s' \<Longrightarrow> coord_inv s'"
  using update_inv [of s "sr_task_id r"]
  by (fastforce simp: complete_def coord_inv_def split: option.splits if_splits)

lemma fail_inv: "coord_inv s \<Longrightarrow> fail_task i w msg s = Inr s' \<Longrightarrow> coord_inv s'"
  using update_inv [of s i] by (fastforce simp: fail_task_def coord_inv_def split: option.splits if_splits)

lemma coord_step_inv: "coord_inv s \<Longrightarrow> coord_inv (coord_step s op)"
  by (cases op) (auto intro: enqueue_inv claim_inv heartbeat_inv complete_inv fail_inv split: sum.split)

lemma empty_inv: "coord_inv empty_coordinator"
  by (simp add: coord_inv_def queue_inv_def empty_coordinator_def)

lemma reachable_inv: "reachable s \<Longrightarrow> coord_inv s"
  by (induction rule: reachable.induct) (auto intro: empty_inv coord_step_inv)

text \<open>Tasks are never forgotten or exchanged, and recorded results are never retracted.\<close>

definition coord_below :: "coordinator \<Rightarrow> coordinator \<Rightarrow> bool" where
  "coord_below s s' \<longleftrightarrow>
     (\<forall>i st. map_of (co_tasks s) i = Some st \<longrightarrow> (\<exists>st'. map_of (co_tasks s') i = Some st' \<and> ts_task st' = ts_task st)) \<and>
     (\<forall>r. \<exists>new. results r s' = results r s @ new)"

lemma coord_below_update:
  "map_of (co_tasks s) i = Some st \<Longrightarrow> ts_task st' = ts_task st \<Longrightarrow>
     coord_below s (s\<lparr>co_tasks := AList.update i st' (co_tasks s)\<rparr>)"
  by (auto simp: coord_below_def results_def)

lemma coord_below_claim: "coord_inv s \<Longrightarrow> coord_below s (snd (claim w lease now now' s))"
  by (cases rule: claim_cases [of s w lease now now'])
    (auto simp: coord_below_def results_def reclaim_lookup leased_def)

lemma coord_below_step: "coord_inv s \<Longrightarrow> coord_below s (coord_step s op)"
proof (cases op)
  case (Enqueue t)
  then show ?thesis by (auto simp: enqueue_def coord_below_def results_def)
next
  case (Claim w lease now now')
  assume "coord_inv s"
  then show ?thesis using Claim coord_below_claim by simp
next
  case (Heartbeat w i now)
  have "coord_below s s" by (simp add: coord_below_def)
  then show ?thesis using Heartbeat by (auto simp: heartbeat_def intro: coord_below_update split: option.split)
next
  case (Complete r)
  then show ?thesis by (auto simp: complete_def coord_below_def results_def split: option.split)
next
  case (Fail i w msg)
  have "coord_below s s" by (simp add: coord_below_def)
  then show ?thesis using Fail by (auto simp: fail_task_def intro: coord_below_update split: option.split)
qed

interpretation coord: growing_machine coord_step coord_inv coord_below
proof
  show "coord_below s u" if "coord_below s t" "coord_below t u" for s t u
    using that unfolding coord_below_def by (metis append.assoc)
  show "coord_below s s" for s by (simp add: coord_below_def)
qed (rule coord_step_inv coord_below_step; assumption)+

lemma reachable_run: "reachable s \<Longrightarrow> reachable (foldl coord_step s ops)"
  by (induction ops arbitrary: s) (auto intro: reachable.step)

section \<open>The contract of a coordinator\<close>

text \<open>
  A worker that claims a task, submits its result and goes on until nothing is left. The claims of one run of the loop are made at one
  time: no lease of another worker expires while it runs.
\<close>

fun drain :: "('s \<Rightarrow> 'l option \<times> 's) \<Rightarrow> ('l \<Rightarrow> 's \<Rightarrow> 's) \<Rightarrow> nat \<Rightarrow> 's \<Rightarrow> 'l list \<times> 's" where
  "drain get submit 0 s = ([], s)"
| "drain get submit (Suc n) s =
     (case get s of (None, s') \<Rightarrow> ([], s')
      | (Some l, s') \<Rightarrow> (case drain get submit n (submit l s') of (ls, t) \<Rightarrow> (l # ls, t)))"

locale shard_coordinator =
  fixes inv :: "'s \<Rightarrow> bool"
    and todo :: "'s \<Rightarrow> 'i set"
    and finished :: "'s \<Rightarrow> 'i set"
    and get :: "'s \<Rightarrow> 'l option \<times> 's"
    and task_of :: "'l \<Rightarrow> 'i"
    and submit :: "'l \<Rightarrow> 's \<Rightarrow> 's"
  assumes get_none: "inv s \<Longrightarrow> get s = (None, s') \<Longrightarrow> todo s = {} \<and> todo s' = {} \<and> finished s' = finished s"
    and get_some: "inv s \<Longrightarrow> get s = (Some l, s') \<Longrightarrow> task_of l \<in> todo s \<and>
      inv (submit l s') \<and> todo (submit l s') = todo s - {task_of l} \<and>
      finished (submit l s') = insert (task_of l) (finished s)"
    and todo_finite: "inv s \<Longrightarrow> finite (todo s)"
begin

lemma drain_all:
  assumes "inv s" and "card (todo s) < n"
  shows "distinct (map task_of (fst (drain get submit n s))) \<and>
    set (map task_of (fst (drain get submit n s))) = todo s \<and>
    todo (snd (drain get submit n s)) = {} \<and>
    finished (snd (drain get submit n s)) = finished s \<union> todo s"
  using assms
proof (induction n arbitrary: s)
  case (Suc n)
  show ?case
  proof (cases "get s")
    case (Pair r s')
    show ?thesis
    proof (cases r)
      case None
      then show ?thesis using get_none [of s s'] Suc.prems Pair by simp
    next
      case (Some l)
      let ?t = "submit l s'"
      have l: "task_of l \<in> todo s" "inv ?t" "todo ?t = todo s - {task_of l}"
        "finished ?t = insert (task_of l) (finished s)"
        using get_some [OF Suc.prems(1), of l s'] Pair Some by auto
      have "card (todo ?t) < n"
        using Suc.prems(2) card_Suc_Diff1 [OF todo_finite [OF Suc.prems(1)] l(1)] by (simp add: l(3))
      from Suc.IH [OF l(2) this] show ?thesis
        using l(1, 3, 4) Pair Some by (auto simp: case_prod_beta)
    qed
  qed
qed simp

end

section \<open>The in-memory coordinator meets the contract\<close>

definition outstanding :: "int \<Rightarrow> coordinator \<Rightarrow> string set" where
  "outstanding now s = {i. \<exists>st. map_of (co_tasks s) i = Some st \<and> (ts_status st = S_pending \<or> lease_expired now st)}"

definition completed :: "coordinator \<Rightarrow> string set" where
  "completed s = {i. \<exists>st. map_of (co_tasks s) i = Some st \<and> ts_status st = S_completed}"

lemma outstanding_pending: "outstanding now s = {i. is_pending (co_tasks (reclaim_expired now s)) i}"
  by (auto simp: outstanding_def is_pending_def reclaim_lookup)

lemma reclaim_outstanding:
  "map_of (co_tasks (reclaim_expired now s)) i = Some st \<Longrightarrow> \<not> lease_expired now st"
proof -
  have "\<not> lease_expired now (reset_expired now z)" for z
    by (cases "lease_expired now z") (simp_all add: lease_expired_def [of now "reset_expired now z"] lease_expired_def)
  then show "map_of (co_tasks (reclaim_expired now s)) i = Some st \<Longrightarrow> ?thesis"
    by (auto simp: reclaim_lookup)
qed

text \<open>
  The result a worker reports for its lease; \<open>run\<close> is the work itself (status, findings, module
  results and error message).
\<close>

definition worker_result ::
  "(shard_task \<Rightarrow> shard_status \<times> string \<times> string \<times> string) \<Rightarrow> shard_lease \<Rightarrow> shard_result" where
  "worker_result run l = (case run (sl_task l) of (status, findings, modules, msg) \<Rightarrow>
     \<lparr>sr_task_id = sk_id (sl_task l), sr_run_id = sk_run_id (sl_task l), sr_worker_id = sl_worker_id l,
      sr_status = status, sr_findings_json = findings, sr_module_results_json = modules,
      sr_error_message = msg\<rparr>)"

definition submit_result ::
  "(shard_task \<Rightarrow> shard_status \<times> string \<times> string \<times> string) \<Rightarrow> shard_lease \<Rightarrow> coordinator \<Rightarrow> coordinator" where
  "submit_result run l s = (case complete (worker_result run l) s of Inl _ \<Rightarrow> s | Inr s' \<Rightarrow> s')"

lemma worker_result_simps [simp]:
  "sr_task_id (worker_result run l) = sk_id (sl_task l)" "sr_worker_id (worker_result run l) = sl_worker_id l"
  by (simp_all add: worker_result_def case_prod_beta)

lemma submit_result_lookup:
  assumes "map_of (co_tasks s) (sk_id (sl_task l)) = Some st" and "ts_worker_id st = sl_worker_id l"
  shows "map_of (co_tasks (submit_result run l s)) = (map_of (co_tasks s))(sk_id (sl_task l) \<mapsto> st\<lparr>ts_status := S_completed\<rparr>)"
  using assms by (simp add: submit_result_def complete_def)

lemma submit_result_inv: "coord_inv s \<Longrightarrow> coord_inv (submit_result run l s)"
  by (auto simp: submit_result_def intro: complete_inv split: sum.split)

lemma outstanding_finite: "finite (outstanding now s)"
proof -
  have "outstanding now s \<subseteq> dom (map_of (co_tasks s))" by (auto simp: outstanding_def)
  then show ?thesis by (metis finite_dom_map_of finite_subset)
qed

lemma outstanding_card:
  assumes "coord_inv s"
  shows "card (outstanding now s) \<le> length (co_tasks s)"
proof -
  have "outstanding now s \<subseteq> set (map fst (co_tasks s))" by (auto simp: outstanding_def dest: map_of_SomeD intro!: image_eqI)
  then have "card (outstanding now s) \<le> card (set (map fst (co_tasks s)))" by (intro card_mono) simp_all
  also have "\<dots> \<le> length (co_tasks s)" by (metis card_length length_map)
  finally show ?thesis .
qed

lemma completed_reclaim: "completed (reclaim_expired now s) = completed s"
  by (auto simp: completed_def reclaim_lookup lease_expired_def split: if_splits)

lemma claim_some_parts:
  assumes "coord_inv s" and "claim w lease now now' s = (Some l, s')"
  obtains st q where "map_of (co_tasks (reclaim_expired now s)) (sk_id (sl_task l)) = Some st"
    "ts_status st = S_pending" "ts_task st = sl_task l" "sl_worker_id l = w" "sl_expires_at l = now' + 1000000 * lease"
    "s' = (reclaim_expired now s)\<lparr>co_tasks := AList.update (sk_id (sl_task l)) (leased w lease now' st) (co_tasks (reclaim_expired now s)),
       co_queue := q\<rparr>"
    "coord_inv s'"
  using assms(1)
proof (cases rule: claim_cases [of s w lease now now'])
  case none
  then show ?thesis using assms(2) by simp
next
  case (some i st q)
  have l: "l = \<lparr>sl_task = ts_task st, sl_worker_id = w, sl_leased_at = now', sl_expires_at = now' + 1000000 * lease\<rparr>"
    and s': "s' = (reclaim_expired now s)\<lparr>co_tasks := AList.update i (leased w lease now' st) (co_tasks (reclaim_expired now s)), co_queue := q\<rparr>"
    using some(3) assms(2) by simp_all
  have "sk_id (ts_task st) = i"
    using reclaim_inv [OF assms(1), of now] some(1) unfolding coord_inv_def queue_inv_def by blast
  then have i: "i = sk_id (sl_task l)" by (simp add: l)
  have "coord_inv s'" using some(4) assms(2) by simp
  moreover have "ts_task st = sl_task l" "sl_worker_id l = w" "sl_expires_at l = now' + 1000000 * lease"
    by (simp_all add: l)
  ultimately show ?thesis using that [OF some(1) [unfolded i] some(2) _ _ _ s' [unfolded i]] by blast
qed

lemma claim_submit:
  assumes "coord_inv s" and "claim w (int lease) now now s = (Some l, s')"
  shows "sk_id (sl_task l) \<in> outstanding now s \<and> coord_inv (submit_result run l s') \<and>
    outstanding now (submit_result run l s') = outstanding now s - {sk_id (sl_task l)} \<and>
    completed (submit_result run l s') = insert (sk_id (sl_task l)) (completed s)"
  using assms
proof (cases rule: claim_some_parts)
  case (1 st q)
  let ?i = "sk_id (sl_task l)" and ?r = "reclaim_expired now s" and ?m = "map_of (co_tasks (reclaim_expired now s))"
  have "map_of (co_tasks s') ?i = Some (leased w (int lease) now st)" by (simp add: 1(6))
  then have sub: "map_of (co_tasks (submit_result run l s')) = ?m(?i \<mapsto> (leased w (int lease) now st)\<lparr>ts_status := S_completed\<rparr>)"
    using submit_result_lookup [of s' l "leased w (int lease) now st" run] by (simp add: 1(4, 6) leased_def)
  have out: "outstanding now s = {j. \<exists>st. ?m j = Some st \<and> ts_status st = S_pending}"
    by (simp add: outstanding_pending is_pending_def)
  have "outstanding now (submit_result run l s') = outstanding now s - {?i}"
    using reclaim_outstanding [of now s] unfolding out
    by (auto simp: outstanding_def sub lease_expired_def [of _ "_\<lparr>ts_status := S_completed\<rparr>"])
  moreover have "completed (submit_result run l s') = insert ?i (completed ?r)"
    by (auto simp: completed_def sub)
  moreover have "?i \<in> outstanding now s" using 1(1, 2) by (auto simp: out)
  ultimately show ?thesis using submit_result_inv [OF 1(7)] by (simp add: completed_reclaim)
qed

lemma claim_none_parts:
  assumes "coord_inv s" and "claim w lease now now' s = (None, s')"
  shows "outstanding now s = {} \<and> outstanding now s' = {} \<and> completed s' = completed s"
  using assms(1)
proof (cases rule: claim_cases [of s w lease now now'])
  case none
  then have s': "s' = (reclaim_expired now s)\<lparr>co_queue := []\<rparr>" using assms(2) by simp
  have "outstanding now s' = {}" using none(2) reclaim_outstanding [of now s]
    by (auto simp: s' outstanding_def is_pending_def)
  moreover have "completed s' = completed s" using completed_reclaim [of now s] by (simp add: s' completed_def)
  ultimately show ?thesis using none(2) by (simp add: outstanding_pending)
next
  case some
  then show ?thesis using assms(2) by simp
qed

interpretation mem: shard_coordinator coord_inv "outstanding now" completed "claim w (int lease) now now"
  "\<lambda>l. sk_id (sl_task l)" "submit_result run" for now w lease run
  by unfold_locales (use claim_none_parts claim_submit outstanding_finite in blast)+

section \<open>Undisturbed tasks\<close>

text \<open>An operation that leaves task \<open>i\<close> to its holder, whose lease runs until \<open>e\<close>.\<close>

fun undisturbed :: "string \<Rightarrow> int \<Rightarrow> coord_op \<Rightarrow> bool" where
  "undisturbed i e (Enqueue t) \<longleftrightarrow> True"
| "undisturbed i e (Claim w lease now now') \<longleftrightarrow> now \<le> e"
| "undisturbed i e (Heartbeat w j now) \<longleftrightarrow> j \<noteq> i"
| "undisturbed i e (Complete r) \<longleftrightarrow> sr_task_id r \<noteq> i"
| "undisturbed i e (Fail j w msg) \<longleftrightarrow> j \<noteq> i"

lemma claim_other:
  assumes "coord_inv s" and "map_of (co_tasks s) i = Some st" and "ts_status st \<noteq> S_pending" and "\<not> lease_expired now st"
  shows "map_of (co_tasks (snd (claim w lease now now' s))) i = Some st"
    and "fst (claim w lease now now' s) = Some l \<Longrightarrow> sk_id (sl_task l) \<noteq> i"
proof -
  have r: "map_of (co_tasks (reclaim_expired now s)) i = Some st"
    using assms(2, 4) by (simp add: reclaim_lookup reset_expired_def)
  show "map_of (co_tasks (snd (claim w lease now now' s))) i = Some st"
    using assms(1) by (cases rule: claim_cases [of s w lease now now']) (use r assms(3) in auto)
  assume "fst (claim w lease now now' s) = Some l"
  then have "claim w lease now now' s = (Some l, snd (claim w lease now now' s))" by (metis prod.collapse)
  with assms(1) show "sk_id (sl_task l) \<noteq> i"
    by (cases rule: claim_some_parts) (use r assms(3) in auto)
qed

lemma undisturbed_step:
  assumes "coord_inv s" and "map_of (co_tasks s) i = Some st" and "ts_status st \<noteq> S_pending"
    and "ts_status st = S_in_progress \<longrightarrow> ts_leased_until st = Some e" and "undisturbed i e op"
  shows "map_of (co_tasks (coord_step s op)) i = Some st"
proof (cases op)
  case (Claim w lease now now')
  then have "\<not> lease_expired now st" using assms(4, 5) by (auto simp: lease_expired_def)
  then show ?thesis using claim_other(1) [OF assms(1-3)] Claim by simp
qed (use assms in \<open>auto simp: enqueue_def heartbeat_def complete_def fail_task_def split: option.splits\<close>)

lemma undisturbed_run:
  assumes "coord_inv s" and "map_of (co_tasks s) i = Some st" and "ts_status st \<noteq> S_pending"
    and "ts_status st = S_in_progress \<longrightarrow> ts_leased_until st = Some e" and "\<forall>op\<in>set ops. undisturbed i e op"
  shows "map_of (co_tasks (foldl coord_step s ops)) i = Some st"
  using assms
proof (induction ops arbitrary: s)
  case (Cons op ops)
  then have "map_of (co_tasks (coord_step s op)) i = Some st" by (intro undisturbed_step [of s i st e]) auto
  then show ?case using Cons coord_step_inv by simp
qed simp

text \<open>Two tasks, the first one leased by \<open>''w1''\<close> until 60 seconds.\<close>

definition sample_task :: "string \<Rightarrow> shard_task" where
  "sample_task i = \<lparr>sk_id = i, sk_run_id = ''r'', sk_index = 1, sk_total = 2, sk_spec_paths = []\<rparr>"

definition sample_ops :: "coord_op list" where
  "sample_ops = [Enqueue (sample_task ''a''), Enqueue (sample_task ''b''), Claim ''w1'' 60 0 0]"

definition sample_coordinator :: coordinator where
  "sample_coordinator = foldl coord_step empty_coordinator sample_ops"

definition sample_held :: task_state where
  "sample_held = \<lparr>ts_task = sample_task ''a'', ts_status = S_in_progress, ts_worker_id = ''w1'',
     ts_leased_until = Some 60000000, ts_error_message = []\<rparr>"

lemma sample_reachable: "reachable sample_coordinator"
  unfolding sample_coordinator_def by (intro reachable_run reachable.start)

lemma sample_lookup: "map_of (co_tasks sample_coordinator) ''a'' = Some sample_held"
  by (simp add: sample_coordinator_def sample_ops_def sample_task_def sample_held_def empty_coordinator_def
      enqueue_def claim_def reclaim_expired_def lease_expired_def)

section \<open>Properties\<close>

text \<open>
  C25. A lease is exclusive: in every reachable state, while a task is held until \<open>e\<close> and its
  holder is neither late nor done (no operation names the task, no claim reads a clock past
  \<open>e\<close>), it stays with its holder through any sequence of operations of other workers, and no
  claim up to \<open>e\<close> hands it out.
\<close>

theorem lease_exclusive:
  assumes "reachable s" and "map_of (co_tasks s) i = Some st"
    and "ts_status st = S_in_progress" and "ts_leased_until st = Some e"
    and "\<forall>op\<in>set ops. undisturbed i e op"
  shows "map_of (co_tasks (foldl coord_step s ops)) i = Some st \<and>
    (\<forall>w lease now now' l. now \<le> e \<longrightarrow> fst (claim w lease now now' (foldl coord_step s ops)) = Some l
       \<longrightarrow> sk_id (sl_task l) \<noteq> i)"
proof -
  have inv: "coord_inv (foldl coord_step s ops)" using reachable_inv [OF assms(1)] by (rule coord.run_inv)
  have st: "map_of (co_tasks (foldl coord_step s ops)) i = Some st"
    using reachable_inv [OF assms(1)] assms(2-5) by (intro undisturbed_run [of s i st e]) auto
  moreover have "\<not> lease_expired now st" if "now \<le> e" for now using that assms(4) by (simp add: lease_expired_def)
  moreover have "ts_status st \<noteq> S_pending" using assms(3) by simp
  ultimately show ?thesis using claim_other(2) [OF inv st] by blast
qed

theorem lease_exclusive_witness:
  "map_of (co_tasks (foldl coord_step sample_coordinator [Claim ''w2'' 60 1 1, Claim ''w3'' 60 60000000 60000000])) ''a''
     = Some sample_held"
  using lease_exclusive [OF sample_reachable sample_lookup, of 60000000
      "[Claim ''w2'' 60 1 1, Claim ''w3'' 60 60000000 60000000]"]
  by (simp add: sample_held_def)

text \<open>
  C29. No work is lost and none is done twice by one worker: from every reachable state, a worker
  that claims and completes in a loop handles each outstanding task (pending, or leased to a
  worker whose lease has expired) exactly once, completes all of them and then finds the queue
  empty; one iteration more than the number of tasks is enough for the loop to end. The clock stands
  still during the loop, so that no other lease expires meanwhile.
\<close>

theorem worker_drains:
  assumes "reachable s" and "length (co_tasks s) < n"
    and "drain (claim w (int lease) now now) (submit_result run) n s = (ls, t)"
  shows "distinct (map (\<lambda>l. sk_id (sl_task l)) ls) \<and> (\<lambda>l. sk_id (sl_task l)) ` set ls = outstanding now s \<and>
    outstanding now t = {} \<and> completed t = completed s \<union> outstanding now s"
proof -
  have inv: "coord_inv s" using assms(1) by (rule reachable_inv)
  then have "card (outstanding now s) < n" using outstanding_card [of s now] assms(2) by simp
  from mem.drain_all [OF inv this, of w lease run] show ?thesis by (simp add: assms(3))
qed

theorem worker_drains_witness:
  "outstanding 61000000 (snd (drain (claim ''w2'' (int 60) 61000000 61000000)
     (submit_result (\<lambda>_. (S_completed, [], [], []))) 3 sample_coordinator)) = {}"
proof -
  have "length (co_tasks sample_coordinator) < 3"
    by (simp add: sample_coordinator_def sample_ops_def sample_task_def empty_coordinator_def enqueue_def
        claim_def reclaim_expired_def lease_expired_def)
  from worker_drains [OF sample_reachable this prod.collapse [symmetric]] show ?thesis by blast
qed

text \<open>
  A worker is sent away only when there is nothing to do: in every reachable state a claim
  returns no lease exactly when no task is pending and no lease has expired.
\<close>

theorem claim_none_iff:
  assumes "reachable s"
  shows "fst (claim w (int lease) now now s) = None \<longleftrightarrow> outstanding now s = {}"
proof (cases "claim w (int lease) now now s")
  case (Pair r s')
  note inv = reachable_inv [OF assms]
  show ?thesis
  proof (cases r)
    case None
    then show ?thesis using claim_none_parts [OF inv Pair [unfolded None]] Pair by simp
  next
    case (Some l)
    then show ?thesis using claim_submit [OF inv Pair [unfolded Some]] Pair by auto
  qed
qed

theorem claim_none_iff_witness: "fst (claim ''w2'' (int 60) 0 0 empty_coordinator) = None"
  using claim_none_iff [OF reachable.start, of "''w2''" 60 0] by (simp add: outstanding_def empty_coordinator_def)

text \<open>
  A late heartbeat strands its task: when the holder's heartbeat arrives after its lease has
  expired and before another claim, the task is marked lost; from then on, whatever happens and
  however late, unless someone submits a result or a failure for it, it stays lost, no claim
  ever hands it out, and it is no longer outstanding. The contract says that it is reissued.
\<close>

theorem late_heartbeat_strands:
  assumes "reachable s" and "map_of (co_tasks s) i = Some st" and "ts_status st = S_in_progress"
    and "ts_leased_until st = Some u" and "u < now"
    and "\<forall>op\<in>set ops. (\<forall>r. op = Complete r \<longrightarrow> sr_task_id r \<noteq> i) \<and> (\<forall>w msg. op \<noteq> Fail i w msg)"
  shows "status_of (foldl coord_step (snd (heartbeat (ts_worker_id st) i now s)) ops) i = Some S_lost \<and>
    i \<notin> outstanding later (foldl coord_step (snd (heartbeat (ts_worker_id st) i now s)) ops) \<and>
    (\<forall>w lease c c' l. fst (claim w lease c c'
        (foldl coord_step (snd (heartbeat (ts_worker_id st) i now s)) ops)) = Some l \<longrightarrow> sk_id (sl_task l) \<noteq> i)"
proof -
  let ?t = "snd (heartbeat (ts_worker_id st) i now s)" and ?st = "st\<lparr>ts_status := S_lost\<rparr>"
  have t: "map_of (co_tasks ?t) i = Some ?st" using assms(2-5) by (simp add: heartbeat_def)
  have inv: "coord_inv ?t" using reachable_inv [OF assms(1)] by (rule heartbeat_inv)
  have keep: "map_of (co_tasks (coord_step x op)) i = Some ?st"
    if "coord_inv x" "map_of (co_tasks x) i = Some ?st" "op \<in> set ops" for x op
  proof (cases op)
    case (Claim w lease now now')
    then show ?thesis using claim_other(1) [OF that(1, 2), of now] by (simp add: lease_expired_def)
  qed (use that assms(6) in \<open>auto simp: enqueue_def heartbeat_def complete_def fail_task_def split: option.splits\<close>)
  have run: "set ps \<subseteq> set ops \<Longrightarrow> coord_inv x \<Longrightarrow> map_of (co_tasks x) i = Some ?st
      \<Longrightarrow> map_of (co_tasks (foldl coord_step x ps)) i = Some ?st" for ps x
    by (induction ps arbitrary: x) (auto intro: keep coord_step_inv)
  have final: "map_of (co_tasks (foldl coord_step ?t ops)) i = Some ?st" using run [OF order_refl inv t] .
  have inv': "coord_inv (foldl coord_step ?t ops)" using inv by (rule coord.run_inv)
  show ?thesis using final claim_other(2) [OF inv' final]
    by (auto simp: status_of_def outstanding_def lease_expired_def)
qed

theorem late_heartbeat_strands_witness:
  "''a'' \<notin> outstanding 999000000 (foldl coord_step (snd (heartbeat ''w1'' ''a'' 61000000 sample_coordinator))
     [Claim ''w2'' 60 62000000 62000000, Claim ''w2'' 60 200000000 200000000])"
  using late_heartbeat_strands [OF sample_reachable sample_lookup, of 60000000 61000000
      "[Claim ''w2'' 60 62000000 62000000, Claim ''w2'' 60 200000000 200000000]" 999000000]
  by (simp add: sample_held_def)

end
