(* ===== verification/Quarantine.thy ===== *)
theory Quarantine
  imports Prelude "HOL-Library.Char_ord"
begin

text \<open>
  The quarantine list of \<open>engine/runner/quarantine.py\<close>. A date is its proleptic Gregorian
  ordinal (\<open>date.toordinal\<close>), so that \<open>+ timedelta(days=n)\<close> is addition; \<open>iso_date\<close> prints it.
  The YAML parser is an argument, \<open>coerce\<close> stands for the type coercion of the model validator
  (field types, missing and unknown fields); the declared field bounds and the validator of
  \<open>issue_url\<close> are \<open>valid_quarantine_entry\<close>.
\<close>

section \<open>Dates\<close>

definition is_leap :: "int \<Rightarrow> bool" where
  "is_leap y \<longleftrightarrow> y mod 4 = 0 \<and> (y mod 100 \<noteq> 0 \<or> y mod 400 = 0)"

definition days_before_year :: "int \<Rightarrow> int" where
  "days_before_year y = (let z = y - 1 in z * 365 + z div 4 - z div 100 + z div 400)"

definition days_in_month :: "int \<Rightarrow> int \<Rightarrow> int" where
  "days_in_month y m = (if m = 2 \<and> is_leap y then 29
     else [0, 31, 28, 31, 30, 31, 30, 31, 31, 30, 31, 30, 31] ! nat m)"

definition days_before_month :: "int \<Rightarrow> int \<Rightarrow> int" where
  "days_before_month y m =
     [0, 0, 31, 59, 90, 120, 151, 181, 212, 243, 273, 304, 334] ! nat m + (if 2 < m \<and> is_leap y then 1 else 0)"

definition ymd_to_ord :: "int \<Rightarrow> int \<Rightarrow> int \<Rightarrow> int" where
  "ymd_to_ord y m d = days_before_year y + days_before_month y m + d"

definition ord_to_ymd :: "int \<Rightarrow> int \<times> int \<times> int" where
  "ord_to_ymd k =
     (let n0 = k - 1; n400 = n0 div 146097; n1 = n0 mod 146097;
          c = n1 div 36524; n2 = n1 mod 36524; q = n2 div 1461; n3 = n2 mod 1461;
          a = n3 div 365; n = n3 mod 365; year = n400 * 400 + 1 + c * 100 + q * 4 + a in
      if a = 4 \<or> c = 4 then (year - 1, 12, 31)
      else
        let month = (n + 50) div 32; preceding = days_before_month year month in
        if n < preceding then (year, month - 1, n - days_before_month year (month - 1) + 1)
        else (year, month, n - preceding + 1))"

definition zero_pad :: "nat \<Rightarrow> string \<Rightarrow> string" where
  "zero_pad w s = replicate (w - length s) CHR ''0'' @ s"

definition iso_date :: "int \<Rightarrow> string" where
  "iso_date k =
     (case ord_to_ymd k of (y, m, d) \<Rightarrow>
        zero_pad 4 (str_of_int y) @ ''-'' @ zero_pad 2 (str_of_int m) @ ''-'' @ zero_pad 2 (str_of_int d))"

lemma ord_to_ymd_samples:
  "ord_to_ymd 1 = (1, 1, 1)" "ord_to_ymd 739777 = (2026, 6, 10)" "ord_to_ymd 738945 = (2024, 2, 29)"
  "ord_to_ymd 738946 = (2024, 3, 1)" "ord_to_ymd 739251 = (2024, 12, 31)" "ymd_to_ord 2026 6 10 = 739777"
  by code_simp+

section \<open>Entries\<close>

record quarantine_entry =
  qe_test_id :: string
  qe_reason :: string
  qe_expires_at :: int
  qe_issue_url :: string

text \<open>The match of \<open>^https?://\<close>, case-insensitive.\<close>

definition http_url :: "string \<Rightarrow> bool" where
  "http_url s \<longleftrightarrow> py_startswith (py_lower s) ''http://'' \<or> py_startswith (py_lower s) ''https://''"

definition valid_quarantine_entry :: "quarantine_entry \<Rightarrow> bool" where
  "valid_quarantine_entry e \<longleftrightarrow>
     1 \<le> py_len (qe_test_id e) \<and> py_len (qe_test_id e) \<le> 512 \<and>
     8 \<le> py_len (qe_reason e) \<and> py_len (qe_reason e) \<le> 2048 \<and>
     1 \<le> py_len (qe_issue_url e) \<and> py_len (qe_issue_url e) \<le> 2048 \<and> http_url (qe_issue_url e)"

record quarantine =
  q_entries :: "quarantine_entry list"
  q_source_path :: "string option"

definition quarantine_empty :: quarantine where
  "quarantine_empty = \<lparr>q_entries = [], q_source_path = None\<rparr>"

definition quarantine_contains :: "quarantine \<Rightarrow> string \<Rightarrow> bool" where
  "quarantine_contains q i \<longleftrightarrow> list_ex (\<lambda>e. qe_test_id e = i) (q_entries q)"

definition quarantine_lookup :: "quarantine \<Rightarrow> string \<Rightarrow> quarantine_entry option" where
  "quarantine_lookup q i = List.find (\<lambda>e. qe_test_id e = i) (q_entries q)"

definition quarantine_test_ids :: "quarantine \<Rightarrow> string list" where
  "quarantine_test_ids q = map qe_test_id (q_entries q)"

section \<open>Loading\<close>

text \<open>What the YAML parser returns, as far as \<open>load\<close> distinguishes it.\<close>

datatype 'y yaml_item = Mapping_item 'y | Other_item

datatype 'y yaml_doc = Yaml_error | Yaml_null | Yaml_list "'y yaml_item list" | Yaml_other

datatype quarantine_error = Q_invalid_yaml | Q_not_a_list | Q_not_a_mapping nat | Q_invalid_entry nat
  | Q_too_far string int int | Q_expired "string list"

text \<open>One iteration of the loop over the items; the state is the entries and the expired ids.\<close>

definition load_item ::
  "('y \<Rightarrow> quarantine_entry option) \<Rightarrow> int \<Rightarrow> int \<Rightarrow> nat \<Rightarrow> 'y yaml_item
     \<Rightarrow> quarantine_entry list \<times> string list \<Rightarrow> quarantine_error + (quarantine_entry list \<times> string list)" where
  "load_item coerce today cutoff k item acc =
     (case item of Other_item \<Rightarrow> Inl (Q_not_a_mapping k)
      | Mapping_item y \<Rightarrow>
        (case coerce y of None \<Rightarrow> Inl (Q_invalid_entry k)
         | Some e \<Rightarrow>
           if \<not> valid_quarantine_entry e then Inl (Q_invalid_entry k)
           else if cutoff < qe_expires_at e then Inl (Q_too_far (qe_test_id e) (qe_expires_at e) cutoff)
           else Inr (fst acc @ [e],
                     if qe_expires_at e < today then snd acc @ [qe_test_id e] else snd acc)))"

fun load_items ::
  "('y \<Rightarrow> quarantine_entry option) \<Rightarrow> int \<Rightarrow> int \<Rightarrow> nat \<Rightarrow> 'y yaml_item list
     \<Rightarrow> quarantine_entry list \<times> string list \<Rightarrow> quarantine_error + (quarantine_entry list \<times> string list)" where
  "load_items coerce today cutoff k [] acc = Inr acc"
| "load_items coerce today cutoff k (item # items) acc =
     (case load_item coerce today cutoff k item acc of Inl e \<Rightarrow> Inl e
      | Inr acc' \<Rightarrow> load_items coerce today cutoff (k + 1) items acc')"

definition quarantine_load ::
  "('y \<Rightarrow> quarantine_entry option) \<Rightarrow> string \<Rightarrow> 'y yaml_doc option \<Rightarrow> int \<Rightarrow> int
     \<Rightarrow> quarantine_error + quarantine" where
  "quarantine_load coerce path contents max_age_days today =
     (case contents of None \<Rightarrow> Inr \<lparr>q_entries = [], q_source_path = None\<rparr>
      | Some Yaml_error \<Rightarrow> Inl Q_invalid_yaml
      | Some Yaml_null \<Rightarrow> Inr \<lparr>q_entries = [], q_source_path = Some path\<rparr>
      | Some Yaml_other \<Rightarrow> Inl Q_not_a_list
      | Some (Yaml_list items) \<Rightarrow>
        (case load_items coerce today (today + max_age_days) 0 items ([], []) of Inl e \<Rightarrow> Inl e
         | Inr (entries, expired) \<Rightarrow>
           if expired \<noteq> [] then Inl (Q_expired expired)
           else Inr \<lparr>q_entries = entries, q_source_path = Some path\<rparr>))"

record quarantine_finding =
  qf_module :: string
  qf_category :: string
  qf_severity :: string
  qf_title :: string
  qf_description :: string
  qf_evidence :: "(string, string) dict"
  qf_run_id :: string

definition quarantine_to_findings :: "quarantine \<Rightarrow> string \<Rightarrow> string \<Rightarrow> quarantine_finding list" where
  "quarantine_to_findings q mname run_id =
     map (\<lambda>e. \<lparr>qf_module = mname, qf_category = ''test-quarantine'', qf_severity = ''info'',
               qf_title = ''Test quarantined: '' @ qe_test_id e, qf_description = qe_reason e,
               qf_evidence = [(''test_id'', qe_test_id e), (''expires_at'', iso_date (qe_expires_at e)),
                              (''issue_url'', qe_issue_url e)],
               qf_run_id = run_id\<rparr>) (q_entries q)"

section \<open>What a load accepts\<close>

text \<open>An item the loop lets through, apart from expiry.\<close>

definition good_item :: "('y \<Rightarrow> quarantine_entry option) \<Rightarrow> int \<Rightarrow> 'y yaml_item \<Rightarrow> quarantine_entry \<Rightarrow> bool" where
  "good_item coerce cutoff item e \<longleftrightarrow>
     (\<exists>y. item = Mapping_item y \<and> coerce y = Some e) \<and> valid_quarantine_entry e \<and> qe_expires_at e \<le> cutoff"

lemma good_item_unique: "good_item coerce cutoff item e \<Longrightarrow> good_item coerce cutoff item e' \<Longrightarrow> e' = e"
  by (auto simp: good_item_def)

lemma good_items_unique:
  "list_all2 (good_item coerce cutoff) items es \<Longrightarrow> list_all2 (good_item coerce cutoff) items es' \<Longrightarrow> es' = es"
proof (induction items es arbitrary: es' rule: list_all2_induct)
  case (Cons item items e es)
  then obtain e' fs where "es' = e' # fs" "good_item coerce cutoff item e'"
    "list_all2 (good_item coerce cutoff) items fs"
    by (auto simp: list_all2_Cons1)
  then show ?case using Cons.IH Cons.hyps good_item_unique by metis
qed simp

lemma load_item_good:
  "good_item coerce cutoff item e \<Longrightarrow> load_item coerce today cutoff k item acc =
     Inr (fst acc @ [e], if qe_expires_at e < today then snd acc @ [qe_test_id e] else snd acc)"
  by (auto simp: load_item_def good_item_def)

lemma load_item_bad:
  "(\<And>e. \<not> good_item coerce cutoff item e) \<Longrightarrow> \<exists>x. load_item coerce today cutoff k item acc = Inl x"
  by (cases item) (auto simp: load_item_def good_item_def not_less split: option.split)

lemma load_items_ok:
  "load_items coerce today cutoff k items acc = Inr acc' \<longleftrightarrow>
     (\<exists>es. list_all2 (good_item coerce cutoff) items es \<and>
        acc' = (fst acc @ es, snd acc @ map qe_test_id (filter (\<lambda>e. qe_expires_at e < today) es)))"
proof (induction items arbitrary: k acc)
  case Nil
  show ?case by (cases acc) auto
next
  case (Cons item items)
  show ?case
  proof (cases "\<exists>e. good_item coerce cutoff item e")
    case True
    then obtain e where e: "good_item coerce cutoff item e" by blast
    then have one: "list_all2 (good_item coerce cutoff) (item # items) es \<longleftrightarrow>
        (\<exists>es'. es = e # es' \<and> list_all2 (good_item coerce cutoff) items es')" for es
      by (cases es) (auto dest: good_item_unique)
    show ?thesis
      unfolding load_items.simps load_item_good [OF e] sum.case Cons.IH one by auto
  next
    case False
    then obtain x where "load_item coerce today cutoff k item acc = Inl x"
      using load_item_bad by blast
    then show ?thesis using False by (auto simp: list_all2_Cons1)
  qed
qed

definition sample_quarantine_entry :: quarantine_entry where
  "sample_quarantine_entry = \<lparr>qe_test_id = ''a > b'', qe_reason = ''Flaky on Safari'',
     qe_expires_at = 739777, qe_issue_url = ''HTTPS://x/1''\<rparr>"

text \<open>
  Loading the quarantine list succeeds exactly when the file is absent, empty, or a YAML list each
  of whose items is a valid entry that expires neither before today nor more than
  \<open>max_age_days\<close> days from today; it then holds exactly those entries, in the order of the file. So no
  loaded list carries a stale or an unbounded quarantine.
\<close>

theorem quarantine_load_iff:
  "quarantine_load coerce path contents max_age_days today = Inr q \<longleftrightarrow>
     (contents = None \<and> q = quarantine_empty) \<or>
     (contents = Some Yaml_null \<and> q = \<lparr>q_entries = [], q_source_path = Some path\<rparr>) \<or>
     (\<exists>items. contents = Some (Yaml_list items) \<and> q_source_path q = Some path \<and>
        list_all2 (\<lambda>item e. (\<exists>y. item = Mapping_item y \<and> coerce y = Some e) \<and> valid_quarantine_entry e \<and>
            today \<le> qe_expires_at e \<and> qe_expires_at e \<le> today + max_age_days) items (q_entries q))"
proof -
  let ?good = "good_item coerce (today + max_age_days)"
  have both: "list_all2 ?good items es \<and> filter (\<lambda>e. qe_expires_at e < today) es = [] \<longleftrightarrow>
      list_all2 (\<lambda>item e. (\<exists>y. item = Mapping_item y \<and> coerce y = Some e) \<and> valid_quarantine_entry e \<and>
            today \<le> qe_expires_at e \<and> qe_expires_at e \<le> today + max_age_days) items es" for items es
    by (induction items es rule: list_induct2') (auto simp: good_item_def)
  have "quarantine_load coerce path (Some (Yaml_list items)) max_age_days today = Inr q \<longleftrightarrow>
      q_source_path q = Some path \<and> list_all2 ?good items (q_entries q) \<and>
      filter (\<lambda>e. qe_expires_at e < today) (q_entries q) = []" for items
  proof (cases "\<exists>es. list_all2 ?good items es")
    case False
    then have "\<nexists>a. load_items coerce today (today + max_age_days) 0 items ([], []) = Inr a"
      by (simp add: load_items_ok)
    then show ?thesis
      using False by (cases "load_items coerce today (today + max_age_days) 0 items ([], [])")
        (auto simp: quarantine_load_def)
  next
    case True
    then obtain es where es: "list_all2 ?good items es" by blast
    have run: "load_items coerce today (today + max_age_days) 0 items ([], []) =
        Inr (es, map qe_test_id (filter (\<lambda>e. qe_expires_at e < today) es))"
      using es by (auto simp: load_items_ok)
    have only: "list_all2 ?good items es' \<longleftrightarrow> es' = es" for es'
      using es good_items_unique [OF es, of es'] by blast
    show ?thesis
      by (cases q) (auto simp: quarantine_load_def run only)
  qed
  then have parsed: "quarantine_load coerce path (Some (Yaml_list items)) max_age_days today = Inr q \<longleftrightarrow>
      q_source_path q = Some path \<and>
      list_all2 (\<lambda>item e. (\<exists>y. item = Mapping_item y \<and> coerce y = Some e) \<and> valid_quarantine_entry e \<and>
            today \<le> qe_expires_at e \<and> qe_expires_at e \<le> today + max_age_days) items (q_entries q)" for items
    using both [of items "q_entries q"] by simp
  consider "contents = None" | "contents = Some Yaml_error" | "contents = Some Yaml_null"
    | "contents = Some Yaml_other" | items where "contents = Some (Yaml_list items)"
    by (metis not_None_eq yaml_doc.exhaust)
  then show ?thesis
  proof cases
    case 5
    then show ?thesis using parsed by simp
  qed (simp_all add: quarantine_load_def quarantine_empty_def eq_commute)
qed

end
