(* ===== verification/Runner.thy ===== *)
theory Runner
  imports Domain "HOL-Library.Multiset"
begin

text \<open>
  Test outcomes: \<open>engine/runner/results.py\<close> (aggregation of the runner's event stream into
  per-test executions, derived metrics and the module status), \<open>engine/runner/sharding.py\<close> (file
  shards and the merge of their outcomes) and the outcome-to-findings half of
  \<open>engine/modules/base.py\<close>. The asynchronous event stream is the list of its events, already
  parsed; SHA-1 is an argument, the integer of the first eight digest bytes of a path. Times are
  microseconds.
\<close>

section \<open>Executions\<close>

datatype test_status = T_passed | T_failed | T_flaky | T_skipped | T_timed_out

fun test_status_name :: "test_status \<Rightarrow> string" where
  "test_status_name T_passed = ''passed''"
| "test_status_name T_failed = ''failed''"
| "test_status_name T_flaky = ''flaky''"
| "test_status_name T_skipped = ''skipped''"
| "test_status_name T_timed_out = ''timed_out''"

record environment_context =
  env_browser :: string
  env_browser_version :: string
  env_os :: string
  env_node_version :: "string option"
  env_playwright_version :: "string option"

record test_execution =
  te_id :: string
  te_title :: string
  te_file :: string
  te_status :: test_status
  te_duration_ms :: nat
  te_retries :: nat
  te_evidence :: "string list"
  te_error :: "string option"

definition valid_execution :: "test_execution \<Rightarrow> bool" where
  "valid_execution t \<longleftrightarrow> bounded_str 1 256 (te_id t) \<and> bounded_str 1 512 (te_title t) \<and>
     bounded_str 1 512 (te_file t) \<and> te_retries t \<le> 10 \<and>
     (case te_error t of None \<Rightarrow> True | Some m \<Rightarrow> py_len m \<le> 2048)"

record runner_outcome =
  ro_module_result :: module_result
  ro_tests :: "test_execution list"
  ro_environment :: "environment_context option"
  ro_flake_rate :: flt
  ro_flaky_ids :: "string list"
  ro_quarantined_ids :: "string list"
  ro_incomplete :: bool

datatype runner_error = Exec_invalid string | Module_result_invalid | Flake_rate_invalid flt
  | Merge_empty | Finding_invalid string | Id_failure id_error

section \<open>Derived metrics\<close>

definition count_status :: "test_status \<Rightarrow> test_execution list \<Rightarrow> nat" where
  "count_status s ts = length (filter (\<lambda>t. te_status t = s) ts)"

text \<open>\<open>statistics.median\<close> of a non-empty list.\<close>

definition median_ms :: "nat list \<Rightarrow> flt" where
  "median_ms xs =
     (let ys = sort xs; n = length ys in
      if odd n then of_nat (ys ! (n div 2))
      else fdiv (of_nat (ys ! (n div 2 - 1) + ys ! (n div 2))) 2)"

definition p95 :: "nat list \<Rightarrow> flt" where
  "p95 xs =
     (if xs = [] then 0
      else let ys = sort xs in
        if length ys = 1 then of_nat (ys ! 0)
        else let rank = nat (max (rhe (fmul (fl (95 / 100)) (of_nat (length ys))) - 1) 0)
          in of_nat (ys ! rank))"

definition base_metrics :: "test_execution list \<Rightarrow> (string, flt) dict" where
  "base_metrics ts =
     (let durations = map te_duration_ms (filter (\<lambda>t. te_status t \<noteq> T_skipped) ts) in
      [(''tests_total'', of_nat (length ts)), (''tests_passed'', of_nat (count_status T_passed ts)),
       (''tests_failed'', of_nat (count_status T_failed ts)), (''tests_flaky'', of_nat (count_status T_flaky ts)),
       (''tests_skipped'', of_nat (count_status T_skipped ts)),
       (''tests_timed_out'', of_nat (count_status T_timed_out ts))] @
      (if durations = [] then []
       else [(''duration_p50_ms'', median_ms durations), (''duration_p95_ms'', p95 durations)]))"

definition outcome_metrics :: "test_execution list \<Rightarrow> (string, flt) dict \<Rightarrow> (string, flt) dict" where
  "outcome_metrics ts extra = foldl (\<lambda>m (k, v). AList.update k v m) (base_metrics ts) extra"

definition outcome_flake_rate :: "test_execution list \<Rightarrow> (string, flt) dict \<Rightarrow> flt" where
  "outcome_flake_rate ts metrics =
     fdiv (dict_get metrics ''tests_flaky'' 0)
       (max (fsub (of_nat (length ts)) (dict_get metrics ''tests_skipped'' 0)) 1)"

definition build_outcome ::
  "string \<Rightarrow> string \<Rightarrow> module_status \<Rightarrow> test_execution list \<Rightarrow> finding list \<Rightarrow> string list \<Rightarrow> nat
     \<Rightarrow> environment_context option \<Rightarrow> (string, flt) dict \<Rightarrow> string list \<Rightarrow> string list \<Rightarrow> bool
     \<Rightarrow> runner_error + runner_outcome" where
  "build_outcome name mid status ts fs errs duration env extra flaky quarantined incomplete =
     (let metrics = outcome_metrics ts extra; rate = outcome_flake_rate ts metrics in
      if \<not> is_valid_id ''MOD'' mid \<or> \<not> bounded_str 1 64 name then Inl Module_result_invalid
      else if \<not> (0 \<le> rate \<and> rate \<le> 1) then Inl (Flake_rate_invalid rate)
      else Inr \<lparr>ro_module_result = \<lparr>mr_id = mid, mr_name = name, mr_status = status, mr_findings = fs,
                    mr_metrics = metrics, mr_duration_ms = duration, mr_errors = errs\<rparr>,
                ro_tests = ts, ro_environment = env, ro_flake_rate = rate, ro_flaky_ids = flaky,
                ro_quarantined_ids = quarantined, ro_incomplete = incomplete\<rparr>)"

section \<open>Aggregation\<close>

record accumulator =
  ac_id :: string
  ac_title :: string
  ac_file :: string
  ac_duration_ms :: nat
  ac_status :: test_status
  ac_retries :: nat
  ac_evidence :: "string list"
  ac_error :: "string option"
  ac_attempts :: "(test_status \<times> nat) list"

definition new_accumulator :: "string \<Rightarrow> string \<Rightarrow> string \<Rightarrow> accumulator" where
  "new_accumulator i title file = \<lparr>ac_id = i, ac_title = title, ac_file = file, ac_duration_ms = 0,
     ac_status = T_skipped, ac_retries = 0, ac_evidence = [], ac_error = None, ac_attempts = []\<rparr>"

text \<open>Pass on retry: the last attempt passed and an earlier one failed or timed out.\<close>

definition passed_on_retry :: "(test_status \<times> nat) list \<Rightarrow> bool" where
  "passed_on_retry attempts \<longleftrightarrow> attempts \<noteq> [] \<and> fst (last attempts) = T_passed \<and>
     list_ex (\<lambda>(s, _). s \<in> {T_failed, T_timed_out}) (butlast attempts)"

definition finalize_test :: "accumulator \<Rightarrow> runner_error + test_execution" where
  "finalize_test a =
     (let total = sum_list (map snd (ac_attempts a));
          t = \<lparr>te_id = ac_id a, te_title = (if ac_title a = [] then ''<unnamed>'' else ac_title a),
               te_file = (if ac_file a = [] then ''<unknown>'' else ac_file a),
               te_status = (if passed_on_retry (ac_attempts a) then T_flaky else ac_status a),
               te_duration_ms = (if total = 0 then ac_duration_ms a else total),
               te_retries = ac_retries a, te_evidence = ac_evidence a, te_error = ac_error a\<rparr>
      in if valid_execution t then Inr t else Inl (Exec_invalid (ac_id a)))"

datatype runner_event = Run_start int | Run_end int string | Test_start string string string
  | Test_end string test_status nat nat "string option" | Evidence_event "string option" string
  | Other_event

record agg_state =
  ag_accumulators :: "(string, accumulator) dict"
  ag_incomplete :: bool
  ag_started_at :: "int option"
  ag_finished_at :: "int option"
  ag_run_status :: "string option"

definition agg_start :: agg_state where
  "agg_start = \<lparr>ag_accumulators = [], ag_incomplete = True, ag_started_at = None,
     ag_finished_at = None, ag_run_status = None\<rparr>"

definition setdefault :: "'k \<Rightarrow> 'v \<Rightarrow> ('k, 'v) dict \<Rightarrow> ('k, 'v) dict" where
  "setdefault k v d = (if map_of d k = None then AList.update k v d else d)"

text \<open>Apply \<open>f\<close> to the accumulator of a test, created with unknown title and file if absent.\<close>

definition on_accumulator :: "string \<Rightarrow> (accumulator \<Rightarrow> accumulator) \<Rightarrow> agg_state \<Rightarrow> agg_state" where
  "on_accumulator i f s =
     (let unknown = new_accumulator i ''<unknown>'' ''<unknown>'';
          d = setdefault i unknown (ag_accumulators s)
      in s\<lparr>ag_accumulators := AList.update i (f (dict_get d i unknown)) d\<rparr>)"

fun agg_step :: "agg_state \<Rightarrow> runner_event \<Rightarrow> agg_state" where
  "agg_step s (Run_start t) = s\<lparr>ag_started_at := Some t\<rparr>"
| "agg_step s (Run_end t status) = s\<lparr>ag_finished_at := Some t, ag_run_status := Some status, ag_incomplete := False\<rparr>"
| "agg_step s (Test_start i title file) =
     s\<lparr>ag_accumulators := setdefault i (new_accumulator i title file) (ag_accumulators s)\<rparr>"
| "agg_step s (Test_end i status duration retries err) =
     on_accumulator i (\<lambda>a. a\<lparr>ac_status := status, ac_duration_ms := duration, ac_retries := retries,
        ac_attempts := ac_attempts a @ [(status, duration)],
        ac_error := (case err of None \<Rightarrow> ac_error a | Some m \<Rightarrow> Some m)\<rparr>) s"
| "agg_step s (Evidence_event (Some i) path) =
     on_accumulator i (\<lambda>a. a\<lparr>ac_evidence := ac_evidence a @ [path]\<rparr>) s"
| "agg_step s (Evidence_event None path) = s"
| "agg_step s Other_event = s"

text \<open>\<open>int(delta.total_seconds() * 1000)\<close>, truncated towards zero.\<close>

definition total_ms :: "int \<Rightarrow> int" where
  "total_ms delta =
     (let x = fmul (fdiv (of_int delta) 1000000) 1000 in if x < 0 then - \<lfloor>- x\<rfloor> else \<lfloor>x\<rfloor>)"

definition compute_total_duration :: "test_execution list \<Rightarrow> int option \<Rightarrow> int option \<Rightarrow> nat" where
  "compute_total_duration ts started finished =
     (let total = sum_list (map te_duration_ms ts) in
      case (started, finished) of
        (Some a, Some b) \<Rightarrow> (let ms = total_ms (b - a) in if 0 < ms then nat ms else total)
      | _ \<Rightarrow> total)"

definition is_failure :: "test_status \<Rightarrow> bool" where
  "is_failure s \<longleftrightarrow> s \<in> {T_failed, T_timed_out}"

definition runner_module_status ::
  "test_execution list \<Rightarrow> string option \<Rightarrow> bool \<Rightarrow> string list \<Rightarrow> module_status" where
  "runner_module_status ts run_status incomplete quarantined =
     (if incomplete then M_incomplete
      else if run_status = Some ''interrupted'' then M_incomplete
      else if run_status = Some ''errored'' then M_errored
      else if list_ex (\<lambda>t. is_failure (te_status t) \<and> te_id t \<notin> set quarantined) ts then M_failed
      else if ts \<noteq> [] \<and> list_all (\<lambda>t. te_status t = T_skipped) ts then M_skipped
      else M_passed)"

definition aggregate ::
  "runner_event list \<Rightarrow> string \<Rightarrow> string \<Rightarrow> environment_context option \<Rightarrow> string list
     \<Rightarrow> runner_error + runner_outcome" where
  "aggregate events name mid env quarantined =
     (let s = foldl agg_step agg_start events in
      case result_map finalize_test (map snd (ag_accumulators s)) of Inl e \<Rightarrow> Inl e
      | Inr executions \<Rightarrow>
        (let ts = sort_key te_id executions;
             flaky = map te_id (filter (\<lambda>t. te_status t = T_flaky) ts);
             duration = compute_total_duration ts (ag_started_at s) (ag_finished_at s);
             status = runner_module_status ts (ag_run_status s) (ag_incomplete s) quarantined;
             errs = (if ag_incomplete s then [''test run did not emit run.end (process was interrupted)''] else [])
         in build_outcome name mid status ts [] errs duration env [] flaky quarantined (ag_incomplete s)))"

section \<open>From executions to findings\<close>

definition classify_evidence :: "string \<Rightarrow> evidence_type" where
  "classify_evidence path =
     (let l = py_lower path in
      if py_endswith l ''.png'' \<or> py_endswith l ''.jpg'' \<or> py_endswith l ''.jpeg'' then Screenshot
      else if py_endswith l ''.webm'' \<or> py_endswith l ''.mp4'' then Video
      else if py_endswith l ''.zip'' then Trace
      else if py_endswith l ''.har'' then Har
      else if py_endswith l ''.log'' \<or> py_endswith l ''.txt'' then Console_Log
      else if py_endswith l ''.html'' then Dom_Snapshot
      else Source_Ref)"

definition category_for_test :: "test_execution \<Rightarrow> string" where
  "category_for_test t = (if te_status t = T_timed_out then ''functional_timeout'' else ''functional_failure'')"

definition severity_for :: "test_execution \<Rightarrow> severity" where
  "severity_for t = (if te_status t = T_failed then High else Medium)"

text \<open>
  \<open>new_id\<close> stands for the identifier generator, indexed by the number of the call; the first
  calls give the evidence ids, the next one the finding id.
\<close>

definition build_finding_from_failed_test ::
  "test_execution \<Rightarrow> string \<Rightarrow> string \<Rightarrow> string \<Rightarrow> (string \<Rightarrow> nat \<Rightarrow> string) \<Rightarrow> nat \<Rightarrow> severity \<Rightarrow> int
     \<Rightarrow> runner_error + finding" where
  "build_finding_from_failed_test t name run_id base_url new_id k sev now =
     (let paths = (if te_evidence t = [] then [''logs/runner.'' @ name @ ''.log''] else te_evidence t);
          records = map (\<lambda>(i, p). \<lparr>ev_id = new_id ''EVD'' (k + i), ev_type = classify_evidence p, ev_path = p\<rparr>)
                      (enumerate 0 paths);
          msg = py_strip (case te_error t of None \<Rightarrow> ''test failed without an error message''
                  | Some m \<Rightarrow> if m = [] then ''test failed without an error message'' else m);
          f = \<lparr>f_id = new_id ''FND'' (k + length paths), f_run_id = run_id, f_module = name,
               f_category = category_for_test t, f_severity = sev, f_confidence = fl (9 / 10),
               f_title = te_title t @ '' ('' @ test_status_name (te_status t) @ '')'',
               f_description = ''Functional test '' @ py_repr (te_id t) @ '' ended with status '' @
                 py_repr (test_status_name (te_status t)) @ ''. Failure detail: '' @ py_take 1500 msg,
               f_location = \<lparr>loc_route = None, loc_selector = None, loc_file = Some (te_file t), loc_line = None\<rparr>,
               f_evidence = records,
               f_reproduction_steps = [''Open the captured trace for test '' @ py_repr (te_id t) @ ''.'',
                 ''Replay the spec at '' @ te_file t @ ''.''],
               f_affected_target = Some base_url,
               f_recommendation = Some (''Inspect the captured trace, screenshot, and runner log. If the failure reproduces consistently, file a regression test for the underlying defect; if intermittent, escalate via Phase 09 analyzer + quarantine flow.''),
               f_created_at = now\<rparr>
      in if valid_finding f then Inr f else Inl (Finding_invalid (te_id t)))"

fun emit_findings_from ::
  "test_execution list \<Rightarrow> string list \<Rightarrow> string \<Rightarrow> string \<Rightarrow> string \<Rightarrow> (string \<Rightarrow> nat \<Rightarrow> string) \<Rightarrow> nat \<Rightarrow> int
     \<Rightarrow> runner_error + finding list" where
  "emit_findings_from [] quarantined name run_id base_url new_id k now = Inr []"
| "emit_findings_from (t # ts) quarantined name run_id base_url new_id k now =
     (if te_id t \<in> set quarantined then emit_findings_from ts quarantined name run_id base_url new_id k now
      else if \<not> is_failure (te_status t) then emit_findings_from ts quarantined name run_id base_url new_id k now
      else case build_finding_from_failed_test t name run_id base_url new_id k (severity_for t) now of
        Inl e \<Rightarrow> Inl e
      | Inr f \<Rightarrow> (case emit_findings_from ts quarantined name run_id base_url new_id
                        (k + max 1 (length (te_evidence t)) + 1) now of
          Inl e \<Rightarrow> Inl e | Inr fs \<Rightarrow> Inr (f # fs)))"

definition emit_findings ::
  "runner_outcome \<Rightarrow> string \<Rightarrow> string \<Rightarrow> string \<Rightarrow> (string \<Rightarrow> nat \<Rightarrow> string) \<Rightarrow> int \<Rightarrow> runner_error + finding list" where
  "emit_findings o' name run_id base_url new_id now =
     emit_findings_from (ro_tests o') (ro_quarantined_ids o') name run_id base_url new_id 0 now"

definition derive_module_status :: "runner_outcome \<Rightarrow> finding list \<Rightarrow> module_status" where
  "derive_module_status o' fs =
     (let st = mr_status (ro_module_result o') in
      if st \<in> {M_incomplete, M_errored, M_skipped} then st
      else if list_ex (\<lambda>f. f_severity f \<in> {Critical, High}) fs then M_failed
      else st)"

definition emit_metrics :: "runner_outcome \<Rightarrow> (string, flt) dict" where
  "emit_metrics o' = mr_metrics (ro_module_result o')"

definition summarize :: "runner_outcome \<Rightarrow> finding list \<Rightarrow> (string, flt) dict \<Rightarrow> module_result" where
  "summarize o' fs metrics =
     (ro_module_result o')\<lparr>mr_findings := fs,
        mr_metrics := foldl (\<lambda>m (k, v). AList.update k v m) (mr_metrics (ro_module_result o')) metrics,
        mr_status := derive_module_status o' fs\<rparr>"

text \<open>\<open>SentinelModule.run\<close> after \<open>execute\<close> has returned the outcome.\<close>

definition module_run ::
  "runner_outcome \<Rightarrow> string \<Rightarrow> string \<Rightarrow> string \<Rightarrow> (string \<Rightarrow> nat \<Rightarrow> string) \<Rightarrow> int \<Rightarrow> runner_error + module_result" where
  "module_run o' name run_id base_url new_id now =
     (case emit_findings o' name run_id base_url new_id now of Inl e \<Rightarrow> Inl e
      | Inr fs \<Rightarrow> Inr (summarize o' fs (emit_metrics o')))"

section \<open>Sharding\<close>

record shard_spec =
  ss_current :: int
  ss_total :: int

definition make_shard_spec :: "int \<Rightarrow> int \<Rightarrow> shard_spec option" where
  "make_shard_spec c n =
     (if c < 1 \<or> n < 1 then None else if n < c then None else Some \<lparr>ss_current = c, ss_total = n\<rparr>)"

text \<open>\<open>int(s)\<close> on ASCII: optional sign, digits with single underscores between them.\<close>

definition digit_groups :: "string \<Rightarrow> string list" where
  "digit_groups s = foldr (\<lambda>c gs. if c = CHR ''_'' then [] # gs else (c # hd gs) # tl gs) s [[]]"

definition parse_int :: "string \<Rightarrow> int option" where
  "parse_int s =
     (let t = py_strip s;
          neg = (take 1 t = ''-'');
          body = (if take 1 t = ''-'' \<or> take 1 t = ''+'' then drop 1 t else t)
      in if list_all py_isdigit (digit_groups body)
         then (let n = foldl (\<lambda>a c. a * 10 + (int (of_char c) - 48)) 0 (concat (digit_groups body))
               in Some (if neg then - n else n))
         else None)"

definition parse_shard_spec :: "string \<Rightarrow> shard_spec option" where
  "parse_shard_spec v =
     (let c = before_char (CHR ''/'') v in
      if length c = length v then None
      else case (parse_int c, parse_int (drop (length c + 1) v)) of
        (Some a, Some b) \<Rightarrow> make_shard_spec a b
      | _ \<Rightarrow> None)"

text \<open>\<open>Path(p).as_posix()\<close> on POSIX: empty and \<open>.\<close> components vanish, the root stays (\<open>//\<close> too).\<close>

fun path_components :: "string \<Rightarrow> string list" where
  "path_components [] = [[]]"
| "path_components (c # cs) =
     (if c = CHR ''/'' then [] # path_components cs
      else (case path_components cs of [] \<Rightarrow> [[c]] | y # ys \<Rightarrow> (c # y) # ys))"

definition as_posix :: "string \<Rightarrow> string" where
  "as_posix p =
     (let root = (if take 2 p = ''//'' \<and> take 3 p \<noteq> ''///'' then ''//''
                  else if take 1 p = ''/'' then ''/'' else []);
          parts = filter (\<lambda>x. x \<noteq> [] \<and> x \<noteq> ''.'') (path_components p)
      in if root = [] \<and> parts = [] then ''.'' else root @ py_join ''/'' parts)"

definition hash_to_index :: "(string \<Rightarrow> nat) \<Rightarrow> string \<Rightarrow> int \<Rightarrow> int" where
  "hash_to_index digest path n = int (digest path) mod n"

definition split_shard :: "(string \<Rightarrow> nat) \<Rightarrow> string list \<Rightarrow> shard_spec \<Rightarrow> string list" where
  "split_shard digest files sh =
     filter (\<lambda>p. hash_to_index digest p (ss_total sh) = ss_current sh - 1) (sort (map as_posix files))"

section \<open>Merging shards\<close>

definition merge_by :: "('a \<Rightarrow> string) \<Rightarrow> 'a list \<Rightarrow> (string, 'a) dict" where
  "merge_by key xs = foldl (\<lambda>d x. AList.update (key x) x d) [] xs"

definition merged_status :: "module_status list \<Rightarrow> module_status" where
  "merged_status ss =
     (if M_errored \<in> set ss then M_errored
      else if M_failed \<in> set ss then M_failed
      else if M_incomplete \<in> set ss then M_incomplete
      else if M_skipped \<in> set ss \<and> set ss = {M_skipped} then M_skipped
      else M_passed)"

fun merge_errors :: "string list \<Rightarrow> string list \<Rightarrow> string list" where
  "merge_errors out [] = out"
| "merge_errors out (e # es) =
     (if out = [] \<or> last out \<noteq> e then merge_errors (out @ [e]) es else merge_errors out es)"

definition first_environment :: "runner_outcome list \<Rightarrow> environment_context option" where
  "first_environment os = (case dropWhile (\<lambda>o'. ro_environment o' = None) os of [] \<Rightarrow> None
     | o' # _ \<Rightarrow> ro_environment o')"

definition default_environment :: environment_context where
  "default_environment = \<lparr>env_browser = ''chromium'', env_browser_version = ''unknown'', env_os = ''posix'',
     env_node_version = None, env_playwright_version = None\<rparr>"

definition merge_outcomes :: "runner_outcome list \<Rightarrow> string \<Rightarrow> runner_error + runner_outcome" where
  "merge_outcomes os name =
     (if os = [] then Inl Merge_empty
      else let tests = map snd (merge_by te_id (concat (map ro_tests os)));
               findings = map snd (merge_by f_id (concat (map (\<lambda>o'. mr_findings (ro_module_result o')) os)));
               errs = merge_errors [] (concat (map (\<lambda>o'. mr_errors (ro_module_result o')) os));
               status = merged_status (map (\<lambda>o'. mr_status (ro_module_result o')) os);
               env = (case first_environment os of None \<Rightarrow> default_environment | Some e \<Rightarrow> e)
           in build_outcome name (mr_id (ro_module_result (hd os))) status (sort_key te_id tests)
                (sort_key f_id findings) errs (sum_list (map (\<lambda>o'. mr_duration_ms (ro_module_result o')) os))
                (Some env) [] [] [] False)"

section \<open>Lemmas: dictionaries by key\<close>

lemma merge_by_snoc: "merge_by key (xs @ [x]) = AList.update (key x) x (merge_by key xs)"
  by (simp add: merge_by_def)

lemma merge_by_distinct: "distinct (map fst (merge_by key xs))"
  by (induction xs rule: rev_induct) (auto simp: merge_by_snoc merge_by_def distinct_update)

lemma merge_by_lookup_fresh:
  "key x \<notin> key ` set xs \<Longrightarrow> merge_by key (xs @ [x]) = merge_by key xs @ [(key x, x)]"
proof -
  assume "key x \<notin> key ` set xs"
  moreover have "fst ` set (merge_by key xs) = key ` set xs"
    by (induction xs rule: rev_induct) (auto simp: merge_by_snoc merge_by_def dom_update simp flip: dom_map_of_conv_image_fst)
  ultimately have "map_of (merge_by key xs) (key x) = None" by (simp add: map_of_eq_None_iff)
  then show ?thesis by (simp add: merge_by_snoc update_fresh)
qed

lemma merge_by_id: "distinct (map key xs) \<Longrightarrow> map snd (merge_by key xs) = xs"
  by (induction xs rule: rev_induct) (simp_all add: merge_by_lookup_fresh, simp add: merge_by_def)

section \<open>Lemmas: shards\<close>

lemma sum_filter_mset:
  assumes "\<forall>x\<in>#M. h x \<in> A" and "finite A"
  shows "(\<Sum>k\<in>A. filter_mset (\<lambda>x. h x = k) M) = M"
  using assms(1)
proof (induction M)
  case (add x M)
  have "(\<Sum>k\<in>A. filter_mset (\<lambda>y. h y = k) (add_mset x M))
      = (\<Sum>k\<in>A. (if h x = k then {#x#} else {#}) + filter_mset (\<lambda>y. h y = k) M)"
    by (intro sum.cong) auto
  also have "\<dots> = {#x#} + M" using add assms(2) by (simp add: sum.distrib sum.delta)
  finally show ?case by simp
qed simp

lemma mset_concat_upto:
  fixes f :: "int \<Rightarrow> 'a list"
  shows "mset (concat (map f [1..n])) = (\<Sum>k\<in>{1..n}. mset (f k))"
proof -
  have "mset (concat (map f ks)) = (\<Sum>k\<in>set ks. mset (f k))" if "distinct ks" for ks
    using that by (induction ks) auto
  then show ?thesis by simp
qed

section \<open>Lemmas: aggregation\<close>

text \<open>The attempts that the event stream reports for a test, in order.\<close>

fun attempts :: "runner_event list \<Rightarrow> string \<Rightarrow> (test_status \<times> nat) list" where
  "attempts [] i = []"
| "attempts (Test_end j st d r err # es) i = (if j = i then (st, d) # attempts es i else attempts es i)"
| "attempts (_ # es) i = attempts es i"

lemma attempts_append: "attempts (es @ fs) i = attempts es i @ attempts fs i"
  by (induction es i rule: attempts.induct) auto

lemma setdefault_lookup: "map_of (setdefault k v d) i = (if i = k \<and> map_of d k = None then Some v else map_of d i)"
  by (auto simp: setdefault_def)

lemma setdefault_distinct: "distinct (map fst d) \<Longrightarrow> distinct (map fst (setdefault k v d))"
  by (auto simp: setdefault_def distinct_update)

lemma on_accumulator_lookup:
  "map_of (ag_accumulators (on_accumulator i f s)) j =
    (if j = i then Some (f (dict_get (ag_accumulators s) i (new_accumulator i ''<unknown>'' ''<unknown>'')))
     else map_of (ag_accumulators s) j)"
  by (auto simp: on_accumulator_def Let_def setdefault_lookup dict_get_def split: option.splits)

lemma on_accumulator_other [simp]:
  "ag_incomplete (on_accumulator i f s) = ag_incomplete s" "ag_run_status (on_accumulator i f s) = ag_run_status s"
  by (simp_all add: on_accumulator_def Let_def)

text \<open>What the accumulators hold after a stream.\<close>

definition acc_inv :: "runner_event list \<Rightarrow> (string, accumulator) dict \<Rightarrow> bool" where
  "acc_inv es d \<longleftrightarrow> distinct (map fst d) \<and>
     (\<forall>i. attempts es i \<noteq> [] \<longrightarrow> map_of d i \<noteq> None) \<and>
     (\<forall>i a. map_of d i = Some a \<longrightarrow> ac_id a = i \<and> ac_attempts a = attempts es i \<and>
        ac_status a = (if attempts es i = [] then T_skipped else fst (last (attempts es i))))"

lemma acc_inv_none: "acc_inv es d \<Longrightarrow> map_of d i = None \<Longrightarrow> attempts es i = []"
  by (auto simp: acc_inv_def)

lemma acc_inv_step:
  "acc_inv es (ag_accumulators s) \<Longrightarrow> acc_inv (es @ [e]) (ag_accumulators (agg_step s e))"
proof (cases e)
  case (Test_start i title f)
  assume "acc_inv es (ag_accumulators s)"
  then show ?thesis using Test_start
    by (auto simp: acc_inv_def attempts_append setdefault_lookup new_accumulator_def intro!: setdefault_distinct)
next
  case (Test_end i st d r err)
  assume *: "acc_inv es (ag_accumulators s)"
  have "distinct (map fst (ag_accumulators (on_accumulator i f s)))" for f
    using * by (simp add: acc_inv_def on_accumulator_def Let_def distinct_update setdefault_distinct)
  then show ?thesis using * acc_inv_none [OF *, of i] Test_end
    by (auto simp: acc_inv_def attempts_append on_accumulator_lookup dict_get_def new_accumulator_def split: option.splits)
next
  case (Evidence_event j path)
  assume *: "acc_inv es (ag_accumulators s)"
  have "distinct (map fst (ag_accumulators (on_accumulator i f s)))" for i f
    using * by (simp add: acc_inv_def on_accumulator_def Let_def distinct_update setdefault_distinct)
  then show ?thesis using * acc_inv_none [OF *, of "the j"] Evidence_event
    by (cases j) (auto simp: acc_inv_def attempts_append on_accumulator_lookup dict_get_def new_accumulator_def split: option.splits)
qed (simp_all add: acc_inv_def attempts_append del: map_of_eq_Some_iff)

lemma acc_inv_run: "acc_inv es (ag_accumulators (foldl agg_step agg_start es))"
proof (induction es rule: rev_induct)
  case Nil
  then show ?case by (simp add: acc_inv_def agg_start_def)
next
  case (snoc e es)
  then show ?case by (simp add: acc_inv_step)
qed

text \<open>The run status is that of the last \<open>run.end\<close> event.\<close>

fun run_ends :: "runner_event list \<Rightarrow> string list" where
  "run_ends [] = []"
| "run_ends (Run_end t st # es) = st # run_ends es"
| "run_ends (_ # es) = run_ends es"

lemma run_ends_append: "run_ends (es @ fs) = run_ends es @ run_ends fs"
  by (induction es rule: run_ends.induct) auto

lemma agg_run_status:
  "ag_incomplete (foldl agg_step agg_start es) \<longleftrightarrow> run_ends es = []"
  "ag_run_status (foldl agg_step agg_start es) = (if run_ends es = [] then None else Some (last (run_ends es)))"
proof (induction es rule: rev_induct)
  case Nil
  show "ag_incomplete (foldl agg_step agg_start []) \<longleftrightarrow> run_ends [] = []"
    and "ag_run_status (foldl agg_step agg_start []) = (if run_ends [] = [] then None else Some (last (run_ends [])))"
    by (simp_all add: agg_start_def)
next
  case (snoc e es)
  show "ag_incomplete (foldl agg_step agg_start (es @ [e])) \<longleftrightarrow> run_ends (es @ [e]) = []"
    using snoc by (cases "(foldl agg_step agg_start es, e)" rule: agg_step.cases) (auto simp: run_ends_append)
  show "ag_run_status (foldl agg_step agg_start (es @ [e])) =
      (if run_ends (es @ [e]) = [] then None else Some (last (run_ends (es @ [e]))))"
    using snoc by (cases "(foldl agg_step agg_start es, e)" rule: agg_step.cases) (auto simp: run_ends_append)
qed

lemma result_map_parts:
  "result_map f xs = Inr ys \<Longrightarrow> list_all2 (\<lambda>x y. f x = Inr y) xs ys"
  by (induction f xs arbitrary: ys rule: result_map.induct) (auto split: sum.splits)

lemma result_map_error: "x \<in> set xs \<Longrightarrow> f x = Inl e \<Longrightarrow> \<exists>e'. result_map f xs = Inl e'"
  by (induction f xs rule: result_map.induct) (auto split: sum.splits)

text \<open>The status that the stream gives to a test.\<close>

definition final_status :: "(test_status \<times> nat) list \<Rightarrow> test_status" where
  "final_status as = (if passed_on_retry as then T_flaky else if as = [] then T_skipped else fst (last as))"

lemma final_status_failure: "is_failure (final_status as) \<longleftrightarrow> as \<noteq> [] \<and> is_failure (fst (last as))"
  by (auto simp: final_status_def is_failure_def passed_on_retry_def)

lemma final_status_flaky: "final_status as = T_flaky \<longleftrightarrow> passed_on_retry as \<or> (as \<noteq> [] \<and> fst (last as) = T_flaky)"
  by (auto simp: final_status_def)

lemma finalize_test_parts:
  "finalize_test a = Inr t \<Longrightarrow> te_id t = ac_id a \<and>
     te_status t = (if passed_on_retry (ac_attempts a) then T_flaky else ac_status a)"
  by (auto simp: finalize_test_def Let_def split: if_splits)

lemma aggregate_parts:
  assumes "aggregate es name mid env q = Inr o'"
  obtains ts where "ro_tests o' = ts" "\<And>t. t \<in> set ts \<Longrightarrow> te_status t = final_status (attempts es (te_id t))"
    "\<And>i. attempts es i \<noteq> [] \<Longrightarrow> \<exists>t\<in>set ts. te_id t = i" "distinct (map te_id ts)"
    "mr_status (ro_module_result o') = runner_module_status ts
       (if run_ends es = [] then None else Some (last (run_ends es))) (run_ends es = []) q"
    "ro_flaky_ids o' = map te_id (filter (\<lambda>t. te_status t = T_flaky) ts)" "ro_quarantined_ids o' = q"
    "sorted (map te_id ts)"
proof -
  let ?s = "foldl agg_step agg_start es"
  note inv = acc_inv_run [of es]
  obtain xs where xs: "result_map finalize_test (map snd (ag_accumulators ?s)) = Inr xs"
    and o': "build_outcome name mid (runner_module_status (sort_key te_id xs) (ag_run_status ?s) (ag_incomplete ?s) q)
        (sort_key te_id xs) []
        (if ag_incomplete ?s then [''test run did not emit run.end (process was interrupted)''] else [])
        (compute_total_duration (sort_key te_id xs) (ag_started_at ?s) (ag_finished_at ?s)) env []
        (map te_id (filter (\<lambda>t. te_status t = T_flaky) (sort_key te_id xs))) q (ag_incomplete ?s) = Inr o'"
    using assms unfolding aggregate_def Let_def by (auto split: sum.splits)
  have all2: "list_all2 (\<lambda>a t. finalize_test a = Inr t) (map snd (ag_accumulators ?s)) xs"
    using xs by (rule result_map_parts)
  have ids: "map te_id xs = map fst (ag_accumulators ?s)"
  proof -
    have "map te_id xs = map ac_id (map snd (ag_accumulators ?s))"
      using all2 finalize_test_parts by (auto simp: list_all2_conv_all_nth intro!: nth_equalityI)
    also have "\<dots> = map fst (ag_accumulators ?s)"
      using inv by (auto simp: acc_inv_def)
    finally show ?thesis .
  qed
  have st: "te_status t = final_status (attempts es (te_id t))" if t: "t \<in> set xs" for t
  proof -
    obtain n where n: "n < length xs" "t = xs ! n" using t by (metis in_set_conv_nth)
    let ?p = "ag_accumulators ?s ! n"
    have len: "n < length (ag_accumulators ?s)" using n ids by (metis length_map)
    then have fin: "finalize_test (snd ?p) = Inr t" using all2 n by (simp add: list_all2_conv_all_nth)
    have "map_of (ag_accumulators ?s) (fst ?p) = Some (snd ?p)"
      using inv len by (simp add: acc_inv_def)
    then have "ac_id (snd ?p) = fst ?p" "ac_attempts (snd ?p) = attempts es (fst ?p)"
      "ac_status (snd ?p) = (if attempts es (fst ?p) = [] then T_skipped else fst (last (attempts es (fst ?p))))"
      using inv unfolding acc_inv_def by blast+
    then show ?thesis using finalize_test_parts [OF fin] by (simp add: final_status_def)
  qed
  have cover: "\<exists>t\<in>set xs. te_id t = i" if "attempts es i \<noteq> []" for i
  proof -
    have "map_of (ag_accumulators ?s) i \<noteq> None" using inv that unfolding acc_inv_def by blast
    then have "i \<in> set (map te_id xs)" unfolding ids by (simp add: map_of_eq_None_iff)
    then show ?thesis by auto
  qed
  have "distinct (map te_id (sort_key te_id xs))"
  proof -
    have "distinct (map te_id xs)" using inv unfolding ids by (simp add: acc_inv_def)
    then show ?thesis by (metis mset_map mset_eq_imp_distinct_iff mset_sort)
  qed
  then show ?thesis
    using that [of "sort_key te_id xs"] o' st cover agg_run_status [of es]
    by (auto simp: build_outcome_def Let_def split: if_splits)
qed

lemma runner_status_good:
  "runner_module_status ts rs inc q \<in> {M_passed, M_skipped} \<longleftrightarrow>
     \<not> inc \<and> rs \<noteq> Some ''interrupted'' \<and> rs \<noteq> Some ''errored'' \<and>
     (\<forall>t\<in>set ts. te_id t \<notin> set q \<longrightarrow> \<not> is_failure (te_status t))"
  by (auto simp: runner_module_status_def list_ex_iff)

lemma emit_findings_from_parts:
  "emit_findings_from ts q name r u g k now = Inr fs \<Longrightarrow>
     list_all2 (\<lambda>t f. \<exists>k. build_finding_from_failed_test t name r u g k (severity_for t) now = Inr f)
       (filter (\<lambda>t. te_id t \<notin> set q \<and> is_failure (te_status t)) ts) fs"
  by (induction ts q name r u g k now arbitrary: fs rule: emit_findings_from.induct)
    (auto split: if_splits sum.splits)

lemma build_finding_parts:
  assumes "build_finding_from_failed_test t name r u g k sev now = Inr f"
  shows "f_severity f = sev \<and> f_module f = name \<and> f_run_id f = r \<and> f_evidence f \<noteq> [] \<and>
    f_category f = category_for_test t \<and> loc_file (f_location f) = Some (te_file t) \<and> valid_finding f \<and>
    (te_evidence t \<noteq> [] \<longrightarrow> map ev_path (f_evidence f) = te_evidence t)"
  using assms
  by (auto simp: build_finding_from_failed_test_def Let_def comp_def case_prod_beta enumerate_eq_zip split: if_splits)

definition sample_env :: environment_context where
  "sample_env = \<lparr>env_browser = ''chromium'', env_browser_version = ''1'', env_os = ''posix'',
     env_node_version = None, env_playwright_version = None\<rparr>"

text \<open>A stream with a passing test, a flaky one and a quarantined failure.\<close>

definition sample_events :: "runner_event list" where
  "sample_events = [Run_start 0, Test_start ''a'' ''t'' ''f'', Test_end ''a'' T_passed 5 0 None,
     Test_end ''b'' T_failed 3 0 (Some ''boom''), Test_end ''b'' T_passed 4 1 None,
     Test_end ''c'' T_failed 7 0 (Some ''boom''), Run_end 1000000 ''failed'']"

definition sample_outcome :: "runner_error + runner_outcome" where
  "sample_outcome = aggregate sample_events ''functional'' ''MOD-AAAAAAAAAAAA'' (Some sample_env) [''c'']"

lemma sample_outcome_ok: "sample_outcome = Inr (projr sample_outcome)"
  by code_simp

lemma sample_outcome_status: "mr_status (ro_module_result (projr sample_outcome)) = M_passed"
  by code_simp

text \<open>One failing test, with a quarantine list.\<close>

definition failing_test :: test_execution where
  "failing_test = \<lparr>te_id = ''c'', te_title = ''t'', te_file = ''f'', te_status = T_failed,
     te_duration_ms = 7, te_retries = 0, te_evidence = [], te_error = Some ''boom''\<rparr>"

definition failing_outcome :: "string list \<Rightarrow> runner_outcome" where
  "failing_outcome q = \<lparr>ro_module_result = \<lparr>mr_id = ''MOD-AAAAAAAAAAAA'', mr_name = ''functional'',
       mr_status = M_passed, mr_findings = [],
       mr_metrics = outcome_metrics [failing_test] [], mr_duration_ms = 7, mr_errors = []\<rparr>,
     ro_tests = [failing_test], ro_environment = Some default_environment, ro_flake_rate = 0,
     ro_flaky_ids = [], ro_quarantined_ids = q, ro_incomplete = False\<rparr>"

definition sample_emit :: "runner_outcome \<Rightarrow> runner_error + finding list" where
  "sample_emit o' = emit_findings o' ''functional'' ''RUN-AAAAAAAAAAAA'' ''http://x/'' (\<lambda>p k. p @ ''-AAAAAAAAAAAA'') 0"

lemma sample_emit_ok: "sample_emit (failing_outcome []) = Inr (projr (sample_emit (failing_outcome [])))"
proof -
  have "\<not> isl (sample_emit (failing_outcome []))" by code_simp
  then show ?thesis by (cases "sample_emit (failing_outcome [])") simp_all
qed

lemma failing_merge: "merge_outcomes [failing_outcome [''c'']] ''functional'' = Inr (failing_outcome [])"
proof -
  have "is_valid_id ''MOD'' ''MOD-AAAAAAAAAAAA''" "bounded_str 1 64 ''functional''" by code_simp+
  moreover have "outcome_flake_rate [failing_test] (outcome_metrics [failing_test] []) = 0"
    by (simp add: outcome_flake_rate_def outcome_metrics_def base_metrics_def dict_get_def count_status_def
        failing_test_def fdiv_def Let_def)
  ultimately show ?thesis
    by (simp add: merge_outcomes_def failing_outcome_def merge_by_def merged_status_def first_environment_def
        build_outcome_def Let_def)
qed

lemma merge_parts:
  assumes "merge_outcomes os name = Inr m"
  shows "mr_status (ro_module_result m) = merged_status (map (\<lambda>o'. mr_status (ro_module_result o')) os)"
    and "ro_quarantined_ids m = []" and "ro_flaky_ids m = []" and "ro_incomplete m = False"
    and "ro_tests m = sort_key te_id (map snd (merge_by te_id (concat (map ro_tests os))))"
  using assms by (auto simp: merge_outcomes_def build_outcome_def Let_def split: if_splits)

lemma runner_status_complete:
  assumes "rs \<noteq> Some ''interrupted''" and "rs \<noteq> Some ''errored''" and "ts \<noteq> []"
  shows "runner_module_status ts rs False q =
    (if \<exists>t\<in>set ts. is_failure (te_status t) \<and> te_id t \<notin> set q then M_failed
     else if \<forall>t\<in>set ts. te_status t = T_skipped then M_skipped else M_passed)"
  using assms by (simp add: runner_module_status_def list_ex_iff list_all_iff)

lemma status_set:
  "S \<subseteq> {M_failed, M_skipped, M_passed} \<Longrightarrow> S \<noteq> {} \<Longrightarrow> S = {M_skipped} \<longleftrightarrow> M_failed \<notin> S \<and> M_passed \<notin> S"
  by auto

lemma merged_status_concat:
  assumes "tss \<noteq> []" and "\<forall>ts\<in>set tss. ts \<noteq> []"
    and "rs \<noteq> Some ''interrupted''" and "rs \<noteq> Some ''errored''"
  shows "merged_status (map (\<lambda>ts. runner_module_status ts rs False q) tss)
    = runner_module_status (concat tss) rs False q"
proof -
  have ne: "concat tss \<noteq> []" using assms(1, 2) by (cases tss) auto
  have each: "ts \<in> set tss \<Longrightarrow> runner_module_status ts rs False q =
    (if \<exists>t\<in>set ts. is_failure (te_status t) \<and> te_id t \<notin> set q then M_failed
     else if \<forall>t\<in>set ts. te_status t = T_skipped then M_skipped else M_passed)" for ts
    using assms(2) by (intro runner_status_complete [OF assms(3, 4)]) blast
  let ?S = "set (map (\<lambda>ts. runner_module_status ts rs False q) tss)"
  have no: "M_errored \<notin> ?S" "M_incomplete \<notin> ?S" by (auto simp: each)
  have failed: "M_failed \<in> ?S \<longleftrightarrow> (\<exists>t\<in>set (concat tss). is_failure (te_status t) \<and> te_id t \<notin> set q)"
    by (force simp: each image_iff)
  have passed: "M_passed \<in> ?S \<longrightarrow> (\<exists>t\<in>set (concat tss). te_status t \<noteq> T_skipped)"
    by (auto simp: each split: if_splits)
  have skipped: "?S = {M_skipped} \<longleftrightarrow> M_failed \<notin> ?S \<and> M_passed \<notin> ?S"
  proof -
    have "?S \<subseteq> {M_failed, M_skipped, M_passed}" by (auto simp: each)
    moreover have "?S \<noteq> {}" using assms(1) by simp
    ultimately show ?thesis by (rule status_set)
  qed
  have "M_passed \<in> ?S" if "M_failed \<notin> ?S" and t: "t \<in> set (concat tss)" "te_status t \<noteq> T_skipped" for t
  proof -
    obtain ts where ts: "ts \<in> set tss" "t \<in> set ts" using t(1) by auto
    then have "runner_module_status ts rs False q \<in> ?S" by simp
    then show ?thesis using that(1) ts t(2) by (auto simp: each split: if_splits)
  qed
  then have "M_failed \<notin> ?S \<Longrightarrow> ?S = {M_skipped} \<longleftrightarrow> (\<forall>t\<in>set (concat tss). te_status t = T_skipped)"
    using passed skipped by blast
  then show ?thesis using no failed unfolding merged_status_def runner_status_complete [OF assms(3, 4) ne]
    by auto
qed

section \<open>Properties\<close>

text \<open>
  Shards neither overlap nor leave gaps: for every number of shards, the shards \<open>1/n .. n/n\<close>
  together hold every spec file exactly as often as it is listed, no file is in two shards, and
  each shard is in lexicographic order, whatever the hash.
\<close>

theorem shards_partition:
  assumes "1 \<le> n"
  shows "mset (concat (map (\<lambda>k. split_shard digest files \<lparr>ss_current = k, ss_total = n\<rparr>) [1..n]))
      = mset (map as_posix files) \<and>
    (\<forall>j k. j \<noteq> k \<longrightarrow> set (split_shard digest files \<lparr>ss_current = j, ss_total = n\<rparr>) \<inter>
       set (split_shard digest files \<lparr>ss_current = k, ss_total = n\<rparr>) = {}) \<and>
    (\<forall>k. sorted (split_shard digest files \<lparr>ss_current = k, ss_total = n\<rparr>))"
proof -
  let ?M = "mset (map as_posix files)" and ?h = "\<lambda>p. hash_to_index digest p n + 1"
  have eq: "hash_to_index digest p n = k - 1 \<longleftrightarrow> ?h p = k" for p k by auto
  have "\<forall>p\<in>#?M. ?h p \<in> {1..n}" using assms pos_mod_bound [of n] by (auto simp: hash_to_index_def add1_zle_eq)
  then have "(\<Sum>k\<in>{1..n}. filter_mset (\<lambda>p. ?h p = k) ?M) = ?M" by (intro sum_filter_mset) simp_all
  then have "mset (concat (map (\<lambda>k. split_shard digest files \<lparr>ss_current = k, ss_total = n\<rparr>) [1..n])) = ?M"
    by (simp add: mset_concat_upto split_shard_def eq)
  moreover have "\<forall>k. sorted (split_shard digest files \<lparr>ss_current = k, ss_total = n\<rparr>)"
    unfolding split_shard_def using sorted_filter [of id] by (simp add: sorted_wrt_filter)
  moreover have "\<forall>j k. j \<noteq> k \<longrightarrow> set (split_shard digest files \<lparr>ss_current = j, ss_total = n\<rparr>) \<inter>
       set (split_shard digest files \<lparr>ss_current = k, ss_total = n\<rparr>) = {}"
    by (auto simp: split_shard_def)
  ultimately show ?thesis by blast
qed

theorem shards_partition_witness:
  "mset (concat (map (\<lambda>k. split_shard length [''b.ts'', ''a//c.ts''] \<lparr>ss_current = k, ss_total = 3\<rparr>) [1..3]))
    = mset (map as_posix [''b.ts'', ''a//c.ts''])"
  using shards_partition [of 3 length "[''b.ts'', ''a//c.ts'']"] by simp

text \<open>
  C33. A module is green only for a reason: the status of an aggregated event stream is passed or
  skipped exactly when the stream ended with a \<open>run.end\<close> that reports neither an interruption
  nor an error, and the last attempt of every test that is not quarantined neither failed nor
  timed out. A truncated stream is never green.
\<close>

theorem aggregate_green_iff:
  assumes "aggregate es name mid env q = Inr o'"
  shows "mr_status (ro_module_result o') \<in> {M_passed, M_skipped} \<longleftrightarrow>
    run_ends es \<noteq> [] \<and> last (run_ends es) \<notin> {''interrupted'', ''errored''} \<and>
    (\<forall>i. i \<notin> set q \<longrightarrow> attempts es i \<noteq> [] \<longrightarrow> fst (last (attempts es i)) \<notin> {T_failed, T_timed_out})"
  using assms
proof (cases rule: aggregate_parts)
  case (1 ts)
  have "(\<forall>t\<in>set ts. te_id t \<notin> set q \<longrightarrow> \<not> is_failure (te_status t)) \<longleftrightarrow>
      (\<forall>i. i \<notin> set q \<longrightarrow> attempts es i \<noteq> [] \<longrightarrow> \<not> is_failure (fst (last (attempts es i))))"
    using 1(2, 3) final_status_failure by metis
  then show ?thesis unfolding 1(5) runner_status_good by (auto simp: is_failure_def)
qed

theorem aggregate_green_iff_witness:
  "fst (last (attempts sample_events ''b'')) \<notin> {T_failed, T_timed_out}"
proof -
  have "attempts sample_events ''b'' \<noteq> []" by code_simp
  then show ?thesis
    using aggregate_green_iff [OF sample_outcome_ok [unfolded sample_outcome_def]]
      sample_outcome_status [unfolded sample_outcome_def] by auto
qed

text \<open>
  Flaky means passed on retry: the flaky tests of an aggregated stream of raw attempts are
  exactly those whose last attempt passed after an earlier attempt that failed or timed out,
  listed once each in the order of their ids.
\<close>

theorem aggregate_flaky_exact:
  assumes "aggregate es name mid env q = Inr o'" and "\<forall>i st d. (st, d) \<in> set (attempts es i) \<longrightarrow> st \<noteq> T_flaky"
  shows "set (ro_flaky_ids o') = {i. passed_on_retry (attempts es i)} \<and>
    sorted (ro_flaky_ids o') \<and> distinct (ro_flaky_ids o')"
  using assms(1)
proof (cases rule: aggregate_parts)
  case (1 ts)
  have flaky: "final_status (attempts es i) = T_flaky \<longleftrightarrow> passed_on_retry (attempts es i)" for i
    using assms(2) unfolding final_status_flaky by (metis last_in_set prod.collapse)
  have "set (ro_flaky_ids o') = {i. passed_on_retry (attempts es i)}"
  proof (intro set_eqI iffI)
    fix i
    assume "i \<in> {i. passed_on_retry (attempts es i)}"
    moreover then have "attempts es i \<noteq> []" by (auto simp: passed_on_retry_def)
    ultimately show "i \<in> set (ro_flaky_ids o')" using 1(2, 3) flaky by (force simp: 1(6))
  qed (use 1(2) flaky in \<open>auto simp: 1(6)\<close>)
  moreover have "distinct (ro_flaky_ids o')" unfolding 1(6) using 1(4) by (rule distinct_map_filter)
  moreover have "sorted (ro_flaky_ids o')" unfolding 1(6) using 1(8) by (rule sorted_filter)
  ultimately show ?thesis by blast
qed

theorem aggregate_flaky_exact_witness: "set (ro_flaky_ids (projr sample_outcome)) = {i. passed_on_retry (attempts sample_events i)}"
proof -
  have "\<forall>i st d. (st, d) \<in> set (attempts sample_events i) \<longrightarrow> st \<noteq> T_flaky"
    by (auto simp: sample_events_def split: if_splits)
  then show ?thesis
    using aggregate_flaky_exact [OF sample_outcome_ok [unfolded sample_outcome_def]] by (simp add: sample_outcome_def)
qed

text \<open>
  Every failing test becomes one finding and nothing else does: the emitted findings are, in
  the order of the tests, one valid finding per failed or timed out test that is not
  quarantined, with its severity, category and file and with at least one evidence record.
\<close>

theorem emit_findings_exact:
  assumes "emit_findings o' name run_id base_url new_id now = Inr fs"
  shows "list_all2 (\<lambda>t f. valid_finding f \<and> f_severity f = (if te_status t = T_failed then High else Medium) \<and>
      f_category f = category_for_test t \<and> f_module f = name \<and> f_run_id f = run_id \<and>
      loc_file (f_location f) = Some (te_file t) \<and> f_evidence f \<noteq> [] \<and>
      (te_evidence t \<noteq> [] \<longrightarrow> map ev_path (f_evidence f) = te_evidence t))
    (filter (\<lambda>t. te_id t \<notin> set (ro_quarantined_ids o') \<and> is_failure (te_status t)) (ro_tests o')) fs"
  using emit_findings_from_parts [OF assms [unfolded emit_findings_def]]
  by (rule list_all2_mono) (auto dest!: build_finding_parts simp: severity_for_def)

theorem emit_findings_exact_witness:
  "\<exists>f. projr (sample_emit (failing_outcome [])) = [f] \<and> f_severity f = High \<and> f_evidence f \<noteq> []"
proof -
  have "filter (\<lambda>t. te_id t \<notin> set (ro_quarantined_ids (failing_outcome [])) \<and> is_failure (te_status t))
      (ro_tests (failing_outcome [])) = [failing_test]"
    by (simp add: failing_outcome_def failing_test_def is_failure_def)
  then show ?thesis using emit_findings_exact [OF sample_emit_ok [unfolded sample_emit_def]]
    by (auto simp: list_all2_Cons1 failing_test_def sample_emit_def)
qed

text \<open>
  The merged status is the unsharded one: when every shard ran at least one test to the end
  of its stream and no test ran twice, the merge of their outcomes gets the status that one
  runner would have derived from all the executions together.
\<close>

theorem merge_status_unsharded:
  assumes "merge_outcomes os name = Inr m" and "distinct (map te_id (concat (map ro_tests os)))"
    and "\<forall>o'\<in>set os. ro_tests o' \<noteq> [] \<and> mr_status (ro_module_result o') = runner_module_status (ro_tests o') rs False q"
    and "rs \<noteq> Some ''interrupted''" and "rs \<noteq> Some ''errored''"
  shows "ro_tests m = sort_key te_id (concat (map ro_tests os)) \<and>
    mr_status (ro_module_result m) = runner_module_status (ro_tests m) rs False q"
proof -
  have ne: "os \<noteq> []" using assms(1) by (auto simp: merge_outcomes_def)
  have tests: "ro_tests m = sort_key te_id (concat (map ro_tests os))"
    unfolding merge_parts(5) [OF assms(1)] merge_by_id [OF assms(2)] ..
  have "map (\<lambda>o'. mr_status (ro_module_result o')) os = map (\<lambda>ts. runner_module_status ts rs False q) (map ro_tests os)"
    using assms(3) by simp
  then have "mr_status (ro_module_result m) = merged_status (map (\<lambda>ts. runner_module_status ts rs False q) (map ro_tests os))"
    unfolding merge_parts(1) [OF assms(1)] by (simp only:)
  also have "\<dots> = runner_module_status (concat (map ro_tests os)) rs False q"
    using ne assms(3) by (intro merged_status_concat assms(4, 5)) auto
  also have "\<dots> = runner_module_status (ro_tests m) rs False q"
  proof -
    have "sort_key te_id (concat (map ro_tests os)) \<noteq> [] \<longleftrightarrow> concat (map ro_tests os) \<noteq> []"
      by (metis mset_sort mset_zero_iff)
    then show ?thesis unfolding runner_module_status_def tests list_ex_iff list_all_iff set_sort by presburger
  qed
  finally show ?thesis using tests by blast
qed

theorem merge_status_unsharded_witness:
  "mr_status (ro_module_result (projr (merge_outcomes [projr sample_outcome] ''functional''))) = M_passed"
proof -
  have 1: "merge_outcomes [projr sample_outcome] ''functional'' = Inr (projr (merge_outcomes [projr sample_outcome] ''functional''))"
    by code_simp
  have 2: "distinct (map te_id (concat (map ro_tests [projr sample_outcome])))" by code_simp
  have 3: "\<forall>o'\<in>set [projr sample_outcome]. ro_tests o' \<noteq> [] \<and>
      mr_status (ro_module_result o') = runner_module_status (ro_tests o') (Some ''failed'') False [''c'']"
    by code_simp
  have "mr_status (ro_module_result (projr (merge_outcomes [projr sample_outcome] ''functional'')))
      = runner_module_status (ro_tests (projr (merge_outcomes [projr sample_outcome] ''functional''))) (Some ''failed'') False [''c'']"
    using merge_status_unsharded [OF 1 2 3] by simp
  moreover have "runner_module_status (ro_tests (projr (merge_outcomes [projr sample_outcome] ''functional''))) (Some ''failed'') False [''c''] = M_passed"
    by code_simp
  ultimately show ?thesis by simp
qed

text \<open>
  With an empty shard the two differ: one shard whose only test is skipped and one without tests
  merge to passed, while the unsharded run is skipped.
\<close>

lemma merge_empty_shard:
  "merged_status [runner_module_status [\<lparr>te_id = ''a'', te_title = ''t'', te_file = ''f'', te_status = T_skipped,
       te_duration_ms = 0, te_retries = 0, te_evidence = [], te_error = None\<rparr>] None False [],
     runner_module_status [] None False []] = M_passed"
  by code_simp

text \<open>
  The merge forgets the quarantine: merged outcomes carry no quarantined test, so the
  findings emitted from them number all failed and timed out tests, the quarantined ones of the
  shards included; merging is not neutral for a run with a quarantined failure.
\<close>

theorem merge_forgets_quarantine:
  assumes "merge_outcomes os name = Inr m"
    and "emit_findings m name run_id base_url new_id now = Inr fs"
  shows "ro_quarantined_ids m = [] \<and> length fs = length (filter (\<lambda>t. is_failure (te_status t)) (ro_tests m))"
proof -
  have "ro_quarantined_ids m = []" by (rule merge_parts(2) [OF assms(1)])
  then show ?thesis
    using list_all2_lengthD [OF emit_findings_from_parts [OF assms(2) [unfolded emit_findings_def]]] by simp
qed

theorem merge_forgets_quarantine_witness:
  "merge_outcomes [failing_outcome [''c'']] ''functional'' = Inr (failing_outcome []) \<and>
    length (projr (sample_emit (failing_outcome []))) = 1"
  using merge_forgets_quarantine [OF failing_merge sample_emit_ok [unfolded sample_emit_def]] failing_merge
  by (simp add: sample_emit_def failing_outcome_def failing_test_def is_failure_def)

text \<open>
  One long error message discards the whole stream: if the last error reported for some test
  has more than 2048 characters, the aggregation ends in an error, whatever else the stream
  holds, although partial streams are meant to be accepted.
\<close>

theorem long_error_discards:
  assumes "2048 < py_len m"
  shows "\<exists>e. aggregate (es @ [Test_end i st d r (Some m)]) name mid env q = Inl e"
proof -
  let ?s = "foldl agg_step agg_start (es @ [Test_end i st d r (Some m)])"
  have "\<exists>a. map_of (ag_accumulators ?s) i = Some a \<and> ac_error a = Some m"
    by (simp add: on_accumulator_lookup)
  then obtain a where a: "a \<in> set (map snd (ag_accumulators ?s))" "ac_error a = Some m"
    by (force dest: map_of_SomeD)
  have "finalize_test a = Inl (Exec_invalid (ac_id a))"
    using assms a(2) by (simp add: finalize_test_def Let_def valid_execution_def)
  from result_map_error [where f = finalize_test, OF a(1) this]
  obtain e where e: "result_map finalize_test (map snd (ag_accumulators ?s)) = Inl e" ..
  show ?thesis unfolding aggregate_def Let_def e sum.case by blast
qed

theorem long_error_discards_witness:
  "\<exists>e. aggregate ([] @ [Test_end ''a'' T_failed 1 0 (Some (replicate 2049 (CHR ''x'')))]) ''functional'' ''MOD-AAAAAAAAAAAA'' None [] = Inl e"
proof -
  have "filter (\<lambda>c. \<not> is_cont c) (replicate n (CHR ''x'')) = replicate n (CHR ''x'')" for n
    by (simp add: filter_replicate is_cont_def)
  then have "2048 < py_len (replicate 2049 (CHR ''x''))"
    by (simp only: py_len_def length_replicate)
  then show ?thesis by (rule long_error_discards)
qed

text \<open>The 95th percentile of eleven values is the tenth of them; the nearest rank is the eleventh.\<close>

lemma p95_eleven: "p95 [1, 2, 3, 4, 5, 6, 7, 8, 9, 10, 11] = 10"
proof -
  have "fl (95 / 100) = 4278419646001971 / 4503599627370496" by code_simp
  moreover have "rhe (fl ((4278419646001971 / 4503599627370496) * 11)) = 10" by code_simp
  ultimately have r: "rhe (fmul (fl (95 / 100)) 11) = 10" by (simp only: fmul_def)
  have srt: "sort [1, 2, 3, 4, 5, 6, 7, 8, 9, 10, 11 :: nat] = [1, 2, 3, 4, 5, 6, 7, 8, 9, 10, 11]"
    by (simp add: sorted_sort_id)
  have len: "of_nat (length [1, 2, 3, 4, 5, 6, 7, 8, 9, 10, 11 :: nat]) = (11 :: rat)" by simp
  show ?thesis unfolding p95_def srt Let_def len r by simp
qed

end
