(* ===== verification/AnalyzerModel.thy ===== *)
theory AnalyzerModel
  imports Runner
begin

text \<open>
  The failure analyzer's wire types (\<open>engine/analyzer/models.py\<close>) and the construction of failure
  signals from runner outcomes (\<open>engine/analyzer/signals.py\<close>). The field bounds the models validate are the predicates
  \<open>valid_...\<close>; a validation error is a value of \<open>analyzer_error\<close>.
\<close>

section \<open>Wire types\<close>

datatype failure_category = App_Bug | Test_Bug | Environment_Failure | Flake | Data_Setup_Failure
  | Auth_Failure | Api_Failure | Performance_Regression | Security_Finding | Accessibility_Violation
  | Unknown

fun category_name :: "failure_category \<Rightarrow> string" where
  "category_name App_Bug = ''app_bug''"
| "category_name Test_Bug = ''test_bug''"
| "category_name Environment_Failure = ''environment_failure''"
| "category_name Flake = ''flake''"
| "category_name Data_Setup_Failure = ''data_setup_failure''"
| "category_name Auth_Failure = ''auth_failure''"
| "category_name Api_Failure = ''api_failure''"
| "category_name Performance_Regression = ''performance_regression''"
| "category_name Security_Finding = ''security_finding''"
| "category_name Accessibility_Violation = ''accessibility_violation''"
| "category_name Unknown = ''unknown''"

datatype attempt_status = A_passed | A_failed | A_timed_out | A_skipped

record attempt_outcome =
  ao_attempt :: nat
  ao_status :: attempt_status
  ao_duration_ms :: nat
  ao_error :: "string option"

definition bounded_opt :: "nat \<Rightarrow> string option \<Rightarrow> bool" where
  "bounded_opt hi o' \<longleftrightarrow> (case o' of None \<Rightarrow> True | Some s \<Rightarrow> py_len s \<le> hi)"

definition valid_attempt :: "attempt_outcome \<Rightarrow> bool" where
  "valid_attempt a \<longleftrightarrow> ao_attempt a \<le> 10 \<and> bounded_opt 2048 (ao_error a)"

record step_record =
  st_id :: string
  st_name :: string
  st_duration_ms :: nat
  st_ok :: bool
  st_error :: "string option"

definition valid_step :: "step_record \<Rightarrow> bool" where
  "valid_step s \<longleftrightarrow> bounded_str 1 128 (st_id s) \<and> bounded_str 1 512 (st_name s) \<and> bounded_opt 2048 (st_error s)"

record network_record =
  nw_url :: string
  nw_method :: string
  nw_status_code :: nat
  nw_duration_ms :: nat

definition valid_network :: "network_record \<Rightarrow> bool" where
  "valid_network n \<longleftrightarrow> bounded_str 1 4096 (nw_url n) \<and> bounded_str 1 16 (nw_method n) \<and> nw_status_code n \<le> 999"

datatype console_level = L_log | L_debug | L_info | L_warn | L_error

record console_record =
  cs_level :: console_level
  cs_message :: string
  cs_source :: string

definition valid_console :: "console_record \<Rightarrow> bool" where
  "valid_console c \<longleftrightarrow> py_len (cs_message c) \<le> 2048 \<and> py_len (cs_source c) \<le> 512"

datatype signal_status = Sig_failed | Sig_timed_out | Sig_errored | Sig_flaky

record failure_signal =
  sg_test_id :: string
  sg_title :: string
  sg_file :: string
  sg_status :: signal_status
  sg_duration_ms :: nat
  sg_retries :: nat
  sg_attempts :: "attempt_outcome list"
  sg_error_message :: "string option"
  sg_error_name :: "string option"
  sg_error_stack :: "string option"
  sg_steps :: "step_record list"
  sg_network :: "network_record list"
  sg_console :: "console_record list"
  sg_evidence :: "string list"
  sg_module :: string
  sg_route :: "string option"
  sg_fixture_failed :: bool

definition valid_signal :: "failure_signal \<Rightarrow> bool" where
  "valid_signal s \<longleftrightarrow>
     bounded_str 1 256 (sg_test_id s) \<and> bounded_str 1 512 (sg_title s) \<and> bounded_str 1 512 (sg_file s) \<and>
     sg_retries s \<le> 10 \<and> list_all valid_attempt (sg_attempts s) \<and>
     bounded_opt 2048 (sg_error_message s) \<and> bounded_opt 128 (sg_error_name s) \<and>
     bounded_opt 16384 (sg_error_stack s) \<and> list_all valid_step (sg_steps s) \<and>
     list_all valid_network (sg_network s) \<and> list_all valid_console (sg_console s) \<and>
     bounded_str 1 64 (sg_module s) \<and> bounded_opt 2048 (sg_route s)"

record failure_classification =
  fc_category :: failure_category
  fc_confidence :: flt
  fc_rationale :: string
  fc_secondary :: "(failure_category \<times> flt) list"

definition valid_classification :: "failure_classification \<Rightarrow> bool" where
  "valid_classification c \<longleftrightarrow>
     0 \<le> fc_confidence c \<and> fc_confidence c \<le> 1 \<and> bounded_str 1 512 (fc_rationale c)"

datatype analyzer_error = Invalid_step | Invalid_network | Invalid_console | Invalid_attempt
  | Invalid_signal | Invalid_classification | Invalid_hypothesis | Invalid_retry_decision
  | Invalid_result | Index_error

section \<open>Signals\<close>

text \<open>The events the analyzer consumes, as parsed by the bridge.\<close>

datatype analyzer_event =
    Step_start string string
  | Step_end string nat bool "string option"
  | Network_response string nat nat
  | Console_event console_level string string

record signal_parts =
  sp_steps :: "step_record list"
  sp_pending :: "(string, string) dict"
  sp_network :: "network_record list"
  sp_console :: "console_record list"

fun collect_event :: "signal_parts \<Rightarrow> analyzer_event \<Rightarrow> analyzer_error + signal_parts" where
  "collect_event p (Step_start i name) = Inr (p\<lparr>sp_pending := AList.update i name (sp_pending p)\<rparr>)"
| "collect_event p (Step_end i duration ok err) =
     (let r = \<lparr>st_id = i, st_name = dict_get (sp_pending p) i ''<step>'', st_duration_ms = duration,
               st_ok = ok, st_error = err\<rparr>
      in if valid_step r
         then Inr (p\<lparr>sp_pending := AList.delete i (sp_pending p), sp_steps := sp_steps p @ [r]\<rparr>)
         else Inl Invalid_step)"
| "collect_event p (Network_response url status duration) =
     (let r = \<lparr>nw_url = url, nw_method = ''GET'', nw_status_code = status, nw_duration_ms = duration\<rparr>
      in if valid_network r then Inr (p\<lparr>sp_network := sp_network p @ [r]\<rparr>) else Inl Invalid_network)"
| "collect_event p (Console_event level message source) =
     (let r = \<lparr>cs_level = level, cs_message = message, cs_source = source\<rparr>
      in if valid_console r then Inr (p\<lparr>sp_console := sp_console p @ [r]\<rparr>) else Inl Invalid_console)"

fun collect_events :: "signal_parts \<Rightarrow> analyzer_event list \<Rightarrow> analyzer_error + signal_parts" where
  "collect_events p [] = Inr p"
| "collect_events p (e # es) = (case collect_event p e of Inl x \<Rightarrow> Inl x | Inr p' \<Rightarrow> collect_events p' es)"

fun attempt_status_of :: "test_status \<Rightarrow> attempt_status" where
  "attempt_status_of T_passed = A_passed"
| "attempt_status_of T_failed = A_failed"
| "attempt_status_of T_timed_out = A_timed_out"
| "attempt_status_of T_skipped = A_skipped"
| "attempt_status_of T_flaky = A_passed"

definition failed_statuses :: "test_status list" where
  "failed_statuses = [T_failed, T_timed_out, T_flaky]"

definition signal_status_of :: "test_status \<Rightarrow> signal_status" where
  "signal_status_of s =
     (if s = T_timed_out then Sig_timed_out else if s = T_flaky then Sig_flaky else Sig_failed)"

definition build_failure_signal ::
  "test_execution \<Rightarrow> analyzer_event list \<Rightarrow> string \<Rightarrow> string option \<Rightarrow> bool \<Rightarrow> string option \<Rightarrow> string option
     \<Rightarrow> attempt_outcome list \<Rightarrow> analyzer_error + failure_signal" where
  "build_failure_signal t events mname route fixture_failed error_name error_stack atts =
     (case collect_events \<lparr>sp_steps = [], sp_pending = [], sp_network = [], sp_console = []\<rparr> events of
        Inl e \<Rightarrow> Inl e
      | Inr p \<Rightarrow>
        (let single = \<lparr>ao_attempt = 0, ao_status = attempt_status_of (te_status t),
                       ao_duration_ms = te_duration_ms t, ao_error = te_error t\<rparr> in
         if atts = [] \<and> \<not> valid_attempt single then Inl Invalid_attempt
         else
           let s = \<lparr>sg_test_id = te_id t, sg_title = te_title t, sg_file = te_file t,
                    sg_status = signal_status_of (te_status t), sg_duration_ms = te_duration_ms t,
                    sg_retries = te_retries t,
                    sg_attempts = (if atts = [] then [single] else atts),
                    sg_error_message = te_error t, sg_error_name = error_name,
                    sg_error_stack = error_stack, sg_steps = sp_steps p, sg_network = sp_network p,
                    sg_console = sp_console p, sg_evidence = te_evidence t, sg_module = mname,
                    sg_route = route, sg_fixture_failed = fixture_failed\<rparr>
           in if valid_signal s then Inr s else Inl Invalid_signal))"

definition clip_opt :: "nat \<Rightarrow> string \<Rightarrow> string option" where
  "clip_opt n s = (if s = [] then None else Some (py_take n s))"

definition build_module_error_signal :: "string \<Rightarrow> string \<Rightarrow> string \<Rightarrow> analyzer_error + failure_signal" where
  "build_module_error_signal mname exc_type exc_message =
     (let s = \<lparr>sg_test_id = ''module:'' @ mname, sg_title = mname @ '' module failed to run'',
               sg_file = ''<module:'' @ mname @ ''>'', sg_status = Sig_errored, sg_duration_ms = 0,
               sg_retries = 0,
               sg_attempts = [\<lparr>ao_attempt = 0, ao_status = A_failed, ao_duration_ms = 0,
                               ao_error = clip_opt 2048 exc_message\<rparr>],
               sg_error_message = clip_opt 2048 exc_message, sg_error_name = clip_opt 128 exc_type,
               sg_error_stack = None, sg_steps = [], sg_network = [], sg_console = [], sg_evidence = [],
               sg_module = mname, sg_route = None, sg_fixture_failed = False\<rparr>
      in if valid_signal s then Inr s else Inl Invalid_signal)"

definition filter_failed :: "runner_outcome \<Rightarrow> test_execution list" where
  "filter_failed o' = filter (\<lambda>t. te_status t \<in> set failed_statuses) (ro_tests o')"

end
