(* ===== verification/Categorize.thy ===== *)
theory Categorize
  imports AnalyzerModel
begin

text \<open>
  The classifier of \<open>engine/analyzer/categorize.py\<close>: eleven rules, each a function from a signal to
  an optional match, run in order without short-circuit; the match of the highest confidence is the
  primary category and the others are secondary. Then the classification of module-level errors.
\<close>

type_synonym rule_match = "failure_category \<times> flt \<times> string"

definition opt_str :: "string option \<Rightarrow> string" where
  "opt_str o' = (case o' of None \<Rightarrow> [] | Some s \<Rightarrow> s)"

definition is_app_5xx :: "network_record \<Rightarrow> bool" where
  "is_app_5xx n \<longleftrightarrow> 500 \<le> nw_status_code n \<and> nw_status_code n < 600"

section \<open>Rules\<close>

definition rule_flake :: "failure_signal \<Rightarrow> rule_match option" where
  "rule_flake s =
     (if sg_status s = Sig_flaky
      then Some (Flake, fl (92 / 100), ''Test passed on a retry after earlier attempts failed.'')
      else
        let seen_pass = list_ex (\<lambda>a. ao_status a = A_passed) (sg_attempts s);
            seen_fail = list_ex (\<lambda>a. ao_status a \<in> {A_failed, A_timed_out}) (sg_attempts s) in
        if seen_pass \<and> seen_fail
        then Some (Flake, fl (8 / 10), ''Test alternated between passing and failing across attempts.'')
        else None)"

definition crash_markers :: "string list" where
  "crash_markers = [''target closed'', ''browser has been closed'', ''browser crashed'', ''page crashed'',
     ''out of memory'', ''eaddrinuse'', ''address already in use'', ''econnrefused'', ''econnreset'',
     ''playwright was unable to launch'']"

definition rule_browser_crash :: "failure_signal \<Rightarrow> rule_match option" where
  "rule_browser_crash s =
     (let name = py_lower (opt_str (sg_error_name s)); msg = py_lower (opt_str (sg_error_message s)) in
      if list_ex (\<lambda>marker. py_in marker msg) crash_markers
      then Some (Environment_Failure, fl (9 / 10),
                 ''Test runtime crashed (browser/network/host); not an app or test defect.'')
      else if name \<in> {''timeouterror'', ''operationtimeouterror''} \<and> py_in ''navigation'' msg \<and>
              \<not> list_ex is_app_5xx (sg_network s)
      then Some (Environment_Failure, fl (7 / 10),
                 ''Navigation timed out without any server response '' @ em_dash @ '' likely network/host issue.'')
      else None)"

definition auth_tokens :: "string list" where
  "auth_tokens = [''login'', ''auth'', ''credential'', ''sign-in'', ''sign in'', ''token'']"

definition rule_fixture_auth_failure :: "failure_signal \<Rightarrow> rule_match option" where
  "rule_fixture_auth_failure s =
     (if \<not> sg_fixture_failed s then None
      else
        let text' = py_lower (opt_str (sg_error_message s) @ '' '' @ opt_str (sg_error_name s) @ '' '' @ sg_title s) in
        if list_ex (\<lambda>token. py_in token text') auth_tokens
        then Some (Auth_Failure, fl (9 / 10), ''Login/auth fixture failed before the test ran.'')
        else Some (Data_Setup_Failure, fl (8 / 10), ''A non-auth fixture failed before the test body executed.''))"

definition rule_app_5xx :: "failure_signal \<Rightarrow> rule_match option" where
  "rule_app_5xx s =
     (case filter is_app_5xx (sg_network s) of [] \<Rightarrow> None
      | bad # _ \<Rightarrow>
        if sg_status s \<in> {Sig_failed, Sig_timed_out}
        then Some (App_Bug, fl (93 / 100),
                   ''Server returned '' @ str_of_nat (nw_status_code bad) @ '' during the failing test.'')
        else None)"

definition rule_api_4xx :: "failure_signal \<Rightarrow> rule_match option" where
  "rule_api_4xx s =
     (case filter (\<lambda>n. 400 \<le> nw_status_code n \<and> nw_status_code n < 500 \<and> nw_status_code n \<notin> {401, 403})
             (sg_network s) of [] \<Rightarrow> None
      | first # _ \<Rightarrow> Some (Api_Failure, fl (78 / 100),
          ''API responded '' @ str_of_nat (nw_status_code first) @ '' during the test '' @ em_dash @ '' contract or input mismatch.''))"

definition rule_auth_4xx :: "failure_signal \<Rightarrow> rule_match option" where
  "rule_auth_4xx s =
     (case filter (\<lambda>n. nw_status_code n \<in> {401, 403}) (sg_network s) of [] \<Rightarrow> None
      | first # _ \<Rightarrow> Some (Auth_Failure, fl (82 / 100),
          ''Authentication denied ('' @ str_of_nat (nw_status_code first) @ '') during the failing test.''))"

definition locator_markers :: "string list" where
  "locator_markers = [''locator.'', ''expect(locator'', ''waiting for selector'', ''waiting for locator'',
     ''element is not visible'', ''no element matches'', ''strict mode violation'']"

definition rule_locator_timeout :: "failure_signal \<Rightarrow> rule_match option" where
  "rule_locator_timeout s =
     (let msg = py_lower (opt_str (sg_error_message s)); name = py_lower (opt_str (sg_error_name s));
          matched = list_ex (\<lambda>marker. py_in marker msg) locator_markers \<or>
                    (py_in ''timeout'' name \<and> py_in ''locator'' msg) in
      if \<not> matched then None
      else if sg_network s \<noteq> [] \<and> \<not> list_ex is_app_5xx (sg_network s)
      then Some (Test_Bug, fl (78 / 100),
                 ''Locator timed out while the app responded successfully '' @ em_dash @ '' selector likely stale.'')
      else Some (Test_Bug, fl (6 / 10),
                 ''Locator timed out; app health uncertain from the captured network log.''))"

definition rule_a11y :: "failure_signal \<Rightarrow> rule_match option" where
  "rule_a11y s =
     (if sg_module s = ''a11y''
      then Some (Accessibility_Violation, fl (95 / 100), ''Axe / accessibility assertion fired during the test.'')
      else
        let msg = py_lower (opt_str (sg_error_message s)) in
        if py_in ''axe'' msg \<or> py_in ''violation'' msg
        then Some (Accessibility_Violation, fl (7 / 10), ''Axe-style violation surfaced inside a non-a11y test.'')
        else None)"

definition rule_security :: "failure_signal \<Rightarrow> rule_match option" where
  "rule_security s =
     (if sg_module s = ''security''
      then Some (Security_Finding, fl (9 / 10),
                 ''Security module assertion failed '' @ em_dash @ '' header/cookie/policy check.'')
      else None)"

definition rule_performance :: "failure_signal \<Rightarrow> rule_match option" where
  "rule_performance s =
     (if sg_module s = ''performance''
      then Some (Performance_Regression, fl (9 / 10), ''Performance budget (LCP/CLS/INP/api_p95) exceeded.'')
      else
        let msg = py_lower (opt_str (sg_error_message s)) in
        if py_in ''budget'' msg \<and> (py_in ''exceeded'' msg \<or> py_in ''over'' msg)
        then Some (Performance_Regression, fl (7 / 10), ''Budget assertion failed inside a non-performance test.'')
        else None)"

definition rule_data_setup :: "failure_signal \<Rightarrow> rule_match option" where
  "rule_data_setup s =
     (let text' = py_lower (opt_str (sg_error_message s)) @ '' '' @ py_lower (sg_title s) in
      if (py_in ''seed'' text' \<or> py_in ''fixture'' text' \<or> py_in ''test data'' text' \<or> py_in ''factory'' text') \<and>
         \<not> py_in ''auth'' text' \<and> \<not> py_in ''login'' text'
      then Some (Data_Setup_Failure, fl (72 / 100), ''Test data / seed / fixture step appears to have failed.'')
      else None)"

definition rules :: "(failure_signal \<Rightarrow> rule_match option) list" where
  "rules = [rule_flake, rule_browser_crash, rule_fixture_auth_failure, rule_app_5xx, rule_api_4xx,
     rule_auth_4xx, rule_locator_timeout, rule_a11y, rule_security, rule_performance, rule_data_setup]"

section \<open>Classification\<close>

definition rule_matches :: "failure_signal \<Rightarrow> rule_match list" where
  "rule_matches s = List.map_filter (\<lambda>rule. rule s) rules"

definition rank_matches :: "rule_match list \<Rightarrow> (nat \<times> rule_match) list" where
  "rank_matches ms = sort_key (\<lambda>(i, c, conf, r). (- conf, i)) (enumerate 0 ms)"

definition categorize :: "failure_signal \<Rightarrow> failure_classification" where
  "categorize s =
     (case rank_matches (rule_matches s) of
        [] \<Rightarrow> \<lparr>fc_category = Unknown, fc_confidence = fl (3 / 10),
               fc_rationale = ''No rule matched; inspect the trace and console log for context. The failure may be a novel pattern.'',
               fc_secondary = []\<rparr>
      | (_, c, conf, r) # rest \<Rightarrow>
          \<lparr>fc_category = c, fc_confidence = conf, fc_rationale = r,
           fc_secondary = map (\<lambda>(i, c', conf', r'). (c', conf')) (filter (\<lambda>(i, c', conf', r'). c' \<noteq> c) rest)\<rparr>)"

definition module_error_class :: "failure_category \<Rightarrow> flt \<Rightarrow> string \<Rightarrow> failure_classification" where
  "module_error_class c conf r = \<lparr>fc_category = c, fc_confidence = conf, fc_rationale = r, fc_secondary = []\<rparr>"

definition categorize_module_error :: "string \<Rightarrow> string \<Rightarrow> string \<Rightarrow> analyzer_error + failure_classification" where
  "categorize_module_error mname exc_type exc_message =
     (let name = py_lower exc_type; msg = py_lower exc_message; m = ''Module '' @ [CHR 0x27] @ mname @ [CHR 0x27];
          c = (if name \<in> {''modulenotfounderror'', ''importerror'', ''filenotfounderror'', ''permissionerror''}
               then module_error_class Environment_Failure (fl (9 / 10)) (m @ '' failed to load: '' @ exc_type @ ''.'')
               else if name \<in> {''connectionerror'', ''connectionrefusederror'', ''timeouterror'', ''oserror''}
               then module_error_class Environment_Failure (fl (85 / 100)) (m @ '' failed on network/host: '' @ exc_type @ ''.'')
               else if name = ''unsafetargeterror'' \<or> py_in ''unsafe'' msg
               then module_error_class Environment_Failure (fl (95 / 100)) (''Safety policy blocked module '' @ [CHR 0x27] @ mname @ [CHR 0x27] @ ''.'')
               else if name = ''testexecutionerror'' \<or> (py_in ''test'' msg \<and> py_in ''execution'' msg)
               then module_error_class Test_Bug (fl (7 / 10)) (m @ '' raised TestExecutionError; suite likely malformed.'')
               else if name = ''configerror''
               then module_error_class Environment_Failure (fl (9 / 10)) (m @ '' rejected the run config.'')
               else module_error_class Environment_Failure (fl (45 / 100))
                 (m @ '' raised an unrecognized '' @ (if exc_type = [] then ''error'' else exc_type) @
                  '' before producing per-test signals; inspect logs/<module>.log for context.''))
      in if valid_classification c then Inr c else Inl Invalid_classification)"

section \<open>Ranking\<close>

lemma rank_matches_mset: "mset (rank_matches ms) = mset (enumerate 0 ms)"
  by (simp add: rank_matches_def)

lemma rank_matches_sorted: "sorted (map (\<lambda>(i, c, conf, r). (- conf, i)) (rank_matches ms))"
  unfolding rank_matches_def by (rule sorted_sort_key)

lemma rank_matches_member: "(k, m) \<in> set (rank_matches ms) \<longleftrightarrow> k < length ms \<and> ms ! k = m"
  using arg_cong [OF rank_matches_mset [of ms], of set_mset] by (auto simp: in_set_enumerate_eq)

lemma rank_matches_empty [simp]: "rank_matches ms = [] \<longleftrightarrow> ms = []"
proof -
  have "length (rank_matches ms) = length ms"
    using arg_cong [OF rank_matches_mset [of ms], of size] by simp
  then show ?thesis by (metis length_0_conv)
qed

lemma rank_matches_Nil [simp]: "rank_matches [] = []"
  by (simp only: rank_matches_empty)

lemma rank_matches_head:
  assumes "rank_matches ms = (k, c, conf, r) # rest"
  shows "k < length ms" "ms ! k = (c, conf, r)"
    "j < length ms \<Longrightarrow> fst (snd (ms ! j)) \<le> conf" "j < k \<Longrightarrow> fst (snd (ms ! j)) < conf"
proof -
  have "(k, c, conf, r) \<in> set (rank_matches ms)" by (simp add: assms)
  then show k: "k < length ms" "ms ! k = (c, conf, r)" by (auto simp: rank_matches_member)
  have le: "(- conf, k) \<le> (- fst (snd (ms ! j)), j)" if "j < length ms" for j
  proof -
    obtain c' conf' r' where m: "ms ! j = (c', conf', r')" by (cases "ms ! j")
    then have "(j, c', conf', r') \<in> set (rank_matches ms)" using that by (simp add: rank_matches_member)
    then have "(j, c', conf', r') = (k, c, conf, r) \<or> (j, c', conf', r') \<in> set rest" by (simp add: assms)
    then show ?thesis using rank_matches_sorted [of ms] by (auto simp: assms m)
  qed
  show "j < length ms \<Longrightarrow> fst (snd (ms ! j)) \<le> conf" using le [of j] by (auto simp: less_eq_prod_def)
  show "j < k \<Longrightarrow> fst (snd (ms ! j)) < conf" using le [of j] k(1) by (auto simp: less_eq_prod_def)
qed

lemma enumerate_filter_snd: "map snd (filter (P \<circ> snd) (enumerate n ms)) = filter P ms"
  by (induction ms arbitrary: n) auto

lemma categorize_none: "rule_matches s = [] \<Longrightarrow> fc_category (categorize s) = Unknown \<and> fc_secondary (categorize s) = []"
  by (simp add: categorize_def)

lemma categorize_some:
  assumes "rule_matches s \<noteq> []"
  obtains k c conf r rest where "rank_matches (rule_matches s) = (k, c, conf, r) # rest"
    "fc_category (categorize s) = c" "fc_confidence (categorize s) = conf" "fc_rationale (categorize s) = r"
    "fc_secondary (categorize s) = map (\<lambda>(i, c', conf', r'). (c', conf')) (filter (\<lambda>(i, c', conf', r'). c' \<noteq> c) rest)"
proof -
  obtain x rest where x: "rank_matches (rule_matches s) = x # rest"
    using assms by (cases "rank_matches (rule_matches s)") auto
  obtain k c conf r where "x = (k, c, conf, r)" by (cases x)
  then show thesis using x by (intro that [of k c conf r rest]) (simp_all add: categorize_def)
qed

lemma sorted_wrt_map_filter:
  "sorted (map (\<lambda>(i, c, conf, r). (- conf, i)) xs) \<Longrightarrow>
   sorted_wrt (\<lambda>a b. snd b \<le> snd a) (map (\<lambda>(i, c', conf', r'). (c', conf' :: flt)) (filter P xs))"
  by (induction xs) (auto simp: less_eq_prod_def)

lemma secondary_mset:
  assumes "rank_matches ms = (k, c, conf, r) # rest"
  shows "mset (map (\<lambda>(i, c', conf', r'). (c', conf')) (filter (\<lambda>(i, c', conf', r'). c' \<noteq> c) rest)) =
    mset (map (\<lambda>(c', conf', r'). (c', conf')) (filter (\<lambda>(c', conf', r'). c' \<noteq> c) ms))"
proof -
  let ?g = "\<lambda>(i :: nat, c', conf', r'). (c', conf')" and ?P = "\<lambda>(i :: nat, c', conf', r'). c' \<noteq> c"
  let ?h = "\<lambda>(c', conf', r'). (c', conf')" and ?Q = "\<lambda>(c', conf', r'). c' \<noteq> c"
  have "mset (map ?g (filter ?P rest)) = mset (map ?g (filter ?P (rank_matches ms)))" by (simp add: assms)
  also have "\<dots> = image_mset ?g (filter_mset ?P (mset (rank_matches ms)))" by simp
  also have "\<dots> = mset (map ?g (filter ?P (enumerate 0 ms)))" by (simp add: rank_matches_mset)
  also have "map ?g (filter ?P (enumerate 0 ms)) = map ?h (map snd (filter (?Q \<circ> snd) (enumerate 0 ms)))"
    by (simp add: comp_def case_prod_unfold)
  also have "\<dots> = map ?h (filter ?Q ms)" by (simp only: enumerate_filter_snd)
  finally show ?thesis .
qed

text \<open>
  C37. When some rule matches, \<open>categorize\<close> returns the earliest match of the highest confidence: no
  match is more confident and every earlier one is less confident. The secondary list holds exactly
  the matches of the other categories, by descending confidence.
\<close>

theorem categorize_ranks:
  assumes "rule_matches s \<noteq> []"
  shows "(\<exists>k < length (rule_matches s).
      rule_matches s ! k = (fc_category (categorize s), fc_confidence (categorize s), fc_rationale (categorize s)) \<and>
      (\<forall>j < length (rule_matches s). fst (snd (rule_matches s ! j)) \<le> fc_confidence (categorize s)) \<and>
      (\<forall>j < k. fst (snd (rule_matches s ! j)) < fc_confidence (categorize s))) \<and>
    sorted_wrt (\<lambda>a b. snd b \<le> snd a) (fc_secondary (categorize s)) \<and>
    mset (fc_secondary (categorize s)) =
      mset (map (\<lambda>(c, conf, r). (c, conf)) (filter (\<lambda>(c, conf, r). c \<noteq> fc_category (categorize s)) (rule_matches s)))"
proof -
  obtain k c conf r rest where rank: "rank_matches (rule_matches s) = (k, c, conf, r) # rest"
    and eq: "fc_category (categorize s) = c" "fc_confidence (categorize s) = conf" "fc_rationale (categorize s) = r"
      "fc_secondary (categorize s) = map (\<lambda>(i, c', conf', r'). (c', conf')) (filter (\<lambda>(i, c', conf', r'). c' \<noteq> c) rest)"
    using categorize_some [OF assms] by metis
  have "sorted (map (\<lambda>(i, c, conf, r). (- conf, i)) rest)"
    using rank_matches_sorted [of "rule_matches s"] by (simp add: rank)
  then show ?thesis
    unfolding eq secondary_mset [OF rank]
    using rank_matches_head [OF rank] by (auto intro!: sorted_wrt_map_filter)
qed

definition sample_signal :: "string \<Rightarrow> string \<Rightarrow> nat list \<Rightarrow> failure_signal" where
  "sample_signal mname msg codes = \<lparr>sg_test_id = ''t'', sg_title = ''t'', sg_file = ''f'', sg_status = Sig_failed,
     sg_duration_ms = 1, sg_retries = 0, sg_attempts = [], sg_error_message = Some msg, sg_error_name = None,
     sg_error_stack = None, sg_steps = [],
     sg_network = map (\<lambda>c. \<lparr>nw_url = ''u'', nw_method = ''GET'', nw_status_code = c, nw_duration_ms = 1\<rparr>) codes,
     sg_console = [], sg_evidence = [], sg_module = mname, sg_route = None, sg_fixture_failed = False\<rparr>"

section \<open>Confidences\<close>

lemma fl_confidences:
  "fl (92 / 100) < fl (93 / 100)" "fl (93 / 100) < fl (95 / 100)" "fl (9 / 10) < fl (92 / 100)"
  "fl (82 / 100) < fl (9 / 10)" "fl (8 / 10) < fl (82 / 100)" "fl (78 / 100) < fl (8 / 10)"
  "fl (72 / 100) < fl (78 / 100)" "fl (7 / 10) < fl (72 / 100)" "fl (6 / 10) < fl (7 / 10)"
  "fl (5 / 10) < fl (6 / 10)" "0 < fl (3 / 10)" "fl (95 / 100) < 1"
  by code_simp+

lemma sample_matches: "rule_matches (sample_signal ''functional'' ''Axe violation'' [503]) \<noteq> []"
  by code_simp

theorem categorize_ranks_witness:
  "sorted_wrt (\<lambda>a b. snd b \<le> snd a) (fc_secondary (categorize (sample_signal ''functional'' ''Axe violation'' [503]))) \<and>
   (\<exists>k < length (rule_matches (sample_signal ''functional'' ''Axe violation'' [503])).
      fst (rule_matches (sample_signal ''functional'' ''Axe violation'' [503]) ! k) =
        fc_category (categorize (sample_signal ''functional'' ''Axe violation'' [503])))"
  using categorize_ranks [OF sample_matches] by fastforce

lemma map_filter_member: "m \<in> set (List.map_filter f xs) \<longleftrightarrow> (\<exists>x \<in> set xs. f x = Some m)"
  by (induction xs) (auto simp: map_filter_simps split: option.splits)

lemma rule_matches_member: "m \<in> set (rule_matches s) \<longleftrightarrow> (\<exists>rule \<in> set rules. rule s = Some m)"
  unfolding rule_matches_def by (rule map_filter_member)

lemma categorize_member:
  "rule_matches s \<noteq> [] \<Longrightarrow> (fc_category (categorize s), fc_confidence (categorize s), fc_rationale (categorize s)) \<in> set (rule_matches s)"
  by (metis categorize_some nth_mem rank_matches_head(1,2))

lemma categorize_max: "m \<in> set (rule_matches s) \<Longrightarrow> fst (snd m) \<le> fc_confidence (categorize s)"
  by (metis categorize_some in_set_conv_nth length_pos_if_in_set length_greater_0_conv rank_matches_head(3))

text \<open>Only the server-error rule and the accessibility module reach the confidence 0.93.\<close>

lemma rule_match_high:
  assumes "rule s = Some (c, conf, r)" "rule \<in> set rules" "fl (93 / 100) \<le> conf"
  shows "c = App_Bug \<and> conf = fl (93 / 100) \<or> c = Accessibility_Violation \<and> sg_module s = ''a11y''"
proof -
  have low: "conf \<notin> {fl (92 / 100), fl (9 / 10), fl (82 / 100), fl (8 / 10), fl (78 / 100), fl (72 / 100), fl (7 / 10), fl (6 / 10)}"
    using assms(3) fl_confidences by auto
  from assms(2) consider "rule = rule_flake" | "rule = rule_browser_crash" | "rule = rule_fixture_auth_failure"
    | "rule = rule_app_5xx" | "rule = rule_api_4xx" | "rule = rule_auth_4xx" | "rule = rule_locator_timeout"
    | "rule = rule_a11y" | "rule = rule_security" | "rule = rule_performance" | "rule = rule_data_setup"
    by (auto simp: rules_def)
  then show ?thesis
  proof cases
    case 1 then show ?thesis using assms(1) low by (simp add: rule_flake_def split: if_splits)
  next
    case 2 then show ?thesis using assms(1) low by (simp add: rule_browser_crash_def Let_def split: if_splits)
  next
    case 3 then show ?thesis using assms(1) low by (simp add: rule_fixture_auth_failure_def Let_def split: if_splits)
  next
    case 4 then show ?thesis using assms(1) by (simp add: rule_app_5xx_def split: list.splits if_splits)
  next
    case 5 then show ?thesis using assms(1) low by (simp add: rule_api_4xx_def split: list.splits)
  next
    case 6 then show ?thesis using assms(1) low by (simp add: rule_auth_4xx_def split: list.splits)
  next
    case 7 then show ?thesis using assms(1) low by (simp add: rule_locator_timeout_def Let_def split: if_splits)
  next
    case 8 then show ?thesis using assms(1) low by (simp add: rule_a11y_def Let_def split: if_splits)
  next
    case 9 then show ?thesis using assms(1) low by (simp add: rule_security_def split: if_splits)
  next
    case 10 then show ?thesis using assms(1) low by (simp add: rule_performance_def Let_def split: if_splits)
  next
    case 11 then show ?thesis using assms(1) low by (simp add: rule_data_setup_def Let_def split: if_splits)
  qed
qed

lemma categorize_5xx:
  assumes "list_ex is_app_5xx (sg_network s)" "sg_status s \<in> {Sig_failed, Sig_timed_out}"
  shows "fc_category (categorize s) = (if sg_module s = ''a11y'' then Accessibility_Violation else App_Bug)"
proof -
  obtain bad rest where "filter is_app_5xx (sg_network s) = bad # rest"
    using assms(1) by (cases "filter is_app_5xx (sg_network s)") (auto simp: list_ex_iff filter_empty_conv)
  then have "rule_app_5xx s = Some (App_Bug, fl (93 / 100),
      ''Server returned '' @ str_of_nat (nw_status_code bad) @ '' during the failing test.'')"
    using assms(2) by (simp add: rule_app_5xx_def)
  moreover have "rule_app_5xx \<in> set rules" by (simp add: rules_def)
  ultimately have m: "(App_Bug, fl (93 / 100),
      ''Server returned '' @ str_of_nat (nw_status_code bad) @ '' during the failing test.'') \<in> set (rule_matches s)"
    unfolding rule_matches_member by (rule bexI)
  then have ne: "rule_matches s \<noteq> []" by auto
  have "fl (93 / 100) \<le> fc_confidence (categorize s)" using categorize_max [OF m] by simp
  moreover obtain rule where "rule \<in> set rules"
    "rule s = Some (fc_category (categorize s), fc_confidence (categorize s), fc_rationale (categorize s))"
    using categorize_member [OF ne] by (auto simp: rule_matches_member)
  ultimately have best: "fc_category (categorize s) = App_Bug \<and> fc_confidence (categorize s) = fl (93 / 100) \<or>
      fc_category (categorize s) = Accessibility_Violation \<and> sg_module s = ''a11y''"
    using rule_match_high by blast
  have "fl (95 / 100) \<le> fc_confidence (categorize s)" if "sg_module s = ''a11y''"
  proof -
    have "rule_a11y s = Some (Accessibility_Violation, fl (95 / 100), ''Axe / accessibility assertion fired during the test.'')"
      using that by (simp add: rule_a11y_def)
    moreover have "rule_a11y \<in> set rules" by (simp add: rules_def)
    ultimately have "(Accessibility_Violation, fl (95 / 100), ''Axe / accessibility assertion fired during the test.'')
        \<in> set (rule_matches s)" unfolding rule_matches_member by (rule bexI)
    from categorize_max [OF this] show ?thesis by simp
  qed
  moreover have "fl (93 / 100) < fl (95 / 100)" by code_simp
  ultimately show ?thesis using best by (metis leD)
qed

end
