(* ===== verification/Analyzer.thy ===== *)
theory Analyzer
  imports Categorize NetAddr
begin

text \<open>
  The later stages of the failure analyzer: root-cause hypotheses (\<open>engine/analyzer/root_cause.py\<close>),
  reproduction steps and specs (\<open>engine/analyzer/repro.py\<close>), the retry decision
  (\<open>engine/analyzer/retry_decision.py\<close>) and the pipeline that composes the stages
  (\<open>engine/analyzer/pipeline.py\<close>). The optional LLM explainer is an argument that may raise.
\<close>

definition arrow :: string where
  "arrow = [CHR 0xE2, CHR 0x86, CHR 0x92]"

section \<open>Root cause\<close>

record root_cause_hypothesis =
  rh_category :: failure_category
  rh_hypothesis :: string
  rh_confidence :: flt
  rh_evidence_refs :: "string list"
  rh_next_actions :: "string list"
  rh_llm_refinement :: "string option"

definition valid_hypothesis :: "root_cause_hypothesis \<Rightarrow> bool" where
  "valid_hypothesis h \<longleftrightarrow>
     bounded_str 1 1024 (rh_hypothesis h) \<and> 0 \<le> rh_confidence h \<and> rh_confidence h \<le> 1 \<and>
     bounded_opt 4000 (rh_llm_refinement h)"

text \<open>The text before and after the placeholder, and the next actions, of each category.\<close>

fun template :: "failure_category \<Rightarrow> string \<times> string \<times> string list" where
  "template App_Bug =
     (''The server returned an error ('',
      '') while the test was exercising the app. Likely cause: a server-side defect or broken downstream dependency.'',
      [''Open the trace zip and inspect the failing network request.'',
       ''Check server logs around the timestamp of the failing request.'',
       ''Reproduce manually against the same target to confirm the 5xx.''])"
| "template Test_Bug =
     (''The test could not interact with element '',
      '' within the timeout while the app appeared healthy. Likely cause: the locator is stale, the element is conditionally rendered, or the wait condition is wrong.'',
      [''Open the failing step in the trace viewer to see the DOM snapshot.'',
       ''Confirm the element name / role used by the locator still matches the UI.'',
       ''Consider a more semantic locator (getByRole / getByLabel).''])"
| "template Environment_Failure =
     (''The test runtime itself failed: '',
      ''. Likely cause: browser crash, host outage, port conflict, or missing dependency '' @ em_dash @ '' not an application bug.'',
      [''Re-run the test in isolation to confirm reproducibility.'',
       ''Check disk space, available memory, and any host-level constraints.'',
       ''Verify the target host responds to a plain curl from the runner host.''])"
| "template Flake =
     (''The test passed on a later attempt after failing earlier. '',
      '' The failure is non-deterministic; treat as a flake until a stable repro exists.'',
      [''Inspect the failing-attempt trace for race conditions or animation timing.'',
       ''If recurring, add the test to the quarantine list with an issue.'',
       ''Avoid hard-coded waits '' @ em_dash @ '' prefer Playwright auto-waiting.''])"
| "template Data_Setup_Failure =
     (''Test data / fixture setup failed before the test body executed. '',
      '' Likely cause: a seed step raised, or a required fixture is missing.'',
      [''Re-run the fixture in isolation to confirm the failure point.'',
       ''Check the data layer is reachable and the seed inputs are valid.'',
       ''Confirm the fixture is gated correctly for the configured security.mode.''])"
| "template Auth_Failure =
     (''Authentication failed during the run: '',
      ''. Likely cause: credentials rotated, login flow changed, or the configured ``*_env`` value is empty.'',
      [''Verify the configured env-var name is set in this environment.'',
       ''Open the login step trace to see the response and any redirects.'',
       ''Confirm the login URL and selectors still match the current UI.''])"
| "template Api_Failure =
     (''An API call returned '',
      '' during the test. Likely cause: contract drift, stale fixture data, or a missing required header.'',
      [''Inspect the request / response payload in the HAR file.'',
       ''Compare the request shape against the OpenAPI / GraphQL schema.'',
       ''Verify auth headers are present and not redacted to empty strings.''])"
| "template Performance_Regression =
     (''A performance budget was exceeded: '',
      ''. Likely cause: a recent deploy introduced a slow path or larger payload.'',
      [''Inspect the WebPageTest / Lighthouse style metrics in the report.'',
       ''Diff bundle sizes against the prior run if history exists.'',
       ''Re-run with a clean profile to rule out warm-cache skew.''])"
| "template Security_Finding =
     (''A safe-by-default security check fired: '',
      ''. Likely cause: missing or misconfigured security header / cookie attribute.'',
      [''Read the finding's recommendation for the precise header to set.'',
       ''Patch the application and re-run the security module in isolation.'',
       ''Do NOT weaken or skip the assertion '' @ em_dash @ '' see the engineering guidelines.''])"
| "template Accessibility_Violation =
     (''An accessibility assertion fired: '',
      ''. Likely cause: missing label, insufficient contrast, or an ARIA misuse.'',
      [''Open the linked rule in the axe-core ruleset documentation.'',
       ''Fix the underlying markup; do not weaken the assertion.'',
       ''Re-run the a11y module to confirm the violation count dropped.''])"
| "template Unknown =
     (''The failure pattern does not match any known rule: '',
      ''. The most useful next step is to open the trace and review the failing step in context.'',
      [''Open the trace zip in Playwright trace viewer.'',
       ''Read the error message and stack trace verbatim.'',
       ''If a clear pattern emerges, file a feature request to add a rule.''])"

definition text_or :: "string option \<Rightarrow> (string \<Rightarrow> string) \<Rightarrow> string \<Rightarrow> string" where
  "text_or o' f d = (if opt_str o' \<noteq> [] then f (opt_str o') else d)"

definition clip :: "nat \<Rightarrow> string \<Rightarrow> string" where
  "clip limit text' =
     (let t = replace_char newline '' '' (py_strip text') in
      if py_len t \<le> limit then t else py_take (limit - 1) t @ ellipsis)"

definition short_url :: "string \<Rightarrow> string" where
  "short_url url =
     (let base = before_char CHR ''#'' (before_char CHR ''?'' url) in
      if py_len base \<le> 80 then base else py_take 79 base @ ellipsis)"

text \<open>The suffix of \<open>s\<close> from the first occurrence of \<open>marker\<close> on (\<open>s[s.find(marker):]\<close>).\<close>

fun find_from :: "string \<Rightarrow> string \<Rightarrow> string option" where
  "find_from marker [] = (if marker = [] then Some [] else None)"
| "find_from marker (c # cs) = (if py_startswith (c # cs) marker then Some (c # cs) else find_from marker cs)"

text \<open>From the marker to the next closing parenthesis.\<close>

definition call_text :: "string \<Rightarrow> string \<Rightarrow> string option" where
  "call_text marker msg =
     (case find_from marker msg of None \<Rightarrow> None
      | Some t \<Rightarrow> if CHR '')'' \<in> set t then Some (takeWhile (\<lambda>c. c \<noteq> CHR '')'') t @ '')'') else None)"

definition locator_snippet :: "failure_signal \<Rightarrow> string" where
  "locator_snippet s =
     (let msg = opt_str (sg_error_message s) in
      case List.map_filter (\<lambda>marker. call_text marker msg)
             [''getByRole('', ''getByLabel('', ''getByText('', ''getByPlaceholder('', ''locator(''] of
        t # _ \<Rightarrow> t
      | [] \<Rightarrow> ''the expected element'')"

definition http_snippet :: "(network_record \<Rightarrow> bool) \<Rightarrow> failure_signal \<Rightarrow> string option" where
  "http_snippet P s =
     (case List.find P (sg_network s) of None \<Rightarrow> None
      | Some n \<Rightarrow> Some (''HTTP '' @ str_of_nat (nw_status_code n) @ '' from '' @ short_url (nw_url n)))"

fun evidence_snippet :: "failure_signal \<Rightarrow> failure_category \<Rightarrow> string" where
  "evidence_snippet s App_Bug =
     (case http_snippet is_app_5xx s of Some t \<Rightarrow> t | None \<Rightarrow> ''an unexpected server response'')"
| "evidence_snippet s Test_Bug = locator_snippet s"
| "evidence_snippet s Environment_Failure =
     (if opt_str (sg_error_name s) \<noteq> [] \<and> opt_str (sg_error_message s) \<noteq> []
      then opt_str (sg_error_name s) @ '': '' @ clip 200 (opt_str (sg_error_message s))
      else text_or (sg_error_message s) (clip 200) ''the underlying runtime reported an error'')"
| "evidence_snippet s Api_Failure =
     (case http_snippet (\<lambda>n. 400 \<le> nw_status_code n \<and> nw_status_code n < 500) s of Some t \<Rightarrow> t
      | None \<Rightarrow> ''an unexpected response status'')"
| "evidence_snippet s Auth_Failure =
     (case http_snippet (\<lambda>n. nw_status_code n \<in> {401, 403}) s of Some t \<Rightarrow> t
      | None \<Rightarrow> text_or (sg_error_message s) (clip 160) ''the login fixture did not complete'')"
| "evidence_snippet s Flake = ''Observed '' @ str_of_nat (sg_retries s) @ '' retries before success.''"
| "evidence_snippet s Data_Setup_Failure =
     text_or (sg_error_message s) (clip 160) ''The fixture raised before yielding to the test.''"
| "evidence_snippet s Performance_Regression = text_or (sg_error_message s) (clip 160) ''a budget assertion fired''"
| "evidence_snippet s Security_Finding = text_or (sg_error_message s) (clip 160) ''a security assertion fired''"
| "evidence_snippet s Accessibility_Violation = text_or (sg_error_message s) (clip 160) ''an axe assertion fired''"
| "evidence_snippet s Unknown = text_or (sg_error_message s) (clip 200) ''no error message was captured''"

definition collect_evidence_refs :: "failure_signal \<Rightarrow> string list" where
  "collect_evidence_refs s =
     sg_evidence s @
     (if opt_str (sg_error_message s) \<noteq> [] \<and> ''trace'' \<notin> set (sg_evidence s) then [''trace://failing-test''] else [])"

definition hypothesize :: "failure_signal \<Rightarrow> failure_classification \<Rightarrow> root_cause_hypothesis" where
  "hypothesize s c =
     (case template (fc_category c) of (pre, post, actions) \<Rightarrow>
        let t = pre @ evidence_snippet s (fc_category c) @ post in
        \<lparr>rh_category = fc_category c,
         rh_hypothesis = (if 1024 < py_len t then py_take 1021 t @ ''...'' else t),
         rh_confidence = fc_confidence c, rh_evidence_refs = collect_evidence_refs s,
         rh_next_actions = actions, rh_llm_refinement = None\<rparr>)"

section \<open>Reproduction\<close>

text \<open>Stem and suffix of \<open>PurePosixPath(p).name\<close>.\<close>

definition path_name :: "string \<Rightarrow> string" where
  "path_name p = (case filter (\<lambda>x. x \<noteq> [] \<and> x \<noteq> ''.'') (path_components p) of [] \<Rightarrow> [] | cs \<Rightarrow> last cs)"

definition stem_suffix :: "string \<Rightarrow> string \<times> string" where
  "stem_suffix name =
     (let ext = after_last_char CHR ''.'' name; stem = take (length name - length ext - 1) name in
      if CHR ''.'' \<in> set name \<and> stem \<noteq> [] \<and> ext \<noteq> [] then (stem, CHR ''.'' # ext) else (name, []))"

fun find_evidence :: "string list \<Rightarrow> string \<Rightarrow> string option" where
  "find_evidence [] kind = None"
| "find_evidence (p # ps) kind =
     (if py_in kind (py_lower p) then Some p
      else if snd (stem_suffix (path_name p)) \<noteq> [] \<and> py_in kind (py_lower (fst (stem_suffix (path_name p)))) then Some p
      else find_evidence ps kind)"

definition is_framework_step :: "string \<Rightarrow> bool" where
  "is_framework_step name \<longleftrightarrow>
     (let l = py_lower name in
      py_startswith l ''before '' \<or> py_startswith l ''after '' \<or> py_startswith l ''test.'' \<or> l \<in> {''setup'', ''teardown''})"

definition user_step :: "step_record \<Rightarrow> string option" where
  "user_step r =
     (if \<not> st_ok r
      then Some (st_name r @ '' '' @ arrow @ '' ERROR ('' @
                 (if opt_str (st_error r) = [] then ''no message'' else opt_str (st_error r)) @ '')'')
      else
        let name = py_strip (st_name r) in
        if name = [] then None else if is_framework_step name then None else Some name)"

definition extract_user_steps :: "step_record list \<Rightarrow> string list" where
  "extract_user_steps rs = List.map_filter user_step rs"

definition is_line_break :: "char \<Rightarrow> bool" where
  "is_line_break c \<longleftrightarrow> (let n = (of_char c :: nat) in (10 \<le> n \<and> n \<le> 13) \<or> (28 \<le> n \<and> n \<le> 30))"

text \<open>\<open>s.splitlines()[0]\<close>, an index error on the empty string.\<close>

definition first_line :: "string \<Rightarrow> string option" where
  "first_line s = (if s = [] then None else Some (takeWhile (\<lambda>c. \<not> is_line_break c) s))"

definition expected_vs_actual :: "failure_signal \<Rightarrow> analyzer_error + string" where
  "expected_vs_actual s =
     (if opt_str (sg_error_message s) \<noteq> []
      then (case first_line (py_strip (opt_str (sg_error_message s))) of None \<Rightarrow> Inl Index_error | Some l \<Rightarrow> Inr l)
      else if sg_status s = Sig_timed_out
      then Inr (''timed out after '' @ str_of_nat (sg_duration_ms s) @ '' ms'')
      else if sg_status s = Sig_flaky
      then Inr (''flaky '' @ em_dash @ '' passed on a later retry, see attempts.'')
      else Inr ''test failed with no error message captured'')"

definition reproduction :: "failure_signal \<Rightarrow> string list \<Rightarrow> string option \<Rightarrow> analyzer_error + string list" where
  "reproduction s auth_env_vars base_url =
     (let trace = find_evidence (sg_evidence s) ''trace'';
          open' = (if opt_str trace \<noteq> [] then ''Open the trace zip: '' @ opt_str trace
                   else ''Open the run's trace dir (.sentinel/runs/<run-id>/traces/) and locate this test's trace.'');
          visit = (if opt_str base_url \<noteq> [] then [''Visit the app under test at '' @ opt_str base_url @ ''.'']
                   else if opt_str (sg_route s) \<noteq> [] then [''Visit the route under test: '' @ opt_str (sg_route s) @ ''.'']
                   else []);
          auth = (if auth_env_vars \<noteq> []
                  then [''Authenticate using the env-var-named credentials ('' @
                        py_join '', '' (map (\<lambda>name. ''$'' @ name) auth_env_vars) @
                        ''). Do NOT inline secrets in this repro.'']
                  else if sg_fixture_failed s
                  then [''Run the test's auth/setup fixture in isolation; do not skip it '' @ em_dash @
                        '' the failure originates there.'']
                  else []);
          steps = map (\<lambda>(i, a). ''Step '' @ str_of_nat i @ '': '' @ a) (enumerate 1 (extract_user_steps (sg_steps s)));
          expected = (if py_strip (sg_title s) = [] then ''the test assertion'' else py_strip (sg_title s))
      in case expected_vs_actual s of Inl e \<Rightarrow> Inl e
         | Inr actual \<Rightarrow>
             Inr ([open'] @ visit @ auth @ steps @
                  [''Observe failure '' @ em_dash @ '' expected: '' @ expected @ ''; actual: '' @ actual @ ''.'']))"

definition sanitize_title :: "string \<Rightarrow> string" where
  "sanitize_title t =
     py_strip (replace_char newline '' '' (replace_char CHR 0x22 [CHR 0x5C, CHR 0x22]
       (replace_char CHR 0x5C [CHR 0x5C, CHR 0x5C] t)))"

definition lines_of :: "string list \<Rightarrow> string" where
  "lines_of ls = concat (map (\<lambda>l. l @ [newline]) ls)"

definition repro_banner :: string where
  "repro_banner = lines_of [''// SENTINELQA AUTO-GENERATED REPRO SPEC'',
     ''// Generated by engine.analyzer.repro. Do not edit by hand; regenerate'',
     ''// from the analyzer when the underlying failure changes.'']"

definition build_repro_spec :: "failure_signal \<Rightarrow> string \<Rightarrow> string \<Rightarrow> string list \<Rightarrow> string" where
  "build_repro_spec s base_url finding_id auth_env_vars =
     (let q = [CHR 0x22];
          title = sanitize_title (if sg_title s = [] then finding_id else sg_title s);
          steps = extract_user_steps (sg_steps s);
          comments = (if steps = [] then [''// No step records captured '' @ em_dash @ '' replay manually.'']
                      else map (\<lambda>(i, a). ''// '' @ str_of_nat i @ ''. '' @ a) (enumerate 1 steps));
          auth = (if auth_env_vars = [] then []
                  else lines_of ([''  // Auth is pulled from env vars; do not inline secrets here.'',
                                  ''  const _creds = {''] @
                         map (\<lambda>name. ''    '' @ name @ '': process.env['' @ q @ name @ q @ ''] ?? '' @ q @ q @ '','') auth_env_vars @
                         [''  };'']))
      in repro_banner @
         lines_of [''// Finding: '' @ finding_id, ''// Test: '' @ sg_title s, ''// File: '' @ sg_file s, [],
                   ''import { test, expect } from '' @ q @ ''@playwright/test'' @ q @ '';'', [],
                   ''test('' @ q @ ''repro: '' @ title @ q @ '', async ({ page }) => {''] @
         auth @
         lines_of [''  await page.goto('' @ q @ base_url @ q @ '');'', [],
                   ''  '' @ py_join ([newline] @ ''  '') comments, [],
                   ''  // TODO: replace this with the concrete assertion that originally failed.'',
                   ''  await expect(page).toHaveTitle(/.+/);'', ''});''])"

section \<open>Retry decision\<close>

record failure_history =
  fh_total_recent_runs :: int
  fh_failed_recent_runs :: int
  fh_last_passed :: bool

definition valid_history :: "failure_history \<Rightarrow> bool" where
  "valid_history h \<longleftrightarrow> 0 \<le> fh_total_recent_runs h \<and> fh_total_recent_runs h \<le> 1000 \<and>
     0 \<le> fh_failed_recent_runs h \<and> fh_failed_recent_runs h \<le> 1000"

datatype retry_kind = Retry | Quarantine_Candidate | No_Action

record retry_decision =
  rd_decision :: retry_kind
  rd_reason :: string
  rd_confidence :: flt

definition valid_retry_decision :: "retry_decision \<Rightarrow> bool" where
  "valid_retry_decision d \<longleftrightarrow> bounded_str 1 512 (rd_reason d) \<and> 0 \<le> rd_confidence d \<and> rd_confidence d \<le> 1"

definition max_auto_retries :: nat where
  "max_auto_retries = 2"

definition mk_decision :: "retry_kind \<Rightarrow> string \<Rightarrow> flt \<Rightarrow> retry_decision" where
  "mk_decision k r c = \<lparr>rd_decision = k, rd_reason = r, rd_confidence = c\<rparr>"

definition py_capitalize :: "string \<Rightarrow> string" where
  "py_capitalize s = (case s of [] \<Rightarrow> [] | c # cs \<Rightarrow> upper_char c # py_lower cs)"

definition deterministic_decision :: "failure_category \<Rightarrow> retry_decision" where
  "deterministic_decision c = mk_decision No_Action
     (py_capitalize (replace_char CHR ''_'' '' '' (category_name c)) @ '' is deterministic; do not retry.'') (fl (85 / 100))"

fun decide_by_category :: "failure_signal \<Rightarrow> failure_history option \<Rightarrow> failure_category \<Rightarrow> retry_decision" where
  "decide_by_category s h Flake =
     mk_decision Retry ''Pass-on-retry pattern observed; another attempt is informative.'' (fl (85 / 100))"
| "decide_by_category s h Environment_Failure =
     mk_decision Retry ''Environment/runtime fault is often transient; retry once.'' (fl (8 / 10))"
| "decide_by_category s h Auth_Failure =
     (if sg_fixture_failed s
      then mk_decision No_Action ''Auth fixture failed; retrying re-runs the same fixture and is unlikely to succeed without a config fix.'' (fl (85 / 100))
      else mk_decision Retry ''Auth surfaced mid-test; one retry distinguishes session timeout from a true block.'' (fl (6 / 10)))"
| "decide_by_category s h App_Bug =
     mk_decision No_Action ''App returned a 5xx; retrying will not change a server-side defect.'' (fl (9 / 10))"
| "decide_by_category s h Api_Failure =
     mk_decision No_Action ''API contract / input mismatch is deterministic; do not retry.'' (fl (8 / 10))"
| "decide_by_category s h Performance_Regression = deterministic_decision Performance_Regression"
| "decide_by_category s h Security_Finding = deterministic_decision Security_Finding"
| "decide_by_category s h Accessibility_Violation = deterministic_decision Accessibility_Violation"
| "decide_by_category s h Test_Bug =
     (if (case h of None \<Rightarrow> False
          | Some x \<Rightarrow> 3 \<le> fh_failed_recent_runs x \<and> fh_total_recent_runs x - 1 \<le> fh_failed_recent_runs x)
      then mk_decision Quarantine_Candidate
             (''Failed '' @ str_of_int (fh_failed_recent_runs (the h)) @ ''/'' @ str_of_int (fh_total_recent_runs (the h)) @
              '' of the most recent runs against a healthy app; locator is likely stale.'') (fl (8 / 10))
      else if 1 \<le> sg_retries s
      then mk_decision Quarantine_Candidate ''Locator-timeout pattern reproduced across attempts against a healthy app; review the locator before re-enabling.'' (fl (7 / 10))
      else mk_decision No_Action ''Likely test-side defect; a fresh retry rarely helps a stale locator.'' (fl (6 / 10)))"
| "decide_by_category s h Data_Setup_Failure =
     mk_decision No_Action ''Data/setup fixture errors are configuration-bound; fix the fixture.'' (fl (75 / 100))"
| "decide_by_category s h Unknown =
     mk_decision No_Action ''No rule matched; defaulting to no_action so a human can categorise the failure before any auto-retry.'' (fl (5 / 10))"

definition should_retry :: "failure_signal \<Rightarrow> failure_classification \<Rightarrow> failure_history option \<Rightarrow> retry_decision" where
  "should_retry s c h =
     (if max_auto_retries \<le> sg_retries s
      then mk_decision No_Action
             (''Already retried '' @ str_of_nat (sg_retries s) @ '' time(s); further auto-retries would violate the conservative auto-loop boundary.'')
             (fl (95 / 100))
      else decide_by_category s h (fc_category c))"

section \<open>Pipeline\<close>

record analyzer_context =
  cx_auth_env_vars :: "string list"
  cx_base_url :: "string option"
  cx_history :: "(string, failure_history) dict"

record analyzer_result =
  ar_test_id :: string
  ar_classification :: failure_classification
  ar_hypothesis :: root_cause_hypothesis
  ar_reproduction :: "string list"
  ar_retry_decision :: retry_decision

text \<open>What a call of the explainer does.\<close>

datatype llm_outcome = Llm_raised | Llm_refined "string option"

type_synonym llm_explainer = "failure_signal \<Rightarrow> failure_classification \<Rightarrow> root_cause_hypothesis \<Rightarrow> llm_outcome"

definition refine_hypothesis ::
  "llm_explainer option \<Rightarrow> failure_signal \<Rightarrow> failure_classification \<Rightarrow> root_cause_hypothesis \<Rightarrow> root_cause_hypothesis" where
  "refine_hypothesis llm s c h =
     (case llm of None \<Rightarrow> h
      | Some explain \<Rightarrow>
        (case explain s c h of Llm_refined (Some t) \<Rightarrow> h\<lparr>rh_llm_refinement := Some t\<rparr> | _ \<Rightarrow> h))"

definition analyze_one ::
  "llm_explainer option \<Rightarrow> analyzer_context \<Rightarrow> failure_signal \<Rightarrow> analyzer_error + analyzer_result" where
  "analyze_one llm ctx s =
     (let c = categorize s; h = hypothesize s c in
      if \<not> valid_classification c then Inl Invalid_classification
      else if \<not> valid_hypothesis h then Inl Invalid_hypothesis
      else case reproduction s (cx_auth_env_vars ctx) (cx_base_url ctx) of Inl e \<Rightarrow> Inl e
        | Inr repro \<Rightarrow>
          (let d = should_retry s c (map_of (cx_history ctx) (sg_test_id s)) in
           if \<not> valid_retry_decision d then Inl Invalid_retry_decision
           else if \<not> bounded_str 1 256 (sg_test_id s) then Inl Invalid_result
           else Inr \<lparr>ar_test_id = sg_test_id s, ar_classification = c,
                     ar_hypothesis = refine_hypothesis llm s c h, ar_reproduction = repro,
                     ar_retry_decision = d\<rparr>))"

definition sort_results :: "analyzer_result list \<Rightarrow> analyzer_result list" where
  "sort_results rs = sort_key ar_test_id rs"

definition analyze ::
  "llm_explainer option \<Rightarrow> analyzer_context \<Rightarrow> failure_signal list \<Rightarrow> analyzer_error + analyzer_result list" where
  "analyze llm ctx ss =
     (case result_map (analyze_one llm ctx) ss of Inl e \<Rightarrow> Inl e | Inr rs \<Rightarrow> Inr (sort_results rs))"

definition is_healer_candidate :: "analyzer_result \<Rightarrow> bool" where
  "is_healer_candidate r \<longleftrightarrow>
     fc_category (ar_classification r) = Test_Bug \<and> fl (5 / 10) \<le> fc_confidence (ar_classification r)"

section \<open>Every stage respects its bounds\<close>

lemma py_len_Cons: "py_len (c # s) = (if is_cont c then 0 else 1) + py_len s"
  by (simp add: py_len_def)

lemma py_len_Nil: "py_len [] = 0"
  by (simp add: py_len_def)

lemma py_len_str_of_nat: "n < 10 ^ k \<Longrightarrow> 0 < k \<Longrightarrow> py_len (str_of_nat n) \<le> k"
  by (metis digits_of_length le_trans py_len_le_length str_of_nat_def)

lemma py_len_str_of_int: "0 \<le> i \<Longrightarrow> i < 10 ^ k \<Longrightarrow> 0 < k \<Longrightarrow> py_len (str_of_int i) \<le> k"
  using py_len_str_of_nat [of "nat i" k] by (simp add: str_of_int_def str_of_nat_def nat_less_iff)

lemmas py_len_lit = py_len_Cons py_len_Nil is_cont_def Let_def em_dash_def py_len_append

definition unit_match :: "rule_match \<Rightarrow> bool" where
  "unit_match m \<longleftrightarrow> (case m of (c, conf, r) \<Rightarrow> 0 \<le> conf \<and> conf \<le> 1 \<and> bounded_str 1 512 r)"

lemma unit_matchI: "0 \<le> x \<Longrightarrow> x \<le> 1 \<Longrightarrow> 1 \<le> py_len r \<Longrightarrow> py_len r \<le> 512 \<Longrightarrow> unit_match (c, fl x, r)"
  using fl_unit by (simp add: unit_match_def bounded_str_def)

lemma status_code_len: "valid_network n \<Longrightarrow> py_len (str_of_nat (nw_status_code n)) \<le> 3"
  by (intro py_len_str_of_nat) (auto simp: valid_network_def)

lemma filter_head_len:
  assumes "list_all valid_network ns" "filter P ns = n # ns'" "3 \<le> k"
  shows "py_len (str_of_nat (nw_status_code n)) \<le> k"
proof -
  have "n \<in> set ns" by (metis assms(2) filter_is_subset list.set_intros(1) subset_iff)
  then show ?thesis using status_code_len [of n] assms(1,3) by (simp add: list_all_iff)
qed

lemma rule_match_unit:
  assumes "rule s = Some m" "rule \<in> set rules" "valid_signal s"
  shows "unit_match m"
proof -
  have nets: "list_all valid_network (sg_network s)" using assms(3) by (simp add: valid_signal_def)
  from assms(2) consider "rule = rule_flake" | "rule = rule_browser_crash" | "rule = rule_fixture_auth_failure"
    | "rule = rule_app_5xx" | "rule = rule_api_4xx" | "rule = rule_auth_4xx" | "rule = rule_locator_timeout"
    | "rule = rule_a11y" | "rule = rule_security" | "rule = rule_performance" | "rule = rule_data_setup"
    by (auto simp: rules_def)
  then show ?thesis
  proof cases
    case 1 then show ?thesis using assms(1)
      by (auto simp: rule_flake_def Let_def py_len_lit split: if_splits intro!: unit_matchI)
  next
    case 2 then show ?thesis using assms(1)
      by (auto simp: rule_browser_crash_def Let_def py_len_lit split: if_splits intro!: unit_matchI)
  next
    case 3 then show ?thesis using assms(1)
      by (auto simp: rule_fixture_auth_failure_def Let_def py_len_lit split: if_splits intro!: unit_matchI)
  next
    case 4 then show ?thesis using assms(1)
      by (auto simp: rule_app_5xx_def py_len_lit split: list.splits if_splits
          intro!: unit_matchI filter_head_len [OF nets])
  next
    case 5 then show ?thesis using assms(1)
      by (auto simp: rule_api_4xx_def py_len_lit split: list.splits intro!: unit_matchI filter_head_len [OF nets])
  next
    case 6 then show ?thesis using assms(1)
      by (auto simp: rule_auth_4xx_def py_len_lit split: list.splits intro!: unit_matchI filter_head_len [OF nets])
  next
    case 7 then show ?thesis using assms(1)
      by (auto simp: rule_locator_timeout_def Let_def py_len_lit split: if_splits intro!: unit_matchI)
  next
    case 8 then show ?thesis using assms(1)
      by (auto simp: rule_a11y_def Let_def py_len_lit split: if_splits intro!: unit_matchI)
  next
    case 9 then show ?thesis using assms(1)
      by (auto simp: rule_security_def py_len_lit split: if_splits intro!: unit_matchI)
  next
    case 10 then show ?thesis using assms(1)
      by (auto simp: rule_performance_def Let_def py_len_lit split: if_splits intro!: unit_matchI)
  next
    case 11 then show ?thesis using assms(1)
      by (auto simp: rule_data_setup_def Let_def py_len_lit split: if_splits intro!: unit_matchI)
  qed
qed

lemma categorize_valid: "valid_signal s \<Longrightarrow> valid_classification (categorize s)"
proof (cases "rule_matches s = []")
  case True
  then show ?thesis
    using fl_unit [of "3 / 10"]
    by (simp add: categorize_def valid_classification_def bounded_str_def py_len_lit)
next
  case False
  assume "valid_signal s"
  then have "unit_match (fc_category (categorize s), fc_confidence (categorize s), fc_rationale (categorize s))"
    using categorize_member [OF False] rule_match_unit by (auto simp: rule_matches_member)
  then show ?thesis by (simp add: unit_match_def valid_classification_def)
qed

lemma template_text: "1 \<le> py_len (fst (template c))"
  by (cases c) (simp_all add: py_len_Cons is_cont_def)

lemma hypothesize_valid: "valid_classification c \<Longrightarrow> valid_hypothesis (hypothesize s c)"
proof -
  assume c: "valid_classification c"
  obtain pre post actions where t: "template (fc_category c) = (pre, post, actions)"
    by (cases "template (fc_category c)")
  then have "1 \<le> py_len pre" using template_text [of "fc_category c"] by simp
  moreover have "py_len (py_take 1021 u @ ''...'') \<le> 1024" "1 \<le> py_len (py_take 1021 u @ ''...'')" for u
    using py_len_take [of 1021 u] by (simp_all add: py_len_lit)
  ultimately show ?thesis using c
    by (simp add: hypothesize_def t Let_def valid_hypothesis_def valid_classification_def bounded_str_def bounded_opt_def)
qed

lemma reproduction_error:
  "reproduction s auth_env_vars base_url = Inl e \<longleftrightarrow>
     e = Index_error \<and> opt_str (sg_error_message s) \<noteq> [] \<and> py_strip (opt_str (sg_error_message s)) = []"
  by (auto simp: reproduction_def expected_vs_actual_def first_line_def Let_def split: sum.splits)

lemma deterministic_decision_valid: "valid_retry_decision (deterministic_decision c)"
  using fl_unit [of "85 / 100"] py_len_le_length
  by (cases c) (simp_all add: deterministic_decision_def mk_decision_def valid_retry_decision_def bounded_str_def
      py_capitalize_def py_lower_def lower_char_def upper_char_def replace_char_def py_len_lit)

lemma mk_decision_valid: "0 \<le> x \<Longrightarrow> x \<le> 1 \<Longrightarrow> 1 \<le> py_len r \<Longrightarrow> py_len r \<le> 512 \<Longrightarrow> valid_retry_decision (mk_decision k r (fl x))"
  using fl_unit by (simp add: mk_decision_def valid_retry_decision_def bounded_str_def)

lemma history_count_len: "0 \<le> i \<Longrightarrow> i \<le> 1000 \<Longrightarrow> py_len (str_of_int i) \<le> 4"
  by (rule py_len_str_of_int) simp_all

lemma decide_by_category_valid:
  assumes "case h of None \<Rightarrow> True | Some x \<Rightarrow> valid_history x"
  shows "valid_retry_decision (decide_by_category s h c)"
proof (cases "c = Test_Bug")
  case True
  have "valid_retry_decision (mk_decision Quarantine_Candidate
      (''Failed '' @ str_of_int (fh_failed_recent_runs x) @ ''/'' @ str_of_int (fh_total_recent_runs x) @
       '' of the most recent runs against a healthy app; locator is likely stale.'') (fl (8 / 10)))"
    if "valid_history x" for x
    using history_count_len [of "fh_failed_recent_runs x"] history_count_len [of "fh_total_recent_runs x"] that
    by (intro mk_decision_valid) (simp_all add: py_len_lit valid_history_def)
  then show ?thesis
    using assms True by (auto simp: py_len_lit split: option.splits intro!: mk_decision_valid)
next
  case False
  then show ?thesis
    by (cases c) (auto simp: py_len_lit intro!: mk_decision_valid deterministic_decision_valid)
qed

lemma should_retry_valid:
  assumes "sg_retries s \<le> 10" "case h of None \<Rightarrow> True | Some x \<Rightarrow> valid_history x"
  shows "valid_retry_decision (should_retry s c h)"
proof -
  have "py_len (str_of_nat (sg_retries s)) \<le> 2" using assms(1) by (intro py_len_str_of_nat) auto
  then have "valid_retry_decision (mk_decision No_Action
      (''Already retried '' @ str_of_nat (sg_retries s) @ '' time(s); further auto-retries would violate the conservative auto-loop boundary.'')
      (fl (95 / 100)))"
    by (intro mk_decision_valid) (simp_all add: py_len_lit)
  then show ?thesis using decide_by_category_valid [OF assms(2)] by (simp add: should_retry_def)
qed

lemma should_retry_iff:
  "rd_decision (should_retry s c h) = Retry \<longleftrightarrow>
     sg_retries s < max_auto_retries \<and>
     (fc_category c \<in> {Flake, Environment_Failure} \<or> fc_category c = Auth_Failure \<and> \<not> sg_fixture_failed s)"
  by (cases "fc_category c") (auto simp: should_retry_def mk_decision_def deterministic_decision_def split: option.splits)

lemma analyze_one_eq:
  assumes "valid_signal s" "list_all (\<lambda>(i, h). valid_history h) (cx_history ctx)"
  shows "analyze_one llm ctx s =
    (if opt_str (sg_error_message s) \<noteq> [] \<and> py_strip (opt_str (sg_error_message s)) = [] then Inl Index_error
     else Inr \<lparr>ar_test_id = sg_test_id s, ar_classification = categorize s,
               ar_hypothesis = refine_hypothesis llm s (categorize s) (hypothesize s (categorize s)),
               ar_reproduction = projr (reproduction s (cx_auth_env_vars ctx) (cx_base_url ctx)),
               ar_retry_decision = should_retry s (categorize s) (map_of (cx_history ctx) (sg_test_id s))\<rparr>)"
proof -
  have c: "valid_classification (categorize s)" by (rule categorize_valid [OF assms(1)])
  have "case map_of (cx_history ctx) (sg_test_id s) of None \<Rightarrow> True | Some x \<Rightarrow> valid_history x"
    using assms(2) by (auto simp: list_all_iff dest!: map_of_SomeD split: option.splits)
  then have d: "valid_retry_decision (should_retry s (categorize s) (map_of (cx_history ctx) (sg_test_id s)))"
    using assms(1) by (intro should_retry_valid) (simp add: valid_signal_def)
  have i: "bounded_str 1 256 (sg_test_id s)" using assms(1) by (simp add: valid_signal_def)
  show ?thesis
  proof (cases "reproduction s (cx_auth_env_vars ctx) (cx_base_url ctx)")
    case (Inl e)
    then have "e = Index_error \<and> opt_str (sg_error_message s) \<noteq> [] \<and> py_strip (opt_str (sg_error_message s)) = []"
      using reproduction_error by blast
    then show ?thesis
      using c hypothesize_valid [OF c, of s] by (simp add: analyze_one_def Inl)
  next
    case (Inr steps)
    then have "\<not> (opt_str (sg_error_message s) \<noteq> [] \<and> py_strip (opt_str (sg_error_message s)) = [])"
      by (metis Inl_Inr_False reproduction_error)
    then show ?thesis
      using c hypothesize_valid [OF c, of s] d i Inr by (auto simp: analyze_one_def Let_def)
  qed
qed

lemma sample_signal_valid:
  "bounded_str 1 64 m \<Longrightarrow> py_len t \<le> 2048 \<Longrightarrow> \<forall>c \<in> set codes. c \<le> 999 \<Longrightarrow> valid_signal (sample_signal m t codes)"
  by (auto simp: sample_signal_def valid_signal_def bounded_str_def bounded_opt_def valid_network_def
      list_all_iff py_len_lit)

definition sample_context :: analyzer_context where
  "sample_context = \<lparr>cx_auth_env_vars = [], cx_base_url = None,
     cx_history = [(''t'', \<lparr>fh_total_recent_runs = 4, fh_failed_recent_runs = 4, fh_last_passed = False\<rparr>)]\<rparr>"

lemma sample_context_valid: "list_all (\<lambda>(i, h). valid_history h) (cx_history sample_context)"
  by (simp add: sample_context_def valid_history_def)

text \<open>
  C38. For every well-formed signal and history, with any explainer (one that raises included), the
  analyzer returns a result, except for one input class: an error message that is not empty and all
  whitespace makes the reproduction stage raise an index error. No stage ever violates the bounds of
  its result model.
\<close>

theorem analyze_one_total:
  assumes "valid_signal s" "list_all (\<lambda>(i, h). valid_history h) (cx_history ctx)"
  shows "analyze_one llm ctx s =
    (if opt_str (sg_error_message s) \<noteq> [] \<and> py_strip (opt_str (sg_error_message s)) = [] then Inl Index_error
     else Inr \<lparr>ar_test_id = sg_test_id s, ar_classification = categorize s,
               ar_hypothesis = refine_hypothesis llm s (categorize s) (hypothesize s (categorize s)),
               ar_reproduction = projr (reproduction s (cx_auth_env_vars ctx) (cx_base_url ctx)),
               ar_retry_decision = should_retry s (categorize s) (map_of (cx_history ctx) (sg_test_id s))\<rparr>)"
  by (rule analyze_one_eq [OF assms])

theorem analyze_one_total_witness:
  "analyze_one (Some (\<lambda>_ _ _. Llm_raised)) sample_context (sample_signal ''functional'' ''  '' [200]) = Inl Index_error"
proof -
  have v: "valid_signal (sample_signal ''functional'' ''  '' [200])"
    by (rule sample_signal_valid) (simp_all add: bounded_str_def py_len_lit)
  show ?thesis
    unfolding analyze_one_total [OF v sample_context_valid]
    by (simp add: sample_signal_def opt_str_def py_strip_def is_space_def)
qed

text \<open>
  C35. A test that failed or timed out while the server answered with a 5xx is never retried, never put
  up for quarantine and never handed to the healer, whatever its message, its history and the other
  evidence: no action is taken on it. It is classified as an accessibility violation in the module
  named \<open>a11y\<close> and as an application bug in every other module, where the server error outranks an
  accessibility message and every other rule.
\<close>

theorem server_error_not_retried:
  assumes "sg_status s \<in> {Sig_failed, Sig_timed_out}" "list_ex is_app_5xx (sg_network s)"
    and "analyze_one llm ctx s = Inr r"
  shows "rd_decision (ar_retry_decision r) = No_Action \<and> \<not> is_healer_candidate r \<and>
    fc_category (ar_classification r) = (if sg_module s = ''a11y'' then Accessibility_Violation else App_Bug)"
proof -
  have c: "fc_category (categorize s) = (if sg_module s = ''a11y'' then Accessibility_Violation else App_Bug)"
    by (rule categorize_5xx [OF assms(2,1)])
  have "ar_classification r = categorize s"
    "ar_retry_decision r = should_retry s (categorize s) (map_of (cx_history ctx) (sg_test_id s))"
    using assms(3) by (auto simp: analyze_one_def Let_def split: if_splits sum.splits)
  then show ?thesis
    using c by (auto simp: is_healer_candidate_def should_retry_def mk_decision_def deterministic_decision_def)
qed

theorem server_error_not_retried_witness:
  "rd_decision (ar_retry_decision (projr (analyze_one None sample_context (sample_signal ''security'' ''locator. target closed'' [404, 503])))) = No_Action \<and>
   fc_category (ar_classification (projr (analyze_one None sample_context (sample_signal ''security'' ''locator. target closed'' [404, 503])))) = App_Bug"
proof -
  have v: "valid_signal (sample_signal ''security'' ''locator. target closed'' [404, 503])"
    by (rule sample_signal_valid) (simp_all add: bounded_str_def py_len_lit)
  have "\<exists>r. analyze_one None sample_context (sample_signal ''security'' ''locator. target closed'' [404, 503]) = Inr r"
    unfolding analyze_one_eq [OF v sample_context_valid]
    by (simp add: sample_signal_def opt_str_def py_strip_def is_space_def)
  then have r: "analyze_one None sample_context (sample_signal ''security'' ''locator. target closed'' [404, 503]) =
      Inr (projr (analyze_one None sample_context (sample_signal ''security'' ''locator. target closed'' [404, 503])))"
    by (metis sum.sel(2))
  have "sg_status (sample_signal ''security'' ''locator. target closed'' [404, 503]) \<in> {Sig_failed, Sig_timed_out}"
    "list_ex is_app_5xx (sg_network (sample_signal ''security'' ''locator. target closed'' [404, 503]))"
    by (simp_all add: sample_signal_def is_app_5xx_def)
  from server_error_not_retried [OF this r] show ?thesis by (simp add: sample_signal_def)
qed

text \<open>The accessibility module's canonical name is not the one its rule tests for.\<close>

lemma accessibility_module_unmatched: "rule_a11y (sample_signal ''accessibility'' ''expected 0'' []) = None"
  by code_simp

end
