(* ===== verification/Difflib.thy ===== *)
theory Difflib
  imports Prelude PyFloat
begin

text \<open>
  What the healer uses of Python's \<open>difflib\<close>: \<open>SequenceMatcher\<close> with its popularity heuristic,
  \<open>ratio\<close>, the grouped opcodes and \<open>unified_diff\<close>, and \<open>str.splitlines(keepends=True)\<close>. The sequences are
  lists; a string is compared as the list of its code points.
\<close>

section \<open>Characters and lines\<close>

function py_chars :: "string \<Rightarrow> string list" where
  "py_chars [] = []"
| "py_chars (c # cs) = (c # takeWhile is_cont cs) # py_chars (dropWhile is_cont cs)"
  by pat_completeness auto
termination by (relation "measure length") (auto simp: le_imp_less_Suc length_dropWhile_le)

text \<open>
  The line boundaries of \<open>str.splitlines\<close>: LF, CR, CR LF, VT, FF, FS, GS, RS, and in UTF-8
  NEL (C2 85), LS and PS (E2 80 A8/A9). The result is the length of the boundary a text starts with, 0 for none.
\<close>

definition boundary :: "string \<Rightarrow> nat" where
  "boundary s =
     (let code = (\<lambda>i. if i < length s then of_char (s ! i) else (256 :: nat)) in
      if s = [] then 0
      else if code 0 = 13 \<and> code 1 = 10 then 2
      else if code 0 \<in> {10, 11, 12, 13, 28, 29, 30} then 1
      else if code 0 = 194 \<and> code 1 = 133 then 2
      else if code 0 = 226 \<and> code 1 = 128 \<and> code 2 \<in> {168, 169} then 3
      else 0)"

text \<open>The line read so far is the accumulator.\<close>

function split_lines :: "string \<Rightarrow> string \<Rightarrow> string list" where
  "split_lines acc s =
     (if s = [] then (if acc = [] then [] else [acc])
      else if boundary s = 0 then split_lines (acc @ [hd s]) (tl s)
      else (acc @ take (boundary s) s) # split_lines [] (drop (boundary s) s))"
  by auto
termination by (relation "measure (length \<circ> snd)") auto

declare split_lines.simps [simp del]

definition splitlines :: "string \<Rightarrow> string list" where
  "splitlines s = split_lines [] s"

lemma concat_split_lines: "concat (split_lines acc s) = acc @ s"
proof (induction acc s rule: split_lines.induct)
  case (1 acc s)
  show ?case
  proof (cases "s = []")
    case False
    then show ?thesis using 1 by (cases "boundary s = 0") (simp_all add: split_lines.simps [of acc s])
  qed (simp add: split_lines.simps)
qed

lemma concat_splitlines [simp]: "concat (splitlines s) = s"
  by (simp add: splitlines_def concat_split_lines)

lemma split_lines_nonempty: "l \<in> set (split_lines acc s) \<Longrightarrow> l \<noteq> []"
proof (induction acc s rule: split_lines.induct)
  case (1 acc s)
  have "boundary s \<noteq> 0 \<Longrightarrow> s \<noteq> []" by (auto simp: boundary_def)
  then show ?case using 1 by (auto simp: split_lines.simps [of acc s] split: if_splits)
qed

lemma splitlines_nonempty: "l \<in> set (splitlines s) \<Longrightarrow> l \<noteq> []"
  by (simp add: splitlines_def split_lines_nonempty)

section \<open>Longest match\<close>

text \<open>With 200 elements or more, an element of the second sequence that is more than one percent of it is not indexed.\<close>

definition popular :: "'a list \<Rightarrow> 'a \<Rightarrow> bool" where
  "popular b x \<longleftrightarrow> 200 \<le> length b \<and> length b div 100 + 1 < count_list b x"

definition indices :: "'a list \<Rightarrow> 'a \<Rightarrow> nat list" where
  "indices b x = (if popular b x then [] else filter (\<lambda>j. b ! j = x) [0..<length b])"

type_synonym block = "nat \<times> nat \<times> nat"

text \<open>One row: \<open>prev\<close> holds, for the previous element, the length of the match ending at each index.\<close>

definition row_step :: "nat \<Rightarrow> (nat, nat) dict \<Rightarrow> nat \<Rightarrow> (nat, nat) dict \<times> block \<Rightarrow> (nat, nat) dict \<times> block" where
  "row_step i prev j st =
     (case st of (new, (bi, bj, bk)) \<Rightarrow>
       (let k = (if j = 0 then 0 else dict_get prev (j - 1) 0) + 1
        in (AList.update j k new, if bk < k then (i + 1 - k, j + 1 - k, k) else (bi, bj, bk))))"

definition scan_row :: "'a list \<Rightarrow> 'a list \<Rightarrow> nat \<Rightarrow> nat \<Rightarrow> nat \<Rightarrow> (nat, nat) dict \<times> block \<Rightarrow> (nat, nat) dict \<times> block" where
  "scan_row a b blo bhi i st =
     fold (row_step i (fst st)) (filter (\<lambda>j. blo \<le> j \<and> j < bhi) (indices b (a ! i))) ([], snd st)"

function extend_left :: "'a list \<Rightarrow> 'a list \<Rightarrow> nat \<Rightarrow> nat \<Rightarrow> block \<Rightarrow> block" where
  "extend_left a b alo blo (i, j, k) =
     (if alo < i \<and> blo < j \<and> a ! (i - 1) = b ! (j - 1) then extend_left a b alo blo (i - 1, j - 1, k + 1) else (i, j, k))"
  by pat_completeness auto
termination by (relation "measure (\<lambda>(a, b, alo, blo, (i, j, k)). i)") auto

function extend_right :: "'a list \<Rightarrow> 'a list \<Rightarrow> nat \<Rightarrow> nat \<Rightarrow> block \<Rightarrow> block" where
  "extend_right a b ahi bhi (i, j, k) =
     (if i + k < ahi \<and> j + k < bhi \<and> a ! (i + k) = b ! (j + k) then extend_right a b ahi bhi (i, j, k + 1) else (i, j, k))"
  by pat_completeness auto
termination by (relation "measure (\<lambda>(a, b, ahi, bhi, (i, j, k)). ahi - (i + k))") auto

declare extend_left.simps [simp del] extend_right.simps [simp del]

definition find_longest_match :: "'a list \<Rightarrow> 'a list \<Rightarrow> nat \<Rightarrow> nat \<Rightarrow> nat \<Rightarrow> nat \<Rightarrow> block" where
  "find_longest_match a b alo ahi blo bhi =
     extend_right a b ahi bhi
       (extend_left a b alo blo (snd (fold (scan_row a b blo bhi) [alo..<ahi] ([], (alo, blo, 0)))))"

definition good_block :: "'a list \<Rightarrow> 'a list \<Rightarrow> nat \<Rightarrow> nat \<Rightarrow> nat \<Rightarrow> nat \<Rightarrow> block \<Rightarrow> bool" where
  "good_block a b alo ahi blo bhi m \<longleftrightarrow>
     (case m of (i, j, k) \<Rightarrow> alo \<le> i \<and> i + k \<le> ahi \<and> blo \<le> j \<and> j + k \<le> bhi \<and> (\<forall>t<k. a ! (i + t) = b ! (j + t)))"

definition good_row :: "'a list \<Rightarrow> 'a list \<Rightarrow> nat \<Rightarrow> nat \<Rightarrow> nat \<Rightarrow> nat \<Rightarrow> (nat, nat) dict \<Rightarrow> bool" where
  "good_row a b alo blo bhi i d \<longleftrightarrow>
     (\<forall>j v. map_of d j = Some v \<longrightarrow> good_block a b alo i blo bhi (i - v, j + 1 - v, v) \<and> v \<le> i \<and> v \<le> j + 1)"

lemma good_block_mono: "good_block a b alo ahi blo bhi m \<Longrightarrow> ahi \<le> ahi' \<Longrightarrow> good_block a b alo ahi' blo bhi m"
  by (auto simp: good_block_def)

lemma row_step_good:
  assumes "good_row a b alo blo bhi i prev" "good_row a b alo blo bhi (Suc i) new" "good_block a b alo (Suc i) blo bhi best"
    and "blo \<le> j" "j < bhi" "a ! i = b ! j" "alo \<le> i" "row_step i prev j (new, best) = (new', best')"
  shows "good_row a b alo blo bhi (Suc i) new' \<and> good_block a b alo (Suc i) blo bhi best'"
proof -
  define v where "v = (if j = 0 then 0 else dict_get prev (j - 1) 0)"
  have v: "good_block a b alo i blo bhi (i - v, j - v, v) \<and> v \<le> i \<and> v \<le> j"
  proof (cases "v = 0")
    case False
    then have "j \<noteq> 0" "map_of prev (j - 1) = Some v" by (auto simp: v_def dict_get_def split: if_splits option.splits)
    then show ?thesis using assms(1) [unfolded good_row_def, rule_format, of "j - 1" v] by simp
  qed (use assms(4,5,7) in \<open>simp add: good_block_def\<close>)
  have k: "good_block a b alo (Suc i) blo bhi (i - v, j - v, Suc v)"
    using v assms(4-7) by (auto simp: good_block_def less_Suc_eq)
  have n: "new' = AList.update j (Suc v) new" and b: "best' = (if snd (snd best) < Suc v then (i - v, j - v, Suc v) else best)"
    using assms(8) by (auto simp: row_step_def v_def [symmetric] Let_def split: prod.splits)
  have "good_row a b alo blo bhi (Suc i) new'" using assms(2) k v by (auto simp: n good_row_def)
  moreover have "good_block a b alo (Suc i) blo bhi best'" using assms(3) k by (simp add: b)
  ultimately show ?thesis ..
qed

lemma scan_row_good:
  assumes "good_row a b alo blo bhi i (fst st)" "good_block a b alo i blo bhi (snd st)" "alo \<le> i"
  shows "good_row a b alo blo bhi (Suc i) (fst (scan_row a b blo bhi i st)) \<and>
    good_block a b alo (Suc i) blo bhi (snd (scan_row a b blo bhi i st))"
proof -
  have "good_row a b alo blo bhi (Suc i) (fst (fold (row_step i (fst st)) js (new, best))) \<and>
    good_block a b alo (Suc i) blo bhi (snd (fold (row_step i (fst st)) js (new, best)))"
    if "\<forall>j\<in>set js. blo \<le> j \<and> j < bhi \<and> a ! i = b ! j" "good_row a b alo blo bhi (Suc i) new"
      "good_block a b alo (Suc i) blo bhi best" for js new best
    using that
  proof (induction js arbitrary: new best)
    case (Cons j js)
    obtain new' best' where step: "row_step i (fst st) j (new, best) = (new', best')"
      by (cases "row_step i (fst st) j (new, best)")
    from row_step_good [OF assms(1) Cons.prems(2,3) _ _ _ assms(3) this] show ?case using Cons by (simp add: step)
  qed simp
  then show ?thesis
    unfolding scan_row_def
    using good_block_mono [OF assms(2), of "Suc i"] by (auto simp: indices_def good_row_def [of _ _ _ _ _ _ "[]"])
qed

lemma scan_rows_good:
  assumes "alo \<le> m" "blo \<le> bhi"
  shows "good_row a b alo blo bhi m (fst (fold (scan_row a b blo bhi) [alo..<m] ([], (alo, blo, 0)))) \<and>
    good_block a b alo m blo bhi (snd (fold (scan_row a b blo bhi) [alo..<m] ([], (alo, blo, 0))))"
  using assms(1)
proof (induction m rule: dec_induct)
  case base
  then show ?case using assms(2) by (simp add: good_row_def good_block_def)
next
  case (step n)
  then show ?case using scan_row_good [OF step.IH [THEN conjunct1] step.IH [THEN conjunct2] step.hyps(1)] by simp
qed

lemma extend_left_good: "good_block a b alo ahi blo bhi m \<Longrightarrow> good_block a b alo ahi blo bhi (extend_left a b alo blo m)"
proof (induction a b alo blo m rule: extend_left.induct)
  case (1 a b alo blo i j k)
  show ?case
  proof (cases "alo < i \<and> blo < j \<and> a ! (i - 1) = b ! (j - 1)")
    case True
    have "good_block a b alo ahi blo bhi (i - 1, j - 1, k + 1)"
      using 1(2) True by (auto simp: good_block_def nth_Cons' less_Suc_eq_0_disj)
    then show ?thesis using 1(1) True by (simp add: extend_left.simps)
  next
    case False
    then show ?thesis using 1(2) by (subst extend_left.simps) auto
  qed
qed

lemma extend_right_good: "good_block a b alo ahi blo bhi m \<Longrightarrow> good_block a b alo ahi blo bhi (extend_right a b ahi bhi m)"
proof (induction a b ahi bhi m rule: extend_right.induct)
  case (1 a b ahi bhi i j k)
  show ?case
  proof (cases "i + k < ahi \<and> j + k < bhi \<and> a ! (i + k) = b ! (j + k)")
    case True
    have "good_block a b alo ahi blo bhi (i, j, k + 1)"
      using 1(2) True by (auto simp: good_block_def less_Suc_eq)
    then show ?thesis using 1(1) True by (simp add: extend_right.simps)
  next
    case False
    then show ?thesis using 1(2) by (subst extend_right.simps) auto
  qed
qed

lemma longest_match_good:
  "alo \<le> ahi \<Longrightarrow> blo \<le> bhi \<Longrightarrow> good_block a b alo ahi blo bhi (find_longest_match a b alo ahi blo bhi)"
  unfolding find_longest_match_def by (intro extend_right_good extend_left_good conjunct2 [OF scan_rows_good])

section \<open>Matching blocks and ratio\<close>

text \<open>The blocks left of, at and right of the longest match; Python collects them with a queue and sorts.\<close>

function match_blocks :: "'a list \<Rightarrow> 'a list \<Rightarrow> nat \<Rightarrow> nat \<Rightarrow> nat \<Rightarrow> nat \<Rightarrow> block list" where
  "match_blocks a b alo ahi blo bhi =
     (if alo < ahi \<and> blo < bhi
      then case find_longest_match a b alo ahi blo bhi of (i, j, k) \<Rightarrow>
        (if k = 0 then []
         else match_blocks a b alo i blo j @ [(i, j, k)] @ match_blocks a b (i + k) ahi (j + k) bhi)
      else [])"
  by auto

lemma longest_match_fits:
  "alo < ahi \<Longrightarrow> blo < bhi \<Longrightarrow> find_longest_match a b alo ahi blo bhi = (i, j, k) \<Longrightarrow>
   alo \<le> i \<and> i + k \<le> ahi \<and> blo \<le> j \<and> j + k \<le> bhi \<and> (\<forall>t<k. a ! (i + t) = b ! (j + t))"
  using longest_match_good [of alo ahi blo bhi a b] by (simp add: good_block_def)

termination match_blocks
proof (relation "measure (\<lambda>(a, b, alo, ahi, blo, bhi). ahi - alo)", goal_cases)
  case prems: (2 a b alo ahi blo bhi i r j k)
  show ?case using longest_match_fits [of alo ahi blo bhi a b i j k] prems by (cases r) (simp, linarith)
next
  case prems: (3 a b alo ahi blo bhi i r j k)
  show ?case using longest_match_fits [of alo ahi blo bhi a b i j k] prems by (cases r) (simp, linarith)
qed simp

declare match_blocks.simps [simp del]

fun merge_blocks :: "block \<Rightarrow> block list \<Rightarrow> block list" where
  "merge_blocks (i, j, k) [] = (if k = 0 then [] else [(i, j, k)])"
| "merge_blocks (i, j, k) ((i', j', k') # ms) =
     (if i + k = i' \<and> j + k = j' then merge_blocks (i, j, k + k') ms
      else (if k = 0 then [] else [(i, j, k)]) @ merge_blocks (i', j', k') ms)"

definition matching_blocks :: "'a list \<Rightarrow> 'a list \<Rightarrow> block list" where
  "matching_blocks a b =
     merge_blocks (0, 0, 0) (match_blocks a b 0 (length a) 0 (length b)) @ [(length a, length b, 0)]"

definition ratio :: "'a list \<Rightarrow> 'a list \<Rightarrow> flt" where
  "ratio a b =
     (let matches = sum_list (map (snd \<circ> snd) (matching_blocks a b)); n = length a + length b
      in if n = 0 then 1 else fdiv (fmul 2 (of_nat matches)) (of_nat n))"

section \<open>Unified diff\<close>

datatype op_tag = Op_replace | Op_delete | Op_insert | Op_equal

type_synonym opcode = "op_tag \<times> nat \<times> nat \<times> nat \<times> nat"

fun opcodes_from :: "nat \<Rightarrow> nat \<Rightarrow> block list \<Rightarrow> opcode list" where
  "opcodes_from i j [] = []"
| "opcodes_from i j ((ai, bj, sz) # ms) =
     (if i < ai \<and> j < bj then [(Op_replace, i, ai, j, bj)]
      else if i < ai then [(Op_delete, i, ai, j, bj)]
      else if j < bj then [(Op_insert, i, ai, j, bj)] else []) @
     (if 0 < sz then [(Op_equal, ai, ai + sz, bj, bj + sz)] else []) @
     opcodes_from (ai + sz) (bj + sz) ms"

definition get_opcodes :: "'a list \<Rightarrow> 'a list \<Rightarrow> opcode list" where
  "get_opcodes a b = opcodes_from 0 0 (matching_blocks a b)"

fun trim_head :: "nat \<Rightarrow> opcode list \<Rightarrow> opcode list" where
  "trim_head n ((Op_equal, i1, i2, j1, j2) # cs) = (Op_equal, max i1 (i2 - n), i2, max j1 (j2 - n), j2) # cs"
| "trim_head n cs = cs"

definition trim_last :: "nat \<Rightarrow> opcode list \<Rightarrow> opcode list" where
  "trim_last n cs =
     (case rev cs of (Op_equal, i1, i2, j1, j2) # rest \<Rightarrow> rev ((Op_equal, i1, min i2 (i1 + n), j1, min j2 (j1 + n)) # rest)
      | _ \<Rightarrow> cs)"

fun group_opcodes :: "nat \<Rightarrow> opcode list \<Rightarrow> opcode list \<Rightarrow> opcode list list" where
  "group_opcodes n grp [] =
     (if grp = [] \<or> (length grp = 1 \<and> fst (hd grp) = Op_equal) then [] else [grp])"
| "group_opcodes n grp ((tag, i1, i2, j1, j2) # cs) =
     (if tag = Op_equal \<and> 2 * n < i2 - i1
      then (grp @ [(tag, i1, min i2 (i1 + n), j1, min j2 (j1 + n))]) #
        group_opcodes n [(tag, max i1 (i2 - n), i2, max j1 (j2 - n), j2)] cs
      else group_opcodes n (grp @ [(tag, i1, i2, j1, j2)]) cs)"

definition grouped_opcodes :: "nat \<Rightarrow> 'a list \<Rightarrow> 'a list \<Rightarrow> opcode list list" where
  "grouped_opcodes n a b =
     (let codes = get_opcodes a b; codes' = (if codes = [] then [(Op_equal, 0, 1, 0, 1)] else codes)
      in group_opcodes n [] (trim_last n (trim_head n codes')))"

definition format_range :: "nat \<Rightarrow> nat \<Rightarrow> string" where
  "format_range start stop =
     (let len = stop - start in
      if len = 1 then str_of_nat (start + 1)
      else str_of_nat (if len = 0 then start else start + 1) @ '','' @ str_of_nat len)"

definition hunk_lines :: "string list \<Rightarrow> string list \<Rightarrow> opcode \<Rightarrow> string list" where
  "hunk_lines a b c =
     (case c of (tag, i1, i2, j1, j2) \<Rightarrow>
       (let old = map (\<lambda>i. a ! i) [i1..<i2]; new = map (\<lambda>j. b ! j) [j1..<j2] in
        if tag = Op_equal then map (\<lambda>l. '' '' @ l) old
        else (if tag = Op_replace \<or> tag = Op_delete then map (\<lambda>l. ''-'' @ l) old else []) @
             (if tag = Op_replace \<or> tag = Op_insert then map (\<lambda>l. ''+'' @ l) new else [])))"

definition hunk :: "string list \<Rightarrow> string list \<Rightarrow> opcode list \<Rightarrow> string list" where
  "hunk a b grp =
     (case (hd grp, last grp) of ((_, i1, _, j1, _), (_, _, i2, _, j2)) \<Rightarrow>
       (''@@ -'' @ format_range i1 i2 @ '' +'' @ format_range j1 j2 @ '' @@'' @ [newline]) #
       concat (map (hunk_lines a b) grp))"

definition unified_diff :: "string list \<Rightarrow> string list \<Rightarrow> string \<Rightarrow> string \<Rightarrow> nat \<Rightarrow> string list" where
  "unified_diff a b fromfile tofile n =
     (let groups = grouped_opcodes n a b in
      if groups = [] then []
      else (''--- '' @ fromfile @ [newline]) # (''+++ '' @ tofile @ [newline]) # concat (map (hunk a b) groups))"

section \<open>Equal sequences have no diff\<close>

text \<open>The length of the run of indexed elements that ends before a position.\<close>

fun indexed_run :: "'a list \<Rightarrow> nat \<Rightarrow> nat" where
  "indexed_run a 0 = 0"
| "indexed_run a (Suc i) = (if popular a (a ! i) then 0 else Suc (indexed_run a i))"

definition diagonal_row :: "'a list \<Rightarrow> nat \<Rightarrow> (nat, nat) dict \<Rightarrow> bool" where
  "diagonal_row a m d \<longleftrightarrow>
     (\<forall>j v. map_of d j = Some v \<longrightarrow> v \<le> indexed_run a m \<and> v \<le> indexed_run a (Suc j)) \<and>
     (m \<noteq> 0 \<longrightarrow> dict_get d (m - 1) 0 = indexed_run a m)"

definition diagonal_best :: "'a list \<Rightarrow> nat \<Rightarrow> block \<Rightarrow> bool" where
  "diagonal_best a m best \<longleftrightarrow> (case best of (p, q, s) \<Rightarrow> p = q \<and> (\<forall>i\<le>m. indexed_run a i \<le> s))"

lemma row_step_off_diagonal:
  assumes "diagonal_row a m prev" "\<not> popular a (a ! m)" "a ! j = a ! m" "\<forall>j v. map_of new j = Some v \<longrightarrow> v \<le> indexed_run a (Suc m) \<and> v \<le> indexed_run a (Suc j)"
    and "row_step m prev j (new, best) = (new', best')"
  shows "(\<forall>j v. map_of new' j = Some v \<longrightarrow> v \<le> indexed_run a (Suc m) \<and> v \<le> indexed_run a (Suc j)) \<and>
    (\<exists>k \<le> min (indexed_run a (Suc m)) (indexed_run a (Suc j)). best' = (if snd (snd best) < k then (m + 1 - k, j + 1 - k, k) else best) \<and>
      new' = AList.update j k new \<and> (j = m \<longrightarrow> k = indexed_run a (Suc m)))"
proof -
  define v where "v = (if j = 0 then 0 else dict_get prev (j - 1) 0)"
  have le: "v \<le> indexed_run a m" "v \<le> indexed_run a j"
  proof -
    have "v \<le> indexed_run a m \<and> v \<le> indexed_run a j"
    proof (cases "v = 0")
      case False
      then have "j \<noteq> 0" "map_of prev (j - 1) = Some v" by (auto simp: v_def dict_get_def split: if_splits option.splits)
      then show ?thesis using assms(1) [unfolded diagonal_row_def, THEN conjunct1, rule_format, of "j - 1" v] by simp
    qed simp
    then show "v \<le> indexed_run a m" "v \<le> indexed_run a j" by auto
  qed
  have eq: "j = m \<Longrightarrow> v = indexed_run a m" using assms(1) by (cases m) (auto simp: v_def diagonal_row_def)
  have n: "new' = AList.update j (Suc v) new" and b: "best' = (if snd (snd best) < Suc v then (m + 1 - Suc v, j + 1 - Suc v, Suc v) else best)"
    using assms(5) by (auto simp: row_step_def v_def [symmetric] Let_def split: prod.splits)
  have k: "Suc v \<le> indexed_run a (Suc m)" "Suc v \<le> indexed_run a (Suc j)" using le assms(2,3) by simp_all
  then have "\<forall>j v. map_of new' j = Some v \<longrightarrow> v \<le> indexed_run a (Suc m) \<and> v \<le> indexed_run a (Suc j)"
    using assms(4) by (simp add: n del: indexed_run.simps)
  moreover have "j = m \<Longrightarrow> Suc v = indexed_run a (Suc m)" using eq assms(2) by simp
  ultimately show ?thesis using k b n by (intro conjI exI [of _ "Suc v"]) simp_all
qed

lemma fold_off_diagonal:
  assumes "diagonal_row a m prev" "\<not> popular a (a ! m)" "\<forall>j\<in>set js. a ! j = a ! m \<and> j \<noteq> m"
    and "\<forall>j v. map_of new j = Some v \<longrightarrow> v \<le> indexed_run a (Suc m) \<and> v \<le> indexed_run a (Suc j)"
    and "\<forall>j\<in>set js. min (indexed_run a (Suc m)) (indexed_run a (Suc j)) \<le> snd (snd best)"
  shows "snd (fold (row_step m prev) js (new, best)) = best \<and>
    (\<forall>j v. map_of (fst (fold (row_step m prev) js (new, best))) j = Some v \<longrightarrow> v \<le> indexed_run a (Suc m) \<and> v \<le> indexed_run a (Suc j)) \<and>
    map_of (fst (fold (row_step m prev) js (new, best))) m = map_of new m"
  using assms(3-5)
proof (induction js arbitrary: new)
  case (Cons j js)
  obtain new' best' where step: "row_step m prev j (new, best) = (new', best')" by (cases "row_step m prev j (new, best)")
  have j: "a ! j = a ! m" "j \<noteq> m" "min (indexed_run a (Suc m)) (indexed_run a (Suc j)) \<le> snd (snd best)"
    using Cons.prems(1,3) by (simp_all del: indexed_run.simps)
  note step' = row_step_off_diagonal [OF assms(1,2) j(1) Cons.prems(2) step]
  obtain k where k: "k \<le> min (indexed_run a (Suc m)) (indexed_run a (Suc j))"
    "best' = (if snd (snd best) < k then (m + 1 - k, j + 1 - k, k) else best)" "new' = AList.update j k new"
    using step' [THEN conjunct2] by blast
  have "\<not> snd (snd best) < k" using k(1) j(3) by linarith
  then have "best' = best" "map_of new' m = map_of new m" using j(2) by (simp_all add: k(2,3))
  then show ?case
    using Cons.IH [OF _ step' [THEN conjunct1]] Cons.prems(1,3) by (simp add: step del: indexed_run.simps)
qed simp

lemma indices_split:
  "m < length a \<Longrightarrow> \<not> popular a (a ! m) \<Longrightarrow>
   filter (\<lambda>j. 0 \<le> j \<and> j < length a) (indices a (a ! m)) =
     filter (\<lambda>j. a ! j = a ! m) [0..<m] @ m # filter (\<lambda>j. a ! j = a ! m) [Suc m..<length a]"
proof -
  assume m: "m < length a" "\<not> popular a (a ! m)"
  have "[0..<length a] = [0..<m] @ m # [Suc m..<length a]"
    using m(1) upt_add_eq_append [of 0 m "length a - m"] by (simp add: upt_conv_Cons)
  moreover have "filter (\<lambda>j. 0 \<le> j \<and> j < length a) (filter (\<lambda>j. a ! j = a ! m) [0..<length a]) = filter (\<lambda>j. a ! j = a ! m) [0..<length a]"
    by (rule filter_True) auto
  ultimately show ?thesis using m(2) by (simp add: indices_def)
qed

lemma scan_row_diagonal:
  assumes "diagonal_row a m (fst st)" "diagonal_best a m (snd st)" "m < length a"
  shows "diagonal_row a (Suc m) (fst (scan_row a a 0 (length a) m st)) \<and> diagonal_best a (Suc m) (snd (scan_row a a 0 (length a) m st))"
proof (cases "popular a (a ! m)")
  case True
  then have "scan_row a a 0 (length a) m st = ([], snd st)" by (simp add: scan_row_def indices_def)
  then show ?thesis using assms(2) True
    by (auto simp: diagonal_row_def diagonal_best_def dict_get_def le_Suc_eq)
next
  case False
  let ?P = "\<lambda>j. a ! j = a ! m" and ?step = "row_step m (fst st)"
  obtain p s where best: "snd st = (p, p, s)" "\<forall>i\<le>m. indexed_run a i \<le> s" using assms(2) by (auto simp: diagonal_best_def split: prod.splits)
  define left where "left = fold ?step (filter ?P [0..<m]) ([], snd st)"
  have left: "snd left = snd st" "\<forall>j v. map_of (fst left) j = Some v \<longrightarrow> v \<le> indexed_run a (Suc m) \<and> v \<le> indexed_run a (Suc j)"
  proof -
    have "\<forall>j\<in>set (filter ?P [0..<m]). min (indexed_run a (Suc m)) (indexed_run a (Suc j)) \<le> snd (snd (snd st))"
      using best by (auto simp del: indexed_run.simps intro!: min.coboundedI2)
    from fold_off_diagonal [OF assms(1) False _ _ this, of "[]"]
    show "snd left = snd st" "\<forall>j v. map_of (fst left) j = Some v \<longrightarrow> v \<le> indexed_run a (Suc m) \<and> v \<le> indexed_run a (Suc j)"
      by (auto simp: left_def)
  qed
  obtain new' best' where mid: "?step m left = (new', best')" by (cases "?step m left")
  have step: "?step m (fst left, snd st) = (new', best')" using mid left(1) by (metis prod.collapse)
  from row_step_off_diagonal [OF assms(1) False refl left(2) step]
  have new: "\<forall>j v. map_of new' j = Some v \<longrightarrow> v \<le> indexed_run a (Suc m) \<and> v \<le> indexed_run a (Suc j)"
    "map_of new' m = Some (indexed_run a (Suc m))"
    and b: "best' = (if s < indexed_run a (Suc m) then (m + 1 - indexed_run a (Suc m), m + 1 - indexed_run a (Suc m), indexed_run a (Suc m)) else (p, p, s))"
    by (auto simp: best(1))
  have diag: "diagonal_best a (Suc m) best'"
    using best(2) by (auto simp: b diagonal_best_def le_Suc_eq simp del: indexed_run.simps)
  have "\<forall>j\<in>set (filter ?P [Suc m..<length a]). min (indexed_run a (Suc m)) (indexed_run a (Suc j)) \<le> snd (snd best')"
    by (auto simp: b simp del: indexed_run.simps intro!: min.coboundedI1)
  from fold_off_diagonal [OF assms(1) False _ new(1) this]
  have right: "snd (fold ?step (filter ?P [Suc m..<length a]) (new', best')) = best'"
    "\<forall>j v. map_of (fst (fold ?step (filter ?P [Suc m..<length a]) (new', best'))) j = Some v \<longrightarrow> v \<le> indexed_run a (Suc m) \<and> v \<le> indexed_run a (Suc j)"
    "map_of (fst (fold ?step (filter ?P [Suc m..<length a]) (new', best'))) m = Some (indexed_run a (Suc m))"
    using new(2) by (simp_all del: indexed_run.simps)
  have "scan_row a a 0 (length a) m st = fold ?step (filter ?P [Suc m..<length a]) (new', best')"
    by (simp only: scan_row_def indices_split [OF assms(3) False] fold_append fold.simps comp_apply left_def [symmetric] mid)
  then show ?thesis
    using right diag by (simp add: diagonal_row_def dict_get_def del: indexed_run.simps)
qed

lemma scan_rows_diagonal:
  "m \<le> length a \<Longrightarrow> diagonal_row a m (fst (fold (scan_row a a 0 (length a)) [0..<m] ([], (0, 0, 0)))) \<and>
     diagonal_best a m (snd (fold (scan_row a a 0 (length a)) [0..<m] ([], (0, 0, 0))))"
proof (induction m)
  case 0
  then show ?case by (simp add: diagonal_row_def diagonal_best_def)
next
  case (Suc m)
  then show ?case using scan_row_diagonal [of a m] by simp
qed

lemma extend_left_diagonal: "extend_left a a 0 0 (p, p, k) = (0, 0, p + k)"
  by (induction p arbitrary: k) (subst extend_left.simps, simp)+

lemma extend_right_diagonal: "k \<le> length a \<Longrightarrow> extend_right a a (length a) (length a) (0, 0, k) = (0, 0, length a)"
  by (induction "length a - k" arbitrary: k) (subst extend_right.simps, simp)+

lemma longest_match_same: "find_longest_match a a 0 (length a) 0 (length a) = (0, 0, length a)"
proof -
  let ?st = "fold (scan_row a a 0 (length a)) [0..<length a] ([], (0, 0, 0))"
  obtain p s where st: "snd ?st = (p, p, s)"
    using scan_rows_diagonal [of "length a" a] by (auto simp: diagonal_best_def split: prod.splits)
  moreover have "p + s \<le> length a"
    using scan_rows_good [of 0 "length a" 0 "length a" a a] st by (simp add: good_block_def)
  ultimately show ?thesis
    by (simp add: find_longest_match_def extend_left_diagonal extend_right_diagonal)
qed

lemma matching_blocks_same:
  "matching_blocks a a = (if a = [] then [(0, 0, 0)] else [(0, 0, length a), (length a, length a, 0)])"
proof -
  have "match_blocks a a 0 (length a) 0 (length a) = (if a = [] then [] else [(0, 0, length a)])"
    by (subst match_blocks.simps) (simp add: longest_match_same match_blocks.simps)
  then show ?thesis by (simp add: matching_blocks_def)
qed

lemma unified_diff_same: "unified_diff a a f t 3 = []"
proof (cases "a = []")
  case True
  then show ?thesis by (simp add: unified_diff_def grouped_opcodes_def get_opcodes_def matching_blocks_same trim_last_def)
next
  case False
  then have "get_opcodes a a = [(Op_equal, 0, length a, 0, length a)]"
    by (simp add: get_opcodes_def matching_blocks_same)
  then show ?thesis
    by (auto simp: unified_diff_def grouped_opcodes_def trim_last_def Let_def)
qed

section \<open>Different sequences have a diff\<close>

fun block_chain :: "'a list \<Rightarrow> 'a list \<Rightarrow> nat \<Rightarrow> nat \<Rightarrow> nat \<Rightarrow> nat \<Rightarrow> block list \<Rightarrow> bool" where
  "block_chain a b m n i j [] \<longleftrightarrow> i \<le> m \<and> j \<le> n"
| "block_chain a b m n i j ((ai, bj, k) # ms) \<longleftrightarrow>
     i \<le> ai \<and> j \<le> bj \<and> (\<forall>t<k. a ! (ai + t) = b ! (bj + t)) \<and> block_chain a b m n (ai + k) (bj + k) ms"

lemma block_chain_start: "block_chain a b m n i j ms \<Longrightarrow> i' \<le> i \<Longrightarrow> j' \<le> j \<Longrightarrow> block_chain a b m n i' j' ms"
  by (cases ms) auto

lemma block_chain_bounds: "block_chain a b m n i j ms \<Longrightarrow> i \<le> m \<and> j \<le> n"
  by (induction a b m n i j ms rule: block_chain.induct) auto

lemma block_chain_append:
  "block_chain a b m n i j xs \<Longrightarrow> block_chain a b m' n' m n ys \<Longrightarrow> block_chain a b m' n' i j (xs @ ys)"
  by (induction a b m n i j xs rule: block_chain.induct) (auto intro: block_chain_start)

lemma match_blocks_chain:
  "alo \<le> ahi \<Longrightarrow> blo \<le> bhi \<Longrightarrow> block_chain a b ahi bhi alo blo (match_blocks a b alo ahi blo bhi)"
proof (induction a b alo ahi blo bhi rule: match_blocks.induct)
  case (1 a b alo ahi blo bhi)
  show ?case
  proof (cases "alo < ahi \<and> blo < bhi")
    case True
    obtain i j k where m: "find_longest_match a b alo ahi blo bhi = (i, j, k)" by (cases "find_longest_match a b alo ahi blo bhi")
    note fits = longest_match_fits [OF _ _ m]
    show ?thesis
    proof (cases "k = 0")
      case False
      have "block_chain a b i j alo blo (match_blocks a b alo i blo j)"
        using 1(1) [OF True m [symmetric] refl False] fits True by simp
      moreover have "block_chain a b ahi bhi (i + k) (j + k) (match_blocks a b (i + k) ahi (j + k) bhi)"
        using 1(2) [OF True m [symmetric] refl False] fits True by simp
      ultimately show ?thesis
        using False True m fits by (subst match_blocks.simps) (simp add: block_chain_append)
    qed (use True m 1(3,4) in \<open>subst match_blocks.simps, simp\<close>)
  next
    case False
    then have "match_blocks a b alo ahi blo bhi = []" by (subst match_blocks.simps) auto
    then show ?thesis using 1(3,4) by simp
  qed
qed

lemma merge_blocks_chain:
  "block_chain a b m n i0 j0 ((i, j, k) # ms) \<Longrightarrow> block_chain a b m n i0 j0 (merge_blocks (i, j, k) ms)"
proof (induction "(i, j, k)" ms arbitrary: i j k i0 j0 rule: merge_blocks.induct)
  case (2 i j k i' j' k' ms)
  show ?case
  proof (cases "i + k = i' \<and> j + k = j'")
    case True
    have "\<forall>t<k + k'. a ! (i + t) = b ! (j + t)"
    proof (intro allI impI)
      fix t assume "t < k + k'"
      show "a ! (i + t) = b ! (j + t)"
      proof (cases "t < k")
        case False
        have "\<forall>t<k'. a ! (i' + t) = b ! (j' + t)" using 2(3) by simp
        moreover have "t - k < k'" using False \<open>t < k + k'\<close> by simp
        ultimately have "a ! (i' + (t - k)) = b ! (j' + (t - k))" by blast
        moreover have "i' + (t - k) = i + t" "j' + (t - k) = j + t" using False True by auto
        ultimately show ?thesis by simp
      qed (use 2(3) in simp)
    qed
    moreover have "block_chain a b m n (i + (k + k')) (j + (k + k')) ms"
      using 2(3) True by (auto simp: add.assoc)
    ultimately have "block_chain a b m n i0 j0 ((i, j, k + k') # ms)" using 2(3) by simp
    then show ?thesis using 2(1) [OF True, of i0 j0] True by simp
  next
    case False
    then show ?thesis using 2(2) [OF False, of "i + k" "j + k"] 2(3)
      by (auto intro: block_chain_start)
  qed
qed (auto intro: block_chain_start)

lemma opcodes_equal:
  "block_chain a b (length a) (length b) i j ms \<Longrightarrow>
   \<forall>c\<in>set (opcodes_from i j (ms @ [(length a, length b, 0)])). fst c = Op_equal \<Longrightarrow> drop i a = drop j b"
proof (induction ms arbitrary: i j)
  case (Cons x ms)
  obtain ai bj k where x: "x = (ai, bj, k)" by (cases x)
  have le: "i \<le> ai" "j \<le> bj" using Cons.prems(1) by (simp_all add: x)
  have "\<not> i < ai \<and> \<not> j < bj"
    using Cons.prems(2) by (cases "i < ai"; cases "j < bj") (simp_all add: x)
  then have ij: "ai = i" "bj = j" using le by auto
  have rest: "drop (i + k) a = drop (j + k) b"
    using Cons.prems by (intro Cons.IH) (auto simp: x ij split: if_splits)
  have "i + k \<le> length a" "j + k \<le> length b"
    using Cons.prems(1) block_chain_bounds by (fastforce simp: x ij)+
  then have "take k (drop i a) = take k (drop j b)"
    using Cons.prems(1) by (intro nth_equalityI) (auto simp: x ij)
  then show ?case using rest by (metis append_take_drop_id drop_drop add.commute)
qed (auto split: if_splits)

lemma different_opcode:
  assumes "a \<noteq> b"
  shows "\<exists>c\<in>set (get_opcodes a b). fst c \<noteq> Op_equal"
proof (rule ccontr)
  assume "\<not> ?thesis"
  then have *: "\<forall>c\<in>set (opcodes_from 0 0 (merge_blocks (0, 0, 0) (match_blocks a b 0 (length a) 0 (length b)) @ [(length a, length b, 0)])). fst c = Op_equal"
    by (simp add: get_opcodes_def matching_blocks_def)
  have "block_chain a b (length a) (length b) 0 0 (merge_blocks (0, 0, 0) (match_blocks a b 0 (length a) 0 (length b)))"
    by (rule merge_blocks_chain) (simp add: match_blocks_chain)
  from opcodes_equal [OF this *] show False using assms by simp
qed

lemma trim_keeps:
  "\<exists>c\<in>set cs. fst c \<noteq> Op_equal \<Longrightarrow> \<exists>c\<in>set (trim_head n cs). fst c \<noteq> Op_equal"
  "\<exists>c\<in>set cs. fst c \<noteq> Op_equal \<Longrightarrow> \<exists>c\<in>set (trim_last n cs). fst c \<noteq> Op_equal"
proof -
  show "\<exists>c\<in>set cs. fst c \<noteq> Op_equal \<Longrightarrow> \<exists>c\<in>set (trim_head n cs). fst c \<noteq> Op_equal"
    by (induction n cs rule: trim_head.induct) auto
  assume a: "\<exists>c\<in>set cs. fst c \<noteq> Op_equal"
  show "\<exists>c\<in>set (trim_last n cs). fst c \<noteq> Op_equal"
  proof (cases "rev cs")
    case (Cons x xs)
    then have "set cs = insert x (set xs)" by (metis set_rev list.simps(15))
    then obtain c where c: "c \<in> insert x (set xs)" "fst c \<noteq> Op_equal" using a by blast
    obtain tag i1 i2 j1 j2 where x: "x = (tag, i1, i2, j1, j2)" by (cases x)
    show ?thesis
    proof (cases "tag = Op_equal")
      case True
      then have "c \<in> set xs" using c by (auto simp: x)
      then show ?thesis using c(2) True by (auto simp: trim_last_def Cons x intro!: bexI [of _ c])
    next
      case False
      then have "trim_last n cs = cs" by (cases tag) (simp_all add: trim_last_def Cons x)
      then show ?thesis using a by simp
    qed
  qed (use a in simp)
qed

lemma group_opcodes_nonempty: "\<exists>c\<in>set (grp @ cs). fst c \<noteq> Op_equal \<Longrightarrow> group_opcodes n grp cs \<noteq> []"
  by (induction n grp cs rule: group_opcodes.induct) (auto simp: length_Suc_conv)

lemma unified_diff_different:
  assumes "a \<noteq> b"
  shows "\<exists>ls. unified_diff a b f t n = (''--- '' @ f @ [newline]) # ls"
proof -
  have "get_opcodes a b \<noteq> []" using different_opcode [OF assms] by auto
  then have "grouped_opcodes n a b \<noteq> []"
    using trim_keeps(2) [OF trim_keeps(1) [OF different_opcode [OF assms]]]
    by (simp add: grouped_opcodes_def group_opcodes_nonempty)
  then show ?thesis by (simp add: unified_diff_def)
qed

end
