(* ===== verification/Llm.thy ===== *)
theory Llm
  imports PyFloat Redaction Runner Runs
begin

text \<open>
  Spending on language models: the per-run budget (\<open>engine/llm/budget.py\<close>), the token buckets
  (\<open>engine/llm/rate_limit.py\<close>), the provider registry (\<open>engine/llm/registry.py\<close>), the
  \<open>complete\<close> and \<open>doctor\<close> calls that the HTTP providers share (\<open>engine/llm/providers/_http_base.py\<close>), how the providers
  read an answer and what they charge for it (\<open>anthropic.py\<close>, \<open>openai.py\<close>, \<open>azure_openai.py\<close>, \<open>groq.py\<close>, \<open>mistral.py\<close>, \<open>openrouter.py\<close>), and the
  \<open>complete\<close> of \<open>ollama.py\<close>, which asks neither for a key nor for the budget. The clock, the environment variable, the HTTP exchange
  and the JSON decoder are arguments; prices and times are floats. The payloads and headers of requests are not modelled.
\<close>

section \<open>Budget\<close>

record llm_usage =
  lu_input_tokens :: int
  lu_output_tokens :: int
  lu_cost_usd :: flt
  lu_requests :: int

definition no_usage :: llm_usage where
  "no_usage = \<lparr>lu_input_tokens = 0, lu_output_tokens = 0, lu_cost_usd = 0, lu_requests = 0\<rparr>"

definition usage_add :: "llm_usage \<Rightarrow> int \<Rightarrow> int \<Rightarrow> flt \<Rightarrow> llm_usage" where
  "usage_add u i o' c = \<lparr>lu_input_tokens = lu_input_tokens u + i, lu_output_tokens = lu_output_tokens u + o',
     lu_cost_usd = fadd (lu_cost_usd u) c, lu_requests = lu_requests u + 1\<rparr>"

definition estimate_cost_usd :: "int \<Rightarrow> int \<Rightarrow> flt \<Rightarrow> flt \<Rightarrow> flt" where
  "estimate_cost_usd i o' price_in price_out =
     fadd (fmul (fdiv (of_int i) 1000) price_in) (fmul (fdiv (of_int o') 1000) price_out)"

definition default_price_in :: flt where "default_price_in = fl (3 / 1000)"
definition default_price_out :: flt where "default_price_out = fl (15 / 1000)"

datatype caller = Planner | Analyzer_Caller | Healer | Doctor | Test_Caller

datatype llm_error = Budget_exceeded flt flt | Rate_limited | Missing_key | Timed_out | Transport_error
  | Rejected nat | Invalid_response | Answer_unreadable

definition ensure_within_budget :: "llm_usage \<Rightarrow> flt \<Rightarrow> flt \<Rightarrow> llm_error option" where
  "ensure_within_budget u additional budget =
     (let projected = fadd (lu_cost_usd u) additional in
      if budget < projected then Some (Budget_exceeded projected budget) else None)"

record llm_budget =
  lb_max_per_run :: flt
  lb_max_planner :: "flt option"
  lb_max_analyzer :: "flt option"
  lb_max_healer :: "flt option"
  lb_by_caller :: "(caller, llm_usage) dict"

definition usage_for :: "llm_budget \<Rightarrow> caller \<Rightarrow> llm_usage" where
  "usage_for b c = dict_get (lb_by_caller b) c no_usage"

definition usage_sum :: "llm_usage \<Rightarrow> llm_usage \<Rightarrow> llm_usage" where
  "usage_sum a u = \<lparr>lu_input_tokens = lu_input_tokens a + lu_input_tokens u,
     lu_output_tokens = lu_output_tokens a + lu_output_tokens u,
     lu_cost_usd = fadd (lu_cost_usd a) (lu_cost_usd u), lu_requests = lu_requests a + lu_requests u\<rparr>"

definition budget_total :: "llm_budget \<Rightarrow> llm_usage" where
  "budget_total b = foldl usage_sum no_usage (map snd (lb_by_caller b))"

fun cap_for :: "llm_budget \<Rightarrow> caller \<Rightarrow> flt" where
  "cap_for b Planner = (case lb_max_planner b of Some m \<Rightarrow> m | None \<Rightarrow> lb_max_per_run b)"
| "cap_for b Analyzer_Caller = (case lb_max_analyzer b of Some m \<Rightarrow> m | None \<Rightarrow> lb_max_per_run b)"
| "cap_for b Healer = (case lb_max_healer b of Some m \<Rightarrow> m | None \<Rightarrow> lb_max_per_run b)"
| "cap_for b c = lb_max_per_run b"

definition pre_check :: "llm_budget \<Rightarrow> caller \<Rightarrow> flt \<Rightarrow> llm_error option" where
  "pre_check b c estimated =
     (let projected = fadd (lu_cost_usd (usage_for b c)) estimated;
          total = fadd (lu_cost_usd (budget_total b)) estimated in
      if cap_for b c < projected then Some (Budget_exceeded projected (cap_for b c))
      else if lb_max_per_run b < total then Some (Budget_exceeded total (lb_max_per_run b))
      else None)"

definition budget_add :: "llm_budget \<Rightarrow> caller \<Rightarrow> int \<Rightarrow> int \<Rightarrow> flt \<Rightarrow> llm_budget" where
  "budget_add b c i o' cost = b\<lparr>lb_by_caller := AList.update c (usage_add (usage_for b c) i o' cost) (lb_by_caller b)\<rparr>"

section \<open>Token buckets\<close>

record token_bucket =
  tb_capacity :: int
  tb_rate_per_minute :: flt
  tb_tokens :: flt
  tb_last_refill :: flt

definition new_bucket :: "int \<Rightarrow> flt \<Rightarrow> flt \<Rightarrow> token_bucket" where
  "new_bucket capacity rate now = \<lparr>tb_capacity = capacity, tb_rate_per_minute = rate,
     tb_tokens = fl (of_int capacity), tb_last_refill = now\<rparr>"

definition refill :: "token_bucket \<Rightarrow> flt \<Rightarrow> token_bucket" where
  "refill b now =
     (let elapsed = fsub now (tb_last_refill b) in
      if elapsed \<le> 0 then b
      else b\<lparr>tb_tokens := min (fl (of_int (tb_capacity b)))
                            (fadd (tb_tokens b) (fmul (fdiv (tb_rate_per_minute b) 60) elapsed)),
             tb_last_refill := now\<rparr>)"

definition try_consume :: "token_bucket \<Rightarrow> flt \<Rightarrow> nat \<Rightarrow> bool \<times> token_bucket" where
  "try_consume b now n =
     (let b' = refill b now in
      if tb_tokens b' < of_nat n then (False, b')
      else (True, b'\<lparr>tb_tokens := fsub (tb_tokens b') (of_nat n)\<rparr>))"

record rate_limit =
  rl_default_rate :: flt
  rl_default_capacity :: int
  rl_buckets :: "(string, token_bucket) dict"

text \<open>\<open>bucket_for\<close> creates a missing bucket at the time \<open>t0\<close>; \<open>enforce\<close> consumes at \<open>t1\<close>.\<close>

definition bucket_for :: "rate_limit \<Rightarrow> string \<Rightarrow> flt \<Rightarrow> token_bucket \<times> rate_limit" where
  "bucket_for r provider t0 =
     (case map_of (rl_buckets r) provider of Some b \<Rightarrow> (b, r)
      | None \<Rightarrow>
        let b = new_bucket (rl_default_capacity r) (rl_default_rate r) t0
        in (b, r\<lparr>rl_buckets := AList.update provider b (rl_buckets r)\<rparr>))"

text \<open>\<open>int(rate)\<close> truncates towards zero.\<close>

definition trunc :: "flt \<Rightarrow> int" where
  "trunc x = (if x < 0 then - \<lfloor>- x\<rfloor> else \<lfloor>x\<rfloor>)"

definition set_policy :: "rate_limit \<Rightarrow> string \<Rightarrow> flt \<Rightarrow> int option \<Rightarrow> flt \<Rightarrow> rate_limit" where
  "set_policy r provider rate capacity now =
     r\<lparr>rl_buckets := AList.update provider
        (new_bucket (case capacity of Some c \<Rightarrow> c | None \<Rightarrow> trunc rate) rate now) (rl_buckets r)\<rparr>"

definition enforce_rate :: "rate_limit \<Rightarrow> string \<Rightarrow> flt \<Rightarrow> flt \<Rightarrow> llm_error option \<times> rate_limit" where
  "enforce_rate r provider t0 t1 =
     (case bucket_for r provider t0 of (b, r') \<Rightarrow>
        (case try_consume b t1 1 of (ok, b') \<Rightarrow>
           (if ok then None else Some Rate_limited, r'\<lparr>rl_buckets := AList.update provider b' (rl_buckets r')\<rparr>)))"

section \<open>Registry\<close>

datatype registry_error = Empty_name | Already_registered string | Not_found string

definition provider_key :: "string \<Rightarrow> string" where
  "provider_key name = py_lower (py_strip name)"

definition register_provider :: "(string, 'f) dict \<Rightarrow> string \<Rightarrow> 'f \<Rightarrow> registry_error + (string, 'f) dict" where
  "register_provider reg name factory =
     (let key = provider_key name in
      if key = [] then Inl Empty_name
      else if map_of reg key \<noteq> None then Inl (Already_registered key)
      else Inr (AList.update key factory reg))"

definition resolve_provider :: "(string, 'f) dict \<Rightarrow> string \<Rightarrow> registry_error + 'f" where
  "resolve_provider reg name =
     (case map_of reg (provider_key name) of None \<Rightarrow> Inl (Not_found (provider_key name)) | Some f \<Rightarrow> Inr f)"

definition list_providers :: "(string, 'f) dict \<Rightarrow> string list" where
  "list_providers reg = sort (map fst reg)"

definition register_lazy :: "(string, 'f) dict \<Rightarrow> string \<Rightarrow> 'f \<Rightarrow> (string, 'f) dict" where
  "register_lazy reg name factory =
     (let key = provider_key name in if map_of reg key \<noteq> None then reg else AList.update key factory reg)"

section \<open>Calls\<close>

record llm_request =
  rq_system :: string
  rq_contents :: "string list"
  rq_required_keys :: "string list option"
  rq_max_output_tokens :: int
  rq_caller :: caller

text \<open>
  What a concrete provider overrides. \<open>None\<close> is an exception, of a body that has not the shape that is read from it. \<open>hk_loads\<close> is the JSON decoder, with
  \<open>None\<close> for a decoding error.
\<close>

record provider_hooks =
  hk_extract_text :: "json \<Rightarrow> string option"
  hk_usage :: "json \<Rightarrow> (int \<times> int) option"
  hk_cost :: "json \<Rightarrow> int \<Rightarrow> int \<Rightarrow> flt option"
  hk_loads :: "string \<Rightarrow> json option"

text \<open>\<open>Http_timeout\<close> and \<open>Http_error\<close> are the exceptions of the client; an answer is a status and the text of its body.\<close>

datatype http_outcome = Http_timeout | Http_error | Http_response nat string

record provider_state =
  ps_rate_limit :: "rate_limit option"
  ps_budget :: "llm_budget option"
  ps_usage :: llm_usage

record llm_response =
  lr_text :: string
  lr_parsed :: "json option"
  lr_usage :: llm_usage
  lr_cost_usd :: flt
  lr_available :: bool

definition estimate_cost :: "llm_request \<Rightarrow> flt" where
  "estimate_cost q =
     (let chars = int (py_len (rq_system q)) + sum_list (map (\<lambda>m. int (py_len m)) (rq_contents q)) in
      estimate_cost_usd (max 1 (chars div 4)) (max 1 (rq_max_output_tokens q)) default_price_in default_price_out)"

definition validate_structured_output ::
  "(string \<Rightarrow> json option) \<Rightarrow> string \<Rightarrow> string list \<Rightarrow> llm_error + json" where
  "validate_structured_output loads text' required =
     (case loads text' of Some (J_obj kvs) \<Rightarrow>
        if list_all (\<lambda>k. k \<in> set (map fst kvs)) required then Inr (J_obj kvs) else Inl Invalid_response
      | _ \<Rightarrow> Inl Invalid_response)"

definition status_error :: "nat \<Rightarrow> llm_error option" where
  "status_error status =
     (if status = 401 then Some Missing_key else if status = 429 then Some Rate_limited
      else if 400 \<le> status then Some (Rejected status) else None)"

text \<open>
  The part of \<open>complete\<close> after the response has been received. An answer that is no JSON or that a hook cannot read raises before anything is
  recorded (\<open>Answer_unreadable\<close>).
\<close>

definition record_response ::
  "provider_hooks \<Rightarrow> llm_request \<Rightarrow> provider_state \<Rightarrow> nat \<Rightarrow> string \<Rightarrow> (llm_error + llm_response) \<times> provider_state" where
  "record_response hooks q st status answer =
     (case status_error status of Some e \<Rightarrow> (Inl e, st)
      | None \<Rightarrow>
        (case hk_loads hooks answer of None \<Rightarrow> (Inl Answer_unreadable, st)
         | Some body \<Rightarrow>
        (case hk_extract_text hooks body of None \<Rightarrow> (Inl Answer_unreadable, st)
         | Some text' \<Rightarrow>
        (case (case rq_required_keys q of None \<Rightarrow> Inr None
               | Some required \<Rightarrow> map_sum id Some (validate_structured_output (hk_loads hooks) text' required)) of
           Inl e \<Rightarrow> (Inl e, st)
         | Inr parsed \<Rightarrow>
        (case hk_usage hooks body of None \<Rightarrow> (Inl Answer_unreadable, st)
         | Some (i, o') \<Rightarrow>
        (case hk_cost hooks body i o' of None \<Rightarrow> (Inl Answer_unreadable, st)
         | Some cost \<Rightarrow>
           (let st' = st\<lparr>ps_budget := map_option (\<lambda>b. budget_add b (rq_caller q) i o' cost) (ps_budget st),
                         ps_usage := usage_add (ps_usage st) i o' cost\<rparr>
            in (Inr \<lparr>lr_text = text', lr_parsed = parsed, lr_usage = ps_usage st', lr_cost_usd = cost, lr_available = True\<rparr>, st'))))))))"

definition llm_complete ::
  "provider_hooks \<Rightarrow> string \<Rightarrow> llm_request \<Rightarrow> provider_state \<Rightarrow> flt \<times> flt \<Rightarrow> string option \<Rightarrow> http_outcome
     \<Rightarrow> (llm_error + llm_response) \<times> provider_state" where
  "llm_complete hooks name q st clock api_key outcome =
     (case (case ps_rate_limit st of None \<Rightarrow> (None, st)
            | Some r \<Rightarrow> (case enforce_rate r name (fst clock) (snd clock) of (e, r') \<Rightarrow> (e, st\<lparr>ps_rate_limit := Some r'\<rparr>)))
      of (Some e, st1) \<Rightarrow> (Inl e, st1)
       | (None, st1) \<Rightarrow>
         (if api_key = None \<or> api_key = Some [] then (Inl Missing_key, st1)
          else case (case ps_budget st1 of None \<Rightarrow> None
                     | Some b \<Rightarrow> pre_check b (rq_caller q) (estimate_cost q)) of
            Some e \<Rightarrow> (Inl e, st1)
          | None \<Rightarrow>
            (case outcome of Http_timeout \<Rightarrow> (Inl Timed_out, st1)
             | Http_error \<Rightarrow> (Inl Transport_error, st1)
             | Http_response status answer \<Rightarrow> record_response hooks q st1 status answer)))"

datatype health = Available | Degraded | Unavailable

definition llm_doctor :: "string option \<Rightarrow> http_outcome \<Rightarrow> health" where
  "llm_doctor api_key outcome =
     (if api_key = None \<or> api_key = Some [] then Unavailable
      else case outcome of Http_timeout \<Rightarrow> Unavailable | Http_error \<Rightarrow> Unavailable
        | Http_response status body \<Rightarrow>
            if 200 \<le> status \<and> status < 300 then Available
            else if status \<in> {401, 403} then Unavailable else Degraded)"

section \<open>Providers\<close>

definition item_of :: "json \<Rightarrow> string \<Rightarrow> json option" where
  "item_of v key = (case v of J_obj d \<Rightarrow> map_of d key | _ \<Rightarrow> None)"

text \<open>\<open>int(d.get(key, 0))\<close>.\<close>

definition int_of_key :: "json_object \<Rightarrow> string \<Rightarrow> int option" where
  "int_of_key d key =
     (case map_of d key of None \<Rightarrow> Some 0
      | Some v \<Rightarrow> (case v of J_bool b \<Rightarrow> Some (if b then 1 else 0) | J_int i \<Rightarrow> Some i | J_float x \<Rightarrow> Some (trunc x)
         | J_str s \<Rightarrow> parse_int s | _ \<Rightarrow> None))"

text \<open>\<open>body.get(\<dots>) or {}\<close>, and two counts from it.\<close>

definition usage_from :: "string \<Rightarrow> string \<Rightarrow> json \<Rightarrow> (int \<times> int) option" where
  "usage_from input output body =
     (case body of J_obj d \<Rightarrow>
        (case object_of_key d ''usage'' of None \<Rightarrow> None
         | Some usage \<Rightarrow>
           (case (int_of_key usage input, int_of_key usage output) of (Some i, Some o') \<Rightarrow> Some (i, o') | _ \<Rightarrow> None))
      | _ \<Rightarrow> None)"

definition table_cost :: "(string, flt \<times> flt) dict \<Rightarrow> string \<Rightarrow> json \<Rightarrow> int \<Rightarrow> int \<Rightarrow> flt option" where
  "table_cost table model body i o' =
     Some (case map_of table model of None \<Rightarrow> estimate_cost_usd i o' default_price_in default_price_out
           | Some (price_in, price_out) \<Rightarrow> estimate_cost_usd i o' price_in price_out)"

definition anthropic_prices :: "(string, flt \<times> flt) dict" where
  "anthropic_prices = [(''claude-3-5-sonnet-20241022'', fl (3 / 1000), fl (15 / 1000)),
     (''claude-3-5-haiku-20241022'', fl (8 / 10000), fl (4 / 1000)), (''claude-3-opus-20240229'', fl (15 / 1000), fl (75 / 1000))]"

definition openai_prices :: "(string, flt \<times> flt) dict" where
  "openai_prices = [(''gpt-4o'', fl (5 / 1000), fl (15 / 1000)), (''gpt-4o-mini'', fl (15 / 100000), fl (6 / 10000)),
     (''gpt-4-turbo'', fl (1 / 100), fl (3 / 100))]"

definition azure_prices :: "(string, flt \<times> flt) dict" where
  "azure_prices = [(''gpt-4o'', fl (5 / 1000), fl (15 / 1000)), (''gpt-4o-mini'', fl (15 / 100000), fl (6 / 10000)),
     (''gpt-35-turbo'', fl (5 / 10000), fl (15 / 10000))]"

definition groq_prices :: "(string, flt \<times> flt) dict" where
  "groq_prices = [(''llama-3.3-70b-versatile'', fl (59 / 100000), fl (79 / 100000)), (''llama-3.1-8b-instant'', fl (5 / 100000), fl (8 / 100000)),
     (''mixtral-8x7b-32768'', fl (24 / 100000), fl (24 / 100000))]"

definition mistral_prices :: "(string, flt \<times> flt) dict" where
  "mistral_prices = [(''mistral-large-latest'', fl (2 / 1000), fl (6 / 1000)), (''mistral-small-latest'', fl (2 / 10000), fl (6 / 10000)),
     (''open-mistral-nemo'', fl (15 / 100000), fl (15 / 100000))]"

text \<open>The text of the first block of Anthropic's that has one.\<close>

fun block_text :: "json list \<Rightarrow> string" where
  "block_text [] = ''{}''"
| "block_text (b # bs) =
     (case (item_of b ''type'', item_of b ''text'') of
        (Some (J_str kind), Some (J_str t)) \<Rightarrow> if kind = ''text'' then t else block_text bs
      | _ \<Rightarrow> block_text bs)"

definition anthropic_text :: "json \<Rightarrow> string option" where
  "anthropic_text body = (case body of J_obj d \<Rightarrow> map_option block_text (list_of_key d ''content'') | _ \<Rightarrow> None)"

definition anthropic_hooks :: "(string \<Rightarrow> json option) \<Rightarrow> string \<Rightarrow> provider_hooks" where
  "anthropic_hooks loads model =
     \<lparr>hk_extract_text = anthropic_text, hk_usage = usage_from ''input_tokens'' ''output_tokens'', hk_cost = table_cost anthropic_prices model, hk_loads = loads\<rparr>"

text \<open>The content of the first choice of a chat completion.\<close>

definition choice_text :: "json \<Rightarrow> string option" where
  "choice_text choice =
     (case choice of J_obj c \<Rightarrow>
        map_option (\<lambda>message. case map_of message ''content'' of Some (J_str t) \<Rightarrow> t | _ \<Rightarrow> ''{}'') (object_of_key c ''message'')
      | _ \<Rightarrow> None)"

definition chat_text :: "json \<Rightarrow> string option" where
  "chat_text body =
     (case body of J_obj d \<Rightarrow>
        (case map_of d ''choices'' of None \<Rightarrow> Some ''{}''
         | Some choices \<Rightarrow> if \<not> truthy choices then Some ''{}'' else (case choices of J_list (c # cs) \<Rightarrow> choice_text c | _ \<Rightarrow> None))
      | _ \<Rightarrow> None)"

definition chat_hooks :: "(string, flt \<times> flt) dict \<Rightarrow> (string \<Rightarrow> json option) \<Rightarrow> string \<Rightarrow> provider_hooks" where
  "chat_hooks table loads model =
     \<lparr>hk_extract_text = chat_text, hk_usage = usage_from ''prompt_tokens'' ''completion_tokens'', hk_cost = table_cost table model, hk_loads = loads\<rparr>"

text \<open>OpenRouter says what the call has cost.\<close>

definition reported_cost :: "json \<Rightarrow> int \<Rightarrow> int \<Rightarrow> flt option" where
  "reported_cost body i o' =
     (case body of J_obj d \<Rightarrow>
        map_option (\<lambda>usage. let dflt = estimate_cost_usd i o' default_price_in default_price_out in
          case map_of usage ''cost'' of
            Some (J_int c) \<Rightarrow> if 0 \<le> c then fl (of_int c) else dflt
          | Some (J_float x) \<Rightarrow> if 0 \<le> x then x else dflt
          | Some (J_bool b) \<Rightarrow> if b then 1 else 0
          | _ \<Rightarrow> dflt) (object_of_key d ''usage'')
      | _ \<Rightarrow> None)"

definition openrouter_hooks :: "(string \<Rightarrow> json option) \<Rightarrow> provider_hooks" where
  "openrouter_hooks loads =
     \<lparr>hk_extract_text = chat_text, hk_usage = usage_from ''prompt_tokens'' ''completion_tokens'', hk_cost = reported_cost, hk_loads = loads\<rparr>"

text \<open>Ollama's own \<open>complete\<close>: an error of the server is an answer that is not available, and the budget is not consulted.\<close>

definition ollama_text :: "json \<Rightarrow> string option" where
  "ollama_text body =
     (case body of J_obj d \<Rightarrow>
        map_option (\<lambda>message. case map_of message ''content'' of Some (J_str t) \<Rightarrow> t | _ \<Rightarrow> ''{}'') (object_of_key d ''message'')
      | _ \<Rightarrow> None)"

definition ollama_usage :: "json \<Rightarrow> (int \<times> int) option" where
  "ollama_usage body =
     (case body of J_obj d \<Rightarrow>
        (case (int_of_key d ''prompt_eval_count'', int_of_key d ''eval_count'') of (Some i, Some o') \<Rightarrow> Some (i, o') | _ \<Rightarrow> None)
      | _ \<Rightarrow> None)"

definition ollama_complete ::
  "(string \<Rightarrow> json option) \<Rightarrow> llm_request \<Rightarrow> provider_state \<Rightarrow> flt \<times> flt \<Rightarrow> http_outcome \<Rightarrow> (llm_error + llm_response) \<times> provider_state" where
  "ollama_complete loads q st clock outcome =
     (case (case ps_rate_limit st of None \<Rightarrow> (None, st)
            | Some r \<Rightarrow> (case enforce_rate r ''ollama'' (fst clock) (snd clock) of (e, r') \<Rightarrow> (e, st\<lparr>ps_rate_limit := Some r'\<rparr>)))
      of (Some e, st1) \<Rightarrow> (Inl e, st1)
       | (None, st1) \<Rightarrow>
         (let unavailable = (\<lambda>text'. (Inr \<lparr>lr_text = text', lr_parsed = None, lr_usage = ps_usage st1, lr_cost_usd = 0, lr_available = False\<rparr>, st1)) in
          case outcome of Http_timeout \<Rightarrow> unavailable [] | Http_error \<Rightarrow> unavailable []
          | Http_response status answer \<Rightarrow>
            (if status = 404 then unavailable []
             else if 400 \<le> status then unavailable (py_take 200 answer)
             else case loads answer of None \<Rightarrow> (Inl Answer_unreadable, st1)
              | Some body \<Rightarrow>
                (case (ollama_text body, ollama_usage body) of
                   (Some text', Some (i, o')) \<Rightarrow>
                     (let parsed = (case rq_required_keys q of None \<Rightarrow> None
                            | Some required \<Rightarrow> (case validate_structured_output loads text' required of Inl e \<Rightarrow> None | Inr v \<Rightarrow> Some v));
                          st2 = st1\<lparr>ps_usage := usage_add (ps_usage st1) i o' 0\<rparr>
                      in (Inr \<lparr>lr_text = text', lr_parsed = parsed, lr_usage = ps_usage st2, lr_cost_usd = 0, lr_available = True\<rparr>, st2))
                 | _ \<Rightarrow> (Inl Answer_unreadable, st1)))))"

section \<open>The buckets stay within their capacity\<close>

definition bucket_inv :: "token_bucket \<Rightarrow> bool" where
  "bucket_inv b \<longleftrightarrow> 0 \<le> tb_tokens b \<and> tb_tokens b \<le> fl (of_int (tb_capacity b)) \<and> 0 \<le> tb_rate_per_minute b"

lemma refill_inv: "bucket_inv b \<Longrightarrow> bucket_inv (refill b now)"
proof -
  assume b: "bucket_inv b"
  have "0 \<le> fdiv (tb_rate_per_minute b) 60"
    using b unfolding fdiv_def bucket_inv_def by (simp add: fl_nonneg)
  then have "0 \<le> fadd (tb_tokens b) (fmul (fdiv (tb_rate_per_minute b) 60) e)" if "0 < e" for e
    using b that unfolding fadd_def fmul_def bucket_inv_def by (simp add: fl_nonneg)
  moreover have "0 \<le> fl (of_int (tb_capacity b))" using b by (simp add: bucket_inv_def)
  ultimately show ?thesis
    using b by (auto simp: refill_def bucket_inv_def Let_def)
qed

lemma consume_inv: "bucket_inv b \<Longrightarrow> bucket_inv (snd (try_consume b now n))"
proof -
  assume "bucket_inv b"
  then have b: "bucket_inv (refill b now)" by (rule refill_inv)
  let ?t = "tb_tokens (refill b now)"
  have "fsub ?t (of_nat n) \<le> fl (of_int (tb_capacity (refill b now)))" if "of_nat n \<le> ?t"
  proof -
    have "?t - of_nat n \<le> fl (of_int (tb_capacity (refill b now)))"
      using b by (simp add: bucket_inv_def algebra_simps add_increasing)
    then have "fsub ?t (of_nat n) \<le> fl (fl (of_int (tb_capacity (refill b now))))"
      unfolding fsub_def by (rule fl_mono)
    then show ?thesis by (simp add: fl_idem)
  qed
  then show ?thesis
    using b by (auto simp: try_consume_def bucket_inv_def Let_def fsub_def fl_nonneg)
qed

interpretation bucket: machine "\<lambda>b (now, n). snd (try_consume b now n)" bucket_inv
  by unfold_locales (auto split: prod.splits intro: consume_inv)

lemma new_bucket_inv: "0 \<le> capacity \<Longrightarrow> 0 \<le> rate \<Longrightarrow> bucket_inv (new_bucket capacity rate now)"
  by (simp add: bucket_inv_def new_bucket_def fl_nonneg)

text \<open>A burst: \<open>k\<close> calls at the same clock reading.\<close>

fun burst :: "token_bucket \<Rightarrow> flt \<Rightarrow> nat \<Rightarrow> bool list" where
  "burst b now 0 = []"
| "burst b now (Suc k) = (case try_consume b now 1 of (ok, b') \<Rightarrow> ok # burst b' now k)"

lemma refill_same_time: "tb_last_refill b = now \<Longrightarrow> refill b now = b"
  by (simp add: refill_def fsub_def)

lemma burst_tokens:
  "tb_last_refill b = now \<Longrightarrow> tb_tokens b = of_nat m \<Longrightarrow> m < 2 ^ 53 \<Longrightarrow>
     burst b now k = replicate (min k m) True @ replicate (k - m) False"
proof (induction k arbitrary: b m)
  case (Suc k)
  show ?case
  proof (cases m)
    case 0
    then have "try_consume b now 1 = (False, b)"
      using Suc.prems by (simp add: try_consume_def refill_same_time)
    then show ?thesis using Suc.IH [of b 0] Suc.prems 0 by simp
  next
    case (Suc m')
    have sub: "fsub (of_nat m) (of_nat 1) = of_nat m'"
      using fl_of_nat [of m'] Suc.prems(3) by (simp add: fsub_def Suc)
    have "try_consume b now 1 = (True, b\<lparr>tb_tokens := of_nat m'\<rparr>)"
      using Suc.prems(1,2) sub by (simp add: try_consume_def refill_same_time Suc)
    then show ?thesis
      using Suc.IH [of "b\<lparr>tb_tokens := of_nat m'\<rparr>" m'] Suc.prems Suc by simp
  qed
qed simp

text \<open>
  A fresh bucket grants exactly its capacity in a burst: of \<open>k\<close> calls made before the clock moves, the
  first \<open>capacity\<close> succeed and every later one is refused, whatever the refill rate.
\<close>

theorem burst_exact:
  assumes "0 \<le> capacity" "capacity < 2 ^ 53"
  shows "burst (new_bucket capacity rate now) now k =
    replicate (min k (nat capacity)) True @ replicate (k - nat capacity) False"
proof (rule burst_tokens)
  show "nat capacity < 2 ^ 53" using assms by (simp add: nat_less_iff)
  show "tb_tokens (new_bucket capacity rate now) = of_nat (nat capacity)"
    using assms fl_of_int [of capacity] by (simp add: new_bucket_def)
qed (simp add: new_bucket_def)

theorem burst_exact_witness: "burst (new_bucket 2 60 (1 / 2)) (1 / 2) 3 = [True, True, False]"
  using burst_exact [of 2 60 "1 / 2" 3] by (simp add: numeral_eq_Suc)

section \<open>The budget holds\<close>

lemma cap_for_add [simp]: "cap_for (budget_add b c i o' cost) c' = cap_for b c'"
  by (cases c') (simp_all add: budget_add_def split: option.split)

lemma max_per_run_add [simp]: "lb_max_per_run (budget_add b c i o' cost) = lb_max_per_run b"
  by (simp add: budget_add_def)

lemma usage_for_add: "usage_for (budget_add b c i o' cost) c' =
    (if c' = c then usage_add (usage_for b c) i o' cost else usage_for b c')"
  by (simp add: budget_add_def usage_for_def)

text \<open>What an answered call has done: the answer was read, and its price recorded.\<close>

definition answered :: "provider_hooks \<Rightarrow> http_outcome \<Rightarrow> flt \<Rightarrow> bool" where
  "answered hooks outcome cost \<longleftrightarrow>
     (\<exists>status answer body i o'. outcome = Http_response status answer \<and> status < 400 \<and> hk_loads hooks answer = Some body \<and>
        hk_usage hooks body = Some (i, o') \<and> hk_cost hooks body i o' = Some cost)"

lemma record_response_cases:
  assumes "record_response hooks q st status answer = (r, st')"
  shows "case r of Inl e \<Rightarrow> st' = st
    | Inr resp \<Rightarrow> answered hooks (Http_response status answer) (lr_cost_usd resp) \<and>
        (\<exists>i o'. ps_budget st' = map_option (\<lambda>b. budget_add b (rq_caller q) i o' (lr_cost_usd resp)) (ps_budget st))"
proof -
  have "status < 400" if "status_error status = None" using that by (auto simp: status_error_def split: if_splits)
  then show ?thesis
    using assms unfolding record_response_def answered_def Let_def
    by (auto split: option.splits sum.splits prod.splits) (rule exI, rule exI, rule refl)+
qed

lemma complete_cases:
  assumes "llm_complete hooks name q st clock api_key outcome = (r, st')" "ps_budget st = Some b"
  shows "case r of Inl e \<Rightarrow> ps_budget st' = Some b
    | Inr resp \<Rightarrow> answered hooks outcome (lr_cost_usd resp) \<and> pre_check b (rq_caller q) (estimate_cost q) = None \<and>
        (\<exists>i o'. ps_budget st' = Some (budget_add b (rq_caller q) i o' (lr_cost_usd resp)))"
proof -
  obtain e st1 where lim: "(case ps_rate_limit st of None \<Rightarrow> (None, st)
      | Some r \<Rightarrow> (case enforce_rate r name (fst clock) (snd clock) of (e, r') \<Rightarrow> (e, st\<lparr>ps_rate_limit := Some r'\<rparr>))) = (e, st1)"
    by fastforce
  then have same: "ps_budget st1 = Some b" using assms(2) by (auto split: option.splits prod.splits)
  show ?thesis
  proof (cases "e = None \<and> \<not> (api_key = None \<or> api_key = Some []) \<and> pre_check b (rq_caller q) (estimate_cost q) = None \<and>
      (\<exists>status answer. outcome = Http_response status answer)")
    case True
    then obtain status answer where o': "outcome = Http_response status answer" by blast
    have "record_response hooks q st1 status answer = (r, st')"
      using assms(1) True unfolding llm_complete_def lim by (simp add: same o')
    from record_response_cases [OF this] show ?thesis using True same by (cases r) (auto simp: o')
  next
    case False
    then show ?thesis
      using assms(1) same unfolding llm_complete_def lim
      by (auto split: option.splits if_splits http_outcome.splits)
  qed
qed

text \<open>A sequence of calls of one provider, with what each meets: the clock, the key and the outcome of its request.\<close>

type_synonym llm_call = "llm_request \<times> (flt \<times> flt) \<times> string option \<times> http_outcome"

fun complete_all :: "provider_hooks \<Rightarrow> string \<Rightarrow> provider_state \<Rightarrow> llm_call list \<Rightarrow> (llm_error + llm_response) list \<times> provider_state" where
  "complete_all hooks name st [] = ([], st)"
| "complete_all hooks name st ((q, clock, api_key, outcome) # calls) =
     (case llm_complete hooks name q st clock api_key outcome of (r, st1) \<Rightarrow>
        map_prod (Cons r) id (complete_all hooks name st1 calls))"

text \<open>The prices of the answered calls of one caller, in order.\<close>

definition charged :: "caller \<Rightarrow> llm_call list \<Rightarrow> (llm_error + llm_response) list \<Rightarrow> flt list" where
  "charged c calls rs =
     map (\<lambda>(call, r). lr_cost_usd (projr r)) (filter (\<lambda>(call, r). rq_caller (fst call) = c \<and> \<not> isl r) (zip calls rs))"

text \<open>The caps are the same, and each caller's spend is what the answered calls have cost.\<close>

definition accounts :: "llm_budget \<Rightarrow> llm_budget \<Rightarrow> llm_call list \<Rightarrow> (llm_error + llm_response) list \<Rightarrow> bool" where
  "accounts b b' calls rs \<longleftrightarrow>
     lb_max_per_run b' = lb_max_per_run b \<and>
     (\<forall>c. cap_for b' c = cap_for b c \<and>
        lu_cost_usd (usage_for b' c) = foldl fadd (lu_cost_usd (usage_for b c)) (charged c calls rs) \<and>
        lu_requests (usage_for b' c) = lu_requests (usage_for b c) + int (length (charged c calls rs)))"

lemma complete_all_accounts:
  "complete_all hooks name st calls = (rs, st') \<Longrightarrow> ps_budget st = Some b \<Longrightarrow>
     length rs = length calls \<and> (\<exists>b'. ps_budget st' = Some b' \<and> accounts b b' calls rs)"
proof (induction hooks name st calls arbitrary: rs b rule: complete_all.induct)
  case (1 hooks name st)
  then show ?case by (auto simp: accounts_def charged_def)
next
  case (2 hooks name st q clock api_key outcome calls)
  obtain r st1 where c: "llm_complete hooks name q st clock api_key outcome = (r, st1)"
    by (cases "llm_complete hooks name q st clock api_key outcome")
  obtain rs1 where t: "complete_all hooks name st1 calls = (rs1, st')" "rs = r # rs1"
    using "2.prems"(1) by (cases "complete_all hooks name st1 calls") (auto simp: c)
  note outcome_cases = complete_cases [OF c "2.prems"(2)]
  obtain b1 where b1: "ps_budget st1 = Some b1" using outcome_cases by (cases r) auto
  from "2.IH" [OF c [symmetric] t(1) b1] obtain b' where ih: "length rs1 = length calls" "ps_budget st' = Some b'"
    "accounts b1 b' calls rs1" by blast
  have "accounts b b' ((q, clock, api_key, outcome) # calls) (r # rs1)"
  proof (cases r)
    case (Inl e)
    then show ?thesis using outcome_cases b1 ih(3) by (auto simp: accounts_def charged_def)
  next
    case (Inr resp)
    then obtain i o' where "b1 = budget_add b (rq_caller q) i o' (lr_cost_usd resp)" using outcome_cases b1 by auto
    then show ?thesis using ih(3) Inr by (auto simp: accounts_def charged_def usage_for_add usage_add_def)
  qed
  then show ?case using ih t(2) by simp
qed

lemma complete_all_nth:
  "k < length calls \<Longrightarrow> calls ! k = (q, clock, api_key, outcome) \<Longrightarrow>
     fst (complete_all hooks name st calls) ! k =
       fst (llm_complete hooks name q (snd (complete_all hooks name st (take k calls))) clock api_key outcome)"
proof (induction hooks name st calls arbitrary: k rule: complete_all.induct)
  case (2 hooks name st q' clock' api_key' outcome' calls)
  obtain r st1 where c: "llm_complete hooks name q' st clock' api_key' outcome' = (r, st1)"
    by (cases "llm_complete hooks name q' st clock' api_key' outcome'")
  show ?case
  proof (cases k)
    case 0
    then show ?thesis using "2.prems"(2) c by (auto split: prod.split)
  next
    case (Suc j)
    then show ?thesis using "2.IH" [OF c [symmetric], of j] "2.prems" by (simp add: c)
  qed
qed simp

lemma estimate_covers: "fmul (fdiv (of_int (rq_max_output_tokens q)) 1000) default_price_out \<le> estimate_cost q"
proof -
  have p: "0 \<le> default_price_in" "0 \<le> default_price_out" by (simp_all add: default_price_in_def default_price_out_def fl_nonneg)
  define i where "i = max 1 ((int (py_len (rq_system q)) + sum_list (map (\<lambda>m. int (py_len m)) (rq_contents q))) div 4)"
  have "fdiv (of_int (rq_max_output_tokens q)) 1000 \<le> fdiv (of_int (max 1 (rq_max_output_tokens q))) 1000"
    unfolding fdiv_def by (intro fl_mono divide_right_mono) simp_all
  then have "fmul (fdiv (of_int (rq_max_output_tokens q)) 1000) default_price_out \<le> fmul (fdiv (of_int (max 1 (rq_max_output_tokens q))) 1000) default_price_out"
    unfolding fmul_def using p(2) by (intro fl_mono mult_right_mono)
  also have "\<dots> = fl (fmul (fdiv (of_int (max 1 (rq_max_output_tokens q))) 1000) default_price_out)" by (simp add: fmul_def fl_idem)
  also have "\<dots> \<le> fadd (fmul (fdiv (of_int i) 1000) default_price_in) (fmul (fdiv (of_int (max 1 (rq_max_output_tokens q))) 1000) default_price_out)"
    unfolding fadd_def
  proof (rule fl_mono)
    have "0 \<le> fdiv (of_int i) 1000" unfolding fdiv_def by (rule fl_nonneg) (simp add: i_def)
    then have "0 \<le> fmul (fdiv (of_int i) 1000) default_price_in" unfolding fmul_def using p(1) by (intro fl_nonneg) simp
    then show "fmul (fdiv (of_int (max 1 (rq_max_output_tokens q))) 1000) default_price_out \<le>
        fmul (fdiv (of_int i) 1000) default_price_in + fmul (fdiv (of_int (max 1 (rq_max_output_tokens q))) 1000) default_price_out" by simp
  qed
  also have "\<dots> = estimate_cost q" by (simp add: estimate_cost_def estimate_cost_usd_def i_def Let_def)
  finally show ?thesis .
qed

text \<open>
  C40. Every answer is paid for out of the budget. Take any sequence of calls of a provider that shares the base \<open>complete\<close> and has a budget, of any callers and with any
  mix of rate limits, timeouts, rejections and malformed answers. Afterwards the caps are what they were; each caller's recorded spend is its earlier spend
  plus the prices of its answered calls, added in order, and its count of requests has grown by their number. A call is answered only if its estimate still
  fitted when it was made: the caller's spend and the estimate within the caller's cap, and the spend of all callers and the estimate within the cap of the
  run; the price recorded is what the provider charges for the answer, and the estimate is at least what the request's maximum of output tokens
  costs at the default price. (The price may exceed the estimate, and the cap with it: see \<open>opus_overspends\<close>.)
\<close>

theorem budget_accounted:
  assumes "complete_all hooks name st calls = (rs, st')" "ps_budget st = Some b"
  shows "length rs = length calls \<and> (\<exists>b'. ps_budget st' = Some b' \<and> lb_max_per_run b' = lb_max_per_run b \<and>
      (\<forall>c. cap_for b' c = cap_for b c \<and>
        lu_cost_usd (usage_for b' c) = foldl fadd (lu_cost_usd (usage_for b c)) (charged c calls rs) \<and>
        lu_requests (usage_for b' c) = lu_requests (usage_for b c) + int (length (charged c calls rs)))) \<and>
    (\<forall>k<length calls. \<forall>q clock api_key outcome resp. calls ! k = (q, clock, api_key, outcome) \<and> rs ! k = Inr resp \<longrightarrow>
      (\<exists>bk. ps_budget (snd (complete_all hooks name st (take k calls))) = Some bk \<and>
        fadd (lu_cost_usd (usage_for bk (rq_caller q))) (estimate_cost q) \<le> cap_for b (rq_caller q) \<and>
        fadd (lu_cost_usd (budget_total bk)) (estimate_cost q) \<le> lb_max_per_run b) \<and>
      answered hooks outcome (lr_cost_usd resp) \<and>
      fmul (fdiv (of_int (rq_max_output_tokens q)) 1000) default_price_out \<le> estimate_cost q)"
proof -
  have made: "(\<exists>bk. ps_budget (snd (complete_all hooks name st (take k calls))) = Some bk \<and>
        fadd (lu_cost_usd (usage_for bk (rq_caller q))) (estimate_cost q) \<le> cap_for b (rq_caller q) \<and>
        fadd (lu_cost_usd (budget_total bk)) (estimate_cost q) \<le> lb_max_per_run b) \<and> answered hooks outcome (lr_cost_usd resp)"
    if k: "k < length calls" "calls ! k = (q, clock, api_key, outcome)" "rs ! k = Inr resp" for k q clock api_key outcome resp
  proof -
    obtain rs1 st1 where before: "complete_all hooks name st (take k calls) = (rs1, st1)"
      by (cases "complete_all hooks name st (take k calls)")
    obtain bk where bk: "ps_budget st1 = Some bk" "accounts b bk (take k calls) rs1"
      using complete_all_accounts [OF before assms(2)] by blast
    obtain r st2 where now: "llm_complete hooks name q st1 clock api_key outcome = (r, st2)"
      by (cases "llm_complete hooks name q st1 clock api_key outcome")
    have "r = Inr resp" using complete_all_nth [OF k(1,2), of hooks name st] k(3) by (simp add: assms(1) before now)
    then have c: "answered hooks outcome (lr_cost_usd resp)" "pre_check bk (rq_caller q) (estimate_cost q) = None"
      using complete_cases [OF now bk(1)] by simp_all
    have "fadd (lu_cost_usd (usage_for bk (rq_caller q))) (estimate_cost q) \<le> cap_for bk (rq_caller q)"
      "fadd (lu_cost_usd (budget_total bk)) (estimate_cost q) \<le> lb_max_per_run bk"
      using c(2) by (simp_all add: pre_check_def Let_def not_less split: if_splits)
    then show ?thesis using c(1) bk before by (auto simp: accounts_def)
  qed
  show ?thesis
    using complete_all_accounts [OF assms] made estimate_covers unfolding accounts_def by blast
qed

definition sample_budget :: llm_budget where
  "sample_budget = \<lparr>lb_max_per_run = 1 / 2, lb_max_planner = Some (1 / 20), lb_max_analyzer = None,
     lb_max_healer = None, lb_by_caller = []\<rparr>"

definition sample_state :: provider_state where
  "sample_state = \<lparr>ps_rate_limit = None, ps_budget = Some sample_budget, ps_usage = no_usage\<rparr>"

definition sample_request :: llm_request where
  "sample_request = \<lparr>rq_system = ''s'', rq_contents = [''c''], rq_required_keys = Some [''k''],
     rq_max_output_tokens = 1000, rq_caller = Planner\<rparr>"

text \<open>The decoder of the two texts that occur: an answer of Anthropic's, and the object in it.\<close>

definition sample_answer :: "string \<Rightarrow> json" where
  "sample_answer text' = J_obj [(''content'', J_list [J_obj [(''type'', J_str ''text''), (''text'', J_str text')]]),
     (''usage'', J_obj [(''input_tokens'', J_int 1), (''output_tokens'', J_int 1000)])]"

definition sample_loads :: "string \<Rightarrow> json option" where
  "sample_loads s = (if s = ''good'' then Some (sample_answer ''{k}'') else if s = ''bad'' then Some (sample_answer ''{}'')
     else if s = ''{k}'' then Some (J_obj [(''k'', J_null)]) else if s = ''{}'' then Some (J_obj []) else None)"

definition opus :: provider_hooks where
  "opus = anthropic_hooks sample_loads ''claude-3-opus-20240229''"

definition opus_price :: flt where
  "opus_price = estimate_cost_usd 1 1000 (fl (15 / 1000)) (fl (75 / 1000))"

definition sample_call :: "string \<Rightarrow> llm_call" where
  "sample_call answer = (sample_request, (0, 0), Some ''key'', Http_response 200 answer)"

lemma sample_estimate: "fadd 0 (estimate_cost sample_request) \<le> 1 / 20"
proof -
  have e: "estimate_cost sample_request \<le> 1 / 32" by code_simp
  have q: "fl (1 / 32) = 1 / 32" by code_simp
  have "fl (estimate_cost sample_request) \<le> 1 / 32" using fl_mono [OF e] by (simp only: q)
  then show ?thesis by (simp add: fadd_def)
qed

lemma sample_pre_check: "pre_check sample_budget (rq_caller sample_request) (estimate_cost sample_request) = None"
proof -
  have "rq_caller sample_request = Planner" by (simp add: sample_request_def)
  moreover have "fadd 0 (estimate_cost sample_request) \<le> 1 / 2" using sample_estimate by simp
  ultimately show ?thesis
    unfolding pre_check_def Let_def using sample_estimate
    by (simp add: sample_budget_def usage_for_def dict_get_def budget_total_def no_usage_def del: One_nat_def)
qed

lemma opus_reads:
  "hk_loads opus ''good'' = Some (sample_answer ''{k}'')" "hk_loads opus ''bad'' = Some (sample_answer ''{}'')"
  "hk_extract_text opus (sample_answer t) = Some t" "hk_usage opus (sample_answer t) = Some (1, 1000)"
  "hk_cost opus (sample_answer t) 1 1000 = Some opus_price"
  by (simp_all add: opus_def anthropic_hooks_def sample_loads_def sample_answer_def anthropic_text_def list_of_key_def iterate_def truthy_def
      item_of_def usage_from_def object_of_key_def int_of_key_def table_cost_def anthropic_prices_def opus_price_def)

lemma opus_answers:
  "llm_complete opus ''anthropic'' sample_request sample_state (0, 0) (Some ''key'') (Http_response 200 ''good'') =
     (Inr \<lparr>lr_text = ''{k}'', lr_parsed = Some (J_obj [(''k'', J_null)]), lr_usage = usage_add no_usage 1 1000 opus_price, lr_cost_usd = opus_price,
        lr_available = True\<rparr>, sample_state\<lparr>ps_budget := Some (budget_add sample_budget Planner 1 1000 opus_price),
        ps_usage := usage_add no_usage 1 1000 opus_price\<rparr>)"
  "llm_complete opus ''anthropic'' sample_request sample_state (0, 0) (Some ''key'') (Http_response 200 ''bad'') = (Inl Invalid_response, sample_state)"
proof -
  have l: "hk_loads opus ''{k}'' = Some (J_obj [(''k'', J_null)])" "hk_loads opus ''{}'' = Some (J_obj [])"
    by (simp_all add: opus_def anthropic_hooks_def sample_loads_def)
  have q: "rq_required_keys sample_request = Some [''k'']" "rq_caller sample_request = Planner" by (simp_all add: sample_request_def)
  have p: "pre_check sample_budget Planner (estimate_cost sample_request) = None" using sample_pre_check by (simp add: q)
  show "llm_complete opus ''anthropic'' sample_request sample_state (0, 0) (Some ''key'') (Http_response 200 ''good'') =
     (Inr \<lparr>lr_text = ''{k}'', lr_parsed = Some (J_obj [(''k'', J_null)]), lr_usage = usage_add no_usage 1 1000 opus_price, lr_cost_usd = opus_price,
        lr_available = True\<rparr>, sample_state\<lparr>ps_budget := Some (budget_add sample_budget Planner 1 1000 opus_price),
        ps_usage := usage_add no_usage 1 1000 opus_price\<rparr>)"
    by (simp add: llm_complete_def sample_state_def p q record_response_def status_error_def opus_reads l validate_structured_output_def Let_def)
  show "llm_complete opus ''anthropic'' sample_request sample_state (0, 0) (Some ''key'') (Http_response 200 ''bad'') = (Inl Invalid_response, sample_state)"
    by (simp add: llm_complete_def sample_state_def p q record_response_def status_error_def opus_reads l validate_structured_output_def Let_def)
qed

theorem budget_accounted_witness:
  "\<exists>rs st' b'. complete_all opus ''anthropic'' sample_state [sample_call ''bad'', sample_call ''good''] = (rs, st') \<and> ps_budget st' = Some b' \<and>
     charged Planner [sample_call ''bad'', sample_call ''good''] rs = [opus_price] \<and>
     lu_cost_usd (usage_for b' Planner) = fadd 0 opus_price \<and> lu_requests (usage_for b' Planner) = 1"
proof -
  let ?calls = "[sample_call ''bad'', sample_call ''good'']"
  obtain resp st' where run: "complete_all opus ''anthropic'' sample_state ?calls = ([Inl Invalid_response, Inr resp], st')" "lr_cost_usd resp = opus_price"
    by (simp add: sample_call_def opus_answers)
  have c: "charged Planner ?calls [Inl Invalid_response, Inr resp] = [opus_price]"
    by (simp add: charged_def sample_call_def sample_request_def run(2))
  have "ps_budget sample_state = Some sample_budget" by (simp add: sample_state_def)
  from budget_accounted [OF run(1) this] obtain b' where "ps_budget st' = Some b'"
    "lu_cost_usd (usage_for b' Planner) = foldl fadd (lu_cost_usd (usage_for sample_budget Planner)) (charged Planner ?calls [Inl Invalid_response, Inr resp])"
    "lu_requests (usage_for b' Planner) = lu_requests (usage_for sample_budget Planner) + int (length (charged Planner ?calls [Inl Invalid_response, Inr resp]))"
    by blast
  then show ?thesis using run(1) c by (simp add: sample_budget_def usage_for_def dict_get_def no_usage_def)
qed

text \<open>
  An answer of the dearest model breaks the cap: the estimate is made at the default prices, a fifth of Opus's, so a planner with a cap of 0.05 dollars
  is let through and spends more than that.
\<close>

theorem opus_overspends:
  "\<exists>resp st' b'. llm_complete opus ''anthropic'' sample_request sample_state (0, 0) (Some ''key'') (Http_response 200 ''good'') = (Inr resp, st') \<and>
     ps_budget st' = Some b' \<and> cap_for b' Planner = 1 / 20 \<and> cap_for b' Planner < lu_cost_usd (usage_for b' Planner)"
proof -
  have e: "1 / 16 \<le> opus_price" by code_simp
  have q: "fl (1 / 16) = 1 / 16" by code_simp
  have "1 / 16 \<le> fadd 0 opus_price" using fl_mono [OF e] by (simp add: fadd_def q)
  then have over: "(1 / 20 :: flt) < fadd 0 opus_price" by simp
  let ?b = "budget_add sample_budget Planner 1 1000 opus_price"
  have cap: "cap_for ?b Planner = 1 / 20" unfolding cap_for_add by (simp add: sample_budget_def)
  have "lu_cost_usd (usage_for ?b Planner) = fadd 0 opus_price"
    unfolding usage_for_add by (simp add: usage_add_def sample_budget_def usage_for_def dict_get_def no_usage_def)
  then show ?thesis using over cap unfolding opus_answers by simp
qed

lemma enforce_rate_error: "enforce_rate r name t0 t1 = (e, r') \<Longrightarrow> e \<noteq> Some Invalid_response"
  by (auto simp: enforce_rate_def split: prod.splits if_splits)

lemma pre_check_error: "pre_check b c est \<noteq> Some Invalid_response"
  by (simp add: pre_check_def Let_def)

lemma record_response_invalid:
  "fst (record_response hooks q st status answer) = Inl Invalid_response \<Longrightarrow>
     snd (record_response hooks q st status answer) = st \<and> status < 400"
  by (auto simp: record_response_def status_error_def Let_def split: option.splits sum.splits prod.splits if_splits)

text \<open>
  An answer that fails the structured-output check has been paid for but is recorded nowhere: the
  call reports an invalid response and the budget and the provider's usage are those from before it.
  Any number of malformed answers therefore passes the budget check.
\<close>

theorem invalid_response_unrecorded:
  assumes "fst (llm_complete hooks name q st clock api_key outcome) = Inl Invalid_response"
  shows "ps_budget (snd (llm_complete hooks name q st clock api_key outcome)) = ps_budget st \<and>
    ps_usage (snd (llm_complete hooks name q st clock api_key outcome)) = ps_usage st \<and>
    (\<exists>status answer. outcome = Http_response status answer \<and> status < 400)"
proof -
  obtain e st1 where lim: "(case ps_rate_limit st of None \<Rightarrow> (None, st)
      | Some r \<Rightarrow> (case enforce_rate r name (fst clock) (snd clock) of (e, r') \<Rightarrow> (e, st\<lparr>ps_rate_limit := Some r'\<rparr>))) = (e, st1)"
    by fastforce
  have e: "e \<noteq> Some Invalid_response" and same: "ps_budget st1 = ps_budget st" "ps_usage st1 = ps_usage st"
    using lim enforce_rate_error by (auto split: option.splits prod.splits)
  have result: "llm_complete hooks name q st clock api_key outcome =
      (case e of Some e' \<Rightarrow> (Inl e', st1)
       | None \<Rightarrow> if api_key = None \<or> api_key = Some [] then (Inl Missing_key, st1)
         else case (case ps_budget st1 of None \<Rightarrow> None | Some b \<Rightarrow> pre_check b (rq_caller q) (estimate_cost q)) of
           Some e' \<Rightarrow> (Inl e', st1)
         | None \<Rightarrow> (case outcome of Http_timeout \<Rightarrow> (Inl Timed_out, st1) | Http_error \<Rightarrow> (Inl Transport_error, st1)
             | Http_response status answer \<Rightarrow> record_response hooks q st1 status answer))"
    unfolding llm_complete_def lim by (simp split: option.split)
  then obtain status answer where "outcome = Http_response status answer"
    and r: "llm_complete hooks name q st clock api_key outcome = record_response hooks q st1 status answer"
    using assms e pre_check_error by (auto split: option.splits if_splits http_outcome.splits)
  then show ?thesis
    using record_response_invalid [of hooks q st1 status answer] assms same by auto
qed

theorem invalid_response_unrecorded_witness:
  "ps_budget (snd (llm_complete opus ''anthropic'' sample_request sample_state (0, 0) (Some ''key'') (Http_response 200 ''bad''))) =
     ps_budget sample_state"
proof -
  have "fst (llm_complete opus ''anthropic'' sample_request sample_state (0, 0) (Some ''key'') (Http_response 200 ''bad'')) = Inl Invalid_response"
    by (simp add: opus_answers)
  from invalid_response_unrecorded [OF this] show ?thesis by blast
qed

text \<open>A registered provider resolves under every spelling of its name, and shadows nothing.\<close>

lemma register_resolve:
  assumes "register_provider reg name factory = Inr reg'"
  shows "provider_key n = provider_key name \<Longrightarrow> resolve_provider reg' n = Inr factory"
    and "provider_key n \<noteq> provider_key name \<Longrightarrow> resolve_provider reg' n = resolve_provider reg n"
  using assms by (auto simp: register_provider_def resolve_provider_def Let_def split: if_splits)

end
