(* ===== verification/Cache.thy ===== *)
theory Cache
  imports Ids
begin

text \<open>
  The byte cache of \<open>engine/cache/store.py\<close> that the run lifecycle keeps discovery results and plans in. \<open>path_for\<close> builds a path of
  a namespace, a shard directory and a file name below the root; \<open>resolve_path\<close> is the file the system finds there, as two shards are
  special to it, \<open>.\<close> and \<open>..\<close>. The store is the directories of namespaces and the files below the root.
  An \<open>OSError\<close> is modelled where a file stands in the place of a directory or the other way round (the directory that a failing write has
  already made is then forgotten); disks that are full, permissions and limits on names are not modelled.
\<close>

section \<open>Operations\<close>

datatype cache_error = Bad_namespace string | Bad_key string | Os_conflict

definition is_lower_char :: "char \<Rightarrow> bool" where
  "is_lower_char c \<longleftrightarrow> (let n = (of_char c :: nat) in 97 \<le> n \<and> n \<le> 122)"

text \<open>\<open>^[a-z0-9][a-z0-9._-]*$\<close> and \<open>^[A-Za-z0-9._:-]+$\<close>; \<open>$\<close> also matches before a final newline.\<close>

definition drop_final_newline :: "string \<Rightarrow> string" where
  "drop_final_newline s = (if s \<noteq> [] \<and> last s = newline then butlast s else s)"

definition namespace_ok :: "string \<Rightarrow> bool" where
  "namespace_ok s \<longleftrightarrow>
     (let t = drop_final_newline s in
      t \<noteq> [] \<and> (is_lower_char (hd t) \<or> is_digit_char (hd t)) \<and>
      list_all (\<lambda>c. is_lower_char c \<or> is_digit_char c \<or> c \<in> set ''._-'') t)"

definition key_ok :: "string \<Rightarrow> bool" where
  "key_ok s \<longleftrightarrow>
     (let t = drop_final_newline s in
      t \<noteq> [] \<and> list_all (\<lambda>c. is_lower_char c \<or> is_upper_char c \<or> is_digit_char c \<or> c \<in> set ''._:-'') t)"

definition cache_validate :: "string \<Rightarrow> string \<Rightarrow> cache_error + unit" where
  "cache_validate namespace key =
     (if \<not> namespace_ok namespace then Inl (Bad_namespace namespace)
      else if \<not> key_ok key then Inl (Bad_key key) else Inr ())"

text \<open>The path below the root: namespace, shard, file name.\<close>

definition path_for :: "string \<Rightarrow> string \<Rightarrow> cache_error + string \<times> string \<times> string" where
  "path_for namespace key =
     (case cache_validate namespace key of Inl e \<Rightarrow> Inl e
      | Inr _ \<Rightarrow>
        (let shard = (if length key < 2 then key else take 2 key);
             rest = (if length key < 2 then [] else drop 2 key)
         in Inr (namespace, shard, (if rest = [] then ''_'' else rest) @ ''.bin'')))"

text \<open>The file a path leads to, as its names below the root.\<close>

definition resolve_path :: "string \<times> string \<times> string \<Rightarrow> string list" where
  "resolve_path p =
     (case p of (ns, shard, name) \<Rightarrow> if shard = ''.'' then [ns, name] else if shard = ''..'' then [name] else [ns, shard, name])"

record 'v cache_store =
  cs_spaces :: "string list"
  cs_files :: "(string list, 'v) dict"

definition empty_store :: "'v cache_store" where
  "empty_store = \<lparr>cs_spaces = [], cs_files = []\<rparr>"

text \<open>\<open>..\<close> leads out of a directory only when the directory is there.\<close>

definition cache_file :: "'v cache_store \<Rightarrow> string \<times> string \<times> string \<Rightarrow> 'v option" where
  "cache_file st p =
     (if fst (snd p) = ''..'' \<and> fst p \<notin> set (cs_spaces st) then None else map_of (cs_files st) (resolve_path p))"

text \<open>A file where the directory of the namespace should be, or a directory (of the namespaces \<open>spaces\<close>) where the file should be.\<close>

definition path_conflict :: "'v cache_store \<Rightarrow> string list \<Rightarrow> string \<times> string \<times> string \<Rightarrow> bool" where
  "path_conflict st spaces p \<longleftrightarrow> map_of (cs_files st) [fst p] \<noteq> None \<or> fst (snd p) = ''..'' \<and> snd (snd p) \<in> set spaces"

definition cache_get :: "'v cache_store \<Rightarrow> string \<Rightarrow> string \<Rightarrow> cache_error + 'v option" where
  "cache_get st namespace key =
     (case path_for namespace key of Inl e \<Rightarrow> Inl e | Inr p \<Rightarrow> Inr (cache_file st p))"

text \<open>The directory is made first; the value is written to a file with the suffix \<open>.tmp\<close> that then replaces the old file.\<close>

definition cache_put :: "'v cache_store \<Rightarrow> string \<Rightarrow> string \<Rightarrow> 'v \<Rightarrow> cache_error + 'v cache_store" where
  "cache_put st namespace key v =
     (case path_for namespace key of Inl e \<Rightarrow> Inl e
      | Inr p \<Rightarrow>
        (let spaces = List.insert namespace (cs_spaces st) in
         if path_conflict st spaces p \<or> path_conflict st spaces (fst p, fst (snd p), snd (snd p) @ ''.tmp'') then Inl Os_conflict
         else Inr \<lparr>cs_spaces = spaces, cs_files = AList.update (resolve_path p) v (cs_files st)\<rparr>))"

definition cache_delete :: "'v cache_store \<Rightarrow> string \<Rightarrow> string \<Rightarrow> cache_error + bool \<times> 'v cache_store" where
  "cache_delete st namespace key =
     (case path_for namespace key of Inl e \<Rightarrow> Inl e
      | Inr p \<Rightarrow>
        if map_of (cs_files st) [namespace] \<noteq> None then Inl Os_conflict
        else if fst (snd p) = ''..'' \<and> namespace \<notin> set (cs_spaces st) then Inr (False, st)
        else if path_conflict st (cs_spaces st) p then Inl Os_conflict
        else Inr (cache_file st p \<noteq> None, st\<lparr>cs_files := AList.delete (resolve_path p) (cs_files st)\<rparr>))"

definition cache_has :: "'v cache_store \<Rightarrow> string \<Rightarrow> string \<Rightarrow> cache_error + bool" where
  "cache_has st namespace key =
     (case path_for namespace key of Inl e \<Rightarrow> Inl e | Inr p \<Rightarrow> Inr (cache_file st p \<noteq> None))"

text \<open>The files in the directories of the namespace; the size of a value is a parameter.\<close>

definition cache_stats :: "('v \<Rightarrow> nat) \<Rightarrow> 'v cache_store \<Rightarrow> string \<Rightarrow> cache_error + nat \<times> nat" where
  "cache_stats size_of st namespace =
     (if \<not> namespace_ok namespace then Inl (Bad_namespace namespace)
      else let found = filter (\<lambda>(path, v). length path = 3 \<and> hd path = namespace \<and> py_endswith (last path) ''.bin'') (cs_files st)
           in Inr (length found, sum_list (map (size_of \<circ> snd) found)))"

section \<open>The cache as a map\<close>

text \<open>
  Two keys of a namespace share a file only through the padding: a key of two characters and the same key with
  one \<open>_\<close> behind it.
\<close>

definition canonical :: "string \<Rightarrow> string" where
  "canonical key = (if length key = 2 then key @ ''_'' else key)"

lemma path_for_valid: "cache_validate ns k = Inr () \<Longrightarrow> \<exists>shard name. path_for ns k = Inr (ns, shard, name)"
  by (simp add: path_for_def Let_def)

lemma path_for_Inl: "path_for ns k = Inl e \<longleftrightarrow> cache_validate ns k = Inl e"
  by (auto simp: path_for_def Let_def split: sum.splits)

lemma path_for_eq:
  "cache_validate ns k = Inr () \<Longrightarrow>
   path_for ns k = Inr (ns, take 2 k, (if drop 2 k = [] then ''_'' else drop 2 k) @ ''.bin'')"
  by (simp add: path_for_def Let_def)

lemma canonical_split: "2 \<le> length k \<Longrightarrow> canonical k = take 2 k @ (if drop 2 k = [] then ''_'' else drop 2 k)"
  by (simp add: canonical_def)

lemma same_path_iff:
  assumes "cache_validate ns k = Inr ()" "cache_validate ns' k' = Inr ()"
  shows "path_for ns k = path_for ns' k' \<longleftrightarrow> ns = ns' \<and> canonical k = canonical k'"
proof -
  let ?pad = "\<lambda>k. if drop 2 k = [] then ''_'' else drop 2 k"
  have one: "take 2 j = j \<and> ?pad j = ''_'' \<and> canonical j = j \<and> length j \<le> 1" if "\<not> 2 \<le> length j" for j :: string
    using that by (simp add: canonical_def)
  have two: "length (take 2 j) = 2 \<and> 3 \<le> length (canonical j)" if "2 \<le> length j" for j :: string
    using that by (simp add: canonical_def)
  have "take 2 k = take 2 k' \<and> ?pad k = ?pad k' \<longleftrightarrow> canonical k = canonical k'"
  proof (cases "2 \<le> length k"; cases "2 \<le> length k'")
    assume l: "2 \<le> length k" "2 \<le> length k'"
    show ?thesis
      unfolding canonical_split [OF l(1)] canonical_split [OF l(2)] using two [OF l(1)] two [OF l(2)] by auto
  next
    assume l: "2 \<le> length k" "\<not> 2 \<le> length k'"
    show ?thesis using two [OF l(1)] one [OF l(2)] by auto
  next
    assume l: "\<not> 2 \<le> length k" "2 \<le> length k'"
    show ?thesis using one [OF l(1)] two [OF l(2)] by auto
  next
    assume l: "\<not> 2 \<le> length k" "\<not> 2 \<le> length k'"
    show ?thesis using one [OF l(1)] one [OF l(2)] by auto
  qed
  then show ?thesis unfolding path_for_eq [OF assms(1)] path_for_eq [OF assms(2)] by auto
qed

text \<open>No key that begins with two dots has been stored.\<close>

definition no_stray :: "'v cache_store \<Rightarrow> bool" where
  "no_stray st \<longleftrightarrow> (\<forall>f\<in>set (cs_files st). length (fst f) \<noteq> 1)"

lemma no_stray_root: "no_stray st \<Longrightarrow> map_of (cs_files st) [x] = None"
  by (force simp: no_stray_def map_of_eq_None_iff)

lemma update_keys: "(a, b) \<in> set (AList.update k v xs) \<Longrightarrow> a = k \<or> (a, b) \<in> set xs"
  by (induction xs) (auto split: if_splits)

lemma no_stray_update: "no_stray st \<Longrightarrow> length path \<noteq> 1 \<Longrightarrow> no_stray (st\<lparr>cs_files := AList.update path v (cs_files st)\<rparr>)"
  by (auto simp: no_stray_def dest!: update_keys)

lemma no_stray_delete: "no_stray st \<Longrightarrow> no_stray (st\<lparr>cs_files := AList.delete path (cs_files st)\<rparr>)"
  by (auto simp: no_stray_def AList.delete_eq)

lemma resolve_inj:
  "shard \<noteq> ''..'' \<Longrightarrow> shard' \<noteq> ''..'' \<Longrightarrow> resolve_path (ns, shard, name) = resolve_path (ns', shard', name') \<longleftrightarrow>
     (ns, shard, name) = (ns', shard', name')"
  by (auto simp: resolve_path_def)

lemma resolve_length: "length (resolve_path (ns, shard, name)) = 1 \<longleftrightarrow> shard = ''..''"
  by (simp add: resolve_path_def)

text \<open>A key that does not begin with two dots, in a store that holds no key that does.\<close>

lemma put_own:
  assumes "cache_validate ns k = Inr ()" "take 2 k \<noteq> ''..''" "no_stray st"
  obtains name where "path_for ns k = Inr (ns, take 2 k, name)"
    "cache_put st ns k v = Inr \<lparr>cs_spaces = List.insert ns (cs_spaces st), cs_files = AList.update (resolve_path (ns, take 2 k, name)) v (cs_files st)\<rparr>"
  using assms(2) no_stray_root [OF assms(3)]
  by (simp add: cache_put_def path_for_eq [OF assms(1)] path_conflict_def Let_def)

lemma get_root: "no_stray st \<Longrightarrow> cache_file st (ns, ''..'', name) = None"
  by (simp add: cache_file_def resolve_path_def no_stray_root)

lemma file_own: "shard \<noteq> ''..'' \<Longrightarrow> cache_file st (ns, shard, name) = map_of (cs_files st) (resolve_path (ns, shard, name))"
  by (simp add: cache_file_def)

text \<open>What every read sees after the file of one key has been set or removed.\<close>

lemma get_changed:
  assumes "cache_validate ns k = Inr ()" "take 2 k \<noteq> ''..''" "path_for ns k = Inr (ns, take 2 k, name)" "no_stray st" "no_stray st'"
    and "map_of (cs_files st') = (map_of (cs_files st)) (resolve_path (ns, take 2 k, name) := x)"
  shows "cache_get st' ns' k' =
    (if cache_validate ns' k' = Inr () \<and> ns' = ns \<and> canonical k' = canonical k then Inr x else cache_get st ns' k')"
proof (cases "cache_validate ns' k'")
  case (Inl e)
  then show ?thesis by (simp add: cache_get_def path_for_Inl [THEN iffD2])
next
  case (Inr u)
  then have valid': "cache_validate ns' k' = Inr ()" by simp
  obtain name' where p': "path_for ns' k' = Inr (ns', take 2 k', name')" using path_for_eq [OF valid'] by blast
  have same: "ns' = ns \<and> canonical k' = canonical k \<longleftrightarrow> (ns', take 2 k', name') = (ns, take 2 k, name)"
    using same_path_iff [OF valid' assms(1)] unfolding p' assms(3) by simp
  show ?thesis
  proof (cases "take 2 k' = ''..''")
    case True
    then have "\<not> (ns' = ns \<and> canonical k' = canonical k)" using assms(2) unfolding same by auto
    then show ?thesis using get_root [OF assms(4)] get_root [OF assms(5)] by (auto simp: cache_get_def p' True)
  next
    case False
    then show ?thesis
      using resolve_inj [OF False assms(2), of ns' name' ns name] same valid' assms(6)
      by (simp add: cache_get_def p' file_own)
  qed
qed

lemma cache_put_get:
  assumes "cache_validate ns k = Inr ()" "take 2 k \<noteq> ''..''" "no_stray st" "cache_put st ns k v = Inr st'"
  shows "no_stray st'" and "cache_get st' ns' k' =
    (if cache_validate ns' k' = Inr () \<and> ns' = ns \<and> canonical k' = canonical k then Inr (Some v) else cache_get st ns' k')"
proof -
  obtain name where p: "path_for ns k = Inr (ns, take 2 k, name)"
    and st': "st' = \<lparr>cs_spaces = List.insert ns (cs_spaces st), cs_files = AList.update (resolve_path (ns, take 2 k, name)) v (cs_files st)\<rparr>"
    using put_own [OF assms(1-3), of v] assms(4) by auto
  show s: "no_stray st'"
    using no_stray_update [OF assms(3), of "resolve_path (ns, take 2 k, name)" v] assms(2) resolve_length [of ns "take 2 k" name]
    by (simp add: st' no_stray_def)
  show "cache_get st' ns' k' =
      (if cache_validate ns' k' = Inr () \<and> ns' = ns \<and> canonical k' = canonical k then Inr (Some v) else cache_get st ns' k')"
    by (rule get_changed [OF assms(1,2) p assms(3) s]) (simp add: st' update_conv')
qed

lemma cache_delete_get:
  assumes "cache_validate ns k = Inr ()" "take 2 k \<noteq> ''..''" "no_stray st"
  obtains st' where "cache_delete st ns k = Inr (cache_get st ns k \<noteq> Inr None, st')" "no_stray st'"
    "\<And>ns' k'. cache_get st' ns' k' =
      (if cache_validate ns' k' = Inr () \<and> ns' = ns \<and> canonical k' = canonical k then Inr None else cache_get st ns' k')"
proof -
  obtain name where p: "path_for ns k = Inr (ns, take 2 k, name)" using path_for_eq [OF assms(1)] by blast
  let ?st = "st\<lparr>cs_files := AList.delete (resolve_path (ns, take 2 k, name)) (cs_files st)\<rparr>"
  have d: "cache_delete st ns k = Inr (cache_get st ns k \<noteq> Inr None, ?st)"
    using assms(2) no_stray_root [OF assms(3)] by (simp add: cache_delete_def p path_conflict_def cache_get_def)
  have s: "no_stray ?st" by (rule no_stray_delete [OF assms(3)])
  show thesis
    by (rule that [OF d s], rule get_changed [OF assms(1,2) p assms(3) s]) (simp add: AList.delete_conv')
qed

text \<open>Any key reads back what has just been put under it.\<close>

lemma cache_put_same: "cache_put st ns k v = Inr st' \<Longrightarrow> cache_get st' ns k = Inr (Some v)"
  by (auto simp: cache_put_def cache_get_def cache_file_def path_for_def Let_def split: sum.splits if_splits)

section \<open>A store behind its interface\<close>

text \<open>
  What the lifecycle asks of a store: a key reads back what has just been put under it. A lookup that
  falls back to computing and storing the value is \<open>memo\<close>.
\<close>

definition memo ::
  "('s \<Rightarrow> 'k \<Rightarrow> 'e + 'v option) \<Rightarrow> ('s \<Rightarrow> 'k \<Rightarrow> 'v \<Rightarrow> 'e + 's) \<Rightarrow> ('k \<Rightarrow> 'v) \<Rightarrow> 's \<Rightarrow> 'k \<Rightarrow> 'e + 'v \<times> 's" where
  "memo get put f s k =
     (case get s k of Inl e \<Rightarrow> Inl e
      | Inr (Some v) \<Rightarrow> Inr (v, s)
      | Inr None \<Rightarrow> (case put s k (f k) of Inl e \<Rightarrow> Inl e | Inr s' \<Rightarrow> Inr (f k, s')))"

locale keyed_store =
  fixes get :: "'s \<Rightarrow> 'k \<Rightarrow> 'e + 'v option"
    and put :: "'s \<Rightarrow> 'k \<Rightarrow> 'v \<Rightarrow> 'e + 's"
  assumes put_get: "put s k v = Inr s' \<Longrightarrow> get s' k = Inr (Some v)"
begin

lemma memo_stored: "memo get put f s k = Inr (v, s') \<Longrightarrow> get s' k = Inr (Some v)"
  by (auto simp: memo_def put_get split: sum.splits option.splits)

lemma memo_hit: "memo get put f s k = Inr (v, s') \<Longrightarrow> memo get put g s' k = Inr (v, s')"
  by (frule memo_stored) (simp add: memo_def)

end

text \<open>A store that is a map on the keys \<open>own\<close>, in the states \<open>good\<close>: nothing but the keys of the same slot is changed.\<close>

locale map_store = keyed_store get put
  for get :: "'s \<Rightarrow> 'k \<Rightarrow> 'e + 'v option" and put :: "'s \<Rightarrow> 'k \<Rightarrow> 'v \<Rightarrow> 'e + 's" +
  fixes good :: "'s \<Rightarrow> bool" and own :: "'k \<Rightarrow> bool" and same :: "'k \<Rightarrow> 'k \<Rightarrow> bool"
  assumes get_put: "good s \<Longrightarrow> own k \<Longrightarrow> put s k v = Inr s' \<Longrightarrow> get s' j = (if same j k then Inr (Some v) else get s j)"
    and good_put: "good s \<Longrightarrow> own k \<Longrightarrow> put s k v = Inr s' \<Longrightarrow> good s'"
begin

lemma put_put:
  "good s \<Longrightarrow> own k \<Longrightarrow> put s k v = Inr s' \<Longrightarrow> put s' k u = Inr s'' \<Longrightarrow> get s'' j = (if same j k then Inr (Some u) else get s j)"
  using get_put good_put by metis

text \<open>A memo table is right as long as keys that share a slot stand for the same value.\<close>

lemma memo_sound:
  assumes "good s" "own k" "\<And>j u. get s j = Inr (Some u) \<Longrightarrow> u = f j" "\<And>i j. same i j \<Longrightarrow> f i = f j" "memo get put f s k = Inr (v, s')"
  shows "v = f k" and "get s' j = Inr (Some u) \<Longrightarrow> u = f j"
proof -
  show "v = f k" using assms(3,5) by (auto simp: memo_def split: sum.splits option.splits)
  show "get s' j = Inr (Some u) \<Longrightarrow> u = f j"
    using assms(3-5) get_put [OF assms(1,2)] by (auto simp: memo_def split: sum.splits option.splits if_splits)
qed

end

definition same_file :: "string \<times> string \<Rightarrow> string \<times> string \<Rightarrow> bool" where
  "same_file a b \<longleftrightarrow>
     cache_validate (fst a) (snd a) = Inr () \<and> fst a = fst b \<and> canonical (snd a) = canonical (snd b)"

definition own_key :: "string \<times> string \<Rightarrow> bool" where
  "own_key k \<longleftrightarrow> take 2 (snd k) \<noteq> ''..''"

lemma put_valid: "cache_put st ns k v = Inr st' \<Longrightarrow> cache_validate ns k = Inr ()"
  by (cases "cache_validate ns k") (auto simp: cache_put_def path_for_Inl [THEN iffD2])

interpretation disk: map_store "\<lambda>st (ns, k). cache_get st ns k" "\<lambda>st (ns, k). cache_put st ns k" no_stray own_key same_file
proof
  fix st :: "'v cache_store" and k j :: "string \<times> string" and v st'
  assume put: "(case k of (ns, k) \<Rightarrow> cache_put st ns k) v = Inr st'"
  obtain ns key ns' key' where k: "k = (ns, key)" "j = (ns', key')" by (cases k; cases j)
  note put' = put [unfolded k prod.case]
  show "(case k of (ns, k) \<Rightarrow> cache_get st' ns k) = Inr (Some v)"
    using cache_put_same [OF put'] by (simp add: k)
  assume g: "no_stray st" "own_key k"
  have o': "take 2 key \<noteq> ''..''" using g(2) by (simp add: own_key_def k)
  note pg = cache_put_get [OF put_valid [OF put'] o' g(1) put']
  show "(case j of (ns, k) \<Rightarrow> cache_get st' ns k) =
      (if same_file j k then Inr (Some v) else case j of (ns, k) \<Rightarrow> cache_get st ns k)"
    unfolding k prod.case same_file_def fst_conv snd_conv by (rule pg(2))
  show "no_stray st'" by (rule pg(1))
qed

text \<open>
  C34. The disk cache implements a map from namespace and key to bytes, for the keys that do not begin with two dots and as long as none that does has been
  stored. Such a key, when it is valid, can be written; then exactly that key reads back the value, and every other read of any
  namespace and key is what it was, except for the one pair of keys that share a file: a key of two characters and the same key
  with \<open>_\<close> appended. \<open>delete\<close> says whether the key was there and removes exactly it. Neither stores a key that begins
  with two dots. Failures of the file system itself (a full disk, permissions) are not modelled.
\<close>

theorem cache_refines_map:
  assumes "namespace_ok ns" "key_ok k" "take 2 k \<noteq> ''..''" "no_stray st"
  shows "(\<exists>st'. cache_put st ns k v = Inr st' \<and> no_stray st' \<and>
      (\<forall>ns' k'. cache_get st' ns' k' =
        (if namespace_ok ns' \<and> key_ok k' \<and> (ns', canonical k') = (ns, canonical k) then Inr (Some v) else cache_get st ns' k'))) \<and>
    (\<exists>st'. cache_delete st ns k = Inr (cache_get st ns k \<noteq> Inr None, st') \<and> no_stray st' \<and>
      (\<forall>ns' k'. cache_get st' ns' k' =
        (if namespace_ok ns' \<and> key_ok k' \<and> (ns', canonical k') = (ns, canonical k) then Inr None else cache_get st ns' k')))"
proof -
  have valid: "cache_validate ns' k' = Inr () \<longleftrightarrow> namespace_ok ns' \<and> key_ok k'" for ns' k'
    by (simp add: cache_validate_def)
  have v: "cache_validate ns k = Inr ()" using assms by (simp add: valid)
  obtain st' where put: "cache_put st ns k v = Inr st'" by (rule put_own [OF v assms(3,4), of v]) blast
  obtain st'' where del: "cache_delete st ns k = Inr (cache_get st ns k \<noteq> Inr None, st'')" "no_stray st''"
    "\<And>ns' k'. cache_get st'' ns' k' =
      (if cache_validate ns' k' = Inr () \<and> ns' = ns \<and> canonical k' = canonical k then Inr None else cache_get st ns' k')"
    by (rule cache_delete_get [OF v assms(3,4)]) blast
  have "\<forall>ns' k'. cache_get st' ns' k' =
        (if namespace_ok ns' \<and> key_ok k' \<and> (ns', canonical k') = (ns, canonical k) then Inr (Some v) else cache_get st ns' k')"
    using cache_put_get(2) [OF v assms(3,4) put] by (simp add: valid)
  moreover have "\<forall>ns' k'. cache_get st'' ns' k' =
        (if namespace_ok ns' \<and> key_ok k' \<and> (ns', canonical k') = (ns, canonical k) then Inr None else cache_get st ns' k')"
    using del(3) by (simp add: valid)
  ultimately show ?thesis using put del(1,2) cache_put_get(1) [OF v assms(3,4) put] by blast
qed

theorem cache_refines_map_witness:
  "\<exists>st. cache_put empty_store ''plan'' ''ab'' (7 :: nat) = Inr st \<and> cache_get st ''plan'' ''ab'' = Inr (Some 7) \<and>
     cache_get st ''plan'' ''ab_'' = Inr (Some 7) \<and> cache_get st ''plan'' ''abc'' = Inr None"
proof -
  have "namespace_ok ''plan''" "key_ok ''ab''" "take 2 ''ab'' \<noteq> ''..''" by code_simp+
  moreover have "no_stray (empty_store :: nat cache_store)" by (simp add: no_stray_def empty_store_def)
  ultimately obtain st where st: "cache_put empty_store ''plan'' ''ab'' (7 :: nat) = Inr st"
    "\<And>ns' k'. cache_get st ns' k' = (if namespace_ok ns' \<and> key_ok k' \<and> (ns', canonical k') = (''plan'', canonical ''ab'')
       then Inr (Some 7) else cache_get empty_store ns' k')" using cache_refines_map [of "''plan''" "''ab''" empty_store "7 :: nat"] by blast
  have ok: "namespace_ok ''plan''" "key_ok ''ab''" "key_ok ''ab_''" "canonical ''ab_'' = canonical ''ab''"
    "canonical ''abc'' \<noteq> canonical ''ab''" "cache_get empty_store ''plan'' ''abc'' = Inr (None :: nat option)"
    by code_simp+
  show ?thesis by (rule exI [of _ st]) (simp add: st ok)
qed

text \<open>
  A key that begins with two dots leaves its namespace: what has been written under it is read back under the same key of every namespace that
  has a directory.
\<close>

theorem dotted_key_shared:
  assumes "cache_put st ns (''..'' @ r) v = Inr st'" "namespace_ok ns'" "ns' \<in> set (cs_spaces st')"
  shows "cache_get st' ns' (''..'' @ r) = Inr (Some v)"
proof -
  have valid: "cache_validate ns (''..'' @ r) = Inr ()" by (rule put_valid [OF assms(1)])
  then have valid': "cache_validate ns' (''..'' @ r) = Inr ()" using assms(2) by (simp add: cache_validate_def split: if_splits)
  show ?thesis
    using assms(1,3) unfolding cache_put_def cache_get_def path_for_eq [OF valid] path_for_eq [OF valid'] sum.case
    by (auto simp: cache_file_def resolve_path_def Let_def split: if_splits)
qed

theorem dotted_key_shared_witness:
  "\<exists>st. cache_put \<lparr>cs_spaces = [''plan''], cs_files = []\<rparr> ''discovery'' ''..ab'' (7 :: nat) = Inr st \<and> cache_get st ''plan'' ''..ab'' = Inr (Some 7)"
proof -
  obtain st where st: "cache_put \<lparr>cs_spaces = [''plan''], cs_files = []\<rparr> ''discovery'' (''..'' @ ''ab'') (7 :: nat) = Inr st"
    "''plan'' \<in> set (cs_spaces st)"
  proof -
    have "cache_put \<lparr>cs_spaces = [''plan''], cs_files = []\<rparr> ''discovery'' (''..'' @ ''ab'') (7 :: nat) =
        Inr \<lparr>cs_spaces = [''discovery'', ''plan''], cs_files = [([''ab.bin''], 7)]\<rparr>" by code_simp
    then show thesis by (rule that) simp
  qed
  have "namespace_ok ''plan''" by code_simp
  from dotted_key_shared [OF st(1) this st(2)] st(1) show ?thesis by (intro exI [of _ st]) simp
qed

end
