(* ===== verification/Lifecycle.thy ===== *)
theory Lifecycle
  imports Gate Safety Categorize Cache
begin

text \<open>
  The run lifecycle of \<open>engine/orchestrator/run_lifecycle.py\<close>, the registry it reads
  (\<open>registry.py\<close>), the hooks of \<open>engine/scoring/policy_gate.py\<close> and the exit codes of \<open>sentinel audit\<close>. What each module returns or raises in the
  run at hand is an input, a field of \<open>world\<close> (\<open>wd_module\<close>, by name and safety decision), as are the fingerprint, the clock, the identifiers and
  the order in which the thread pool completes. Modules share the directory of the run and the audit log, and one may read what another has
  written (\<open>modules/chaos\<close> reads the events of other modules): how that makes one result depend on the others, or on their timing, is not
  modelled, so nothing here says that two runs with different concurrency find the same. Hooks are functions on the context. What the steps do to the
  outside is the trace of the context. Logging and the report files are not modelled.
\<close>

section \<open>Outcomes\<close>

datatype outcome_status = O_succeeded | O_errored | O_skipped

datatype outcome_metadata = Meta_empty | Meta_no_factory | Meta_result string module_status nat | Meta_object string

record module_outcome =
  mo_name :: string
  mo_status :: outcome_status
  mo_error_message :: "string option"
  mo_error_type :: "string option"
  mo_error_class :: "failure_classification option"
  mo_metadata :: outcome_metadata

text \<open>What building and running a module does; an expected error carries its message, any other its text.\<close>

datatype module_run_result = Ran_module module_result | Ran_other string
  | Raised_expected string string | Raised_other string string

record run_plan =
  pl_modules :: "string list"
  pl_dry_run :: bool
  pl_ci :: bool

datatype lifecycle_phase = Load_Config | Validate_Config | Resolve_Target | Enforce_Safety_Policy
  | Create_Run_Id | Create_Artifact_Directory | Snapshot_Config | Discover_App | Build_Execution_Plan
  | Run_Modules | Collect_Evidence | Normalize_Findings | Calculate_Quality_Score | Apply_Quality_Gates
  | Generate_Reports | Persist_Artifacts | Return_Exit_Code

datatype trace_event = Tr_run_id string | Tr_artifacts | Tr_safety bool | Tr_snapshot | Tr_hook lifecycle_phase
  | Tr_plan run_plan | Tr_modules "string list" | Tr_short_run | Tr_cache_report | Tr_flake_db | Tr_latest

record lifecycle_context =
  lc_requested :: "string list option"
  lc_modules :: modules_config
  lc_policy :: policy
  lc_target :: target
  lc_dry_run :: bool
  lc_ci :: bool
  lc_concurrency :: int
  lc_run_id :: "string option"
  lc_safety :: "safety_decision option"
  lc_plan :: "run_plan option"
  lc_fingerprint :: "string option"
  lc_discovery_hit :: "bool option"
  lc_plan_hit :: "bool option"
  lc_plan_key :: "string option"
  lc_outcomes :: "module_outcome list"
  lc_findings :: "finding list"
  lc_results :: "module_result list"
  lc_score :: "quality_score option"
  lc_decision :: "policy_decision option"
  lc_gate_passed :: bool
  lc_status :: run_status
  lc_early_exit :: bool
  lc_trace :: "trace_event list"

datatype lifecycle_error = Le_safety safety_error | Le_analyzer analyzer_error | Le_score score_error
  | Le_cache cache_error | Le_hook string

type_synonym lifecycle_hook = "lifecycle_context \<Rightarrow> lifecycle_error + lifecycle_context"

record world =
  wd_fingerprint :: "string option"
  wd_run_id :: string
  wd_new_id :: "string \<Rightarrow> string"
  wd_clock :: int
  wd_isofmt :: "int \<Rightarrow> string"
  wd_read_proof :: "string \<Rightarrow> proof_source"
  wd_module :: "string \<Rightarrow> safety_decision option \<Rightarrow> module_run_result option"
  wd_completion :: "nat list"
  wd_hooks :: "lifecycle_phase \<Rightarrow> lifecycle_hook list"

record caches =
  ca_plan :: "run_plan cache_store"
  ca_discovery :: "string cache_store"
  ca_discovered :: string

definition log_event :: "trace_event \<Rightarrow> lifecycle_context \<Rightarrow> lifecycle_context" where
  "log_event e ctx = ctx\<lparr>lc_trace := lc_trace ctx @ [e]\<rparr>"

definition new_context ::
  "string list option \<Rightarrow> modules_config \<Rightarrow> policy \<Rightarrow> target \<Rightarrow> bool \<Rightarrow> bool \<Rightarrow> int \<Rightarrow> lifecycle_context" where
  "new_context requested mods p t dry ci concurrency =
     \<lparr>lc_requested = requested, lc_modules = mods, lc_policy = p, lc_target = t, lc_dry_run = dry, lc_ci = ci,
      lc_concurrency = max 1 concurrency, lc_run_id = None, lc_safety = None, lc_plan = None,
      lc_fingerprint = None, lc_discovery_hit = None, lc_plan_hit = None, lc_plan_key = None,
      lc_outcomes = [], lc_findings = [], lc_results = [], lc_score = None, lc_decision = None,
      lc_gate_passed = True, lc_status = R_incomplete, lc_early_exit = False, lc_trace = []\<rparr>"

section \<open>Steps\<close>

fun run_hooks :: "lifecycle_phase \<Rightarrow> lifecycle_hook list \<Rightarrow> lifecycle_context \<Rightarrow> lifecycle_error + lifecycle_context" where
  "run_hooks phase [] ctx = Inr ctx"
| "run_hooks phase (h # hs) ctx =
     (case h (log_event (Tr_hook phase) ctx) of Inl e \<Rightarrow> Inl e | Inr ctx' \<Rightarrow> run_hooks phase hs ctx')"

definition is_unsafe_target :: "safety_error \<Rightarrow> bool" where
  "is_unsafe_target e \<longleftrightarrow>
     (case e of Unknown_host _ \<Rightarrow> True | Missing_hostname _ \<Rightarrow> True | Destructive_without_proof _ \<Rightarrow> True | _ \<Rightarrow> False)"

definition enforce_safety :: "world \<Rightarrow> lifecycle_context \<Rightarrow> safety_error + lifecycle_context" where
  "enforce_safety w ctx =
     (case fst (enforce (wd_isofmt w) (wd_read_proof w) (wd_clock w) (lc_target ctx) None (Some []) None) of
        Inl e \<Rightarrow> Inl e
      | Inr d \<Rightarrow> Inr (log_event (Tr_safety True) (ctx\<lparr>lc_safety := Some d\<rparr>)))"

definition modules_to_run :: "lifecycle_context \<Rightarrow> string list" where
  "modules_to_run ctx = (case lc_requested ctx of Some ms \<Rightarrow> ms | None \<Rightarrow> modules_from_config (lc_modules ctx))"

definition discover_app :: "world \<Rightarrow> lifecycle_context \<times> caches \<Rightarrow> lifecycle_error + lifecycle_context \<times> caches" where
  "discover_app w s =
     (case s of (ctx, ca) \<Rightarrow>
       (case wd_fingerprint w of
          None \<Rightarrow>
            (case run_hooks Discover_App (wd_hooks w Discover_App) (ctx\<lparr>lc_fingerprint := None\<rparr>) of
               Inl e \<Rightarrow> Inl e | Inr ctx' \<Rightarrow> Inr (ctx', ca))
        | Some fp \<Rightarrow>
            (let key = ''v1.'' @ fp in
             case cache_get (ca_discovery ca) ''discovery'' key of Inl e \<Rightarrow> Inl (Le_cache e)
             | Inr cached \<Rightarrow>
               (case run_hooks Discover_App (wd_hooks w Discover_App)
                      (ctx\<lparr>lc_fingerprint := Some fp, lc_discovery_hit := Some (cached \<noteq> None)\<rparr>) of
                  Inl e \<Rightarrow> Inl e
                | Inr ctx' \<Rightarrow>
                  (if cached \<noteq> None \<or> ca_discovered ca = [] then Inr (ctx', ca)
                   else case cache_put (ca_discovery ca) ''discovery'' key (ca_discovered ca) of
                     Inl e \<Rightarrow> Inl (Le_cache e) | Inr st \<Rightarrow> Inr (ctx', ca\<lparr>ca_discovery := st\<rparr>))))))"

definition plan_key :: "string \<Rightarrow> string list \<Rightarrow> string" where
  "plan_key fp modules =
     (let sig = py_join '','' modules; sig' = (if sig = [] then ''all'' else sig)
      in ''v1.'' @ fp @ ''.'' @ replace_char CHR '','' ''-'' sig')"

definition build_execution_plan :: "world \<Rightarrow> lifecycle_context \<times> caches \<Rightarrow> lifecycle_error + lifecycle_context \<times> caches" where
  "build_execution_plan w s =
     (case s of (ctx, ca) \<Rightarrow>
       (let modules = sort (modules_to_run ctx);
            fresh = \<lparr>pl_modules = modules, pl_dry_run = lc_dry_run ctx, pl_ci = lc_ci ctx\<rparr>;
            finish = (\<lambda>ctx' ca'. case run_hooks Build_Execution_Plan (wd_hooks w Build_Execution_Plan) ctx' of
                        Inl e \<Rightarrow> Inl e | Inr ctx2 \<Rightarrow> Inr (ctx2, ca'))
        in case (lc_fingerprint ctx, lc_dry_run ctx) of
             (Some fp, False) \<Rightarrow>
               (let key = plan_key fp modules in
                case cache_get (ca_plan ca) ''plan'' key of Inl e \<Rightarrow> Inl (Le_cache e)
                | Inr (Some p) \<Rightarrow>
                    finish (log_event (Tr_plan p) (ctx\<lparr>lc_plan_key := Some key, lc_plan_hit := Some True, lc_plan := Some p\<rparr>)) ca
                | Inr None \<Rightarrow>
                    (case cache_put (ca_plan ca) ''plan'' key fresh of Inl e \<Rightarrow> Inl (Le_cache e)
                     | Inr st \<Rightarrow>
                       finish (log_event (Tr_plan fresh) (ctx\<lparr>lc_plan_key := Some key, lc_plan_hit := Some False, lc_plan := Some fresh\<rparr>))
                         (ca\<lparr>ca_plan := st\<rparr>)))
           | _ \<Rightarrow> finish (log_event (Tr_plan fresh) (ctx\<lparr>lc_plan := Some fresh\<rparr>)) ca))"

definition errored_outcome :: "string \<Rightarrow> string \<Rightarrow> string \<Rightarrow> string \<Rightarrow> analyzer_error + module_outcome" where
  "errored_outcome name exc_type exc_message shown =
     (case categorize_module_error name exc_type exc_message of Inl e \<Rightarrow> Inl e
      | Inr c \<Rightarrow> Inr \<lparr>mo_name = name, mo_status = O_errored, mo_error_message = Some shown,
                   mo_error_type = Some exc_type, mo_error_class = Some c, mo_metadata = Meta_empty\<rparr>)"

definition clean_outcome :: "string \<Rightarrow> outcome_status \<Rightarrow> outcome_metadata \<Rightarrow> module_outcome" where
  "clean_outcome name st meta = \<lparr>mo_name = name, mo_status = st, mo_error_message = None, mo_error_type = None,
     mo_error_class = None, mo_metadata = meta\<rparr>"

definition execute_one_module ::
  "world \<Rightarrow> lifecycle_context \<Rightarrow> string \<Rightarrow> analyzer_error + module_outcome \<times> module_result option" where
  "execute_one_module w ctx name =
     (case wd_module w name (lc_safety ctx) of
        None \<Rightarrow> Inr (clean_outcome name O_skipped Meta_no_factory, None)
      | Some (Ran_module r) \<Rightarrow>
          Inr (clean_outcome name O_succeeded (Meta_result (mr_id r) (mr_status r) (length (mr_findings r))), Some r)
      | Some (Ran_other t) \<Rightarrow> Inr (clean_outcome name O_succeeded (Meta_object t), None)
      | Some (Raised_expected ty msg) \<Rightarrow>
          (case errored_outcome name ty msg msg of Inl e \<Rightarrow> Inl e | Inr o' \<Rightarrow> Inr (o', None))
      | Some (Raised_other ty msg) \<Rightarrow>
          (case errored_outcome name ty msg (ty @ '': '' @ msg) of Inl e \<Rightarrow> Inl e | Inr o' \<Rightarrow> Inr (o', None)))"

definition merge_module_result ::
  "lifecycle_context \<Rightarrow> module_outcome \<times> module_result option \<Rightarrow> lifecycle_context" where
  "merge_module_result ctx r =
     (let ctx' = ctx\<lparr>lc_outcomes := lc_outcomes ctx @ [fst r]\<rparr> in
      case snd r of None \<Rightarrow> ctx'
      | Some m \<Rightarrow> ctx'\<lparr>lc_results := lc_results ctx @ [m], lc_findings := lc_findings ctx @ mr_findings m\<rparr>)"

fun run_sequential :: "world \<Rightarrow> string list \<Rightarrow> lifecycle_context \<Rightarrow> analyzer_error + lifecycle_context" where
  "run_sequential w [] ctx = Inr ctx"
| "run_sequential w (name # names) ctx =
     (case execute_one_module w ctx name of Inl e \<Rightarrow> Inl e
      | Inr r \<Rightarrow> run_sequential w names (merge_module_result ctx r))"

text \<open>
  The thread pool: every module is run with the context at submission, the futures complete in the
  order \<open>completion\<close> (a list of indices), and the results are merged in the order of the names.
\<close>

fun merge_futures ::
  "(nat, analyzer_error + module_outcome \<times> module_result option) dict \<Rightarrow> nat list \<Rightarrow> lifecycle_context
     \<Rightarrow> analyzer_error + lifecycle_context" where
  "merge_futures futures [] ctx = Inr ctx"
| "merge_futures futures (i # is) ctx =
     (case map_of futures i of None \<Rightarrow> Inr ctx
      | Some (Inl e) \<Rightarrow> Inl e
      | Some (Inr r) \<Rightarrow> merge_futures futures is (merge_module_result ctx r))"

definition run_parallel ::
  "world \<Rightarrow> nat list \<Rightarrow> string list \<Rightarrow> lifecycle_context \<Rightarrow> analyzer_error + lifecycle_context" where
  "run_parallel w completion names ctx =
     (let futures = foldl (\<lambda>d i. AList.update i (execute_one_module w ctx (names ! i)) d) [] completion
      in merge_futures futures [0..<length names] ctx)"

definition run_modules :: "world \<Rightarrow> lifecycle_context \<Rightarrow> analyzer_error + lifecycle_context" where
  "run_modules w ctx =
     (let names = modules_to_run ctx; concurrency = max 1 (min (lc_concurrency ctx) (int (length names)));
          ctx' = log_event (Tr_modules names) ctx in
      if names = [] then Inr ctx
      else if concurrency = 1 then run_sequential w names ctx'
      else run_parallel w (wd_completion w) names ctx')"

section \<open>Scoring hooks and status\<close>

definition score_hook :: "(string \<Rightarrow> string) \<Rightarrow> lifecycle_hook" where
  "score_hook new_id ctx =
     (case lc_run_id ctx of None \<Rightarrow> Inr ctx
      | Some run_id \<Rightarrow>
        (let effective = (if list_ex (\<lambda>o'. mo_status o' = O_errored) (lc_outcomes ctx) then R_incomplete else R_passed) in
         case apply_policy_gate (lc_findings ctx) (lc_results ctx) (lc_policy ctx) run_id effective new_id of
           Inl e \<Rightarrow> Inl (Le_score e)
         | Inr (score, decision, _) \<Rightarrow> Inr (ctx\<lparr>lc_score := Some score, lc_decision := Some decision\<rparr>)))"

definition gate_hook :: lifecycle_hook where
  "gate_hook ctx =
     (case lc_decision ctx of None \<Rightarrow> Inr ctx
      | Some d \<Rightarrow> if pd_release d = D_blocked then Inr (ctx\<lparr>lc_gate_passed := False\<rparr>) else Inr ctx)"

text \<open>The hooks a lifecycle registers itself; the reporter is an argument.\<close>

definition default_hooks :: "(string \<Rightarrow> string) \<Rightarrow> lifecycle_hook \<Rightarrow> lifecycle_phase \<Rightarrow> lifecycle_hook list" where
  "default_hooks new_id reporter phase =
     (case phase of Generate_Reports \<Rightarrow> [reporter] | Calculate_Quality_Score \<Rightarrow> [score_hook new_id]
      | Apply_Quality_Gates \<Rightarrow> [gate_hook] | _ \<Rightarrow> [])"

definition finalize_status :: "lifecycle_context \<Rightarrow> lifecycle_context" where
  "finalize_status ctx =
     ctx\<lparr>lc_status := (if \<not> lc_gate_passed ctx then R_failed
                       else if list_ex (\<lambda>o'. mo_status o' = O_errored) (lc_outcomes ctx) then R_incomplete
                       else R_passed)\<rparr>"

section \<open>Flake bookkeeping\<close>

record flake_outcome =
  fk_module :: string
  fk_outcome :: string
  fk_duration_ms :: nat

definition typed_flake_outcome :: "module_result \<Rightarrow> flake_outcome" where
  "typed_flake_outcome r = \<lparr>fk_module = mr_name r,
     fk_outcome = (if mr_status r \<in> {M_failed, M_errored, M_incomplete} then ''failed''
                   else if mr_status r = M_skipped then ''skipped'' else ''passed''),
     fk_duration_ms = mr_duration_ms r\<rparr>"

definition untyped_flake_outcome :: "module_outcome \<Rightarrow> flake_outcome" where
  "untyped_flake_outcome o' = \<lparr>fk_module = mo_name o',
     fk_outcome = (if mo_status o' = O_succeeded then ''passed'' else ''failed''), fk_duration_ms = 0\<rparr>"

fun add_unseen :: "flake_outcome list \<Rightarrow> flake_outcome list \<Rightarrow> flake_outcome list" where
  "add_unseen acc [] = acc"
| "add_unseen acc (x # xs) = add_unseen (if fk_module x \<in> fk_module ` set acc then acc else acc @ [x]) xs"

definition flake_outcomes :: "lifecycle_context \<Rightarrow> flake_outcome list" where
  "flake_outcomes ctx =
     add_unseen (add_unseen [] (map typed_flake_outcome (lc_results ctx))) (map untyped_flake_outcome (lc_outcomes ctx))"

section \<open>The lifecycle\<close>

definition bind_step :: "'e + 'a \<Rightarrow> ('a \<Rightarrow> 'e + 'b) \<Rightarrow> 'e + 'b" where
  "bind_step r f = (case r of Inl e \<Rightarrow> Inl e | Inr x \<Rightarrow> f x)"

definition hooks_step :: "world \<Rightarrow> lifecycle_phase \<Rightarrow> lifecycle_hook" where
  "hooks_step w phase ctx = run_hooks phase (wd_hooks w phase) ctx"

definition lift_analyzer :: "analyzer_error + 'a \<Rightarrow> lifecycle_error + 'a" where
  "lift_analyzer r = (case r of Inl e \<Rightarrow> Inl (Le_analyzer e) | Inr x \<Rightarrow> Inr x)"

definition run_phases :: "world \<Rightarrow> lifecycle_hook" where
  "run_phases w ctx =
     bind_step (lift_analyzer (run_modules w ctx)) (\<lambda>ctx.
     bind_step (hooks_step w Collect_Evidence ctx) (\<lambda>ctx.
     bind_step (hooks_step w Normalize_Findings ctx) (\<lambda>ctx.
     bind_step (hooks_step w Calculate_Quality_Score ctx) (\<lambda>ctx.
     bind_step (hooks_step w Apply_Quality_Gates ctx) (\<lambda>ctx.
     bind_step (hooks_step w Generate_Reports (finalize_status ctx)) (\<lambda>ctx.
     Inr (log_event Tr_latest (log_event Tr_flake_db (log_event Tr_cache_report ctx)))))))))"

definition lifecycle_execute ::
  "world \<Rightarrow> caches \<Rightarrow> lifecycle_context \<Rightarrow> lifecycle_error + lifecycle_context \<times> caches" where
  "lifecycle_execute w ca ctx0 =
     (let ctx1 = log_event Tr_artifacts (log_event (Tr_run_id (wd_run_id w)) (ctx0\<lparr>lc_run_id := Some (wd_run_id w)\<rparr>)) in
      case enforce_safety w ctx1 of
        Inl e \<Rightarrow>
          (if is_unsafe_target e
           then Inr (log_event Tr_short_run (log_event (Tr_safety False)
                  (ctx1\<lparr>lc_status := R_unsafe_blocked, lc_early_exit := True\<rparr>)), ca)
           else Inl (Le_safety e))
      | Inr ctx2 \<Rightarrow>
          bind_step (discover_app w (log_event Tr_snapshot ctx2, ca)) (\<lambda>s.
          bind_step (build_execution_plan w s) (\<lambda>(ctx3, ca3).
          if lc_dry_run ctx3
          then Inr (log_event Tr_latest (log_event Tr_cache_report (log_event Tr_short_run (ctx3\<lparr>lc_status := R_dry_run\<rparr>))), ca3)
          else bind_step (run_phases w ctx3) (\<lambda>ctx4. Inr (ctx4, ca3)))))"

definition modules_run :: "lifecycle_context \<Rightarrow> string list" where
  "modules_run ctx = sort (remdups (map mo_name (lc_outcomes ctx)))"

fun status_to_exit_code :: "run_status \<Rightarrow> nat" where
  "status_to_exit_code R_passed = 0"
| "status_to_exit_code R_dry_run = 0"
| "status_to_exit_code R_failed = 1"
| "status_to_exit_code R_unsafe_blocked = 4"
| "status_to_exit_code R_incomplete = 6"

section \<open>Registry\<close>

definition register_module :: "(string, 'f) dict \<Rightarrow> string \<Rightarrow> 'f \<Rightarrow> ((string, 'f) dict) option" where
  "register_module ms name factory = (if map_of ms name \<noteq> None then None else Some (AList.update name factory ms))"

definition register_phase_hook :: "(lifecycle_phase, 'h list) dict \<Rightarrow> lifecycle_phase \<Rightarrow> 'h \<Rightarrow> (lifecycle_phase, 'h list) dict" where
  "register_phase_hook hooks phase h = AList.update phase (dict_get hooks phase [] @ [h]) hooks"

section \<open>Running the modules\<close>

lemma merge_simps [simp]:
  "lc_safety (merge_module_result ctx r) = lc_safety ctx" "lc_run_id (merge_module_result ctx r) = lc_run_id ctx"
  "lc_policy (merge_module_result ctx r) = lc_policy ctx" "lc_gate_passed (merge_module_result ctx r) = lc_gate_passed ctx"
  "lc_trace (merge_module_result ctx r) = lc_trace ctx" "lc_decision (merge_module_result ctx r) = lc_decision ctx"
  "lc_outcomes (merge_module_result ctx r) = lc_outcomes ctx @ [fst r]"
  by (auto simp: merge_module_result_def Let_def split: option.splits)

lemma merge_collects:
  "lc_results (merge_module_result ctx r) = lc_results ctx @ (case snd r of None \<Rightarrow> [] | Some m \<Rightarrow> [m])"
  "lc_findings (merge_module_result ctx r) = lc_findings ctx @ (case snd r of None \<Rightarrow> [] | Some m \<Rightarrow> mr_findings m)"
  by (auto simp: merge_module_result_def Let_def split: option.splits)

lemma execute_one_cong: "lc_safety ctx = lc_safety ctx' \<Longrightarrow> execute_one_module w ctx name = execute_one_module w ctx' name"
  by (simp add: execute_one_module_def)

lemma merge_all_simps [simp]:
  "lc_safety (foldl merge_module_result ctx rs) = lc_safety ctx" "lc_run_id (foldl merge_module_result ctx rs) = lc_run_id ctx"
  "lc_policy (foldl merge_module_result ctx rs) = lc_policy ctx"
  "lc_gate_passed (foldl merge_module_result ctx rs) = lc_gate_passed ctx"
  "lc_trace (foldl merge_module_result ctx rs) = lc_trace ctx"
  "lc_decision (foldl merge_module_result ctx rs) = lc_decision ctx"
  "lc_outcomes (foldl merge_module_result ctx rs) = lc_outcomes ctx @ map fst rs"
  by (induction rs arbitrary: ctx) simp_all

lemma merge_all_collects:
  "lc_results (foldl merge_module_result ctx rs) = lc_results ctx @ List.map_filter snd rs"
  "lc_findings (foldl merge_module_result ctx rs) = lc_findings ctx @ concat (map mr_findings (List.map_filter snd rs))"
  by (induction rs arbitrary: ctx) (auto simp: merge_collects map_filter_simps split: option.splits)

lemma run_sequential_eq:
  "run_sequential w names ctx =
     (case result_map (execute_one_module w ctx) names of Inl e \<Rightarrow> Inl e | Inr rs \<Rightarrow> Inr (foldl merge_module_result ctx rs))"
proof (induction names arbitrary: ctx)
  case (Cons name names)
  have "execute_one_module w (merge_module_result ctx r) = execute_one_module w ctx" for r
    by (rule ext, rule execute_one_cong) simp
  then show ?case by (auto simp: Cons.IH split: sum.splits)
qed simp

lemma futures_lookup:
  "map_of (foldl (\<lambda>d i. AList.update i (f i) d) d0 is) j = (if j \<in> set is then Some (f j) else map_of d0 j)"
  by (induction "is" arbitrary: d0) auto

lemma merge_futures_eq:
  assumes "\<And>i. i < length names \<Longrightarrow> map_of futures i = Some (execute_one_module w ctx0 (names ! i))"
    and "lc_safety ctx = lc_safety ctx0" "k \<le> length names"
  shows "merge_futures futures [k..<length names] ctx = run_sequential w (drop k names) ctx"
  using assms(2,3)
proof (induction "length names - k" arbitrary: k ctx)
  case 0
  then show ?case by simp
next
  case (Suc d)
  then have k: "k < length names" by simp
  have "execute_one_module w ctx0 (names ! k) = execute_one_module w ctx (names ! k)"
    by (rule execute_one_cong) (simp add: Suc.prems)
  then show ?case
    using Suc.hyps(1) [of "Suc k"] Suc.hyps(2) Suc.prems k
    by (simp add: upt_conv_Cons assms(1) [OF k] Cons_nth_drop_Suc [OF k, symmetric] split: sum.split)
qed

lemma parallel_sequential:
  assumes "set completion = {..<length names}"
  shows "run_parallel w completion names ctx = run_sequential w names ctx"
  unfolding run_parallel_def Let_def
  using merge_futures_eq [of names "foldl (\<lambda>d i. AList.update i (execute_one_module w ctx (names ! i)) d) [] completion" w ctx ctx 0]
  by (simp add: futures_lookup assms)

text \<open>
  The order of completion is not observable: given what each module returns in this run, \<open>run_modules\<close> leaves the same context, outcomes,
  results and findings in the same order, and fails with the same error, as merging the modules one after the other. (That modules
  which run at once may read each other's files is part of what they return, which is an input.)
\<close>

theorem completion_order_unobservable:
  assumes "set (wd_completion w) = {..<length (modules_to_run ctx)}"
  shows "run_modules w ctx =
    (if modules_to_run ctx = [] then Inr ctx
     else run_sequential w (modules_to_run ctx) (log_event (Tr_modules (modules_to_run ctx)) ctx))"
  by (simp add: run_modules_def Let_def parallel_sequential [OF assms])

definition sample_world :: world where
  "sample_world = \<lparr>wd_fingerprint = None, wd_run_id = ''RUN-AAAAAAAAAAAA'',
     wd_new_id = (\<lambda>p. p @ ''-AAAAAAAAAAAA''), wd_clock = 0, wd_isofmt = (\<lambda>_. ''t''), wd_read_proof = (\<lambda>_. Src_missing),
     wd_module = (\<lambda>n s. if n = ''api'' then Some (Ran_module \<lparr>mr_id = ''MOD-AAAAAAAAAAAA'', mr_name = ''api'',
        mr_status = M_incomplete, mr_findings = [], mr_metrics = [], mr_duration_ms = 5, mr_errors = []\<rparr>) else None),
     wd_completion = [1, 0], wd_hooks = default_hooks (\<lambda>p. p @ ''-AAAAAAAAAAAA'') Inr\<rparr>"

definition sample_start :: lifecycle_context where
  "sample_start = new_context (Some [''a11y'', ''api'']) \<lparr>mc_functional = True, mc_api = True, mc_accessibility = True,
     mc_performance = True, mc_visual = False, mc_security = True, mc_chaos = False, mc_llm_audit = False\<rparr>
     default_policy (sample_target ''http://localhost:3000'' [] Safe) False False 4"

theorem completion_order_unobservable_witness:
  "run_modules sample_world sample_start =
     run_sequential sample_world [''a11y'', ''api''] (log_event (Tr_modules [''a11y'', ''api'']) sample_start)"
proof -
  have "set (wd_completion sample_world) = {..<length (modules_to_run sample_start)}"
    by (auto simp: sample_world_def sample_start_def new_context_def modules_to_run_def)
  from completion_order_unobservable [OF this] show ?thesis
    by (simp add: sample_start_def new_context_def modules_to_run_def)
qed

section \<open>What a run does and how it ends\<close>

lemma run_modules_eq:
  assumes "set (wd_completion w) = {..<length (modules_to_run ctx)}" "run_modules w ctx = Inr ctx'"
  obtains rs where "result_map (execute_one_module w ctx) (modules_to_run ctx) = Inr rs"
    "ctx' = foldl merge_module_result (if modules_to_run ctx = [] then ctx else log_event (Tr_modules (modules_to_run ctx)) ctx) rs"
proof (cases "modules_to_run ctx = []")
  case True
  then have "ctx' = ctx" using assms(2) by (simp add: run_modules_def)
  then show ?thesis using True by (intro that [of "[]"]) simp_all
next
  case False
  let ?c = "log_event (Tr_modules (modules_to_run ctx)) ctx"
  have one: "execute_one_module w ?c = execute_one_module w ctx"
    by (rule ext, rule execute_one_cong) (simp add: log_event_def)
  have "run_sequential w (modules_to_run ctx) ?c = Inr ctx'"
    using assms(2) False by (simp add: run_modules_def Let_def parallel_sequential [OF assms(1)] split: if_splits)
  then obtain rs where "result_map (execute_one_module w ctx) (modules_to_run ctx) = Inr rs"
    "ctx' = foldl merge_module_result ?c rs"
    by (auto simp: run_sequential_eq one split: sum.splits)
  then show ?thesis using False by (intro that) simp_all
qed

text \<open>The hooks a lifecycle registers itself, with a reporter that leaves the context alone.\<close>

definition plain_hooks :: "world \<Rightarrow> bool" where
  "plain_hooks w \<longleftrightarrow> (\<exists>reporter. wd_hooks w = default_hooks (wd_new_id w) reporter \<and> (\<forall>c c'. reporter c = Inr c' \<longrightarrow> c' = c))"

lemma plain_hooks_step:
  assumes "plain_hooks w"
  shows "phase \<in> {Discover_App, Build_Execution_Plan, Collect_Evidence, Normalize_Findings} \<Longrightarrow> hooks_step w phase ctx = Inr ctx"
    and "hooks_step w Generate_Reports ctx = Inr ctx' \<Longrightarrow> ctx' = log_event (Tr_hook Generate_Reports) ctx"
    and "hooks_step w Calculate_Quality_Score ctx = score_hook (wd_new_id w) (log_event (Tr_hook Calculate_Quality_Score) ctx)"
    and "hooks_step w Apply_Quality_Gates ctx = gate_hook (log_event (Tr_hook Apply_Quality_Gates) ctx)"
proof -
  obtain reporter where r: "wd_hooks w = default_hooks (wd_new_id w) reporter" "\<forall>c c'. reporter c = Inr c' \<longrightarrow> c' = c"
    using assms by (auto simp: plain_hooks_def)
  have single: "run_hooks phase [h] c = h (log_event (Tr_hook phase) c)" for phase h c by (simp split: sum.split)
  show "phase \<in> {Discover_App, Build_Execution_Plan, Collect_Evidence, Normalize_Findings} \<Longrightarrow> hooks_step w phase ctx = Inr ctx"
    by (auto simp: hooks_step_def r default_hooks_def)
  show "hooks_step w Generate_Reports ctx = Inr ctx' \<Longrightarrow> ctx' = log_event (Tr_hook Generate_Reports) ctx"
    using r(2) by (auto simp: hooks_step_def r(1) default_hooks_def split: sum.splits)
  show "hooks_step w Calculate_Quality_Score ctx = score_hook (wd_new_id w) (log_event (Tr_hook Calculate_Quality_Score) ctx)"
    and "hooks_step w Apply_Quality_Gates ctx = gate_hook (log_event (Tr_hook Apply_Quality_Gates) ctx)"
    by (simp_all add: hooks_step_def r(1) default_hooks_def single del: run_hooks.simps)
qed

definition any_errored :: "module_outcome list \<Rightarrow> bool" where
  "any_errored os \<longleftrightarrow> list_ex (\<lambda>o'. mo_status o' = O_errored) os"

definition effective_status :: "module_outcome list \<Rightarrow> run_status" where
  "effective_status os = (if any_errored os then R_incomplete else R_passed)"

lemma score_hook_eq:
  "score_hook new_id ctx =
     (case lc_run_id ctx of None \<Rightarrow> Inr ctx
      | Some rid \<Rightarrow>
        (case apply_policy_gate (lc_findings ctx) (lc_results ctx) (lc_policy ctx) rid
               (effective_status (lc_outcomes ctx)) new_id of
           Inl e \<Rightarrow> Inl (Le_score e)
         | Inr (score, decision, _) \<Rightarrow> Inr (ctx\<lparr>lc_score := Some score, lc_decision := Some decision\<rparr>)))"
  unfolding score_hook_def effective_status_def any_errored_def Let_def ..

lemma gate_hook_result:
  "gate_hook ctx = Inr ctx' \<Longrightarrow> lc_decision ctx = Some d \<Longrightarrow>
   lc_gate_passed ctx' = (lc_gate_passed ctx \<and> pd_release d \<noteq> D_blocked) \<and> lc_outcomes ctx' = lc_outcomes ctx \<and>
   lc_findings ctx' = lc_findings ctx \<and> lc_results ctx' = lc_results ctx \<and> lc_decision ctx' = Some d \<and>
   lc_policy ctx' = lc_policy ctx \<and> lc_run_id ctx' = lc_run_id ctx"
  by (auto simp: gate_hook_def split: if_splits)

lemma log_event_simps [simp]:
  "lc_outcomes (log_event e ctx) = lc_outcomes ctx" "lc_findings (log_event e ctx) = lc_findings ctx"
  "lc_results (log_event e ctx) = lc_results ctx" "lc_decision (log_event e ctx) = lc_decision ctx"
  "lc_gate_passed (log_event e ctx) = lc_gate_passed ctx" "lc_policy (log_event e ctx) = lc_policy ctx"
  "lc_run_id (log_event e ctx) = lc_run_id ctx" "lc_status (log_event e ctx) = lc_status ctx"
  "lc_safety (log_event e ctx) = lc_safety ctx" "lc_trace (log_event e ctx) = lc_trace ctx @ [e]"
  "lc_requested (log_event e ctx) = lc_requested ctx" "lc_modules (log_event e ctx) = lc_modules ctx"
  "lc_dry_run (log_event e ctx) = lc_dry_run ctx" "lc_target (log_event e ctx) = lc_target ctx"
  "lc_ci (log_event e ctx) = lc_ci ctx" "lc_plan (log_event e ctx) = lc_plan ctx"
  "modules_to_run (log_event e ctx) = modules_to_run ctx"
  by (simp_all add: log_event_def modules_to_run_def split: option.split)

lemma finalize_simps:
  "lc_status (finalize_status ctx) = (if \<not> lc_gate_passed ctx then R_failed else effective_status (lc_outcomes ctx))"
  "lc_decision (finalize_status ctx) = lc_decision ctx" "lc_outcomes (finalize_status ctx) = lc_outcomes ctx"
  "lc_findings (finalize_status ctx) = lc_findings ctx" "lc_results (finalize_status ctx) = lc_results ctx"
  by (simp_all add: finalize_status_def effective_status_def any_errored_def)

text \<open>The phases from the modules to the exit code, as one equation on the context.\<close>

lemma run_phases_status:
  assumes "plain_hooks w" "run_phases w ctx = Inr ctx'" "lc_run_id ctx = Some rid" "lc_gate_passed ctx"
    and "run_modules w ctx = Inr ctx1" and "lc_run_id ctx1 = Some rid" "lc_gate_passed ctx1"
  shows "\<exists>q d bs. apply_policy_gate (lc_findings ctx1) (lc_results ctx1) (lc_policy ctx1) rid
      (effective_status (lc_outcomes ctx1)) (wd_new_id w) = Inr (q, d, bs) \<and>
    lc_decision ctx' = Some d \<and> lc_outcomes ctx' = lc_outcomes ctx1 \<and> lc_findings ctx' = lc_findings ctx1 \<and>
    lc_results ctx' = lc_results ctx1 \<and>
    lc_status ctx' = (if pd_release d = D_blocked then R_failed else effective_status (lc_outcomes ctx1))"
proof -
  let ?c2 = "log_event (Tr_hook Calculate_Quality_Score) ctx1"
  obtain c3 where c3: "score_hook (wd_new_id w) ?c2 = Inr c3"
    using assms(2) by (auto simp: run_phases_def bind_step_def lift_analyzer_def assms(5)
        plain_hooks_step [OF assms(1)] split: sum.splits)
  obtain c4 where c4: "gate_hook (log_event (Tr_hook Apply_Quality_Gates) c3) = Inr c4"
    using assms(2) by (auto simp: run_phases_def bind_step_def lift_analyzer_def assms(5)
        plain_hooks_step [OF assms(1)] c3 split: sum.splits)
  have fin: "ctx' = log_event Tr_latest (log_event Tr_flake_db (log_event Tr_cache_report
      (log_event (Tr_hook Generate_Reports) (finalize_status c4))))"
    using assms(2) plain_hooks_step(2) [OF assms(1), of "finalize_status c4"]
    by (auto simp: run_phases_def bind_step_def lift_analyzer_def assms(5)
        plain_hooks_step(1,3,4) [OF assms(1)] c3 c4 split: sum.splits)
  obtain q d bs where gate: "apply_policy_gate (lc_findings ctx1) (lc_results ctx1) (lc_policy ctx1) rid
      (effective_status (lc_outcomes ctx1)) (wd_new_id w) = Inr (q, d, bs)"
    and c3': "c3 = ?c2\<lparr>lc_score := Some q, lc_decision := Some d\<rparr>"
    using c3 by (auto simp: score_hook_eq assms(6) split: sum.splits prod.splits)
  have c4': "lc_gate_passed c4 = (pd_release d \<noteq> D_blocked) \<and> lc_outcomes c4 = lc_outcomes ctx1 \<and>
      lc_findings c4 = lc_findings ctx1 \<and> lc_results c4 = lc_results ctx1 \<and> lc_decision c4 = Some d"
    using gate_hook_result [OF c4, of d] by (simp add: c3' assms(7))
  show ?thesis
    unfolding fin by (rule exI [of _ q], rule exI [of _ d], rule exI [of _ bs])
      (simp add: gate c4' finalize_simps)
qed

lemma enforce_allowed:
  "fst (enforce isofmt read clock t req audit now) = Inr d \<Longrightarrow>
     sd_allowed d \<and> extract_host (t_base_url t) = Inr (sd_host d) \<and>
     (is_local (sd_host d) \<or> is_allowlisted (sd_host d) (t_allowed_hosts t))"
  unfolding enforce_def Let_def
  by (auto split: sum.splits if_splits dest: safety_decision_of_fields)

text \<open>The steps between the safety check and the modules, with plain hooks.\<close>

definition prepared :: "world \<Rightarrow> lifecycle_context \<Rightarrow> safety_decision \<Rightarrow> lifecycle_context \<Rightarrow> bool" where
  "prepared w ctx0 d ctx3 \<longleftrightarrow>
     lc_safety ctx3 = Some d \<and> lc_run_id ctx3 = Some (wd_run_id w) \<and> lc_policy ctx3 = lc_policy ctx0 \<and>
     lc_gate_passed ctx3 = lc_gate_passed ctx0 \<and> lc_outcomes ctx3 = lc_outcomes ctx0 \<and>
     lc_findings ctx3 = lc_findings ctx0 \<and> lc_results ctx3 = lc_results ctx0 \<and> modules_to_run ctx3 = modules_to_run ctx0"

lemma discover_plain:
  "plain_hooks w \<Longrightarrow> discover_app w (ctx, ca) = Inr (ctx', ca') \<Longrightarrow>
   \<exists>fp hit. ctx' = ctx\<lparr>lc_fingerprint := fp, lc_discovery_hit := hit\<rparr>"
proof -
  assume w: "plain_hooks w" and run: "discover_app w (ctx, ca) = Inr (ctx', ca')"
  have "run_hooks Discover_App (wd_hooks w Discover_App) c = Inr c" for c
    using plain_hooks_step(1) [OF w, of Discover_App c] by (simp add: hooks_step_def)
  then have "\<exists>fp hit. ctx' = ctx\<lparr>lc_fingerprint := fp, lc_discovery_hit := hit\<rparr> \<or> ctx' = ctx\<lparr>lc_fingerprint := fp\<rparr>"
    using run by (auto simp: discover_app_def Let_def split: option.splits sum.splits if_splits)
  moreover have "ctx\<lparr>lc_fingerprint := fp\<rparr> = ctx\<lparr>lc_fingerprint := fp, lc_discovery_hit := lc_discovery_hit ctx\<rparr>" for fp
    by simp
  ultimately show ?thesis by metis
qed

lemma plan_plain:
  "plain_hooks w \<Longrightarrow> build_execution_plan w (ctx, ca) = Inr (ctx', ca') \<Longrightarrow>
   \<exists>key hit p. ctx' = log_event (Tr_plan p) (ctx\<lparr>lc_plan_key := key, lc_plan_hit := hit, lc_plan := Some p\<rparr>)"
proof -
  assume w: "plain_hooks w" and run: "build_execution_plan w (ctx, ca) = Inr (ctx', ca')"
  have "run_hooks Build_Execution_Plan (wd_hooks w Build_Execution_Plan) c = Inr c" for c
    using plain_hooks_step(1) [OF w, of Build_Execution_Plan c] by (simp add: hooks_step_def)
  then have "\<exists>key hit p. ctx' = log_event (Tr_plan p) (ctx\<lparr>lc_plan_key := key, lc_plan_hit := hit, lc_plan := Some p\<rparr>) \<or>
      ctx' = log_event (Tr_plan p) (ctx\<lparr>lc_plan := Some p\<rparr>)"
    using run by (auto simp: build_execution_plan_def Let_def split: option.splits sum.splits bool.splits)
  moreover have "ctx\<lparr>lc_plan := p\<rparr> = ctx\<lparr>lc_plan_key := lc_plan_key ctx, lc_plan_hit := lc_plan_hit ctx, lc_plan := p\<rparr>" for p
    by simp
  ultimately show ?thesis by metis
qed

lemma modules_to_run_update [simp]:
  "modules_to_run (ctx\<lparr>lc_safety := a\<rparr>) = modules_to_run ctx" "modules_to_run (ctx\<lparr>lc_run_id := b\<rparr>) = modules_to_run ctx"
  "modules_to_run (ctx\<lparr>lc_fingerprint := e\<rparr>) = modules_to_run ctx" "modules_to_run (ctx\<lparr>lc_discovery_hit := f\<rparr>) = modules_to_run ctx"
  "modules_to_run (ctx\<lparr>lc_plan_key := g\<rparr>) = modules_to_run ctx" "modules_to_run (ctx\<lparr>lc_plan_hit := h\<rparr>) = modules_to_run ctx"
  "modules_to_run (ctx\<lparr>lc_plan := i\<rparr>) = modules_to_run ctx"
  by (simp_all add: modules_to_run_def split: option.split)

lemma execute_phases:
  assumes "plain_hooks w" "lifecycle_execute w ca ctx0 = Inr (ctx, ca')" "\<not> lc_dry_run ctx0"
    and "fst (enforce (wd_isofmt w) (wd_read_proof w) (wd_clock w) (lc_target ctx0) None (Some []) None) = Inr d"
  obtains ctx3 where "prepared w ctx0 d ctx3" "run_phases w ctx3 = Inr ctx"
proof -
  let ?c1 = "log_event Tr_artifacts (log_event (Tr_run_id (wd_run_id w)) (ctx0\<lparr>lc_run_id := Some (wd_run_id w)\<rparr>))"
  let ?c2 = "log_event Tr_snapshot (log_event (Tr_safety True) (?c1\<lparr>lc_safety := Some d\<rparr>))"
  have s: "enforce_safety w ?c1 = Inr (log_event (Tr_safety True) (?c1\<lparr>lc_safety := Some d\<rparr>))"
    using assms(4) by (simp add: enforce_safety_def)
  obtain cd cad where disc: "discover_app w (?c2, ca) = Inr (cd, cad)"
    using assms(2) by (auto simp: lifecycle_execute_def Let_def s bind_step_def split: sum.splits)
  obtain c3 ca3 where plan: "build_execution_plan w (cd, cad) = Inr (c3, ca3)"
    using assms(2) by (auto simp: lifecycle_execute_def Let_def s bind_step_def disc split: sum.splits)
  obtain fp hit where cd: "cd = ?c2\<lparr>lc_fingerprint := fp, lc_discovery_hit := hit\<rparr>"
    using discover_plain [OF assms(1) disc] by blast
  obtain key hit' p where c3: "c3 = log_event (Tr_plan p) (cd\<lparr>lc_plan_key := key, lc_plan_hit := hit', lc_plan := Some p\<rparr>)"
    using plan_plain [OF assms(1) plan] by blast
  have prep: "prepared w ctx0 d c3" and dry: "\<not> lc_dry_run c3"
    using assms(3) by (simp_all add: prepared_def c3 cd)
  show thesis
    using assms(2) dry
    by (intro that [OF prep]) (auto simp: lifecycle_execute_def Let_def s bind_step_def disc plan split: sum.splits)
qed

lemma released_iff:
  assumes "apply_policy_gate fs mrs p rid (effective_status os) g = Inr (q, d, bs)"
  shows "(if pd_release d = D_blocked then R_failed else effective_status os) = R_passed \<longleftrightarrow>
    \<not> any_errored os \<and> compute_blockers fs p = [] \<and> fl (of_int (min_quality_score p)) \<le> qs_total q"
  unfolding release_ladder [OF assms] apply_policy_gate_parts(2) [OF assms]
  by (auto simp: effective_status_def not_less)

lemma execute_one_name: "execute_one_module w ctx name = Inr r \<Longrightarrow> mo_name (fst r) = name"
  by (auto simp: execute_one_module_def clean_outcome_def errored_outcome_def
      split: option.splits module_run_result.splits sum.splits)

lemma result_map_names:
  "result_map (execute_one_module w ctx) names = Inr rs \<Longrightarrow> map mo_name (map fst rs) = names"
  by (induction names arbitrary: rs) (auto split: sum.splits dest: execute_one_name)

lemma execute_status:
  assumes "plain_hooks w" "set (wd_completion w) = {..<length (modules_to_run ctx0)}"
    and "ctx0 = new_context requested mods p t False ci n"
    and "lifecycle_execute w ca ctx0 = Inr (ctx, ca')"
    and "fst (enforce (wd_isofmt w) (wd_read_proof w) (wd_clock w) t None (Some []) None) = Inr sd"
  shows "\<exists>ctx3 rs q d bs. lc_safety ctx3 = Some sd \<and>
    result_map (execute_one_module w ctx3) (modules_to_run ctx0) = Inr rs \<and>
    lc_outcomes ctx = map fst rs \<and> lc_results ctx = List.map_filter snd rs \<and>
    lc_findings ctx = concat (map mr_findings (lc_results ctx)) \<and>
    apply_policy_gate (lc_findings ctx) (lc_results ctx) p (wd_run_id w) (effective_status (lc_outcomes ctx)) (wd_new_id w) = Inr (q, d, bs) \<and>
    lc_decision ctx = Some d \<and>
    lc_status ctx = (if pd_release d = D_blocked then R_failed else effective_status (lc_outcomes ctx))"
proof -
  have c0: "lc_target ctx0 = t" "\<not> lc_dry_run ctx0" "lc_policy ctx0 = p" "lc_gate_passed ctx0" "lc_outcomes ctx0 = []"
    "lc_findings ctx0 = []" "lc_results ctx0 = []" by (simp_all add: assms(3) new_context_def)
  obtain ctx3 where prep: "prepared w ctx0 sd ctx3" and run: "run_phases w ctx3 = Inr ctx"
    using execute_phases [OF assms(1,4)] c0 assms(5) by auto
  have c3: "lc_safety ctx3 = Some sd" "lc_run_id ctx3 = Some (wd_run_id w)" "lc_policy ctx3 = p" "lc_gate_passed ctx3"
    "lc_outcomes ctx3 = []" "lc_findings ctx3 = []" "lc_results ctx3 = []" "modules_to_run ctx3 = modules_to_run ctx0"
    using prep c0 by (simp_all add: prepared_def)
  obtain ctx4 where mods: "run_modules w ctx3 = Inr ctx4"
    using run by (auto simp: run_phases_def bind_step_def lift_analyzer_def split: sum.splits)
  obtain rs where rs: "result_map (execute_one_module w ctx3) (modules_to_run ctx3) = Inr rs"
    and ctx4: "ctx4 = foldl merge_module_result (if modules_to_run ctx3 = [] then ctx3
        else log_event (Tr_modules (modules_to_run ctx3)) ctx3) rs"
    using run_modules_eq [OF _ mods] assms(2) c3(8) by metis
  have c4: "lc_run_id ctx4 = Some (wd_run_id w)" "lc_gate_passed ctx4" "lc_policy ctx4 = p" "lc_outcomes ctx4 = map fst rs"
    "lc_results ctx4 = List.map_filter snd rs" "lc_findings ctx4 = concat (map mr_findings (List.map_filter snd rs))"
    using c3 by (simp_all add: ctx4 merge_all_collects)
  obtain q d bs where "apply_policy_gate (lc_findings ctx4) (lc_results ctx4) (lc_policy ctx4) (wd_run_id w)
      (effective_status (lc_outcomes ctx4)) (wd_new_id w) = Inr (q, d, bs)"
    "lc_decision ctx = Some d" "lc_outcomes ctx = lc_outcomes ctx4" "lc_findings ctx = lc_findings ctx4"
    "lc_results ctx = lc_results ctx4"
    "lc_status ctx = (if pd_release d = D_blocked then R_failed else effective_status (lc_outcomes ctx4))"
    using run_phases_status [OF assms(1) run c3(2,4) mods c4(1,2)] by blast
  then show ?thesis
    using rs c3(1,8) by (intro exI [of _ ctx3] exI [of _ rs] exI [of _ q] exI [of _ d] exI [of _ bs]) (simp add: c4)
qed

text \<open>The result a module returns in this run, and whether it raises.\<close>

definition module_result_of :: "world \<Rightarrow> safety_decision \<Rightarrow> string \<Rightarrow> module_result option" where
  "module_result_of w sd name = (case wd_module w name (Some sd) of Some (Ran_module r) \<Rightarrow> Some r | _ \<Rightarrow> None)"

definition module_raises :: "world \<Rightarrow> safety_decision \<Rightarrow> string \<Rightarrow> bool" where
  "module_raises w sd name \<longleftrightarrow>
     (\<exists>ty msg. wd_module w name (Some sd) = Some (Raised_expected ty msg) \<or> wd_module w name (Some sd) = Some (Raised_other ty msg))"

lemma execute_one_result:
  assumes "execute_one_module w ctx name = Inr r" "lc_safety ctx = Some sd"
  shows "snd r = module_result_of w sd name \<and> (mo_status (fst r) = O_errored \<longleftrightarrow> module_raises w sd name)"
proof -
  have e: "errored_outcome n ty msg shown = Inr o' \<Longrightarrow> mo_status o' = O_errored" for n ty msg shown o'
    by (auto simp: errored_outcome_def split: sum.splits)
  show ?thesis
  proof (cases "wd_module w name (Some sd)")
    case None
    then show ?thesis using assms by (auto simp: execute_one_module_def module_result_of_def module_raises_def clean_outcome_def)
  next
    case (Some x)
    then show ?thesis
      using assms e by (cases x) (auto simp: execute_one_module_def module_result_of_def module_raises_def clean_outcome_def split: sum.splits)
  qed
qed

lemma result_map_results:
  assumes "result_map (execute_one_module w ctx) names = Inr rs" "lc_safety ctx = Some sd"
  shows "List.map_filter snd rs = List.map_filter (module_result_of w sd) names \<and>
    map (\<lambda>r. mo_status (fst r) = O_errored) rs = map (module_raises w sd) names"
  using assms(1)
proof (induction names arbitrary: rs)
  case (Cons name names)
  obtain r rs' where r: "execute_one_module w ctx name = Inr r" "result_map (execute_one_module w ctx) names = Inr rs'" "rs = r # rs'"
    using Cons.prems by (auto split: sum.splits)
  then show ?case using Cons.IH [OF r(2)] execute_one_result [OF r(1) assms(2)] by (simp add: map_filter_simps split: option.split)
qed (simp add: map_filter_simps)

text \<open>
  C3. What exit code 0 of a full run means, end to end. Take a run whose hooks are the ones the lifecycle registers itself (with a reporter
  that leaves the context alone), in which every module that is started completes, which the safety policy lets through and which
  returns. Its outcomes are those of the requested modules in the requested order, and a module is errored exactly when it raises;
  its results are the results of the modules that return one, in that order, and its findings are theirs, one after the other, none
  lost. The exit code is 0 exactly when no module raised, no blocker rule fires on those findings, and the score computed from them and those results reaches
  the threshold.
\<close>

theorem exit_zero_iff:
  assumes "plain_hooks w" "set (wd_completion w) = {..<length (modules_to_run (new_context requested mods p t False ci n))}"
    and "lifecycle_execute w ca (new_context requested mods p t False ci n) = Inr (ctx, ca')"
    and "fst (enforce (wd_isofmt w) (wd_read_proof w) (wd_clock w) t None (Some []) None) = Inr sd"
  shows "let names = modules_to_run (new_context requested mods p t False ci n);
      results = List.map_filter (module_result_of w sd) names;
      found = concat (map mr_findings results) in
    map mo_name (lc_outcomes ctx) = names \<and> map (\<lambda>o'. mo_status o' = O_errored) (lc_outcomes ctx) = map (module_raises w sd) names \<and>
    lc_results ctx = results \<and> lc_findings ctx = found \<and>
    (\<exists>q. compute_score found results p (wd_run_id w) (wd_new_id w) None = Inr q \<and>
      (status_to_exit_code (lc_status ctx) = 0 \<longleftrightarrow>
        (\<forall>name\<in>set names. \<not> module_raises w sd name) \<and>
        (\<forall>f\<in>set found. \<not> blocks p f) \<and> p1_count found \<le> max_failed_p1_flows p \<and>
        fl (of_int (min_quality_score p)) \<le> qs_total q))"
proof -
  let ?names = "modules_to_run (new_context requested mods p t False ci n)"
  obtain ctx3 rs q d bs where safe: "lc_safety ctx3 = Some sd" and run: "result_map (execute_one_module w ctx3) (modules_to_run (new_context requested mods p t False ci n)) = Inr rs"
    "lc_outcomes ctx = map fst rs" "lc_results ctx = List.map_filter snd rs" "lc_findings ctx = concat (map mr_findings (lc_results ctx))"
    and gate: "apply_policy_gate (lc_findings ctx) (lc_results ctx) p (wd_run_id w) (effective_status (lc_outcomes ctx)) (wd_new_id w) = Inr (q, d, bs)"
    and status: "lc_status ctx = (if pd_release d = D_blocked then R_failed else effective_status (lc_outcomes ctx))"
    using execute_status [OF assms(1,2) refl assms(3,4)] by blast
  have "status_to_exit_code (lc_status ctx) = 0 \<longleftrightarrow> lc_status ctx = R_passed"
    unfolding status by (auto simp: effective_status_def)
  also have "\<dots> \<longleftrightarrow> \<not> any_errored (lc_outcomes ctx) \<and> compute_blockers (lc_findings ctx) p = [] \<and>
      fl (of_int (min_quality_score p)) \<le> qs_total q"
    unfolding status by (rule released_iff [OF gate])
  finally have exit: "status_to_exit_code (lc_status ctx) = 0 \<longleftrightarrow> \<not> any_errored (lc_outcomes ctx) \<and> compute_blockers (lc_findings ctx) p = [] \<and>
      fl (of_int (min_quality_score p)) \<le> qs_total q" .
  have res: "lc_results ctx = List.map_filter (module_result_of w sd) ?names"
    and err: "map (\<lambda>o'. mo_status o' = O_errored) (lc_outcomes ctx) = map (module_raises w sd) ?names"
    using result_map_results [OF run(1) safe] run(2,3) by (simp_all add: comp_def)
  have "any_errored (lc_outcomes ctx) \<longleftrightarrow> True \<in> set (map (\<lambda>o'. mo_status o' = O_errored) (lc_outcomes ctx))"
    by (auto simp: any_errored_def list_ex_iff)
  then have "any_errored (lc_outcomes ctx) \<longleftrightarrow> (\<exists>name\<in>set ?names. module_raises w sd name)" unfolding err by auto
  then show ?thesis
    unfolding Let_def res [symmetric] run(4) [symmetric]
    using result_map_names [OF run(1)] apply_policy_gate_parts(1) [OF gate] run(2) err exit
    by (auto simp: no_blockers_iff)
qed

text \<open>The same world, with other statuses in the module results.\<close>

definition report_as :: "(string \<Rightarrow> module_status) \<Rightarrow> world \<Rightarrow> world" where
  "report_as st w = w\<lparr>wd_module := (\<lambda>n sd. case wd_module w n sd of
     Some (Ran_module r) \<Rightarrow> Some (Ran_module (r\<lparr>mr_status := st n\<rparr>)) | x \<Rightarrow> x)\<rparr>"

lemma report_as_simps [simp]:
  "wd_run_id (report_as st w) = wd_run_id w" "wd_new_id (report_as st w) = wd_new_id w"
  "wd_completion (report_as st w) = wd_completion w" "wd_isofmt (report_as st w) = wd_isofmt w"
  "wd_read_proof (report_as st w) = wd_read_proof w" "wd_clock (report_as st w) = wd_clock w"
  "plain_hooks (report_as st w) = plain_hooks w" "wd_hooks (report_as st w) = wd_hooks w"
  "wd_fingerprint (report_as st w) = wd_fingerprint w"
  by (simp_all add: report_as_def plain_hooks_def)

definition no_caches :: caches where
  "no_caches = \<lparr>ca_plan = empty_store, ca_discovery = empty_store, ca_discovered = []\<rparr>"

lemma sample_safe: "\<not> isl (fst (enforce (wd_isofmt sample_world) (wd_read_proof sample_world) (wd_clock sample_world)
    (lc_target sample_start) None (Some []) None))"
  by code_simp

lemma gate_returns:
  assumes "g = (\<lambda>p. p @ ''-AAAAAAAAAAAA'')"
  shows "\<exists>q d bs. apply_policy_gate fs mrs p ''RUN-AAAAAAAAAAAA'' status g = Inr (q, d, bs)"
proof -
  have 1: "validate_weights default_weights = Inr ()"
    and 2: "validate_id (g ''SCR'') (Some ''SCR'') = Inr ''SCR-AAAAAAAAAAAA''"
    and 3: "validate_id (g ''PD'') (Some ''PD'') = Inr ''PD-AAAAAAAAAAAA''"
    and 4: "validate_id ''RUN-AAAAAAAAAAAA'' (Some ''RUN'') = Inr ''RUN-AAAAAAAAAAAA''"
    unfolding assms by code_simp+
  have "compute_score fs mrs p ''RUN-AAAAAAAAAAAA'' g None = Inr (projr (compute_score fs mrs p ''RUN-AAAAAAAAAAAA'' g None))"
    using 1 2 4 by (intro compute_score_total) auto
  then obtain q where "compute_score fs mrs p ''RUN-AAAAAAAAAAAA'' g None = Inr q" by blast
  then show ?thesis using 3 4 by (simp add: apply_policy_gate_def decide_def Let_def case_prod_beta)
qed

lemma plain_sample: "plain_hooks sample_world"
  unfolding plain_hooks_def by (rule exI [of _ Inr]) (simp add: sample_world_def)

lemma sample_modules: "modules_to_run sample_start = [''a11y'', ''api'']"
  by (simp add: sample_start_def new_context_def modules_to_run_def)

lemma sample_completion: "set (wd_completion sample_world) = {..<length (modules_to_run sample_start)}"
  by (auto simp: sample_modules sample_world_def)

definition sample_result :: "module_status \<Rightarrow> module_result" where
  "sample_result st = \<lparr>mr_id = ''MOD-AAAAAAAAAAAA'', mr_name = ''api'', mr_status = st, mr_findings = [],
     mr_metrics = [], mr_duration_ms = 5, mr_errors = []\<rparr>"

lemma sample_world_simps:
  "wd_fingerprint sample_world = None" "wd_run_id sample_world = ''RUN-AAAAAAAAAAAA''"
  "wd_new_id sample_world = (\<lambda>p. p @ ''-AAAAAAAAAAAA'')" "wd_hooks sample_world = default_hooks (\<lambda>p. p @ ''-AAAAAAAAAAAA'') Inr"
  "wd_module (report_as (\<lambda>_. st) sample_world) n sd = (if n = ''api'' then Some (Ran_module (sample_result st)) else None)"
  by (simp_all add: sample_world_def sample_result_def report_as_def)

lemma sample_world_reports: "report_as (\<lambda>_. M_incomplete) sample_world = sample_world"
  by (rule world.equality) (auto simp: report_as_def sample_world_def)

lemma plain_reports: "plain_hooks (report_as st sample_world)"
  by (simp add: plain_sample)

lemma sample_run: "\<exists>r. lifecycle_execute (report_as (\<lambda>_. st) sample_world) no_caches sample_start = Inr r"
proof -
  let ?w = "report_as (\<lambda>_. st) sample_world"
  obtain d where d: "fst (enforce (wd_isofmt sample_world) (wd_read_proof sample_world) (wd_clock sample_world)
      (lc_target sample_start) None (Some []) None) = Inr d"
    using sample_safe by (cases "fst (enforce (wd_isofmt sample_world) (wd_read_proof sample_world)
      (wd_clock sample_world) (lc_target sample_start) None (Some []) None)") auto
  have start: "lc_run_id sample_start = None" "\<not> lc_dry_run sample_start" "lc_gate_passed sample_start"
    by (simp_all add: sample_start_def new_context_def)
  have run: "\<exists>r. run_modules ?w c = Inr r \<and> lc_run_id r = lc_run_id c" if "modules_to_run c = [''a11y'', ''api'']" for c
  proof -
    have "set (wd_completion ?w) = {..<length (modules_to_run c)}" using that sample_completion sample_modules by simp
    from parallel_sequential [OF this, of "?w"] show ?thesis
      by (simp add: run_modules_def that run_sequential_eq execute_one_module_def sample_world_simps Let_def)
  qed
  have gates: "\<exists>r. run_phases ?w c = Inr r" if c: "modules_to_run c = [''a11y'', ''api'']" "lc_run_id c = Some ''RUN-AAAAAAAAAAAA''" for c
  proof -
    obtain c1 where c1: "run_modules ?w c = Inr c1" "lc_run_id c1 = Some ''RUN-AAAAAAAAAAAA''"
      using run [OF c(1)] c(2) by auto
    obtain q d bs where g: "apply_policy_gate (lc_findings c1) (lc_results c1) (lc_policy c1) ''RUN-AAAAAAAAAAAA''
        (effective_status (lc_outcomes c1)) (\<lambda>p. p @ ''-AAAAAAAAAAAA'') = Inr (q, d, bs)"
      using gate_returns [OF refl] by blast
    show ?thesis
      by (simp add: run_phases_def bind_step_def lift_analyzer_def c1 plain_hooks_step [OF plain_reports] score_hook_eq g
          gate_hook_def hooks_step_def sample_world_simps(4) default_hooks_def)
  qed
  obtain c3 where c3: "build_execution_plan ?w (log_event Tr_snapshot (log_event (Tr_safety True)
        ((log_event Tr_artifacts (log_event (Tr_run_id ''RUN-AAAAAAAAAAAA'') (sample_start\<lparr>lc_run_id := Some ''RUN-AAAAAAAAAAAA''\<rparr>)))
          \<lparr>lc_safety := Some d\<rparr>))\<lparr>lc_fingerprint := None\<rparr>, no_caches) = Inr (c3, no_caches)"
    "modules_to_run c3 = [''a11y'', ''api'']" "lc_run_id c3 = Some ''RUN-AAAAAAAAAAAA''" "\<not> lc_dry_run c3"
    by (simp add: build_execution_plan_def sample_world_simps(4) default_hooks_def sample_modules start Let_def)
  have "enforce_safety ?w (log_event Tr_artifacts (log_event (Tr_run_id ''RUN-AAAAAAAAAAAA'')
      (sample_start\<lparr>lc_run_id := Some ''RUN-AAAAAAAAAAAA''\<rparr>))) = Inr (log_event (Tr_safety True)
        ((log_event Tr_artifacts (log_event (Tr_run_id ''RUN-AAAAAAAAAAAA'') (sample_start\<lparr>lc_run_id := Some ''RUN-AAAAAAAAAAAA''\<rparr>)))
          \<lparr>lc_safety := Some d\<rparr>))"
    using d by (simp add: enforce_safety_def)
  then show ?thesis
    using gates [OF c3(2,3)] c3(1,4)
    by (auto simp: lifecycle_execute_def Let_def bind_step_def sample_world_simps(1,2,4) discover_app_def default_hooks_def)
qed

definition sample_final :: lifecycle_context where
  "sample_final = fst (projr (lifecycle_execute sample_world no_caches sample_start))"

lemma sample_final_run:
  "lifecycle_execute sample_world no_caches sample_start =
     Inr (sample_final, snd (projr (lifecycle_execute sample_world no_caches sample_start)))"
  using sample_run [of M_incomplete] by (auto simp: sample_final_def sample_world_reports)

theorem exit_zero_iff_witness:
  "map mo_name (lc_outcomes sample_final) = [''a11y'', ''api''] \<and> lc_results sample_final = [sample_result M_incomplete]"
proof -
  obtain sd where "fst (enforce (wd_isofmt sample_world) (wd_read_proof sample_world) (wd_clock sample_world)
      (sample_target ''http://localhost:3000'' [] Safe) None (Some []) None) = Inr sd"
    using sample_safe by (cases "fst (enforce (wd_isofmt sample_world) (wd_read_proof sample_world)
      (wd_clock sample_world) (lc_target sample_start) None (Some []) None)") (auto simp: sample_start_def new_context_def)
  from exit_zero_iff [OF plain_sample sample_completion [unfolded sample_start_def] sample_final_run [unfolded sample_start_def] this]
  show ?thesis
    by (simp add: Let_def sample_modules [unfolded sample_start_def] map_filter_simps module_result_of_def sample_world_def sample_result_def)
qed

text \<open>What the safety gate lets happen: hooks may do anything to the context except rewrite the trace.\<close>

definition trace_hooks :: "world \<Rightarrow> bool" where
  "trace_hooks w \<longleftrightarrow> (\<forall>phase. \<forall>h\<in>set (wd_hooks w phase). \<forall>c c'. h c = Inr c' \<longrightarrow> lc_trace c' = lc_trace c)"

definition trace_grows :: "lifecycle_context \<Rightarrow> lifecycle_context \<Rightarrow> bool" where
  "trace_grows c c' \<longleftrightarrow> (\<exists>es. lc_trace c' = lc_trace c @ es)"

lemma trace_grows_refl [simp]: "trace_grows c c"
  by (simp add: trace_grows_def)

lemma trace_grows_trans: "trace_grows a b \<Longrightarrow> trace_grows b c \<Longrightarrow> trace_grows a c"
  by (auto simp: trace_grows_def)

lemma trace_grows_log [simp]: "trace_grows c (log_event e c)"
  by (simp add: trace_grows_def)

lemma trace_grows_hooks:
  "\<forall>h\<in>set hs. \<forall>c c'. h c = Inr c' \<longrightarrow> lc_trace c' = lc_trace c \<Longrightarrow> run_hooks phase hs ctx = Inr ctx' \<Longrightarrow> trace_grows ctx ctx'"
proof (induction hs arbitrary: ctx)
  case (Cons h hs)
  then obtain c where c: "h (log_event (Tr_hook phase) ctx) = Inr c" "run_hooks phase hs c = Inr ctx'"
    by (auto split: sum.splits)
  have "trace_grows ctx c" using Cons.prems(1) c(1) by (auto simp: trace_grows_def log_event_def)
  moreover have "trace_grows c ctx'" using Cons.IH Cons.prems(1) c(2) by auto
  ultimately show ?case by (rule trace_grows_trans)
qed simp

lemma trace_grows_step: "trace_hooks w \<Longrightarrow> hooks_step w phase ctx = Inr ctx' \<Longrightarrow> trace_grows ctx ctx'"
  unfolding hooks_step_def by (rule trace_grows_hooks) (auto simp: trace_hooks_def)

lemma trace_grows_same: "lc_trace c = lc_trace d \<Longrightarrow> trace_grows d e \<Longrightarrow> trace_grows c e"
  by (simp add: trace_grows_def)

lemma trace_grows_discover:
  assumes "trace_hooks w" "discover_app w (ctx, ca) = Inr (ctx', ca')"
  shows "trace_grows ctx ctx'"
proof -
  have "\<exists>c. lc_trace c = lc_trace ctx \<and> run_hooks Discover_App (wd_hooks w Discover_App) c = Inr ctx'"
    using assms(2)
    by (auto simp: discover_app_def Let_def split: option.splits sum.splits if_splits)
      (rule exI, rule conjI [rotated], assumption, simp)+
  then obtain c where "lc_trace ctx = lc_trace c" "run_hooks Discover_App (wd_hooks w Discover_App) c = Inr ctx'" by metis
  then show ?thesis using trace_grows_step [OF assms(1), of Discover_App] by (auto simp: hooks_step_def intro: trace_grows_same)
qed

lemma trace_grows_plan:
  assumes "trace_hooks w" "build_execution_plan w (ctx, ca) = Inr (ctx', ca')"
  shows "trace_grows ctx ctx'"
proof -
  have "\<exists>c. trace_grows ctx c \<and> run_hooks Build_Execution_Plan (wd_hooks w Build_Execution_Plan) c = Inr ctx'"
    using assms(2) unfolding trace_grows_def
    by (auto simp: build_execution_plan_def Let_def split: option.splits sum.splits bool.splits)
      (rule exI, rule conjI [rotated], assumption, simp)+
  then obtain c where "trace_grows ctx c" "run_hooks Build_Execution_Plan (wd_hooks w Build_Execution_Plan) c = Inr ctx'" by metis
  then show ?thesis
    using trace_grows_step [OF assms(1), of Build_Execution_Plan] by (auto simp: hooks_step_def intro: trace_grows_trans)
qed

lemma sequential_trace: "run_sequential w names ctx = Inr ctx' \<Longrightarrow> lc_trace ctx' = lc_trace ctx"
  by (auto simp: run_sequential_eq split: sum.splits)

lemma merge_futures_trace: "merge_futures futures is ctx = Inr ctx' \<Longrightarrow> lc_trace ctx' = lc_trace ctx"
  by (induction futures "is" ctx rule: merge_futures.induct) (auto split: option.splits sum.splits)

lemma trace_grows_modules: "run_modules w ctx = Inr ctx' \<Longrightarrow> trace_grows ctx ctx'"
  by (auto simp: run_modules_def run_parallel_def Let_def trace_grows_def split: if_splits
      dest!: sequential_trace merge_futures_trace)

lemma trace_grows_phases:
  assumes "trace_hooks w" "run_phases w ctx = Inr ctx'"
  shows "trace_grows ctx ctx'"
proof -
  obtain c1 c2 c3 c4 c5 c6 where "run_modules w ctx = Inr c1" "hooks_step w Collect_Evidence c1 = Inr c2"
    "hooks_step w Normalize_Findings c2 = Inr c3" "hooks_step w Calculate_Quality_Score c3 = Inr c4"
    "hooks_step w Apply_Quality_Gates c4 = Inr c5" "hooks_step w Generate_Reports (finalize_status c5) = Inr c6"
    "ctx' = log_event Tr_latest (log_event Tr_flake_db (log_event Tr_cache_report c6))"
    using assms(2) by (auto simp: run_phases_def bind_step_def lift_analyzer_def split: sum.splits)
  moreover have "lc_trace c5 = lc_trace (finalize_status c5)" by (simp add: finalize_status_def)
  ultimately show ?thesis
    using trace_grows_step [OF assms(1)] trace_grows_modules trace_grows_same
    by (metis trace_grows_log trace_grows_trans)
qed

text \<open>
  C4. No effect precedes the safety policy. Whatever the registered hooks and modules do, a run that
  returns with anything in its trace beyond creating its directory and writing a refusal (a
  snapshot, a hook, a plan, a module) has been allowed by \<open>SafetyPolicy.enforce\<close> before it: the third event is
  the allowing decision, for a host that is local or on the allow list. A refused target ends
  the run at once, without any module, with exit code 4.
\<close>

theorem nothing_before_safety:
  assumes "lifecycle_execute w ca (new_context requested mods p t dry ci n) = Inr (ctx, ca')" "trace_hooks w"
  shows "(lc_trace ctx = [Tr_run_id (wd_run_id w), Tr_artifacts, Tr_safety False, Tr_short_run] \<and>
      lc_outcomes ctx = [] \<and> status_to_exit_code (lc_status ctx) = 4) \<or>
    (\<exists>d es. fst (enforce (wd_isofmt w) (wd_read_proof w) (wd_clock w) t None (Some []) None) = Inr d \<and> sd_allowed d \<and>
      (is_local (sd_host d) \<or> is_allowlisted (sd_host d) (t_allowed_hosts t)) \<and>
      lc_trace ctx = [Tr_run_id (wd_run_id w), Tr_artifacts, Tr_safety True] @ es)"
proof -
  let ?c0 = "new_context requested mods p t dry ci n"
  let ?c1 = "log_event Tr_artifacts (log_event (Tr_run_id (wd_run_id w)) (?c0\<lparr>lc_run_id := Some (wd_run_id w)\<rparr>))"
  have t: "lc_target ?c0 = t" "lc_trace ?c0 = []" "lc_outcomes ?c0 = []" by (simp_all add: new_context_def)
  have c1: "lc_trace ?c1 = [Tr_run_id (wd_run_id w), Tr_artifacts]" "lc_target ?c1 = t" "lc_outcomes ?c1 = []"
    by (simp_all add: new_context_def)
  show ?thesis
  proof (cases "fst (enforce (wd_isofmt w) (wd_read_proof w) (wd_clock w) t None (Some []) None)")
    case (Inl e)
    then show ?thesis
      using assms(1) c1 by (auto simp: lifecycle_execute_def enforce_safety_def Let_def t split: if_splits)
  next
    case (Inr d)
    let ?c2 = "log_event (Tr_safety True) (?c1\<lparr>lc_safety := Some d\<rparr>)"
    have s: "enforce_safety w ?c1 = Inr ?c2" using Inr by (simp add: enforce_safety_def t)
    obtain cd cad where disc: "discover_app w (log_event Tr_snapshot ?c2, ca) = Inr (cd, cad)"
      using assms(1) by (auto simp: lifecycle_execute_def Let_def s bind_step_def split: sum.splits)
    obtain c3 ca3 where plan: "build_execution_plan w (cd, cad) = Inr (c3, ca3)"
      using assms(1) by (auto simp: lifecycle_execute_def Let_def s bind_step_def disc split: sum.splits)
    have "trace_grows c3 ctx"
      using assms(1) trace_grows_phases [OF assms(2), of c3 ctx]
      by (auto simp: lifecycle_execute_def Let_def s bind_step_def disc plan trace_grows_def split: sum.splits if_splits)
    then have "trace_grows ?c2 ctx"
      using trace_grows_discover [OF assms(2) disc] trace_grows_plan [OF assms(2) plan]
      by (metis trace_grows_log trace_grows_trans)
    then show ?thesis
      using Inr enforce_allowed [OF Inr] by (auto simp: trace_grows_def t)
  qed
qed

theorem nothing_before_safety_witness:
  "\<exists>es. lc_trace sample_final = [Tr_run_id ''RUN-AAAAAAAAAAAA'', Tr_artifacts, Tr_safety True] @ es \<or>
     lc_trace sample_final = [Tr_run_id ''RUN-AAAAAAAAAAAA'', Tr_artifacts, Tr_safety False, Tr_short_run]"
proof -
  have "trace_hooks sample_world"
    by (auto simp: trace_hooks_def sample_world_simps default_hooks_def score_hook_eq gate_hook_def
        split: lifecycle_phase.splits option.splits sum.splits prod.splits if_splits)
  from nothing_before_safety [OF sample_final_run [unfolded sample_start_def] this]
  show ?thesis by (auto simp: sample_world_simps)
qed

section \<open>The plan cache\<close>

definition fresh_plan :: "lifecycle_context \<Rightarrow> run_plan" where
  "fresh_plan ctx = \<lparr>pl_modules = sort (modules_to_run ctx), pl_dry_run = lc_dry_run ctx, pl_ci = lc_ci ctx\<rparr>"

lemma plan_memo:
  assumes "plain_hooks w" "build_execution_plan w (ctx, ca) = Inr (ctx', ca')" "lc_fingerprint ctx = Some fp" "\<not> lc_dry_run ctx"
  shows "memo (\<lambda>st (ns, k). cache_get st ns k) (\<lambda>st (ns, k). cache_put st ns k) (\<lambda>_. fresh_plan ctx) (ca_plan ca)
      (''plan'', plan_key fp (sort (modules_to_run ctx))) = Inr (the (lc_plan ctx'), ca_plan ca')"
proof -
  have "run_hooks Build_Execution_Plan (wd_hooks w Build_Execution_Plan) c = Inr c" for c
    using plain_hooks_step(1) [OF assms(1), of Build_Execution_Plan c] by (simp add: hooks_step_def)
  then show ?thesis
    using assms(2-4)
    by (auto simp: build_execution_plan_def Let_def memo_def fresh_plan_def log_event_def split: option.splits sum.splits)
qed

text \<open>
  The plan cache is keyed by source and modules alone. After a run has built its plan, any later run
  that builds one on the same source fingerprint for the same modules gets that very plan back and
  leaves the cache alone, also when it runs with another \<open>ci\<close> flag, which the plan records.
\<close>

theorem plan_cache_reuses:
  assumes "plain_hooks w" "build_execution_plan w (ctx, ca) = Inr (ctx', ca')" "lc_fingerprint ctx = Some fp" "\<not> lc_dry_run ctx"
    and "plain_hooks w2" "build_execution_plan w2 (ctx2, ca') = Inr (ctx2', ca2)" "lc_fingerprint ctx2 = Some fp" "\<not> lc_dry_run ctx2"
    and "mset (modules_to_run ctx2) = mset (modules_to_run ctx)"
  shows "the (lc_plan ctx2') = the (lc_plan ctx') \<and> ca_plan ca2 = ca_plan ca'"
proof -
  have "sort (modules_to_run ctx2) = sort (modules_to_run ctx)"
    using assms(9) by (intro properties_for_sort) simp_all
  then show ?thesis
    using disk.memo_hit [OF plan_memo [OF assms(1-4)]] plan_memo [OF assms(5-8)] by auto
qed

definition cached_start :: "bool \<Rightarrow> lifecycle_context" where
  "cached_start ci = sample_start\<lparr>lc_fingerprint := Some ''f00'', lc_ci := ci\<rparr>"

lemma cached_plan:
  assumes "map_of (cs_files (ca_plan ca)) [''plan'', ''v1'', ''.f00.a11y-api.bin''] = x" "map_of (cs_files (ca_plan ca)) [''plan''] = None"
  shows "build_execution_plan sample_world (cached_start ci, ca) = Inr
    (let p = (case x of None \<Rightarrow> fresh_plan (cached_start ci) | Some p \<Rightarrow> p) in
     (log_event (Tr_plan p) ((cached_start ci)\<lparr>lc_plan_key := Some ''v1.f00.a11y-api'', lc_plan_hit := Some (x \<noteq> None), lc_plan := Some p\<rparr>),
      (case x of None \<Rightarrow> ca\<lparr>ca_plan := \<lparr>cs_spaces = List.insert ''plan'' (cs_spaces (ca_plan ca)),
           cs_files = AList.update [''plan'', ''v1'', ''.f00.a11y-api.bin''] p (cs_files (ca_plan ca))\<rparr>\<rparr> | Some _ \<Rightarrow> ca)))"
proof -
  have m: "modules_to_run (cached_start ci) = [''a11y'', ''api'']" by (simp add: cached_start_def sample_start_def new_context_def modules_to_run_def)
  have k: "plan_key ''f00'' (sort [''a11y'', ''api'']) = ''v1.f00.a11y-api''"
    "path_for ''plan'' ''v1.f00.a11y-api'' = Inr (''plan'', ''v1'', ''.f00.a11y-api.bin'')" by code_simp+
  have c: "lc_fingerprint (cached_start ci) = Some ''f00''" "\<not> lc_dry_run (cached_start ci)"
    by (simp_all add: cached_start_def sample_start_def new_context_def)
  show ?thesis
    using assms
    by (cases x) (simp_all add: build_execution_plan_def c m k fresh_plan_def cache_get_def cache_put_def cache_file_def path_conflict_def resolve_path_def Let_def
        sample_world_simps default_hooks_def del: sort_key_simps)
qed

theorem plan_cache_reuses_witness:
  "\<exists>a b ca ca2. build_execution_plan sample_world (cached_start True, no_caches) = Inr (a, ca) \<and>
     build_execution_plan sample_world (cached_start False, ca) = Inr (b, ca2) \<and>
     the (lc_plan b) = the (lc_plan a) \<and> pl_ci (the (lc_plan b)) \<and> \<not> lc_ci b"
proof -
  obtain a ca where 1: "build_execution_plan sample_world (cached_start True, no_caches) = Inr (a, ca)"
    "lc_plan a = Some (fresh_plan (cached_start True))"
    "map_of (cs_files (ca_plan ca)) [''plan'', ''v1'', ''.f00.a11y-api.bin''] = Some (fresh_plan (cached_start True))"
    "map_of (cs_files (ca_plan ca)) [''plan''] = None"
    using cached_plan [of no_caches None True] by (auto simp: no_caches_def empty_store_def Let_def log_event_def)
  obtain b ca2 where 2: "build_execution_plan sample_world (cached_start False, ca) = Inr (b, ca2)" "\<not> lc_ci b"
    using cached_plan [OF 1(3,4), of False] by (auto simp: Let_def log_event_def cached_start_def)
  have c: "lc_fingerprint (cached_start ci) = Some ''f00''" "\<not> lc_dry_run (cached_start ci)"
    "mset (modules_to_run (cached_start ci)) = mset (modules_to_run sample_start)" for ci
    by (simp_all add: cached_start_def sample_start_def new_context_def modules_to_run_def)
  have "the (lc_plan b) = the (lc_plan a)"
    using plan_cache_reuses [OF plain_sample 1(1) c(1,2) plain_sample 2(1) c(1,2)] c(3) by simp
  then show ?thesis using 1 2 by (auto simp: fresh_plan_def cached_start_def)
qed

section \<open>What modules report of themselves\<close>

definition same_report :: "module_outcome \<times> module_result option \<Rightarrow> module_outcome \<times> module_result option \<Rightarrow> bool" where
  "same_report a b \<longleftrightarrow> mo_status (fst a) = mo_status (fst b) \<and>
     map_option (\<lambda>r. (mr_findings r, mr_metrics r)) (snd a) = map_option (\<lambda>r. (mr_findings r, mr_metrics r)) (snd b)"

lemma execute_one_report_as:
  "lc_safety c = lc_safety c' \<Longrightarrow>
   rel_sum (=) same_report (execute_one_module w c name) (execute_one_module (report_as st w) c' name)"
  by (auto simp: execute_one_module_def report_as_def same_report_def clean_outcome_def
      split: option.split module_run_result.split sum.split)

lemma result_map_rel:
  "(\<And>x. rel_sum (=) R (f x) (g x)) \<Longrightarrow> result_map f xs = Inr ys \<Longrightarrow> result_map g xs = Inr zs \<Longrightarrow> list_all2 R ys zs"
proof (induction xs arbitrary: ys zs)
  case (Cons x xs)
  obtain y ys' z zs' where "f x = Inr y" "result_map f xs = Inr ys'" "ys = y # ys'"
    "g x = Inr z" "result_map g xs = Inr zs'" "zs = z # zs'"
    using Cons.prems(2,3) by (auto split: sum.splits)
  then show ?case using Cons.IH [OF Cons.prems(1)] Cons.prems(1) [of x] by simp
qed simp

lemma same_reports:
  assumes "list_all2 same_report rs rs'"
  shows "any_errored (map fst rs) = any_errored (map fst rs')"
    and "map mr_findings (List.map_filter snd rs) = map mr_findings (List.map_filter snd rs')"
    and "flake_rates (List.map_filter snd rs) = flake_rates (List.map_filter snd rs')"
  using assms
  by (induction rule: list_all2_induct)
    (auto simp: any_errored_def same_report_def flake_rates_def map_filter_simps map_option_eq_Some eq_commute [of "Some _" "map_option _ _"]
      split: option.splits)

lemma gate_reads_flake_rates:
  "flake_rates mrs = flake_rates mrs' \<Longrightarrow> apply_policy_gate fs mrs p rid st g = apply_policy_gate fs mrs' p rid st g"
proof -
  assume "flake_rates mrs = flake_rates mrs'"
  then have "all_components fs mrs p = all_components fs mrs' p" by (simp add: all_components_def flake_risk_score_def)
  then show ?thesis unfolding apply_policy_gate_def compute_score_def by (rule ssubst) (rule refl)
qed

text \<open>
  What modules say of themselves does not count. Replacing the status of every module result (failed,
  errored, incomplete, skipped) by any other changes neither the status of the run nor the
  release decision nor the exit code: they are functions of the findings, the flake rates and of which modules
  raised. A module that returns an errored or incomplete result without findings leaves the run passed.
\<close>

theorem module_status_ignored:
  assumes "plain_hooks w" "set (wd_completion w) = {..<length (modules_to_run (new_context requested mods p t False ci n))}"
    and "fst (enforce (wd_isofmt w) (wd_read_proof w) (wd_clock w) t None (Some []) None) = Inr sd"
    and "lifecycle_execute w ca (new_context requested mods p t False ci n) = Inr (ctx, ca1)"
    and "lifecycle_execute (report_as st w) ca (new_context requested mods p t False ci n) = Inr (ctx', ca2)"
  shows "lc_status ctx' = lc_status ctx \<and> lc_decision ctx' = lc_decision ctx \<and> lc_findings ctx' = lc_findings ctx"
proof -
  let ?ctx0 = "new_context requested mods p t False ci n"
  obtain c rs q d bs where a: "lc_safety c = Some sd" "result_map (execute_one_module w c) (modules_to_run ?ctx0) = Inr rs"
    "lc_outcomes ctx = map fst rs" "lc_results ctx = List.map_filter snd rs" "lc_findings ctx = concat (map mr_findings (lc_results ctx))"
    "apply_policy_gate (lc_findings ctx) (lc_results ctx) p (wd_run_id w) (effective_status (lc_outcomes ctx)) (wd_new_id w) = Inr (q, d, bs)"
    "lc_decision ctx = Some d" "lc_status ctx = (if pd_release d = D_blocked then R_failed else effective_status (lc_outcomes ctx))"
    using execute_status [OF assms(1,2) refl assms(4,3)] by blast
  obtain c' rs' q' d' bs' where b: "lc_safety c' = Some sd"
    "result_map (execute_one_module (report_as st w) c') (modules_to_run ?ctx0) = Inr rs'"
    "lc_outcomes ctx' = map fst rs'" "lc_results ctx' = List.map_filter snd rs'" "lc_findings ctx' = concat (map mr_findings (lc_results ctx'))"
    "apply_policy_gate (lc_findings ctx') (lc_results ctx') p (wd_run_id w) (effective_status (lc_outcomes ctx')) (wd_new_id w) = Inr (q', d', bs')"
    "lc_decision ctx' = Some d'" "lc_status ctx' = (if pd_release d' = D_blocked then R_failed else effective_status (lc_outcomes ctx'))"
    using execute_status [of "report_as st w", unfolded report_as_simps, OF assms(1,2) refl assms(5,3)] by blast
  have "list_all2 same_report rs rs'"
    using result_map_rel [OF _ a(2) b(2)] execute_one_report_as a(1) b(1) by metis
  note same = same_reports [OF this]
  have f: "lc_findings ctx' = lc_findings ctx" using same(2) by (simp add: a(4,5) b(4,5))
  have e: "effective_status (lc_outcomes ctx') = effective_status (lc_outcomes ctx)"
    using same(1) by (simp add: effective_status_def a(3) b(3))
  have "apply_policy_gate (lc_findings ctx') (lc_results ctx') p (wd_run_id w) (effective_status (lc_outcomes ctx')) (wd_new_id w) =
      apply_policy_gate (lc_findings ctx) (lc_results ctx) p (wd_run_id w) (effective_status (lc_outcomes ctx)) (wd_new_id w)"
    unfolding f e by (rule gate_reads_flake_rates) (simp add: a(4) b(4) same(3))
  then have "d' = d" using a(6) b(6) by simp
  then show ?thesis using a(7,8) b(7,8) e f by simp
qed

theorem module_status_ignored_witness:
  "lc_status sample_final = lc_status (fst (projr (lifecycle_execute (report_as (\<lambda>_. M_passed) sample_world) no_caches sample_start)))"
proof -
  obtain sd where sd: "fst (enforce (wd_isofmt sample_world) (wd_read_proof sample_world) (wd_clock sample_world)
      (sample_target ''http://localhost:3000'' [] Safe) None (Some []) None) = Inr sd"
    using sample_safe by (cases "fst (enforce (wd_isofmt sample_world) (wd_read_proof sample_world)
      (wd_clock sample_world) (lc_target sample_start) None (Some []) None)") (auto simp: sample_start_def new_context_def)
  obtain c ca where 2: "lifecycle_execute (report_as (\<lambda>_. M_passed) sample_world) no_caches sample_start = Inr (c, ca)"
    using sample_run by (metis surj_pair)
  from module_status_ignored [OF plain_sample sample_completion [unfolded sample_start_def] sd
      sample_final_run [unfolded sample_start_def] 2 [unfolded sample_start_def]]
  show ?thesis using 2 by simp
qed

end
