(* ===== verification/Fingerprint.thy ===== *)
theory Fingerprint
  imports Prelude "HOL-Library.Multiset" "HOL-Library.While_Combinator"
begin

text \<open>
  The source fingerprint of \<open>engine/cache/fingerprint.py\<close>, the key of the run caches and of \<open>audit --since\<close>: the walk
  over the project tree with its explicit stack, the filters, and the digest over the sorted relative paths
  and content hashes. The file system is a tree: a directory whose listing fails and a file that
  cannot be read are \<open>None\<close>; links, sockets and entries that raise are \<open>Special\<close>. SHA-256 in hexadecimal is the parameter \<open>sha\<close>. The loop is
  \<open>while_option\<close>, so that its termination is a theorem.
\<close>

section \<open>Configuration\<close>

type_synonym path = "string list"

datatype node = Regular "string option" | Directory "(string \<times> node) list option" | Special

type_synonym listing = "(string \<times> node) list option"

record walk_config =
  wc_suffixes :: "string list"
  wc_basenames :: "string list"
  wc_excludes :: "string list"

definition default_include_suffixes :: "string list" where
  "default_include_suffixes =
     [''.py'', ''.ts'', ''.tsx'', ''.js'', ''.jsx'', ''.mjs'', ''.cjs'', ''.vue'', ''.svelte'', ''.html'', ''.css'', ''.scss'',
      ''.md'', ''.yml'', ''.yaml'', ''.json'', ''.toml'', ''.lock'']"

definition default_include_basenames :: "string list" where
  "default_include_basenames =
     [''package.json'', ''pnpm-lock.yaml'', ''yarn.lock'', ''package-lock.json'', ''pyproject.toml'', ''uv.lock'',
      ''Pipfile.lock'', ''requirements.txt'', ''requirements.lock'', ''Dockerfile'', ''Makefile'']"

definition default_exclude_dirs :: "string list" where
  "default_exclude_dirs =
     [''.git'', ''.sentinel'', ''.venv'', ''venv'', ''node_modules'', ''__pycache__'', ''.mypy_cache'', ''.pytest_cache'',
      ''.ruff_cache'', ''dist'', ''build'', ''.next'', ''.turbo'', ''.cache'', ''.parcel-cache'', ''coverage'',
      ''.coverage'', ''.tox'']"

text \<open>An empty set of suffixes, names or directories falls back to the default, as \<open>None\<close> does.\<close>

definition or_default :: "string list option \<Rightarrow> string list \<Rightarrow> string list" where
  "or_default x d = (case x of None \<Rightarrow> d | Some xs \<Rightarrow> if xs = [] then d else xs)"

definition walk_config_of :: "string list option \<Rightarrow> string list option \<Rightarrow> string list option \<Rightarrow> walk_config" where
  "walk_config_of suffixes basenames excludes =
     \<lparr>wc_suffixes = or_default suffixes default_include_suffixes,
      wc_basenames = or_default basenames default_include_basenames,
      wc_excludes = or_default excludes default_exclude_dirs\<rparr>"

section \<open>The walk\<close>

definition is_included :: "walk_config \<Rightarrow> string \<Rightarrow> bool" where
  "is_included cfg name \<longleftrightarrow>
     name \<in> set (wc_basenames cfg) \<or>
     (CHR ''.'' \<in> set name \<and> py_lower (CHR ''.'' # after_last_char CHR ''.'' name) \<in> set (wc_suffixes cfg))"

type_synonym walk_state = "(path \<times> listing) list \<times> (path \<times> string option) list"

fun scan_entry :: "walk_config \<Rightarrow> path \<Rightarrow> string \<times> node \<Rightarrow> walk_state \<Rightarrow> walk_state" where
  "scan_entry cfg current (name, Directory d) (stack, out) =
     (if name \<in> set (wc_excludes cfg) then (stack, out) else ((current @ [name], d) # stack, out))"
| "scan_entry cfg current (name, Regular c) (stack, out) =
     (if is_included cfg name then (stack, out @ [(current @ [name], c)]) else (stack, out))"
| "scan_entry cfg current (name, Special) (stack, out) = (stack, out)"

text \<open>One turn of the loop: the top of the stack is popped, and its directories pushed.\<close>

fun scan_step :: "walk_config \<Rightarrow> walk_state \<Rightarrow> walk_state" where
  "scan_step cfg ([], out) = ([], out)"
| "scan_step cfg ((current, None) # stack, out) = (stack, out)"
| "scan_step cfg ((current, Some entries) # stack, out) = fold (scan_entry cfg current) entries (stack, out)"

definition iter_source_files :: "walk_config \<Rightarrow> listing \<Rightarrow> (path \<times> string option) list option" where
  "iter_source_files cfg tree =
     map_option (\<lambda>(stack, out). sort_key fst out)
       (while_option (\<lambda>(stack, out). stack \<noteq> []) (scan_step cfg) ([([], tree)], []))"

section \<open>The digest\<close>

record source_fingerprint =
  sf_hash :: string
  sf_file_count :: nat
  sf_total_bytes :: nat

definition short_hash :: "source_fingerprint \<Rightarrow> string" where
  "short_hash f = take 12 (sf_hash f)"

text \<open>Reading in chunks; a hash object is the bytes fed to it so far.\<close>

function read_chunks :: "nat \<Rightarrow> string \<Rightarrow> string list" where
  "read_chunks n s = (if s = [] \<or> n = 0 then [] else take n s # read_chunks n (drop n s))"
  by auto
termination by (relation "measure (length \<circ> snd)") auto

definition read_buffer :: nat where "read_buffer = 64 * 1024"

definition hash_file :: "(string \<Rightarrow> string) \<Rightarrow> string \<Rightarrow> string \<times> nat" where
  "hash_file sha content =
     (let chunks = read_chunks read_buffer content
      in (sha (foldl (@) [] chunks), foldl (\<lambda>n chunk. n + length chunk) 0 chunks))"

definition posix_path :: "path \<Rightarrow> string" where
  "posix_path p = py_join ''/'' p"

definition nul :: char where "nul = CHR 0x00"

definition digest_record :: "path \<Rightarrow> string \<Rightarrow> string" where
  "digest_record p file_hash = posix_path p @ [nul] @ file_hash @ [newline]"

text \<open>\<open>None\<close> would be a walk that does not end; \<open>Inl p\<close> is the \<open>OSError\<close> of a file that cannot be read.\<close>

definition hash_entry :: "(string \<Rightarrow> string) \<Rightarrow> path \<times> string option \<Rightarrow> path + path \<times> string \<times> nat" where
  "hash_entry sha e = (case snd e of None \<Rightarrow> Inl (fst e) | Some content \<Rightarrow> Inr (fst e, hash_file sha content))"

definition digest_files :: "(string \<Rightarrow> string) \<Rightarrow> (path \<times> string option) list \<Rightarrow> path + source_fingerprint" where
  "digest_files sha files =
     (case result_map (hash_entry sha) files of Inl p \<Rightarrow> Inl p
      | Inr hashed \<Rightarrow> Inr
         \<lparr>sf_hash = sha (concat (map (\<lambda>(p, h, n). digest_record p h) hashed)), sf_file_count = length files,
          sf_total_bytes = sum_list (map (\<lambda>(p, h, n). n) hashed)\<rparr>)"

definition compute_fingerprint ::
  "(string \<Rightarrow> string) \<Rightarrow> string list option \<Rightarrow> string list option \<Rightarrow> string list option \<Rightarrow> listing
     \<Rightarrow> (path + source_fingerprint) option" where
  "compute_fingerprint sha suffixes basenames excludes tree =
     map_option (digest_files sha) (iter_source_files (walk_config_of suffixes basenames excludes) tree)"

section \<open>The walk terminates and finds the files\<close>

text \<open>The files below a directory, by recursion on the tree.\<close>

fun node_files :: "walk_config \<Rightarrow> path \<Rightarrow> string \<Rightarrow> node \<Rightarrow> (path \<times> string option) list" where
  "node_files cfg p name (Regular c) = (if is_included cfg name then [(p @ [name], c)] else [])"
| "node_files cfg p name Special = []"
| "node_files cfg p name (Directory None) = []"
| "node_files cfg p name (Directory (Some es)) =
     (if name \<in> set (wc_excludes cfg) then [] else concat (map (\<lambda>(m, e). node_files cfg (p @ [name]) m e) es))"

definition files_below :: "walk_config \<Rightarrow> path \<Rightarrow> listing \<Rightarrow> (path \<times> string option) list" where
  "files_below cfg p d = (case d of None \<Rightarrow> [] | Some es \<Rightarrow> concat (map (\<lambda>(m, e). node_files cfg p m e) es))"

fun node_weight :: "node \<Rightarrow> nat" where
  "node_weight (Directory (Some es)) = Suc (sum_list (map (\<lambda>(m, e). node_weight e) es))"
| "node_weight (Directory None) = 1"
| "node_weight _ = 0"

definition stack_weight :: "(path \<times> listing) list \<Rightarrow> nat" where
  "stack_weight stack = sum_list (map (\<lambda>(p, d). node_weight (Directory d)) stack)"

lemma node_files_directory:
  "node_files cfg p name (Directory d) = (if name \<in> set (wc_excludes cfg) then [] else files_below cfg (p @ [name]) d)"
  by (cases d) (simp_all add: files_below_def)

definition unvisited :: "walk_config \<Rightarrow> walk_state \<Rightarrow> (path \<times> string option) multiset" where
  "unvisited cfg s = mset (snd s) + (\<Sum>\<^sub># (mset (map (\<lambda>(p, d). mset (files_below cfg p d)) (fst s))))"

lemma unvisited_entry:
  "unvisited cfg (scan_entry cfg p (name, e) s) = unvisited cfg s + mset (node_files cfg p name e)"
  by (cases s; cases e) (auto simp: unvisited_def node_files_directory)

lemma unvisited_entries:
  "unvisited cfg (fold (scan_entry cfg p) es s) = unvisited cfg s + mset (files_below cfg p (Some es))"
  by (induction es arbitrary: s) (auto simp: unvisited_entry files_below_def)

lemma unvisited_step: "unvisited cfg (scan_step cfg s) = unvisited cfg s"
  by (cases "(cfg, s)" rule: scan_step.cases) (auto simp: unvisited_entries, auto simp: unvisited_def files_below_def)

lemma weight_entries:
  "stack_weight (fst (fold (scan_entry cfg p) es s)) \<le> stack_weight (fst s) + sum_list (map (\<lambda>(m, e). node_weight e) es)"
proof (induction es arbitrary: s)
  case (Cons e es)
  have "stack_weight (fst (scan_entry cfg p e s)) \<le> stack_weight (fst s) + node_weight (snd e)"
    by (cases "(cfg, p, e, s)" rule: scan_entry.cases) (auto simp: stack_weight_def)
  then show ?case using Cons [of "scan_entry cfg p e s"] by (cases e) simp
qed simp

lemma weight_step: "fst s \<noteq> [] \<Longrightarrow> stack_weight (fst (scan_step cfg s)) < stack_weight (fst s)"
  by (cases "(cfg, s)" rule: scan_step.cases)
    (auto simp: stack_weight_def intro!: le_imp_less_Suc order.trans [OF weight_entries [unfolded stack_weight_def]])

lemma scan_returns:
  "\<exists>out. while_option (\<lambda>(stack, out). stack \<noteq> []) (scan_step cfg) ([(p, d)], []) = Some ([], out) \<and>
     mset out = mset (files_below cfg p d)"
proof -
  let ?run = "while_option (\<lambda>(stack, out). stack \<noteq> []) (scan_step cfg) ([(p, d)], [])"
  have "\<exists>t. ?run = Some t"
    by (rule measure_while_option_Some [of "\<lambda>_. True" _ _ "\<lambda>s. stack_weight (fst s)"])
      (use weight_step in \<open>auto simp: case_prod_beta\<close>)
  then obtain stack out where run: "?run = Some (stack, out)" by fastforce
  have "stack = []" using while_option_stop [OF run] by simp
  moreover have "unvisited cfg (stack, out) = unvisited cfg ([(p, d)], [])"
    by (rule while_option_rule [OF _ run, where P = "\<lambda>s. unvisited cfg s = unvisited cfg ([(p, d)], [])"])
      (simp_all add: unvisited_step)
  ultimately show ?thesis using run by (auto simp: unvisited_def)
qed

text \<open>What a POSIX file system guarantees of the names in a directory.\<close>

definition name_ok :: "string \<Rightarrow> bool" where
  "name_ok name \<longleftrightarrow> name \<noteq> [] \<and> nul \<notin> set name \<and> CHR ''/'' \<notin> set name"

fun well_named :: "node \<Rightarrow> bool" where
  "well_named (Directory (Some es)) \<longleftrightarrow>
     distinct (map fst es) \<and> list_all name_ok (map fst es) \<and> list_all well_named (map snd es)"
| "well_named _ \<longleftrightarrow> True"

lemma node_files_prefix: "(q, c) \<in> set (node_files cfg p name e) \<Longrightarrow> \<exists>r. q = p @ name # r"
  by (induction cfg p name e arbitrary: q c rule: node_files.induct)
    (auto split: if_splits, metis append.assoc append_Cons append_Nil)

lemma listing_distinct:
  assumes "distinct (map fst es)" "\<And>m e. (m, e) \<in> set es \<Longrightarrow> distinct (map fst (node_files cfg p m e))"
  shows "distinct (map fst (files_below cfg p (Some es)))"
  using assms
proof (induction es)
  case (Cons x es)
  obtain m e where x: "x = (m, e)" by fastforce
  have "False" if a: "a \<in> set (node_files cfg p m e)" and b: "(m', e') \<in> set es" "b \<in> set (node_files cfg p m' e')"
    and eq: "fst a = fst b" for a b m' e'
  proof -
    obtain r r' where "fst a = p @ m # r" "fst b = p @ m' # r'"
      using node_files_prefix a b(2) by (metis prod.collapse)
    then have "m' = m" using eq by simp
    then show ?thesis using Cons.prems(1) b(1) by (force simp: x)
  qed
  then have "fst ` set (node_files cfg p m e) \<inter> fst ` set (files_below cfg p (Some es)) = {}"
    by (force simp: files_below_def)
  then show ?case using Cons by (simp add: x files_below_def)
qed (simp add: files_below_def)

lemma node_files_distinct: "well_named e \<Longrightarrow> distinct (map fst (node_files cfg p name e))"
proof (induction cfg p name e rule: node_files.induct)
  case (4 cfg p name es)
  then have "name \<notin> set (wc_excludes cfg) \<Longrightarrow> (m, e) \<in> set es \<Longrightarrow> distinct (map fst (node_files cfg (p @ [name]) m e))" for m e
    by (auto simp: list_all_iff)
  then show ?case
    using 4(2) listing_distinct [of es cfg "p @ [name]"]
    by (cases "name \<in> set (wc_excludes cfg)") (simp_all add: files_below_def)
qed simp_all

lemma files_below_distinct: "well_named (Directory d) \<Longrightarrow> distinct (map fst (files_below cfg p d))"
  by (cases d) (auto simp: files_below_def [of _ _ None] list_all_iff intro!: listing_distinct node_files_distinct)

lemma iter_source_files_eq:
  assumes "well_named (Directory d)"
  shows "iter_source_files cfg d = Some (sort_key fst (files_below cfg [] d))"
proof -
  obtain out where run: "while_option (\<lambda>(stack, out). stack \<noteq> []) (scan_step cfg) ([([], d)], []) = Some ([], out)"
    and m: "mset out = mset (files_below cfg [] d)" using scan_returns by blast
  have "set out = set (files_below cfg [] d)" using m by (rule mset_eq_setD)
  then have "inj_on fst (set out)" using files_below_distinct [OF assms] by (simp add: distinct_map)
  then have "sort_key fst out = sort_key fst (files_below cfg [] d)"
    using m by (intro sort_key_inj_key_eq) simp_all
  then show ?thesis by (simp add: iter_source_files_def run)
qed

text \<open>
  C36. The walk over the project tree terminates on every tree, whatever fails to open, and finds
  exactly the files that the recursive definition names: regular, with an included suffix or name, below no
  excluded directory, each once, in the order of their paths and not of the directory listings.
\<close>

theorem walk_terminates:
  assumes "well_named (Directory d)"
  shows "\<exists>files. iter_source_files cfg d = Some files \<and> mset files = mset (files_below cfg [] d) \<and>
    sorted (map fst files) \<and> distinct (map fst files)"
proof -
  have "distinct (map fst (sort_key fst (files_below cfg [] d)))"
    using files_below_distinct [OF assms, of cfg "[]"] by (simp add: distinct_map)
  then show ?thesis by (simp add: iter_source_files_eq [OF assms])
qed

definition sample_tree :: listing where
  "sample_tree = Some [(''src'', Directory (Some [(''b.py'', Regular (Some ''x'')), (''A.TS'', Regular (Some ''yz'')), (''n.txt'', Regular None)])),
     (''.git'', Directory (Some [(''c.py'', Regular (Some ''q''))])), (''Makefile'', Regular (Some ''all:'')), (''s'', Special),
     (''locked'', Directory None)]"

lemma sample_tree_files:
  "files_below (walk_config_of None None None) [] sample_tree =
     [([''src'', ''b.py''], Some ''x''), ([''src'', ''A.TS''], Some ''yz''), ([''Makefile''], Some ''all:'')]"
  by code_simp

lemma sample_tree_ok: "well_named (Directory sample_tree)"
  by code_simp

theorem walk_terminates_witness:
  "\<exists>files. iter_source_files (walk_config_of None None None) sample_tree = Some files \<and>
     mset files = {#([''Makefile''], Some ''all:''), ([''src'', ''A.TS''], Some ''yz''), ([''src'', ''b.py''], Some ''x'')#}"
  using walk_terminates [OF sample_tree_ok, of "walk_config_of None None None"]
  unfolding sample_tree_files by (auto simp: add_mset_commute)

section \<open>What the digest identifies\<close>

lemma split_at_inj:
  "x \<notin> set a \<Longrightarrow> x \<notin> set b \<Longrightarrow> a @ x # r = b @ x # s \<longleftrightarrow> a = b \<and> r = s"
proof (induction a arbitrary: b)
  case Nil
  then show ?case by (cases b) auto
next
  case (Cons c a)
  then show ?case by (cases b) auto
qed

lemma posix_inj:
  assumes "p \<noteq> []" "q \<noteq> []" "list_all name_ok p" "list_all name_ok q" "posix_path p = posix_path q"
  shows "p = q"
  using assms
proof (induction p arbitrary: q)
  case (Cons a p)
  obtain b q' where q: "q = b # q'" using Cons.prems(2) by (cases q) auto
  have ab: "CHR ''/'' \<notin> set a" "CHR ''/'' \<notin> set b" using Cons.prems(3,4) by (auto simp: q name_ok_def)
  have step: "posix_path (a # p) = (if p = [] then a else a @ CHR ''/'' # posix_path p)" for a p
    by (cases p) (simp_all add: posix_path_def py_join_def)
  show ?case
  proof (cases "p = []"; cases "q' = []")
    assume "p \<noteq> []" "q' \<noteq> []"
    then show ?thesis using Cons.prems Cons.IH [of q'] ab by (simp add: q step split_at_inj)
  qed (use Cons.prems ab in \<open>auto simp: q step\<close>)
qed simp

text \<open>Reading the digest input back: a path up to the NUL, a hash up to the newline.\<close>

function parse_records :: "string \<Rightarrow> (string \<times> string) list" where
  "parse_records s =
     (if s = [] then []
      else let p = takeWhile (\<lambda>c. c \<noteq> nul) s; r = drop (Suc (length p)) s; h = takeWhile (\<lambda>c. c \<noteq> newline) r
           in (p, h) # parse_records (drop (Suc (length h)) r))"
  by auto
termination by (relation "measure length") (auto simp: Let_def)

declare parse_records.simps [simp del] read_chunks.simps [simp del]

lemma takeWhile_upto: "x \<notin> set a \<Longrightarrow> takeWhile (\<lambda>c. c \<noteq> x) (a @ x # r) = a"
  by (induction a) auto

lemma parse_records_step:
  "nul \<notin> set p \<Longrightarrow> newline \<notin> set h \<Longrightarrow> parse_records (p @ nul # h @ newline # r) = (p, h) # parse_records r"
  by (subst parse_records.simps) (simp add: takeWhile_upto Let_def)

lemma parse_records_concat:
  "(\<And>p h. (p, h) \<in> set rs \<Longrightarrow> nul \<notin> set p \<and> newline \<notin> set h) \<Longrightarrow>
   parse_records (concat (map (\<lambda>(p, h). p @ [nul] @ h @ [newline]) rs)) = rs"
proof (induction rs)
  case Nil
  then show ?case by (simp add: parse_records.simps)
next
  case (Cons x rs)
  obtain p h where x: "x = (p, h)" by fastforce
  have "nul \<notin> set p" "newline \<notin> set h" using Cons.prems [of p h] by (simp_all add: x)
  moreover have "parse_records (concat (map (\<lambda>(p, h). p @ [nul] @ h @ [newline]) rs)) = rs"
    by (rule Cons.IH) (use Cons.prems in auto)
  ultimately show ?case by (simp add: x parse_records_step)
qed

lemma chunks_concat: "0 < n \<Longrightarrow> concat (read_chunks n s) = s"
proof (induction n s rule: read_chunks.induct)
  case (1 n s)
  then show ?case by (subst read_chunks.simps) (cases "s = []"; simp)
qed

lemma hash_file_eq: "hash_file sha c = (sha c, length c)"
proof -
  have "foldl (@) a xs = a @ concat xs" for a :: string and xs by (induction xs arbitrary: a) simp_all
  moreover have "foldl (\<lambda>n (chunk :: string). n + length chunk) k xs = k + length (concat xs)" for k xs
    by (induction xs arbitrary: k) simp_all
  moreover have "concat (read_chunks read_buffer c) = c" by (rule chunks_concat) (simp add: read_buffer_def)
  ultimately show ?thesis by (simp add: hash_file_def)
qed

definition digest_text :: "(string \<Rightarrow> string) \<Rightarrow> (path \<times> string option) list \<Rightarrow> string" where
  "digest_text sha files = concat (map (\<lambda>(p, c). digest_record p (sha (the c))) files)"

lemma hash_entries:
  "result_map (hash_entry sha) files =
   (if \<forall>e\<in>set files. snd e \<noteq> None then Inr (map (\<lambda>e. (fst e, sha (the (snd e)), length (the (snd e)))) files)
    else Inl (fst (hd (filter (\<lambda>e. snd e = None) files))))"
  by (induction files) (auto simp: hash_entry_def hash_file_eq split: option.splits)

lemma digest_files_eq:
  "digest_files sha files = Inr f \<longleftrightarrow>
   (\<forall>e\<in>set files. snd e \<noteq> None) \<and>
   f = \<lparr>sf_hash = sha (digest_text sha files), sf_file_count = length files,
        sf_total_bytes = sum_list (map (length \<circ> the \<circ> snd) files)\<rparr>"
  by (auto simp: digest_files_def hash_entries digest_text_def comp_def split_def split: sum.splits)

lemma node_files_names:
  "(q, c) \<in> set (node_files cfg p name e) \<Longrightarrow> list_all name_ok p \<Longrightarrow> name_ok name \<Longrightarrow> well_named e \<Longrightarrow>
   q \<noteq> [] \<and> list_all name_ok q"
  by (induction cfg p name e arbitrary: q c rule: node_files.induct) (fastforce simp: list_all_iff split: if_splits)+

lemma files_below_names:
  "well_named (Directory d) \<Longrightarrow> (q, c) \<in> set (files_below cfg [] d) \<Longrightarrow> q \<noteq> [] \<and> list_all name_ok q"
  by (cases d) (auto simp: files_below_def list_all_iff dest!: node_files_names)

lemma posix_no_nul: "list_all name_ok p \<Longrightarrow> nul \<notin> set (posix_path p)"
  by (cases p) (auto simp: posix_path_def py_join_def name_ok_def list_all_iff nul_def)

lemma digest_text_parses:
  assumes "well_named (Directory d)" "\<And>x. nul \<notin> set (sha x) \<and> newline \<notin> set (sha x)"
  shows "parse_records (digest_text sha (sort_key fst (files_below cfg [] d))) =
    map (\<lambda>(p, c). (posix_path p, sha (the c))) (sort_key fst (files_below cfg [] d))"
proof -
  let ?files = "sort_key fst (files_below cfg [] d)"
  have "digest_text sha ?files =
      concat (map (\<lambda>(p, h). p @ [nul] @ h @ [newline]) (map (\<lambda>(p, c). (posix_path p, sha (the c))) ?files))"
    by (simp add: digest_text_def digest_record_def comp_def split_def)
  also have "parse_records \<dots> = map (\<lambda>(p, c). (posix_path p, sha (the c))) ?files"
    by (rule parse_records_concat) (use assms files_below_names posix_no_nul in fastforce)
  finally show ?thesis .
qed

text \<open>
  The input of the digest can be read back. With a hash function whose output has neither a NUL nor a newline
  (hexadecimal digits), the bytes fed to the digest parse back to the relative path and content
  hash of every file of the tree, in order: no name, however odd, can make two records run together.
\<close>

theorem digest_roundtrip:
  assumes "well_named (Directory d)" "\<And>x. nul \<notin> set (sha x) \<and> newline \<notin> set (sha x)"
  shows "\<exists>files. iter_source_files cfg d = Some files \<and>
    parse_records (digest_text sha files) = map (\<lambda>(p, c). (posix_path p, sha (the c))) files"
  using iter_source_files_eq [OF assms(1)] digest_text_parses [OF assms] by auto

text \<open>A concrete hash function with the format of a hexadecimal digest, for the witnesses.\<close>

definition hex_encode :: "string \<Rightarrow> string" where
  "hex_encode s = concat (map (\<lambda>c. [hex_digit (of_char c div 16), hex_digit (of_char c mod 16)]) s)"

lemma hex_digit_plain: "n < 16 \<Longrightarrow> hex_digit n \<noteq> nul \<and> hex_digit n \<noteq> newline"
proof -
  have "list_all (\<lambda>n. hex_digit n \<noteq> nul \<and> hex_digit n \<noteq> newline) [0..<16]" by code_simp
  then show "n < 16 \<Longrightarrow> ?thesis" by (simp add: list_all_iff)
qed

lemma hex_encode_plain: "nul \<notin> set (hex_encode s) \<and> newline \<notin> set (hex_encode s)"
proof -
  have small: "of_char c div 16 < (16 :: nat)" for c :: char
    using nat_of_char_less_256 [of c] by (intro less_mult_imp_div_less) simp
  have "hex_digit (of_char c div 16) \<notin> {nul, newline} \<and> hex_digit (of_char c mod 16) \<notin> {nul, newline}" for c
    using hex_digit_plain [of "of_char c div 16"] hex_digit_plain [of "of_char c mod 16"] small [of c] by simp
  then show ?thesis unfolding hex_encode_def by auto metis+
qed

theorem digest_roundtrip_witness:
  "parse_records (digest_text hex_encode (the (iter_source_files (walk_config_of None None None) sample_tree))) =
     [(''Makefile'', ''616c6c3a''), (''src/A.TS'', ''797a''), (''src/b.py'', ''78'')]"
proof -
  have files: "iter_source_files (walk_config_of None None None) sample_tree =
      Some [([''Makefile''], Some ''all:''), ([''src'', ''A.TS''], Some ''yz''), ([''src'', ''b.py''], Some ''x'')]"
    unfolding iter_source_files_eq [OF sample_tree_ok] sample_tree_files by code_simp
  have "map (\<lambda>(p, c). (posix_path p, hex_encode (the c)))
      [([''Makefile''], Some ''all:''), ([''src'', ''A.TS''], Some ''yz''), ([''src'', ''b.py''], Some ''x'')] =
      [(''Makefile'', ''616c6c3a''), (''src/A.TS'', ''797a''), (''src/b.py'', ''78'')]" by code_simp
  then show ?thesis
    using digest_roundtrip [OF sample_tree_ok hex_encode_plain, of "walk_config_of None None None"] files by auto
qed

text \<open>The strings a fingerprint hashes: the content of every file and the digest input.\<close>

definition hashed_inputs :: "(string \<Rightarrow> string) \<Rightarrow> walk_config \<Rightarrow> listing \<Rightarrow> string set" where
  "hashed_inputs sha cfg d =
     insert (digest_text sha (sort_key fst (files_below cfg [] d))) ((\<lambda>e. the (snd e)) ` set (files_below cfg [] d))"

lemma compute_fingerprint_eq:
  "well_named (Directory d) \<Longrightarrow> compute_fingerprint sha S B X d =
     Some (digest_files sha (sort_key fst (files_below (walk_config_of S B X) [] d)))"
  by (simp add: compute_fingerprint_def iter_source_files_eq)

lemma same_files_same_order:
  assumes "well_named (Directory a)" "well_named (Directory b)" "set (files_below cfg [] a) = set (files_below cfg [] b)"
  shows "sort_key fst (files_below cfg [] a) = sort_key fst (files_below cfg [] b)"
proof -
  note d = files_below_distinct [OF assms(1), of cfg "[]"] files_below_distinct [OF assms(2), of cfg "[]"]
  have "mset (files_below cfg [] a) = mset (files_below cfg [] b)"
    using d assms(3) by (simp add: distinct_map set_eq_iff_mset_eq_distinct)
  then show ?thesis using d(1) by (intro sort_key_inj_key_eq) (simp_all add: distinct_map)
qed

lemma same_text_same_files:
  assumes "well_named (Directory a)" "well_named (Directory b)" "\<And>x. nul \<notin> set (sha x) \<and> newline \<notin> set (sha x)"
    and "inj_on sha (hashed_inputs sha cfg a \<union> hashed_inputs sha cfg b)"
    and "\<forall>e\<in>set (files_below cfg [] a) \<union> set (files_below cfg [] b). snd e \<noteq> None"
    and "digest_text sha (sort_key fst (files_below cfg [] a)) = digest_text sha (sort_key fst (files_below cfg [] b))"
  shows "sort_key fst (files_below cfg [] a) = sort_key fst (files_below cfg [] b)"
proof -
  let ?A = "sort_key fst (files_below cfg [] a)" and ?B = "sort_key fst (files_below cfg [] b)"
  let ?f = "\<lambda>(p, c). (posix_path p, sha (the c))"
  have "map ?f ?A = map ?f ?B"
    using digest_text_parses [where sha = sha and cfg = cfg, OF assms(1,3)] digest_text_parses [where sha = sha and cfg = cfg, OF assms(2,3)] assms(6) by simp
  moreover have "inj_on ?f (set ?A \<union> set ?B)"
  proof (rule inj_onI, clarify)
    fix p c q d
    assume m: "(p, c) \<in> set ?A \<union> set ?B" "(q, d) \<in> set ?A \<union> set ?B"
      and eq: "posix_path p = posix_path q" "sha (the c) = sha (the d)"
    have "p \<noteq> [] \<and> list_all name_ok p" "q \<noteq> [] \<and> list_all name_ok q"
      using m files_below_names [OF assms(1)] files_below_names [OF assms(2)] unfolding set_sort Un_iff by metis+
    then have "p = q" using posix_inj eq(1) by blast
    moreover have "the c \<in> hashed_inputs sha cfg a \<union> hashed_inputs sha cfg b" "the d \<in> hashed_inputs sha cfg a \<union> hashed_inputs sha cfg b"
      using m by (force simp: hashed_inputs_def)+
    then have "the c = the d" using assms(4) eq(2) by (auto dest: inj_onD)
    moreover have "c \<noteq> None" "d \<noteq> None" using bspec [OF assms(5), of "(p, c)"] bspec [OF assms(5), of "(q, d)"] m by simp_all
    ultimately show "p = q \<and> c = d" by auto
  qed
  ultimately show ?thesis by (rule map_inj_on)
qed

text \<open>
  C32. Equal fingerprints mean equal sources. Two trees have the same fingerprint exactly when the same
  relative paths with the same contents are included, unless the hash function collides on one of the strings
  actually hashed: modification times, listing order, absolute location and excluded or unreadable directories do not matter, and
  neither a rename nor a changed byte goes unnoticed.
\<close>

theorem fingerprint_identifies:
  assumes "well_named (Directory a)" "well_named (Directory b)"
    and "compute_fingerprint sha S B X a = Some (Inr fa)" "compute_fingerprint sha S B X b = Some (Inr fb)"
    and "\<And>x. nul \<notin> set (sha x) \<and> newline \<notin> set (sha x)"
    and "inj_on sha (hashed_inputs sha (walk_config_of S B X) a \<union> hashed_inputs sha (walk_config_of S B X) b)"
  shows "(fa = fb \<longleftrightarrow> set (files_below (walk_config_of S B X) [] a) = set (files_below (walk_config_of S B X) [] b)) \<and>
    (sf_hash fa = sf_hash fb \<longleftrightarrow> fa = fb)"
proof -
  let ?cfg = "walk_config_of S B X"
  let ?A = "sort_key fst (files_below ?cfg [] a)" and ?B = "sort_key fst (files_below ?cfg [] b)"
  have fa: "digest_files sha ?A = Inr fa" and fb: "digest_files sha ?B = Inr fb"
    using assms(3,4) compute_fingerprint_eq [OF assms(1)] compute_fingerprint_eq [OF assms(2)] by simp_all
  then have some: "\<forall>e\<in>set (files_below ?cfg [] a) \<union> set (files_below ?cfg [] b). snd e \<noteq> None"
    by (auto simp: digest_files_eq)
  have h: "sf_hash fa = sha (digest_text sha ?A)" "sf_hash fb = sha (digest_text sha ?B)"
    using fa fb by (simp_all add: digest_files_eq)
  have "?A = ?B" if "sf_hash fa = sf_hash fb"
    by (rule same_text_same_files [OF assms(1,2,5,6) some], rule inj_onD [OF assms(6) that [unfolded h]])
      (simp_all add: hashed_inputs_def)
  moreover have "fa = fb" if "?A = ?B" using that fa fb by simp
  moreover have "set (files_below ?cfg [] a) = set (files_below ?cfg [] b) \<longleftrightarrow> ?A = ?B"
    using same_files_same_order [OF assms(1,2)] by (metis set_sort)
  ultimately show ?thesis by auto
qed

definition moved_tree :: listing where
  "moved_tree = Some [(''Makefile'', Regular (Some ''all:'')), (''dist'', Directory (Some [(''old.js'', Regular None)])),
     (''src'', Directory (Some [(''A.TS'', Regular (Some ''yz'')), (''b.py'', Regular (Some ''x''))]))]"

theorem fingerprint_identifies_witness:
  "compute_fingerprint hex_encode None None None sample_tree = compute_fingerprint hex_encode None None None moved_tree"
proof -
  let ?cfg = "walk_config_of None None None"
  have ok: "well_named (Directory moved_tree)" by code_simp
  have m: "files_below ?cfg [] moved_tree =
     [([''Makefile''], Some ''all:''), ([''src'', ''A.TS''], Some ''yz''), ([''src'', ''b.py''], Some ''x'')]"
    by code_simp
  have srt: "sort_key fst (files_below ?cfg [] sample_tree) = files_below ?cfg [] moved_tree"
    "sort_key fst (files_below ?cfg [] moved_tree) = files_below ?cfg [] moved_tree"
    unfolding sample_tree_files m by code_simp+
  obtain fa fb where f: "digest_files hex_encode (files_below ?cfg [] moved_tree) = Inr fa"
    "compute_fingerprint hex_encode None None None sample_tree = Some (Inr fa)"
    "compute_fingerprint hex_encode None None None moved_tree = Some (Inr fb)"
    by (simp add: compute_fingerprint_eq [OF sample_tree_ok] compute_fingerprint_eq [OF ok] srt)
      (simp add: m digest_files_eq)
  have "digest_text hex_encode (files_below ?cfg [] moved_tree) \<notin> {''all:'', ''yz'', ''x''}"
    "hex_encode (digest_text hex_encode (files_below ?cfg [] moved_tree)) \<notin> hex_encode ` {''all:'', ''yz'', ''x''}"
    unfolding m by code_simp+
  moreover have "inj_on hex_encode {''all:'', ''yz'', ''x''}"
  proof -
    have "hex_encode ''all:'' \<noteq> hex_encode ''yz''" "hex_encode ''all:'' \<noteq> hex_encode ''x''" "hex_encode ''yz'' \<noteq> hex_encode ''x''"
      by code_simp+
    then show ?thesis by simp
  qed
  ultimately have "inj_on hex_encode (insert (digest_text hex_encode (files_below ?cfg [] moved_tree)) {''all:'', ''yz'', ''x''})"
    by simp
  then have "inj_on hex_encode (hashed_inputs hex_encode ?cfg sample_tree \<union> hashed_inputs hex_encode ?cfg moved_tree)"
    by (rule inj_on_subset) (auto simp: hashed_inputs_def srt, auto simp: m sample_tree_files)
  from fingerprint_identifies [OF sample_tree_ok ok f(2,3) hex_encode_plain this]
  have "fa = fb" by (auto simp: m sample_tree_files)
  then show ?thesis using f by simp
qed

end
