(* ===== verification/Healer.thy ===== *)
theory Healer
  imports Difflib Scoring NetAddr
begin

text \<open>
  The healer of \<open>engine/healer/\<close>: the proposal model (\<open>models.py\<close>), the assertion-weakening guard and the
  diff text (\<open>diff.py\<close>), the locator, wait and fixture repairs (\<open>locator_repair.py\<close>,
  \<open>wait_repair.py\<close>, \<open>fixture_repair.py\<close>), the facade (\<open>pipeline.py\<close>), the hand-edit check (\<open>banner.py\<close>) and the auto-apply gate
  (\<open>gating.py\<close>). A regular expression is a function that returns what is left after the match; those of the source are deterministic
  (what follows a repetition is never in its class) except where the definition searches. \<open>\<w>\<close>, \<open>\<s>\<close> and digits are ASCII.
\<close>

section \<open>Proposals\<close>

datatype repair_kind = Rk_assertion | Rk_fixture | Rk_locator | Rk_wait

fun repair_kind_name :: "repair_kind \<Rightarrow> string" where
  "repair_kind_name Rk_assertion = ''assertion''"
| "repair_kind_name Rk_fixture = ''fixture''"
| "repair_kind_name Rk_locator = ''locator''"
| "repair_kind_name Rk_wait = ''wait''"

record locator_descriptor =
  ld_role :: "string option"
  ld_accessible_name :: "string option"
  ld_text :: "string option"
  ld_landmarks :: "string list"
  ld_tag_name :: "string option"

record repair_proposal =
  rp_id :: string
  rp_kind :: repair_kind
  rp_target_test :: string
  rp_target_test_line :: "int option"
  rp_original_behavior :: string
  rp_proposed_change :: string
  rp_confidence :: flt
  rp_reason :: string
  rp_evidence :: "evidence list"
  rp_requires_human_review :: bool
  rp_unified_diff :: string
  rp_descriptor :: "locator_descriptor option"

text \<open>\<open>He_validation\<close> is pydantic's \<open>ValidationError\<close>, with the first field that fails; \<open>He_weakening\<close> holds the two counts.\<close>

datatype healer_error = He_validation string | He_weakening nat nat

definition strip_descriptor :: "locator_descriptor \<Rightarrow> locator_descriptor" where
  "strip_descriptor d =
     \<lparr>ld_role = map_option model_strip (ld_role d), ld_accessible_name = map_option model_strip (ld_accessible_name d),
      ld_text = map_option model_strip (ld_text d), ld_landmarks = map model_strip (ld_landmarks d),
      ld_tag_name = map_option model_strip (ld_tag_name d)\<rparr>"

definition opt_bounded :: "nat \<Rightarrow> string option \<Rightarrow> bool" where
  "opt_bounded n s = (case s of None \<Rightarrow> True | Some t \<Rightarrow> py_len t \<le> n)"

definition check_descriptor :: "locator_descriptor \<Rightarrow> healer_error + locator_descriptor" where
  "check_descriptor d =
     (let d' = strip_descriptor d in
      if \<not> opt_bounded 128 (ld_role d') then Inl (He_validation ''role'')
      else if \<not> opt_bounded 512 (ld_accessible_name d') then Inl (He_validation ''accessible_name'')
      else if \<not> opt_bounded 512 (ld_text d') then Inl (He_validation ''text'')
      else if \<not> opt_bounded 64 (ld_tag_name d') then Inl (He_validation ''tag_name'')
      else Inr d')"

definition strip_proposal :: "repair_proposal \<Rightarrow> repair_proposal" where
  "strip_proposal p = p\<lparr>rp_id := model_strip (rp_id p), rp_target_test := model_strip (rp_target_test p),
     rp_original_behavior := model_strip (rp_original_behavior p), rp_proposed_change := model_strip (rp_proposed_change p),
     rp_reason := model_strip (rp_reason p), rp_unified_diff := model_strip (rp_unified_diff p)\<rparr>"

definition check_proposal :: "repair_proposal \<Rightarrow> healer_error + repair_proposal" where
  "check_proposal p0 =
     (let p = strip_proposal p0 in
      if \<not> is_valid_id ''RPR'' (rp_id p) then Inl (He_validation ''id'')
      else if \<not> bounded_str 1 2048 (rp_target_test p) then Inl (He_validation ''target_test'')
      else if (case rp_target_test_line p of None \<Rightarrow> False | Some l \<Rightarrow> l < 1 \<or> 1000000 < l) then Inl (He_validation ''target_test_line'')
      else if \<not> bounded_str 1 8000 (rp_original_behavior p) then Inl (He_validation ''original_behavior'')
      else if \<not> bounded_str 1 8000 (rp_proposed_change p) then Inl (He_validation ''proposed_change'')
      else if rp_confidence p < 0 \<or> 1 < rp_confidence p then Inl (He_validation ''confidence'')
      else if \<not> bounded_str 1 4000 (rp_reason p) then Inl (He_validation ''reason'')
      else if \<not> list_all (\<lambda>e. is_valid_id ''EVD'' (ev_id e)) (rp_evidence p) then Inl (He_validation ''evidence'')
      else if \<not> bounded_str 1 64000 (rp_unified_diff p) then Inl (He_validation ''unified_diff'')
      else if \<not> py_startswith (before_char newline (rp_unified_diff p)) ''--- '' then Inl (He_validation ''unified_diff'')
      else Inr p)"

section \<open>The assertion guard\<close>

definition skip_spaces :: "string \<Rightarrow> string" where
  "skip_spaces s = dropWhile is_space s"

definition lit :: "string \<Rightarrow> string \<Rightarrow> string option" where
  "lit p s = (if py_startswith s p then Some (drop (length p) s) else None)"

definition open_paren :: "string \<Rightarrow> string option" where
  "open_paren s = lit ''('' (skip_spaces s)"

text \<open>
  The six patterns of \<open>_ASSERTION_RES\<close>, at the head of a text whose preceding character is a word character or not: \<open>expect(\<close>, \<open>.toBeX...(\<close>,
  \<open>.toHaveX...(\<close>, \<open>.toEqual(\<close>, \<open>.toMatch(\<close>, \<open>.toContain(\<close>.
\<close>

type_synonym pattern = "bool \<Rightarrow> string \<Rightarrow> string option"

definition expect_call :: pattern where
  "expect_call after_word s = (if after_word then None else Option.bind (lit ''expect'' s) open_paren)"

definition family_call :: "string \<Rightarrow> pattern" where
  "family_call prefix _ s =
     (case lit prefix s of
        Some (c # r) \<Rightarrow>
          (if is_upper_char c \<and> takeWhile is_word_char r \<noteq> [] then open_paren (dropWhile is_word_char r) else None)
      | _ \<Rightarrow> None)"

definition method_call :: "string \<Rightarrow> pattern" where
  "method_call name _ s = Option.bind (lit name s) open_paren"

definition assertion_patterns :: "pattern list" where
  "assertion_patterns =
     [expect_call, family_call ''.toBe'', family_call ''.toHave'', method_call ''.toEqual'', method_call ''.toMatch'', method_call ''.toContain'']"

text \<open>\<open>len(rx.findall(s))\<close>: matches are never empty and end with a parenthesis.\<close>

function count_matches :: "pattern \<Rightarrow> bool \<Rightarrow> string \<Rightarrow> nat" where
  "count_matches p after_word s =
     (if s = [] then 0
      else case p after_word s of
        None \<Rightarrow> count_matches p (is_word_char (hd s)) (tl s)
      | Some r \<Rightarrow> if length r < length s then Suc (count_matches p False r) else count_matches p (is_word_char (hd s)) (tl s))"
  by auto
termination by (relation "measure (\<lambda>(p, w, s). length s)") auto

declare count_matches.simps [simp del]

definition count_assertions :: "string \<Rightarrow> nat" where
  "count_assertions source = sum_list (map (\<lambda>p. count_matches p False source) assertion_patterns)"

text \<open>What follows the first occurrence of a substring.\<close>

fun after_sub :: "string \<Rightarrow> string \<Rightarrow> string option" where
  "after_sub sub [] = (if sub = [] then Some [] else None)"
| "after_sub sub (c # cs) = (if py_startswith (c # cs) sub then Some (drop (length sub) (c # cs)) else after_sub sub cs)"

lemma after_sub_length: "after_sub sub s = Some r \<Longrightarrow> length r \<le> length s"
  by (induction sub s rule: after_sub.induct) (auto split: if_splits)

text \<open>\<open>re.sub(r"/\*.*?\*/", "", s, flags=re.DOTALL)\<close>, then \<open>re.sub(r"//[^\n]*", "", s)\<close>.\<close>

function strip_block_comments :: "string \<Rightarrow> string" where
  "strip_block_comments s =
     (if s = [] then []
      else case Option.bind (lit ''/*'' s) (after_sub ''*/'') of
        Some r \<Rightarrow> (if length r < length s then strip_block_comments r else [])
      | None \<Rightarrow> hd s # strip_block_comments (tl s))"
  by auto
termination by (relation "measure length") auto

function strip_line_comments :: "string \<Rightarrow> string" where
  "strip_line_comments s =
     (if s = [] then []
      else if py_startswith s ''//'' then strip_line_comments (dropWhile (\<lambda>c. c \<noteq> newline) (drop 2 s))
      else hd s # strip_line_comments (tl s))"
  by auto
termination
proof (relation "measure length", goal_cases)
  case prems: (2 s)
  have "length (dropWhile (\<lambda>c. c \<noteq> newline) (drop 2 s)) \<le> length (drop 2 s)" by (rule length_dropWhile_le)
  then show ?case using prems by (cases s) auto
qed auto

declare strip_block_comments.simps [simp del] strip_line_comments.simps [simp del]

definition strip_comments :: "string \<Rightarrow> string" where
  "strip_comments source = strip_line_comments (strip_block_comments source)"

definition assert_no_assertion_weakening :: "string \<Rightarrow> string \<Rightarrow> bool \<Rightarrow> healer_error + unit" where
  "assert_no_assertion_weakening original proposed allow_weaken =
     (if allow_weaken then Inr ()
      else let count_before = count_assertions (strip_comments original); count_after = count_assertions (strip_comments proposed)
           in if count_after < count_before then Inl (He_weakening count_before count_after) else Inr ())"

definition unified_diff_for :: "string \<Rightarrow> string \<Rightarrow> string \<Rightarrow> string" where
  "unified_diff_for path original proposed =
     (let s = concat (unified_diff (splitlines original) (splitlines proposed) path path 3)
      in if s \<noteq> [] \<and> last s \<noteq> newline then s @ [newline] else s)"

section \<open>Locator repair\<close>

record dom_candidate =
  dc_role :: string
  dc_accessible_name :: string
  dc_text :: string
  dc_landmarks :: "string list"
  dc_tag_name :: "string option"

definition string_similarity :: "string \<Rightarrow> string \<Rightarrow> flt" where
  "string_similarity a b = ratio (py_chars (py_lower a)) (py_chars (py_lower b))"

definition score_candidate :: "locator_descriptor \<Rightarrow> dom_candidate \<Rightarrow> flt \<times> string" where
  "score_candidate d c =
     (if ld_role d = None \<or> Some (dc_role c) \<noteq> ld_role d then (0, ''role mismatch'')
      else
        let same_name = (ld_accessible_name d = Some (dc_accessible_name c));
            same_landmark = (ld_landmarks d \<noteq> [] \<and> dc_landmarks c \<noteq> [] \<and> last (ld_landmarks d) = last (dc_landmarks c))
        in if same_name \<and> same_landmark then (fl (95 / 100), ''exact role + name match in same landmark'')
           else if same_name then (fl (9 / 10), ''exact role + name match (landmark differs)'')
           else case ld_accessible_name d of
               None \<Rightarrow> (fl (5 / 10), ''role match only; descriptor had no accessible name'')
             | Some name \<Rightarrow>
                 (let similarity = string_similarity name (dc_accessible_name c) in
                  if fl (8 / 10) \<le> similarity \<and> same_landmark
                  then (fl (75 / 100), ''role match + fuzzy name match in same landmark ('' @ fmt_fixed 2 similarity @ '')'')
                  else if fl (8 / 10) \<le> similarity
                  then (fl (7 / 10), ''role match + fuzzy name match ('' @ fmt_fixed 2 similarity @ '')'')
                  else (fl (5 / 10), ''role match only'')))"

definition scored_candidates :: "locator_descriptor \<Rightarrow> dom_candidate list \<Rightarrow> (flt \<times> string \<times> dom_candidate) list" where
  "scored_candidates d candidates =
     filter (\<lambda>s. 0 < fst s) (map (\<lambda>x. (fst (score_candidate d x), snd (score_candidate d x), x)) candidates)"

definition best_candidate :: "locator_descriptor \<Rightarrow> dom_candidate list \<Rightarrow> (dom_candidate \<times> flt \<times> string) option" where
  "best_candidate d candidates =
     (case sort_key (\<lambda>s. (- fst s, dc_accessible_name (snd (snd s)))) (scored_candidates d candidates) of
        [] \<Rightarrow> None
      | (confidence, rationale, c) # _ \<Rightarrow> Some (c, confidence, rationale))"

text \<open>\<open>re.escape\<close>.\<close>

definition re_special :: string where
  "re_special = ''()[]{}?*+-|^$.&~# '' @ map char_of [92 :: nat, 9, 10, 13, 11, 12]"

definition re_escape :: "string \<Rightarrow> string" where
  "re_escape s = concat (map (\<lambda>c. if c \<in> set re_special then [CHR 0x5C, c] else [c]) s)"

definition name_arg_literal :: "string \<Rightarrow> string" where
  "name_arg_literal name = ''/'' @ re_escape name @ ''/i''"

text \<open>The literal of the \<open>name\<close> group: \<open>/[^/]*/[a-zA-Z]*\<close> or a string in quotes. The result is the literal and the rest.\<close>

definition is_slash :: "char \<Rightarrow> bool" where
  "is_slash c \<longleftrightarrow> c = CHR ''/''"

definition is_quote :: "char \<Rightarrow> bool" where
  "is_quote c \<longleftrightarrow> c = CHR 0x27 \<or> c = CHR 0x22"

definition is_delimiter :: "char \<Rightarrow> bool" where
  "is_delimiter c \<longleftrightarrow> is_slash c \<or> is_quote c"

definition name_literal :: "string \<Rightarrow> (string \<times> string) option" where
  "name_literal s =
     (case s of [] \<Rightarrow> None
      | q # r \<Rightarrow>
        (if is_delimiter q
         then case dropWhile (\<lambda>c. c \<noteq> q) r of [] \<Rightarrow> None
              | _ # rest \<Rightarrow>
                (let flags = (if is_slash q then takeWhile is_ascii_alpha rest else [])
                 in Some (q # takeWhile (\<lambda>c. c \<noteq> q) r @ [q] @ flags, drop (length flags) rest))
         else None))"

definition nonempty_while :: "(char \<Rightarrow> bool) \<Rightarrow> string \<Rightarrow> (string \<times> string) option" where
  "nonempty_while P s = (if takeWhile P s = [] then None else Some (takeWhile P s, dropWhile P s))"

definition char_if :: "(char \<Rightarrow> bool) \<Rightarrow> string \<Rightarrow> string option" where
  "char_if P s = (case s of [] \<Rightarrow> None | c # r \<Rightarrow> if P c then Some r else None)"

text \<open>\<open>_GETBYROLE_RE\<close> at the head of a text: what stands before the name literal, the literal, and the rest after it.\<close>

definition match_getbyrole :: "string \<Rightarrow> (string \<times> string \<times> string) option" where
  "match_getbyrole s =
     Option.bind (lit ''getByRole('' s) (\<lambda>r1.
     Option.bind (char_if is_quote (skip_spaces r1)) (\<lambda>r2.
     Option.bind (nonempty_while is_ascii_alpha r2) (\<lambda>(_, r3).
     Option.bind (char_if is_quote r3) (\<lambda>r4.
     Option.bind (lit '','' (skip_spaces r4)) (\<lambda>r5.
     Option.bind (lit ''{'' (skip_spaces r5)) (\<lambda>r6.
     Option.bind (lit ''name:'' (skip_spaces r6)) (\<lambda>r7.
     Option.bind (name_literal (skip_spaces r7)) (\<lambda>(name, r8).
     Option.bind (lit ''}'' (skip_spaces r8)) (\<lambda>r9.
     Option.bind (lit '')'' (skip_spaces r9)) (\<lambda>_.
     Some (take (length s - length (skip_spaces r7)) s, name, r8)))))))))))"

fun search_getbyrole :: "string \<Rightarrow> string \<Rightarrow> (string \<times> string \<times> string) option" where
  "search_getbyrole acc [] = None"
| "search_getbyrole acc (c # cs) =
     (case match_getbyrole (c # cs) of Some (b, name, r) \<Rightarrow> Some (acc @ b, name, r)
      | None \<Rightarrow> search_getbyrole (acc @ [c]) cs)"

definition replace_locator_in_line :: "string \<Rightarrow> string \<Rightarrow> string option" where
  "replace_locator_in_line line new_name =
     (case search_getbyrole [] line of None \<Rightarrow> None
      | Some (b, name, r) \<Rightarrow> Some (b @ name_arg_literal new_name @ r))"

definition opt_repr :: "string option \<Rightarrow> string" where
  "opt_repr s = (case s of None \<Rightarrow> ''None'' | Some t \<Rightarrow> py_repr t)"

definition rstrip_newlines :: "string \<Rightarrow> string" where
  "rstrip_newlines s = rev (dropWhile (\<lambda>c. c = newline) (rev s))"

definition source_ref :: "string \<Rightarrow> string \<Rightarrow> healer_error + evidence" where
  "source_ref evd path =
     (if is_valid_id ''EVD'' evd then Inr \<lparr>ev_id = evd, ev_type = Source_Ref, ev_path = path\<rparr> else Inl (He_validation ''evidence''))"

text \<open>\<open>text or None\<close>.\<close>

definition or_none :: "string \<Rightarrow> string option" where
  "or_none s = (if s = [] then None else Some s)"

definition candidate_descriptor :: "dom_candidate \<Rightarrow> locator_descriptor" where
  "candidate_descriptor c =
     \<lparr>ld_role = Some (dc_role c), ld_accessible_name = Some (dc_accessible_name c), ld_text = or_none (dc_text c),
      ld_landmarks = dc_landmarks c, ld_tag_name = dc_tag_name c\<rparr>"

text \<open>A 1-based line number as an index into the lines.\<close>

definition line_index :: "int \<Rightarrow> 'a list \<Rightarrow> nat option" where
  "line_index line lines = (if line < 1 \<or> int (length lines) < line then None else Some (nat (line - 1)))"

definition locator_reason :: "locator_descriptor \<Rightarrow> dom_candidate \<Rightarrow> string \<Rightarrow> string" where
  "locator_reason d c rationale =
     ''Locator no longer matches. Descriptor: role='' @ opt_repr (ld_role d) @ '', name='' @
       opt_repr (ld_accessible_name d) @ ''. Best new match: name='' @ py_repr (dc_accessible_name c) @
       '' ('' @ rationale @ '').''"

definition locator_proposal ::
  "string \<Rightarrow> int \<Rightarrow> locator_descriptor \<Rightarrow> string \<Rightarrow> string \<Rightarrow> flt \<Rightarrow> dom_candidate \<times> flt \<times> string \<times> string \<times> string
     \<Rightarrow> string \<Rightarrow> string \<Rightarrow> healer_error + repair_proposal" where
  "locator_proposal path line d original proposed threshold chosen rpr evd =
     (case chosen of (c, confidence, rationale, target_line, new_line) \<Rightarrow>
       (case source_ref evd path of Inl e \<Rightarrow> Inl e
        | Inr ev \<Rightarrow>
          (case check_descriptor (candidate_descriptor c) of Inl e \<Rightarrow> Inl e
           | Inr d' \<Rightarrow> check_proposal
              \<lparr>rp_id = rpr, rp_kind = Rk_locator, rp_target_test = path, rp_target_test_line = Some line,
               rp_original_behavior = rstrip_newlines target_line, rp_proposed_change = rstrip_newlines new_line,
               rp_confidence = confidence,
               rp_reason = locator_reason d c rationale,
               rp_evidence = [ev], rp_requires_human_review = (confidence < threshold),
               rp_unified_diff = unified_diff_for path original proposed, rp_descriptor = Some d'\<rparr>)))"

definition propose_locator_repair ::
  "string \<Rightarrow> string \<Rightarrow> int \<Rightarrow> locator_descriptor \<Rightarrow> dom_candidate list \<Rightarrow> flt \<Rightarrow> string \<Rightarrow> string
     \<Rightarrow> healer_error + repair_proposal option" where
  "propose_locator_repair path source line d candidates threshold rpr evd =
     (case best_candidate d candidates of None \<Rightarrow> Inr None
      | Some (c, confidence, rationale) \<Rightarrow>
        (let lines = splitlines source in
         case line_index line lines of None \<Rightarrow> Inr None
         | Some i \<Rightarrow>
           (case replace_locator_in_line (lines ! i) (dc_accessible_name c) of None \<Rightarrow> Inr None
            | Some new_line \<Rightarrow>
              (let proposed = concat (lines[i := new_line]) in
               case assert_no_assertion_weakening source proposed False of Inl e \<Rightarrow> Inl e
               | Inr _ \<Rightarrow> map_sum id Some
                   (locator_proposal path line d source proposed threshold (c, confidence, rationale, lines ! i, new_line) rpr evd)))))"

section \<open>Wait repair\<close>

text \<open>\<open>\s*;?\s*$\<close>.\<close>

definition end_of_statement :: "string \<Rightarrow> bool" where
  "end_of_statement s = (let r = skip_spaces s in skip_spaces (case r of CHR '';'' # t \<Rightarrow> t | _ \<Rightarrow> r) = [])"

text \<open>\<open>_WAIT_FOR_TIMEOUT_RE\<close>: the indentation and the number.\<close>

definition match_wait :: "string \<Rightarrow> (string \<times> string) option" where
  "match_wait line =
     Option.bind (lit ''await'' (skip_spaces line)) (\<lambda>r1.
     Option.bind (nonempty_while is_space r1) (\<lambda>(_, r2).
     Option.bind (lit ''page.waitForTimeout('' r2) (\<lambda>r3.
     Option.bind (nonempty_while is_digit_char (skip_spaces r3)) (\<lambda>(ms, r4).
       (let (fraction, r5) =
          (case r4 of CHR ''.'' # t \<Rightarrow>
             (case nonempty_while is_digit_char t of Some (ds, r) \<Rightarrow> (CHR ''.'' # ds, r) | None \<Rightarrow> ([], r4))
           | _ \<Rightarrow> ([], r4))
        in Option.bind (lit '')'' (skip_spaces r5)) (\<lambda>r6.
           if end_of_statement r6 then Some (takeWhile is_space line, ms @ fraction) else None))))))"

definition wait_matchers :: "string list" where
  "wait_matchers = [''toBeVisible'', ''toHaveText'', ''toHaveValue'', ''toBeEnabled'', ''toBeDisabled'', ''toBeChecked'']"

definition matcher_prefix :: "string \<Rightarrow> (string \<times> string) option" where
  "matcher_prefix s =
     (case filter (py_startswith s) wait_matchers of [] \<Rightarrow> None | m # _ \<Rightarrow> Some (m, drop (length m) s))"

text \<open>\<open>\s*\)\.(matcher)\s*\([^)]*\)\s*;?\s*$\<close>.\<close>

definition match_expect_tail :: "string \<Rightarrow> string option" where
  "match_expect_tail s =
     Option.bind (lit '').'' (skip_spaces s)) (\<lambda>r1.
     Option.bind (matcher_prefix r1) (\<lambda>(m, r2).
     Option.bind (open_paren r2) (\<lambda>r3.
       (case dropWhile (\<lambda>c. c \<noteq> CHR '')'') r3 of [] \<Rightarrow> None
        | _ # r4 \<Rightarrow> if end_of_statement r4 then Some m else None))))"

text \<open>The lazy group: the shortest nonempty target, without a newline, whose rest matches.\<close>

fun lazy_target :: "string \<Rightarrow> string \<Rightarrow> (string \<times> string) option" where
  "lazy_target acc s =
     (case (if acc = [] then None else match_expect_tail s) of
        Some m \<Rightarrow> Some (acc, m)
      | None \<Rightarrow> (case s of [] \<Rightarrow> None | c # cs \<Rightarrow> if c = newline then None else lazy_target (acc @ [c]) cs))"

declare lazy_target.simps [simp del]

text \<open>\<open>expect\(\s*\<close> gives spaces back one at a time.\<close>

fun backtrack_spaces :: "nat \<Rightarrow> string \<Rightarrow> (string \<times> string) option" where
  "backtrack_spaces 0 s = lazy_target [] s"
| "backtrack_spaces (Suc n) s =
     (case lazy_target [] (drop (Suc n) s) of Some m \<Rightarrow> Some m | None \<Rightarrow> backtrack_spaces n s)"

text \<open>\<open>_EXPECT_RE\<close>: target and matcher.\<close>

definition match_expect :: "string \<Rightarrow> (string \<times> string) option" where
  "match_expect line =
     Option.bind (lit ''await'' (skip_spaces line)) (\<lambda>r1.
     Option.bind (nonempty_while is_space r1) (\<lambda>(_, r2).
     Option.bind (lit ''expect('' r2) (\<lambda>r3. backtrack_spaces (length (takeWhile is_space r3)) r3)))"

fun find_next_expect :: "string list \<Rightarrow> (string \<times> string) option" where
  "find_next_expect [] = None"
| "find_next_expect (line # rest) =
     (if py_strip line = [] then find_next_expect rest
      else case match_expect line of Some m \<Rightarrow> Some m
      | None \<Rightarrow>
        (let stripped = py_strip line in
         if py_startswith stripped ''}'' then None
         else if py_in ''test('' stripped \<or> py_startswith stripped ''test.'' \<or> py_startswith stripped ''describe('' then None
         else find_next_expect rest))"

definition propose_wait_repair ::
  "string \<Rightarrow> string \<Rightarrow> int \<Rightarrow> flt \<Rightarrow> string \<Rightarrow> string \<Rightarrow> healer_error + repair_proposal option" where
  "propose_wait_repair path source line threshold rpr evd =
     (let lines = splitlines source in
      case line_index line lines of None \<Rightarrow> Inr None
      | Some i \<Rightarrow>
        (case match_wait (lines ! i) of None \<Rightarrow> Inr None
         | Some (indent, ms) \<Rightarrow>
           (let proposed = concat (lines[i := []]);
                (confidence, review, change, reason) =
                  (case find_next_expect (drop (Suc i) lines) of
                     None \<Rightarrow>
                       (fl (3 / 10), True, indent @ ''// (line removed)'',
                        ''`await page.waitForTimeout('' @ ms @ '')` is forbidden by our engineering rules and no following '' @
                        ''assertion was found to anchor an explicit wait.'')
                   | Some (target, matcher) \<Rightarrow>
                       (let confidence = (if matcher \<in> {''toBeVisible'', ''toHaveText''} then fl (9 / 10) else fl (6 / 10));
                            call = ''`await expect('' @ py_strip target @ '').'' @ matcher @ ''(...)`''
                        in (confidence, confidence < threshold,
                            indent @ ''// (line removed '' @ em_dash @ '' relying on '' @ call @ '' below)'',
                            ''`await page.waitForTimeout('' @ ms @ '')` is forbidden by our engineering rules. '' @
                            ''Playwright auto-waiting on '' @ call @ '' below already provides the synchronization.'')))
            in case source_ref evd path of Inl e \<Rightarrow> Inl e
               | Inr ev \<Rightarrow> map_sum id Some (check_proposal
                  \<lparr>rp_id = rpr, rp_kind = Rk_wait, rp_target_test = path, rp_target_test_line = Some line,
                   rp_original_behavior = rstrip_newlines (lines ! i), rp_proposed_change = change, rp_confidence = confidence,
                   rp_reason = reason, rp_evidence = [ev], rp_requires_human_review = review,
                   rp_unified_diff = unified_diff_for path source proposed, rp_descriptor = None\<rparr>))))"

section \<open>Fixture repair\<close>

text \<open>\<open>str\<close> of a tuple of strings.\<close>

definition tuple_repr :: "string list \<Rightarrow> string" where
  "tuple_repr ss = ''('' @ py_join '', '' (map py_repr ss) @ (if length ss = 1 then '','' else []) @ '')''"

definition propose_fixture_repair ::
  "string \<Rightarrow> string \<Rightarrow> int \<Rightarrow> string \<Rightarrow> string \<Rightarrow> string list \<Rightarrow> string list \<Rightarrow> string \<Rightarrow> string
     \<Rightarrow> healer_error + repair_proposal" where
  "propose_fixture_repair path source line failure_kind seed_command expected actual rpr evd =
     (let lines = splitlines source;
          (i, original_line) =
            (case line_index line lines of None \<Rightarrow> (0, ''// (fixture call line out of range)'' @ [newline]) | Some i \<Rightarrow> (i, lines ! i));
          missing = filter (\<lambda>f. f \<notin> set actual) expected;
          extra = filter (\<lambda>f. f \<notin> set expected) actual;
          (confidence, reason, action) =
            (if failure_kind = ''missing_entity''
             then (fl (85 / 100),
                   ''Fixture call returned 404 / empty body. The seeded record is missing. Run `'' @ seed_command @ ''` to reseed.'', seed_command)
             else (fl (7 / 10),
                   ''Fixture shape does not match the current API contract. Missing fields: '' @ tuple_repr missing @
                   ''. Unexpected fields: '' @ tuple_repr extra @ ''. Regenerate the fixture from the current OpenAPI/GraphQL schema.'',
                   ''sentinel generate --from-discovery''));
          annotation = ''// HEALER PROPOSAL ('' @ failure_kind @ ''): '' @ action @ [newline];
          proposed = concat (if i < length lines then take i lines @ [annotation] @ drop i lines else lines @ [annotation])
      in case source_ref evd path of Inl e \<Rightarrow> Inl e
         | Inr ev \<Rightarrow> check_proposal
            \<lparr>rp_id = rpr, rp_kind = Rk_fixture, rp_target_test = path, rp_target_test_line = Some line,
             rp_original_behavior = rstrip_newlines original_line,
             rp_proposed_change = ''Run `'' @ action @ ''` and re-execute the fixture.'', rp_confidence = confidence,
             rp_reason = reason, rp_evidence = [ev], rp_requires_human_review = True,
             rp_unified_diff = unified_diff_for path source proposed, rp_descriptor = None\<rparr>)"

section \<open>The facade\<close>

record healer_inputs =
  hi_test_path :: string
  hi_test_source :: string
  hi_locator_line :: "int option"
  hi_descriptor :: "locator_descriptor option"
  hi_dom_candidates :: "dom_candidate list"
  hi_wait_line :: "int option"
  hi_fixture_call_line :: "int option"
  hi_fixture_failure_kind :: "string option"
  hi_fixture_seed_command :: string
  hi_fixture_expected :: "string list"
  hi_fixture_actual :: "string list"

text \<open>The identifiers the generator yields for the three proposers, each a proposal and an evidence identifier.\<close>

type_synonym repair_ids = "(string \<times> string) \<times> (string \<times> string) \<times> (string \<times> string)"

definition locator_part :: "healer_inputs \<Rightarrow> flt \<Rightarrow> string \<times> string \<Rightarrow> healer_error + repair_proposal option" where
  "locator_part inp threshold ids =
     (case (hi_locator_line inp, hi_descriptor inp) of
        (Some line, Some d) \<Rightarrow>
          if hi_dom_candidates inp = [] then Inr None
          else propose_locator_repair (hi_test_path inp) (hi_test_source inp) line d (hi_dom_candidates inp) threshold (fst ids) (snd ids)
      | _ \<Rightarrow> Inr None)"

definition wait_part :: "healer_inputs \<Rightarrow> flt \<Rightarrow> string \<times> string \<Rightarrow> healer_error + repair_proposal option" where
  "wait_part inp threshold ids =
     (case hi_wait_line inp of None \<Rightarrow> Inr None
      | Some line \<Rightarrow> propose_wait_repair (hi_test_path inp) (hi_test_source inp) line threshold (fst ids) (snd ids))"

definition fixture_part :: "healer_inputs \<Rightarrow> string \<times> string \<Rightarrow> healer_error + repair_proposal option" where
  "fixture_part inp ids =
     (case (hi_fixture_call_line inp, hi_fixture_failure_kind inp) of
        (Some line, Some kind) \<Rightarrow>
          if kind \<in> {''missing_entity'', ''contract_drift''}
          then map_sum id Some (propose_fixture_repair (hi_test_path inp) (hi_test_source inp) line kind (hi_fixture_seed_command inp)
                 (hi_fixture_expected inp) (hi_fixture_actual inp) (fst ids) (snd ids))
          else Inr None
      | _ \<Rightarrow> Inr None)"

definition proposal_key :: "repair_proposal \<Rightarrow> string \<times> string" where
  "proposal_key p = (repair_kind_name (rp_kind p), rp_id p)"

definition healer_propose :: "healer_inputs \<Rightarrow> flt \<Rightarrow> repair_ids \<Rightarrow> healer_error + repair_proposal list" where
  "healer_propose inp threshold ids =
     (case ids of (l, w, f) \<Rightarrow>
       (case locator_part inp threshold l of Inl e \<Rightarrow> Inl e
        | Inr a \<Rightarrow> (case wait_part inp threshold w of Inl e \<Rightarrow> Inl e
          | Inr b \<Rightarrow> (case fixture_part inp f of Inl e \<Rightarrow> Inl e
            | Inr c \<Rightarrow> Inr (sort_key proposal_key (List.map_filter id [a, b, c]))))))"

section \<open>Hand-edit detection\<close>

text \<open>Instants in microseconds; \<open>datetime\<close> values with and without a zone cannot be compared.\<close>

datatype timestamp = Aware int | Naive int

record banner_status =
  bs_has_banner :: bool
  bs_generated_at :: "timestamp option"
  bs_last_modified :: "int option"
  bs_hand_edited :: bool
  bs_reason :: string

record spec_file =
  sp_content :: string
  sp_mtime :: int

definition is_timestamp_char :: "char \<Rightarrow> bool" where
  "is_timestamp_char c \<longleftrightarrow> is_digit_char c \<or> c \<in> set ''TZ:-+.''"

text \<open>\<open>_GENERATED_AT_RE.search\<close>: the group of the leftmost match.\<close>

fun search_generated_at :: "string \<Rightarrow> string option" where
  "search_generated_at [] = None"
| "search_generated_at (c # cs) =
     (case Option.bind (lit ''// generated_at:'' (c # cs)) (\<lambda>r. nonempty_while is_timestamp_char (skip_spaces r)) of
        Some (t, _) \<Rightarrow> Some t
      | None \<Rightarrow> search_generated_at cs)"

text \<open>
  \<open>parse_iso\<close> is \<open>datetime.fromisoformat\<close>, \<open>None\<close> for its \<open>ValueError\<close>. The result is \<open>None\<close> for the
  \<open>TypeError\<close> of comparing the modification time with a time that has no zone.
\<close>

definition detect_banner_status :: "(string \<Rightarrow> timestamp option) \<Rightarrow> nat \<Rightarrow> spec_file option \<Rightarrow> banner_status option" where
  "detect_banner_status parse_iso max_head_bytes file =
     (case file of
        None \<Rightarrow> Some \<lparr>bs_has_banner = False, bs_generated_at = None, bs_last_modified = None, bs_hand_edited = True,
                   bs_reason = ''spec file does not exist (treat as hand-owned)''\<rparr>
      | Some f \<Rightarrow>
        (let head = take max_head_bytes (sp_content f);
             generated_at = Option.bind (search_generated_at head) (\<lambda>t. parse_iso (replace_char CHR ''Z'' ''+00:00'' t));
             managed = \<lparr>bs_has_banner = True, bs_generated_at = generated_at, bs_last_modified = Some (sp_mtime f),
                   bs_hand_edited = False, bs_reason = ''spec is healer-managed (banner present, no detected drift)''\<rparr>
         in if \<not> py_in ''// SENTINELQA AUTO-GENERATED'' head
            then Some \<lparr>bs_has_banner = False, bs_generated_at = None, bs_last_modified = Some (sp_mtime f), bs_hand_edited = True,
                   bs_reason = ''spec missing AUTO-GENERATED banner '' @ em_dash @ '' treating as hand-owned''\<rparr>
            else case generated_at of
                None \<Rightarrow> Some managed
              | Some (Naive _) \<Rightarrow> None
              | Some (Aware g) \<Rightarrow>
                  (if 5000000 < sp_mtime f - g
                   then Some \<lparr>bs_has_banner = True, bs_generated_at = generated_at, bs_last_modified = Some (sp_mtime f),
                     bs_hand_edited = True,
                     bs_reason = ''spec modified '' @ fmt_fixed 0 (fl (of_int (sp_mtime f - g) / 1000000)) @ ''s after generated_at '' @
                       em_dash @ '' treating as hand-edited''\<rparr>
                   else Some managed)))"

section \<open>The auto-apply gate\<close>

datatype auto_apply_mode = Off | Apply_safe | Aggressive

fun apply_mode_name :: "auto_apply_mode \<Rightarrow> string" where
  "apply_mode_name Off = ''off''"
| "apply_mode_name Apply_safe = ''safe''"
| "apply_mode_name Aggressive = ''aggressive''"

record auto_apply_decision =
  ad_should_apply :: bool
  ad_reason :: string

definition safe_kinds :: "repair_kind set" where
  "safe_kinds = {Rk_locator, Rk_wait}"

definition aggressive_kinds :: "repair_kind set" where
  "aggressive_kinds = {Rk_locator, Rk_wait, Rk_fixture, Rk_assertion}"

definition geq_sign :: string where
  "geq_sign = map char_of [226 :: nat, 137, 165]"

definition decide_auto_apply ::
  "repair_proposal \<Rightarrow> banner_status \<Rightarrow> auto_apply_mode \<Rightarrow> flt \<Rightarrow> bool \<Rightarrow> auto_apply_decision" where
  "decide_auto_apply p banner mode threshold allow_weaken =
     (let refuse = (\<lambda>reason. \<lparr>ad_should_apply = False, ad_reason = reason\<rparr>) in
      if mode = Off then refuse (''auto_apply mode is '' @ py_repr ''off'' @ '' '' @ em_dash @ '' proposals are review-only.'')
      else if bs_hand_edited banner then refuse (''target spec is hand-edited: '' @ bs_reason banner)
      else if rp_requires_human_review p then refuse ''proposal carries requires_human_review=True.''
      else if rp_kind p \<notin> (if mode = Apply_safe then safe_kinds else aggressive_kinds)
      then refuse (''kind '' @ py_repr (repair_kind_name (rp_kind p)) @ '' is not permitted in auto_apply mode '' @ py_repr (apply_mode_name mode) @ ''.'')
      else if rp_kind p = Rk_assertion \<and> \<not> allow_weaken
      then refuse ''assertion repairs require --allow-weaken even in aggressive mode.''
      else if rp_confidence p < threshold
      then refuse (''confidence '' @ fmt_fixed 2 (rp_confidence p) @ '' below auto_apply_threshold '' @ fmt_fixed 2 threshold @ ''.'')
      else \<lparr>ad_should_apply = True,
             ad_reason = ''mode='' @ apply_mode_name mode @ '', kind='' @ repair_kind_name (rp_kind p) @ '', confidence='' @
               fmt_fixed 2 (rp_confidence p) @ '' '' @ geq_sign @ '' threshold '' @ fmt_fixed 2 threshold @ ''.''\<rparr>)"

section \<open>Lemmas\<close>

lemma lit_Some: "lit p s = Some r \<longleftrightarrow> s = p @ r"
  by (auto simp: lit_def py_startswith_iff)

lemma check_proposal_fields:
  assumes "check_proposal p0 = Inr p"
  shows "p = strip_proposal p0" "rp_unified_diff p \<noteq> []" "rp_original_behavior p \<noteq> []" "0 \<le> rp_confidence p" "rp_confidence p \<le> 1"
    "is_valid_id ''RPR'' (rp_id p)"
proof -
  have "rp_unified_diff p \<noteq> [] \<and> rp_original_behavior p \<noteq> []"
    using assms by (auto simp: check_proposal_def Let_def bounded_str_def py_len_def split: if_splits)
  then show "rp_unified_diff p \<noteq> []" "rp_original_behavior p \<noteq> []" by auto
qed (use assms in \<open>auto simp: check_proposal_def Let_def split: if_splits\<close>)

lemma strip_proposal_simps [simp]:
  "rp_kind (strip_proposal p) = rp_kind p" "rp_confidence (strip_proposal p) = rp_confidence p"
  "rp_requires_human_review (strip_proposal p) = rp_requires_human_review p"
  "rp_target_test_line (strip_proposal p) = rp_target_test_line p" "rp_descriptor (strip_proposal p) = rp_descriptor p"
  "rp_original_behavior (strip_proposal p) = model_strip (rp_original_behavior p)"
  "rp_proposed_change (strip_proposal p) = model_strip (rp_proposed_change p)"
  "rp_unified_diff (strip_proposal p) = model_strip (rp_unified_diff p)"
  "rp_target_test (strip_proposal p) = model_strip (rp_target_test p)" "rp_id (strip_proposal p) = model_strip (rp_id p)"
  by (simp_all add: strip_proposal_def)

lemma model_strip_Nil [simp]: "model_strip [] = []"
  by (simp add: model_strip_def)

lemma best_candidate_first:
  "best_candidate d cs = Some (c, confidence, rationale) \<Longrightarrow>
   \<exists>rest. sort_key (\<lambda>s. (- fst s, dc_accessible_name (snd (snd s)))) (scored_candidates d cs) = (confidence, rationale, c) # rest"
  unfolding best_candidate_def
  by (cases "sort_key (\<lambda>s. (- fst s, dc_accessible_name (snd (snd s)))) (scored_candidates d cs)") auto

lemma sort_key_head:
  assumes "sort_key f xs = y # ys"
  shows "y \<in> set xs" "x \<in> set xs \<Longrightarrow> f y \<le> f x"
proof -
  show "y \<in> set xs" using assms by (metis set_sort list.set_intros(1))
  assume x: "x \<in> set xs"
  have "sorted (map f (y # ys))" using sorted_sort_key [of f xs] by (simp add: assms)
  moreover have "x \<in> set (y # ys)" using x by (metis assms set_sort)
  ultimately show "f y \<le> f x" by auto
qed

lemma scored_member:
  "(confidence, rationale, c) \<in> set (scored_candidates d cs) \<longleftrightarrow>
   c \<in> set cs \<and> score_candidate d c = (confidence, rationale) \<and> 0 < confidence"
  by (auto simp: scored_candidates_def intro!: image_eqI [of _ _ c])

lemma best_candidate_Some:
  assumes "best_candidate d cs = Some (c, confidence, rationale)"
  shows "c \<in> set cs" "score_candidate d c = (confidence, rationale)" "0 < confidence"
proof -
  obtain rest where "sort_key (\<lambda>s. (- fst s, dc_accessible_name (snd (snd s)))) (scored_candidates d cs) = (confidence, rationale, c) # rest"
    using best_candidate_first [OF assms] by blast
  note sort_key_head(1) [OF this]
  then show "c \<in> set cs" "score_candidate d c = (confidence, rationale)" "0 < confidence" by (simp_all add: scored_member)
qed

lemma best_candidate_best:
  assumes "best_candidate d cs = Some (c, confidence, rationale)" "x \<in> set cs"
  shows "fst (score_candidate d x) \<le> confidence"
proof (cases "0 < fst (score_candidate d x)")
  case True
  obtain rest where "sort_key (\<lambda>s. (- fst s, dc_accessible_name (snd (snd s)))) (scored_candidates d cs) = (confidence, rationale, c) # rest"
    using best_candidate_first [OF assms(1)] by blast
  from sort_key_head(2) [OF this, of "(fst (score_candidate d x), snd (score_candidate d x), x)"]
  show ?thesis using True assms(2) by (auto simp: scored_member less_eq_prod_def)
next
  case False
  then show ?thesis using best_candidate_Some(3) [OF assms(1)] by linarith
qed

lemma score_candidate_role: "0 < fst (score_candidate d c) \<Longrightarrow> ld_role d = Some (dc_role c)"
  by (cases "ld_role d = Some (dc_role c)") (auto simp: score_candidate_def)

lemma score_candidate_tiers:
  "ld_accessible_name d \<noteq> Some (dc_accessible_name c) \<Longrightarrow> fst (score_candidate d c) \<in> {0, fl (5 / 10), fl (7 / 10), fl (75 / 100)}"
  "ld_accessible_name d = Some (dc_accessible_name c) \<Longrightarrow> fst (score_candidate d c) \<in> {0, fl (9 / 10), fl (95 / 100)}"
  by (cases "ld_role d = Some (dc_role c)"; cases "ld_accessible_name d"; simp add: score_candidate_def Let_def)+

lemma low_tiers: "x \<in> {0, fl (5 / 10), fl (7 / 10), fl (75 / 100)} \<Longrightarrow> x < fl (9 / 10)"
proof -
  have "list_all (\<lambda>x. x < fl (9 / 10)) [0, fl (5 / 10), fl (7 / 10), fl (75 / 100)]" by code_simp
  then show "x \<in> {0, fl (5 / 10), fl (7 / 10), fl (75 / 100)} \<Longrightarrow> x < fl (9 / 10)" by auto
qed

lemma propose_locator_cases:
  assumes "propose_locator_repair path source line d cs threshold rpr evd = Inr (Some p)"
  obtains c confidence rationale i new_line ev d' where
    "best_candidate d cs = Some (c, confidence, rationale)" "line_index line (splitlines source) = Some i"
    "replace_locator_in_line (splitlines source ! i) (dc_accessible_name c) = Some new_line"
    "count_assertions (strip_comments source) \<le> count_assertions (strip_comments (concat ((splitlines source)[i := new_line])))"
    "source_ref evd path = Inr ev" "check_descriptor (candidate_descriptor c) = Inr d'"
    "rp_kind p = Rk_locator" "rp_confidence p = confidence" "rp_requires_human_review p = (confidence < threshold)"
    "rp_original_behavior p = model_strip (rstrip_newlines (splitlines source ! i))"
    "rp_proposed_change p = model_strip (rstrip_newlines new_line)"
    "rp_unified_diff p = model_strip (unified_diff_for path source (concat ((splitlines source)[i := new_line])))"
    "rp_unified_diff p \<noteq> []"
proof -
  obtain c confidence rationale where best: "best_candidate d cs = Some (c, confidence, rationale)"
    using assms by (auto simp: propose_locator_repair_def split: option.splits)
  obtain i where i: "line_index line (splitlines source) = Some i"
    using assms best by (auto simp: propose_locator_repair_def Let_def split: option.splits)
  obtain new_line where n: "replace_locator_in_line (splitlines source ! i) (dc_accessible_name c) = Some new_line"
    using assms best i by (auto simp: propose_locator_repair_def Let_def split: option.splits)
  let ?proposed = "concat ((splitlines source)[i := new_line])"
  have guard: "assert_no_assertion_weakening source ?proposed False = Inr ()"
    using assms best i n by (auto simp: propose_locator_repair_def Let_def split: sum.splits)
  have "locator_proposal path line d source ?proposed threshold (c, confidence, rationale, splitlines source ! i, new_line) rpr evd = Inr p"
    using assms best i n guard
    by (cases "locator_proposal path line d source ?proposed threshold (c, confidence, rationale, splitlines source ! i, new_line) rpr evd")
      (auto simp: propose_locator_repair_def Let_def)
  then obtain ev d' p0 where ev: "source_ref evd path = Inr ev" and d': "check_descriptor (candidate_descriptor c) = Inr d'"
    and p0: "check_proposal p0 = Inr p" and fields: "rp_kind p0 = Rk_locator" "rp_confidence p0 = confidence"
      "rp_requires_human_review p0 = (confidence < threshold)" "rp_original_behavior p0 = rstrip_newlines (splitlines source ! i)"
      "rp_proposed_change p0 = rstrip_newlines new_line" "rp_unified_diff p0 = unified_diff_for path source ?proposed"
    by (fastforce simp: locator_proposal_def split: sum.splits)
  have "count_assertions (strip_comments source) \<le> count_assertions (strip_comments ?proposed)"
    using guard by (auto simp: assert_no_assertion_weakening_def Let_def split: if_splits)
  then show thesis
    using that [OF best i n _ ev d'] check_proposal_fields(1,2) [OF p0] fields by simp
qed

lemma name_literal_split: "name_literal s = Some (n, r) \<Longrightarrow> s = n @ r"
proof -
  assume n: "name_literal s = Some (n, r)"
  then obtain q t where s: "s = q # t" by (cases s) (auto simp: name_literal_def)
  have "dropWhile (\<lambda>c. c \<noteq> q) t \<noteq> []"
  proof
    assume e: "dropWhile (\<lambda>c. c \<noteq> q) t = []"
    show False using n unfolding s name_literal_def list.case e by (simp split: if_splits)
  qed
  then obtain x rest where d: "dropWhile (\<lambda>c. c \<noteq> q) t = x # rest" by (cases "dropWhile (\<lambda>c. c \<noteq> q) t") blast+
  have x: "x = q" using d by (metis (mono_tags, lifting) dropWhile_eq_Cons_conv)
  have t: "t = takeWhile (\<lambda>c. c \<noteq> q) t @ q # rest"
    using takeWhile_dropWhile_id [of "\<lambda>c. c \<noteq> q" t] unfolding d x by simp
  have "is_delimiter q" using n by (simp add: name_literal_def s split: if_splits)
  then have "n = q # takeWhile (\<lambda>c. c \<noteq> q) t @ [q] @ (if is_slash q then takeWhile is_ascii_alpha rest else []) \<and>
      r = drop (length (if is_slash q then takeWhile is_ascii_alpha rest else [])) rest"
    using n unfolding s name_literal_def list.case d Let_def by (simp only: if_True option.inject prod.inject)
  moreover have "takeWhile is_ascii_alpha rest @ drop (length (takeWhile is_ascii_alpha rest)) rest = rest"
    by (metis append_take_drop_id takeWhile_eq_take)
  ultimately have "n @ r = q # takeWhile (\<lambda>c. c \<noteq> q) t @ q # rest" by (cases "is_slash q") simp_all
  then show ?thesis using s t by simp
qed

text \<open>
  A call \<open>getByRole('role', { name: literal })\<close> with blanks where the pattern allows them: \<open>b\<close> ends where the literal \<open>n\<close>
  begins, and \<open>r\<close> begins where it ends. The literal is a string in quotes or a regular expression with its flags.
\<close>

definition is_name_argument :: "string \<Rightarrow> bool" where
  "is_name_argument n \<longleftrightarrow> (\<exists>q body flags. n = q # body @ q # flags \<and> q \<notin> set body \<and>
     (is_quote q \<and> flags = [] \<or> is_slash q \<and> list_all is_ascii_alpha flags))"

definition role_call :: "string \<Rightarrow> string \<Rightarrow> string \<Rightarrow> bool" where
  "role_call b n r \<longleftrightarrow> is_name_argument n \<and>
     (\<exists>before s1 q1 role q2 s2 s3 s4 s5 s6 s7 rest.
       b = before @ ''getByRole('' @ s1 @ [q1] @ role @ [q2] @ s2 @ '','' @ s3 @ ''{'' @ s4 @ ''name:'' @ s5 \<and>
       r = s6 @ ''}'' @ s7 @ '')'' @ rest \<and> is_quote q1 \<and> is_quote q2 \<and> role \<noteq> [] \<and> list_all is_ascii_alpha role \<and>
       (\<forall>s \<in> {s1, s2, s3, s4, s5, s6, s7}. list_all is_space s))"

lemma role_callI:
  assumes "is_name_argument n" "is_quote q1" "is_quote q2" "role \<noteq> []" "list_all is_ascii_alpha role"
    and "\<forall>s \<in> {s1, s2, s3, s4, s5, s6, s7}. list_all is_space s"
    and "b = before @ ''getByRole('' @ s1 @ [q1] @ role @ [q2] @ s2 @ '','' @ s3 @ ''{'' @ s4 @ ''name:'' @ s5"
    and "r = s6 @ ''}'' @ s7 @ '')'' @ rest"
  shows "role_call b n r"
  unfolding role_call_def using assms by (intro conjI) (assumption, intro exI conjI, assumption+)

lemma skip_spaces_split: "s = takeWhile is_space s @ skip_spaces s"
  by (simp add: skip_spaces_def)

lemma takeWhile_all: "list_all P (takeWhile P s)"
  unfolding list_all_iff by (meson set_takeWhileD)

lemma nonempty_while_split: "nonempty_while P s = Some (n, r) \<Longrightarrow> s = n @ r \<and> n \<noteq> [] \<and> list_all P n"
  unfolding nonempty_while_def list_all_iff
  by (metis option.distinct(1) option.inject prod.inject set_takeWhileD takeWhile_dropWhile_id)

lemma char_if_split: "char_if P s = Some r \<Longrightarrow> \<exists>q. s = q # r \<and> P q"
  by (auto simp: char_if_def split: list.splits if_splits)

lemma name_literal_shape:
  assumes "name_literal s = Some (n, r)"
  shows "is_name_argument n"
proof -
  obtain q t where s: "s = q # t" using assms by (cases s) (auto simp: name_literal_def)
  have q: "is_delimiter q" using assms by (simp add: name_literal_def s split: if_splits)
  obtain rest where "n = q # takeWhile (\<lambda>c. c \<noteq> q) t @ [q] @ (if is_slash q then takeWhile is_ascii_alpha rest else [])"
    using assms q by (auto simp: name_literal_def s Let_def split: list.splits)
  moreover have "q \<notin> set (takeWhile (\<lambda>c. c \<noteq> q) t)" using set_takeWhileD [of q "\<lambda>c. c \<noteq> q" t] by blast
  moreover have "list_all is_ascii_alpha (takeWhile is_ascii_alpha rest)" by (rule takeWhile_all)
  ultimately show ?thesis
    using q unfolding is_name_argument_def is_delimiter_def by (cases "is_slash q") fastforce+
qed

lemma match_getbyrole_call:
  assumes "match_getbyrole s = Some (b, n, r)"
  shows "s = b @ n @ r \<and> role_call b n r"
proof -
  obtain r1 r2 role r3 r4 r5 r6 r7 r9 r10 where m: "lit ''getByRole('' s = Some r1" "char_if is_quote (skip_spaces r1) = Some r2"
    "nonempty_while is_ascii_alpha r2 = Some (role, r3)" "char_if is_quote r3 = Some r4" "lit '','' (skip_spaces r4) = Some r5"
    "lit ''{'' (skip_spaces r5) = Some r6" "lit ''name:'' (skip_spaces r6) = Some r7"
    and name: "name_literal (skip_spaces r7) = Some (n, r)" and e: "lit ''}'' (skip_spaces r) = Some r9" "lit '')'' (skip_spaces r9) = Some r10"
    and b: "b = take (length s - length (skip_spaces r7)) s"
    using assms by (auto simp: match_getbyrole_def bind_eq_Some_conv)
  obtain s1 s2 s3 s4 s5 s6 s7 where d: "s1 = takeWhile is_space r1" "s2 = takeWhile is_space r4" "s3 = takeWhile is_space r5"
    "s4 = takeWhile is_space r6" "s5 = takeWhile is_space r7" "s6 = takeWhile is_space r" "s7 = takeWhile is_space r9" by blast
  have sp: "r1 = s1 @ skip_spaces r1" "r4 = s2 @ skip_spaces r4" "r5 = s3 @ skip_spaces r5" "r6 = s4 @ skip_spaces r6"
    "r7 = s5 @ skip_spaces r7" "r = s6 @ skip_spaces r" "r9 = s7 @ skip_spaces r9"
    unfolding d by (rule skip_spaces_split)+
  have bl: "\<forall>s \<in> {s1, s2, s3, s4, s5, s6, s7}. list_all is_space s" by (simp add: d takeWhile_all)
  obtain q1 q2 where q: "skip_spaces r1 = q1 # r2" "is_quote q1" "r3 = q2 # r4" "is_quote q2"
    using char_if_split [OF m(2)] char_if_split [OF m(4)] by blast
  have role: "r2 = role @ r3" "role \<noteq> []" "list_all is_ascii_alpha role" using nonempty_while_split [OF m(3)] by blast+
  let ?b = "''getByRole('' @ s1 @ [q1] @ role @ [q2] @ s2 @ '','' @ s3 @ ''{'' @ s4 @ ''name:'' @ s5"
  have "r1 = s1 @ [q1] @ role @ [q2] @ r4"
    by (subst sp(1)) (simp only: q(1,3) role(1) append.simps append_assoc)
  moreover have "r4 = s2 @ '','' @ r5" by (subst sp(2)) (simp only: m(5) [unfolded lit_Some])
  moreover have "r5 = s3 @ ''{'' @ r6" by (subst sp(3)) (simp only: m(6) [unfolded lit_Some])
  moreover have "r6 = s4 @ ''name:'' @ s5 @ skip_spaces r7"
    by (subst sp(4)) (simp only: m(7) [unfolded lit_Some] sp(5) [symmetric])
  moreover have "s = ''getByRole('' @ r1" using m(1) by (simp only: lit_Some)
  ultimately have s: "s = ?b @ skip_spaces r7" by (simp only: append_assoc)
  have "take (length (x @ y) - length y) (x @ y) = x" for x y :: string by simp
  then have b': "b = ?b" unfolding b s .
  have "r9 = s7 @ '')'' @ r10" by (subst sp(7)) (simp only: e(2) [unfolded lit_Some])
  then have "r = s6 @ ''}'' @ s7 @ '')'' @ r10" by (subst sp(6)) (simp only: e(1) [unfolded lit_Some])
  with b' have "role_call b n r"
    by (intro role_callI [where before = "[]", OF name_literal_shape [OF name] q(2,4) role(2,3) bl]) (simp_all only: append.simps)
  moreover have "s = b @ n @ r" using s name_literal_split [OF name] by (simp only: b')
  ultimately show ?thesis by simp
qed

lemma role_call_later: "role_call b n r \<Longrightarrow> role_call (acc @ b) n r"
  unfolding role_call_def by (metis append.assoc)

lemma search_getbyrole_call: "search_getbyrole acc s = Some (b, n, r) \<Longrightarrow> acc @ s = b @ n @ r \<and> role_call b n r"
proof (induction acc s rule: search_getbyrole.induct)
  case (2 acc c cs)
  then show ?case
    using match_getbyrole_call role_call_later by (cases "match_getbyrole (c # cs)") fastforce+
qed simp

lemma replace_locator_split:
  "replace_locator_in_line l n = Some l' \<Longrightarrow> \<exists>b old r. l = b @ old @ r \<and> role_call b old r \<and> l' = b @ name_arg_literal n @ r"
  using search_getbyrole_call [of "[]" l] by (fastforce simp: replace_locator_in_line_def split: option.splits)

lemma line_index_Some: "line_index line lines = Some i \<Longrightarrow> i < length lines \<and> int i = line - 1"
  by (auto simp: line_index_def split: if_splits)

lemma unified_diff_for_same: "unified_diff_for path s s = []"
  by (simp add: unified_diff_for_def unified_diff_same)


text \<open>
  A locator that already names the best match makes the healer fail. When the line to repair already holds the very
  literal the repair would write, nothing is proposed: the empty diff is rejected by the proposal model and
  the call raises, whatever the confidence, so that the other repairs of the failure are lost as well.
\<close>

theorem unchanged_locator_raises:
  assumes "best_candidate d cs = Some (c, confidence, rationale)" "line_index line (splitlines source) = Some i"
    and "replace_locator_in_line (splitlines source ! i) (dc_accessible_name c) = Some (splitlines source ! i)"
  shows "\<exists>field. propose_locator_repair path source line d cs threshold rpr evd = Inl (He_validation field)"
proof -
  have same: "concat ((splitlines source)[i := splitlines source ! i]) = source" by simp
  have guard: "assert_no_assertion_weakening source source False = Inr ()"
    by (simp add: assert_no_assertion_weakening_def)
  have "\<exists>field. check_proposal q = Inl (He_validation field)" if "rp_unified_diff q = []" for q
    using that by (auto simp: check_proposal_def Let_def bounded_str_def py_len_def)
  then have "\<exists>field. locator_proposal path line d source source threshold (c, confidence, rationale, splitlines source ! i, splitlines source ! i) rpr evd =
      Inl (He_validation field)"
    by (auto simp: locator_proposal_def source_ref_def check_descriptor_def Let_def unified_diff_for_same)
  then show ?thesis using assms guard same by (auto simp: propose_locator_repair_def Let_def)
qed

definition sample_locator :: "string \<Rightarrow> string" where
  "sample_locator arg = ''await page.getByRole('' @ [CHR 0x27] @ ''button'' @ [CHR 0x27] @ '', { name: '' @ arg @ '' }).click();'' @ [newline]"

definition sample_spec :: string where
  "sample_spec = sample_locator ([CHR 0x22] @ ''Sign in'' @ [CHR 0x22])"

definition sample_descriptor :: locator_descriptor where
  "sample_descriptor = \<lparr>ld_role = Some ''button'', ld_accessible_name = Some ''Sign in'', ld_text = None, ld_landmarks = [], ld_tag_name = None\<rparr>"

definition sample_candidate :: "string \<Rightarrow> dom_candidate" where
  "sample_candidate n = \<lparr>dc_role = ''button'', dc_accessible_name = n, dc_text = [], dc_landmarks = [], dc_tag_name = None\<rparr>"

definition sample_repair :: "string \<Rightarrow> string \<Rightarrow> healer_error + repair_proposal option" where
  "sample_repair source name = propose_locator_repair ''a.spec.ts'' source 1 sample_descriptor [sample_candidate name] (fl (9 / 10))
     ''RPR-AAAAAAAAAAAA'' ''EVD-AAAAAAAAAAAA''"

definition fits :: "string \<Rightarrow> bool" where
  "fits s \<longleftrightarrow> 1 \<le> py_len (model_strip s) \<and> length (model_strip s) \<le> 500"

lemma bounded_by_length: "lo \<le> py_len s \<Longrightarrow> length s \<le> k \<Longrightarrow> k \<le> hi \<Longrightarrow> bounded_str lo hi s"
  unfolding bounded_str_def py_len_def by (meson length_filter_le order.trans)

lemma check_proposalI:
  assumes "is_valid_id ''RPR'' (model_strip (rp_id p))" "bounded_str 1 2048 (model_strip (rp_target_test p))"
    and "\<And>l. rp_target_test_line p = Some l \<Longrightarrow> 1 \<le> l \<and> l \<le> 1000000"
    and "bounded_str 1 8000 (model_strip (rp_original_behavior p))" "bounded_str 1 8000 (model_strip (rp_proposed_change p))"
    and "0 \<le> rp_confidence p" "rp_confidence p \<le> 1" "bounded_str 1 4000 (model_strip (rp_reason p))"
    and "list_all (\<lambda>e. is_valid_id ''EVD'' (ev_id e)) (rp_evidence p)" "bounded_str 1 64000 (model_strip (rp_unified_diff p))"
    and "py_startswith (before_char newline (model_strip (rp_unified_diff p))) ''--- ''"
  shows "check_proposal p = Inr (strip_proposal p)"
  using assms by (auto simp: check_proposal_def Let_def strip_proposal_def not_less split: option.split)

lemma bounded_fits: "fits s \<Longrightarrow> 500 \<le> hi \<Longrightarrow> bounded_str 1 hi (model_strip s)"
  unfolding fits_def by (auto intro: bounded_by_length)

lemma locator_proposalI:
  assumes "is_valid_id ''RPR'' (model_strip rpr)" "is_valid_id ''EVD'' evd" "fits path" "1 \<le> line" "line \<le> 1000000"
    and "fits (rstrip_newlines target_line)" "fits (rstrip_newlines new_line)" "0 \<le> confidence" "confidence \<le> 1"
    and "fits (locator_reason d c rationale)" "fits (unified_diff_for path source proposed)"
    and "py_startswith (before_char newline (model_strip (unified_diff_for path source proposed))) ''--- ''"
    and "check_descriptor (candidate_descriptor c) = Inr d'"
  shows "\<exists>p. locator_proposal path line d source proposed threshold (c, confidence, rationale, target_line, new_line) rpr evd = Inr p"
proof -
  let ?p = "\<lparr>rp_id = rpr, rp_kind = Rk_locator, rp_target_test = path, rp_target_test_line = Some line,
     rp_original_behavior = rstrip_newlines target_line, rp_proposed_change = rstrip_newlines new_line,
     rp_confidence = confidence, rp_reason = locator_reason d c rationale,
     rp_evidence = [\<lparr>ev_id = evd, ev_type = Source_Ref, ev_path = path\<rparr>], rp_requires_human_review = (confidence < threshold),
     rp_unified_diff = unified_diff_for path source proposed, rp_descriptor = Some d'\<rparr>"
  have "check_proposal ?p = Inr (strip_proposal ?p)" by (rule check_proposalI) (simp_all add: assms bounded_fits [unfolded One_nat_def])
  then show ?thesis using assms(2,13) by (simp add: locator_proposal_def source_ref_def)
qed

lemma locator_repairI:
  assumes "best_candidate d cs = Some (c, confidence, rationale)" "splitlines source = [target_line]"
    and "replace_locator_in_line target_line (dc_accessible_name c) = Some new_line"
    and "assert_no_assertion_weakening source new_line False = Inr ()"
    and "\<exists>p. locator_proposal path 1 d source new_line threshold (c, confidence, rationale, target_line, new_line) rpr evd = Inr p"
  shows "\<exists>p. propose_locator_repair path source 1 d cs threshold rpr evd = Inr (Some p)"
  using assms by (auto simp: propose_locator_repair_def line_index_def)

lemma sample_repair_returns: "\<exists>p. sample_repair sample_spec ''Log in'' = Inr (Some p)"
  unfolding sample_repair_def
proof (rule locator_repairI)
  let ?new = "sample_locator (''/Log'' @ [CHR 0x5C] @ '' in/i'')"
  show "best_candidate sample_descriptor [sample_candidate ''Log in''] = Some (sample_candidate ''Log in'', fl (5 / 10), ''role match only'')"
    by code_simp
  show "splitlines sample_spec = [sample_spec]" by code_simp
  show "replace_locator_in_line sample_spec (dc_accessible_name (sample_candidate ''Log in'')) = Some ?new" by code_simp
  show "assert_no_assertion_weakening sample_spec ?new False = Inr ()" by code_simp
  show "\<exists>p. locator_proposal ''a.spec.ts'' 1 sample_descriptor sample_spec ?new (fl (9 / 10))
      (sample_candidate ''Log in'', fl (5 / 10), ''role match only'', sample_spec, ?new) ''RPR-AAAAAAAAAAAA'' ''EVD-AAAAAAAAAAAA'' = Inr p"
  proof (rule locator_proposalI)
    show "check_descriptor (candidate_descriptor (sample_candidate ''Log in'')) = Inr (candidate_descriptor (sample_candidate ''Log in''))"
      by (simp add: check_descriptor_def strip_descriptor_def candidate_descriptor_def sample_candidate_def or_none_def opt_bounded_def
          model_strip_def is_model_space_def py_len_def is_cont_def)
    show "fits (unified_diff_for ''a.spec.ts'' sample_spec ?new)" by code_simp
    show "py_startswith (before_char newline (model_strip (unified_diff_for ''a.spec.ts'' sample_spec ?new))) ''--- ''" by code_simp
  qed code_simp+
qed

lemma aggressive_same: "rp_kind p \<in> safe_kinds \<or> rp_requires_human_review p \<Longrightarrow>
    ad_should_apply (decide_auto_apply p banner Aggressive threshold w) = ad_should_apply (decide_auto_apply p banner Apply_safe threshold w')"
  by (cases "rp_kind p") (auto simp: decide_auto_apply_def safe_kinds_def aggressive_kinds_def Let_def)

lemma check_proposal_kind: "check_proposal p0 = Inr p \<Longrightarrow> rp_kind p = rp_kind p0 \<and> rp_requires_human_review p = rp_requires_human_review p0"
  by (drule check_proposal_fields(1)) (simp add: strip_proposal_def)

lemma locator_part_kind: "locator_part inp threshold ids = Inr (Some p) \<Longrightarrow> rp_kind p = Rk_locator"
proof -
  assume "locator_part inp threshold ids = Inr (Some p)"
  then obtain line d where "propose_locator_repair (hi_test_path inp) (hi_test_source inp) line d (hi_dom_candidates inp) threshold (fst ids) (snd ids) = Inr (Some p)"
    by (auto simp: locator_part_def split: option.splits if_splits)
  from propose_locator_cases [OF this] show ?thesis by blast
qed

lemma wait_part_kind: "wait_part inp threshold ids = Inr (Some p) \<Longrightarrow> rp_kind p = Rk_wait"
  by (auto simp: wait_part_def propose_wait_repair_def Let_def map_sum_def split: option.splits sum.splits prod.splits if_splits
      dest!: check_proposal_kind)

lemma propose_fixture_review: "propose_fixture_repair path source line k seed e a rpr evd = Inr p \<Longrightarrow> rp_requires_human_review p"
  unfolding propose_fixture_repair_def Let_def by (auto split: sum.splits prod.splits dest!: check_proposal_kind)

lemma fixture_part_review: "fixture_part inp ids = Inr (Some p) \<Longrightarrow> rp_requires_human_review p"
  by (auto simp: fixture_part_def map_sum_def split: option.splits if_splits sum.splits dest!: propose_fixture_review)

lemma healer_propose_member:
  assumes "healer_propose inp threshold (l, w, f) = Inr ps" "p \<in> set ps"
  shows "rp_kind p \<in> safe_kinds \<or> rp_requires_human_review p"
proof -
  obtain a where a: "locator_part inp threshold l = Inr a" using assms(1) by (cases "locator_part inp threshold l") (auto simp: healer_propose_def)
  obtain b where b: "wait_part inp threshold w = Inr b" using assms(1) a by (cases "wait_part inp threshold w") (auto simp: healer_propose_def)
  obtain c where c: "fixture_part inp f = Inr c" using assms(1) a b by (cases "fixture_part inp f") (auto simp: healer_propose_def)
  have ps: "ps = sort_key proposal_key (List.map_filter id [a, b, c])" using assms(1) a b c by (simp add: healer_propose_def)
  have "p \<in> set (List.map_filter id [a, b, c])" using assms(2) unfolding ps by (simp only: set_sort)
  then have "Some p \<in> {a, b, c}" by (cases a; cases b; cases c) (auto simp: List.map_filter_simps)
  then consider "a = Some p" | "b = Some p" | "c = Some p" by auto
  then show ?thesis
    using a b c locator_part_kind wait_part_kind fixture_part_review by cases (simp_all add: safe_kinds_def)
qed


theorem unchanged_locator_raises_witness:
  "\<exists>field. sample_repair (sample_locator (name_arg_literal ''Sign in'')) ''Sign in'' = Inl (He_validation field)"
  unfolding sample_repair_def by (rule unchanged_locator_raises) code_simp+

text \<open>
  The aggressive mode applies exactly what the safe mode applies. On the output of the healer, with any banner, threshold and
  weaken flags, the two modes approve the same repairs: the only fixture repairs it makes always require a review, and no proposer
  makes an assertion repair.
\<close>

theorem aggressive_adds_nothing:
  assumes "healer_propose inp threshold ids = Inr ps" "p \<in> set ps"
  shows "ad_should_apply (decide_auto_apply p banner Aggressive t w) = ad_should_apply (decide_auto_apply p banner Apply_safe t w')"
proof -
  obtain l v f where ids: "ids = (l, v, f)" by (cases ids)
  show ?thesis by (rule aggressive_same [OF healer_propose_member [OF assms(1) [unfolded ids] assms(2)]])
qed

definition sample_inputs :: healer_inputs where
  "sample_inputs = \<lparr>hi_test_path = ''a.spec.ts'', hi_test_source = sample_spec, hi_locator_line = Some 1, hi_descriptor = Some sample_descriptor,
     hi_dom_candidates = [sample_candidate ''Log in''], hi_wait_line = None, hi_fixture_call_line = None, hi_fixture_failure_kind = None,
     hi_fixture_seed_command = [], hi_fixture_expected = [], hi_fixture_actual = []\<rparr>"

definition sample_ids :: repair_ids where
  "sample_ids = ((''RPR-AAAAAAAAAAAA'', ''EVD-AAAAAAAAAAAA''), ([], []), ([], []))"

definition managed_banner :: banner_status where
  "managed_banner = \<lparr>bs_has_banner = True, bs_generated_at = None, bs_last_modified = Some 0, bs_hand_edited = False, bs_reason = []\<rparr>"

theorem aggressive_adds_nothing_witness:
  "\<exists>p. healer_propose sample_inputs (fl (9 / 10)) sample_ids = Inr [p] \<and>
     ad_should_apply (decide_auto_apply p managed_banner Aggressive (fl (9 / 10)) False) =
     ad_should_apply (decide_auto_apply p managed_banner Apply_safe (fl (9 / 10)) False)"
proof -
  obtain p where "sample_repair sample_spec ''Log in'' = Inr (Some p)" using sample_repair_returns by blast
  then have p: "healer_propose sample_inputs (fl (9 / 10)) sample_ids = Inr [p]"
    by (simp add: healer_propose_def sample_ids_def sample_inputs_def locator_part_def wait_part_def fixture_part_def sample_repair_def
        List.map_filter_simps)
  then show ?thesis using aggressive_adds_nothing [OF p, of p] by simp
qed

end
