(* ===== verification/Fix.thy ===== *)
theory Fix
  imports Healer Redaction
begin

text \<open>
  The command \<open>sentinel fix\<close> (\<open>apps/cli/src/sentinel_cli/commands/fix_cmd.py\<close>) over the proposals a run left behind:
  the choice of the run (\<open>list_runs\<close> of \<open>engine/orchestrator/artifacts.py\<close>), the artifacts (\<open>iter_proposals\<close> of
  \<open>engine/healer/writer.py\<close>), the gate, the edit and the audit entry (\<open>engine/policy/audit_log.py\<close>). The state is the specs on
  disk by path and the audit log of the run; a path is its text, and no two texts name one file. What the terminal shows is the report.
\<close>

section \<open>Runs and artifacts\<close>

text \<open>
  The content of a file of \<open>healer/\<close>: a document with the fields of a proposal, another JSON value or a document that
  fails the type coercion of the model, or bytes that are no JSON text.
\<close>

datatype artifact = Art_document repair_proposal | Art_other | Art_not_json

record run_folder =
  rf_name :: string
  rf_mtime :: int
  rf_healer :: "(string \<times> artifact) list option"

definition list_runs :: "run_folder list \<Rightarrow> run_folder list" where
  "list_runs base = sort_key (\<lambda>r. - rf_mtime r) (filter (\<lambda>r. rf_name r \<noteq> ''latest'') base)"

definition resolve_run_dir :: "bool \<Rightarrow> string option \<Rightarrow> run_folder list \<Rightarrow> run_folder option" where
  "resolve_run_dir latest run_id base =
     (case run_id of
        Some r \<Rightarrow> find (\<lambda>f. rf_name f = r) base
      | None \<Rightarrow> (if \<not> latest then None else case list_runs base of [] \<Rightarrow> None | f # _ \<Rightarrow> Some f))"

definition proposal_file :: "string \<Rightarrow> bool" where
  "proposal_file name \<longleftrightarrow> py_startswith name ''RPR-'' \<and> py_endswith name ''.json''"

text \<open>\<open>None\<close> is the \<open>JSONDecodeError\<close> of \<open>json.loads\<close>, which leaves the generator.\<close>

definition iter_proposals :: "run_folder \<Rightarrow> repair_proposal list option" where
  "iter_proposals run =
     (case rf_healer run of None \<Rightarrow> Some []
      | Some files \<Rightarrow>
        (let docs = map snd (sort_key fst (filter (\<lambda>f. proposal_file (fst f)) files))
         in if Art_not_json \<in> set docs then None
            else Some (List.map_filter (\<lambda>a. case a of Art_document p \<Rightarrow> Some p | _ \<Rightarrow> None) docs)))"

definition load_proposals :: "run_folder \<Rightarrow> repair_proposal list option" where
  "load_proposals run =
     map_option (\<lambda>docs. sort_key proposal_key
       (List.map_filter (\<lambda>p0. case check_proposal p0 of Inl _ \<Rightarrow> None | Inr p \<Rightarrow> Some p) docs))
     (iter_proposals run)"

section \<open>The edit\<close>

record fix_env =
  fe_parse_iso :: "string \<Rightarrow> timestamp option"
  fe_clock :: "nat \<Rightarrow> int"
  fe_stamp :: "nat \<Rightarrow> string"
  fe_scrub :: "string \<Rightarrow> string"
  fe_readable :: "string \<Rightarrow> bool"
  fe_decodes :: "string \<Rightarrow> bool"
  fe_write_error :: "string \<Rightarrow> string option"

text \<open>\<open>fw_writes\<close> counts the writes: the clock is a function of it.\<close>

record fix_world =
  fw_files :: "string \<rightharpoonup> spec_file"
  fw_audit :: "json list"
  fw_writes :: nat

text \<open>\<open>read_text\<close> translates the line ends.\<close>

fun universal_newlines :: "string \<Rightarrow> string" where
  "universal_newlines [] = []"
| "universal_newlines (c # s) =
     (if c = CHR 0x0D
      then newline # (case s of [] \<Rightarrow> [] | d # t \<Rightarrow> if d = newline then universal_newlines t else universal_newlines s)
      else c # universal_newlines s)"

text \<open>\<open>s.replace(old, new, 1)\<close> for an \<open>old\<close> that is not empty.\<close>

fun replace_first :: "string \<Rightarrow> string \<Rightarrow> string \<Rightarrow> string" where
  "replace_first old new [] = (if old = [] then new else [])"
| "replace_first old new (c # s) =
     (if py_startswith (c # s) old then new @ drop (length old) (c # s) else c # replace_first old new s)"

definition edited_text :: "string \<Rightarrow> string \<Rightarrow> string \<Rightarrow> string" where
  "edited_text source original_line proposed_line =
     (let eol = (if py_endswith source [newline] then [newline] else []);
          replaced = replace_first (rstrip_newlines original_line) (rstrip_newlines proposed_line) source
      in if py_endswith replaced eol then replaced else replaced @ eol)"

text \<open>\<open>Ap_crash\<close> is the \<open>UnicodeDecodeError\<close>, which is no \<open>OSError\<close>; \<open>Ap_os_error\<close> is the \<open>OSError\<close> of the write.\<close>

datatype apply_result = Ap_done fix_world | Ap_not_clean | Ap_os_error string | Ap_crash

definition apply_unified_diff :: "fix_env \<Rightarrow> string \<Rightarrow> string \<Rightarrow> string \<Rightarrow> fix_world \<Rightarrow> apply_result" where
  "apply_unified_diff env path original_line proposed_line w =
     (case fw_files w path of
        None \<Rightarrow> Ap_not_clean
      | Some f \<Rightarrow>
        if \<not> fe_decodes env (sp_content f) then Ap_crash
        else let source = universal_newlines (sp_content f) in
          if \<not> py_in (rstrip_newlines original_line) source then Ap_not_clean
          else case fe_write_error env path of
              Some message \<Rightarrow> Ap_os_error message
            | None \<Rightarrow> Ap_done (w\<lparr>fw_files := (fw_files w)(path \<mapsto>
                  \<lparr>sp_content = edited_text source original_line proposed_line, sp_mtime = fe_clock env (fw_writes w)\<rparr>),
                fw_writes := Suc (fw_writes w)\<rparr>))"

section \<open>The command\<close>

record fix_options =
  fo_latest :: bool
  fo_run_id :: "string option"
  fo_apply :: string
  fo_dry_run :: bool
  fo_allow_weaken :: bool
  fo_review_only :: bool
  fo_threshold :: flt

record fix_report =
  fr_applied :: "string list"
  fr_reviewed :: "string list"
  fr_skipped :: "(string \<times> string) list"
  fr_errors :: "(string \<times> string) list"

definition fix_base :: string where
  "fix_base = ''.sentinel''"

definition join_path :: "string \<Rightarrow> string \<Rightarrow> string" where
  "join_path base name = base @ ''/'' @ name"

definition target_path :: "fix_world \<Rightarrow> string \<Rightarrow> string" where
  "target_path w target =
     (if py_startswith target ''/'' then target
      else let candidate = join_path fix_base target in
        if fw_files w candidate \<noteq> None then candidate else target)"

definition write_audit_entry :: "fix_env \<Rightarrow> (string \<times> json) list \<Rightarrow> fix_world \<Rightarrow> fix_world" where
  "write_audit_entry env entry w =
     w\<lparr>fw_audit := fw_audit w @
       [case redact (fe_scrub env) 6 (J_obj entry) of
          J_obj items \<Rightarrow> J_obj (if map_of items ''ts'' = None then items @ [(''ts'', J_str (fe_stamp env (fw_writes w)))] else items)
        | v \<Rightarrow> v]\<rparr>"

definition apply_entry :: "repair_proposal \<Rightarrow> string \<Rightarrow> bool \<Rightarrow> string \<Rightarrow> (string \<times> json) list" where
  "apply_entry p reason allow_weaken apply =
     [(''event'', J_str ''healer.apply''), (''id'', J_str (rp_id p)), (''kind'', J_str (repair_kind_name (rp_kind p))),
      (''target_test'', J_str (rp_target_test p)), (''confidence'', J_float (rp_confidence p)), (''decision_reason'', J_str reason),
      (''allow_weaken'', J_bool allow_weaken), (''mode'', J_str apply)]"

definition mode_of :: "string \<Rightarrow> auto_apply_mode" where
  "mode_of apply = (if apply = ''safe'' then Apply_safe else Aggressive)"

text \<open>One pass of the loop. \<open>Inl\<close> is an exception nobody catches, with the world it leaves.\<close>

definition fix_decision :: "fix_options \<Rightarrow> repair_proposal \<Rightarrow> banner_status \<Rightarrow> auto_apply_decision" where
  "fix_decision opts p banner = decide_auto_apply p banner (mode_of (fo_apply opts)) (fo_threshold opts) (fo_allow_weaken opts)"

definition fix_edit :: "fix_env \<Rightarrow> fix_options \<Rightarrow> repair_proposal \<Rightarrow> string \<Rightarrow> string \<Rightarrow> fix_world \<times> fix_report \<Rightarrow> fix_world + fix_world \<times> fix_report" where
  "fix_edit env opts p path reason st =
     (case st of (w, rep) \<Rightarrow>
       (case apply_unified_diff env path (rp_original_behavior p) (rp_proposed_change p) w of
          Ap_crash \<Rightarrow> Inl w
        | Ap_os_error message \<Rightarrow> Inr (w, rep\<lparr>fr_errors := fr_errors rep @ [(rp_id p, message)]\<rparr>)
        | Ap_not_clean \<Rightarrow> Inr (w, rep\<lparr>fr_errors := fr_errors rep @ [(rp_id p, ''diff did not apply cleanly'')]\<rparr>)
        | Ap_done w' \<Rightarrow>
            Inr (write_audit_entry env (apply_entry p reason (fo_allow_weaken opts) (fo_apply opts)) w',
              rep\<lparr>fr_applied := fr_applied rep @ [rp_id p]\<rparr>)))"

definition fix_step :: "fix_env \<Rightarrow> fix_options \<Rightarrow> repair_proposal \<Rightarrow> fix_world \<times> fix_report \<Rightarrow> fix_world + fix_world \<times> fix_report" where
  "fix_step env opts p st =
     (case st of (w, rep) \<Rightarrow>
       (let path = target_path w (rp_target_test p) in
        if fw_files w path \<noteq> None \<and> \<not> fe_readable env path then Inl w
        else case detect_banner_status (fe_parse_iso env) 4096 (fw_files w path) of
            None \<Rightarrow> Inl w
          | Some banner \<Rightarrow>
            (if fo_review_only opts \<or> fo_apply opts = ''none''
             then Inr (w, rep\<lparr>fr_reviewed := fr_reviewed rep @ [rp_id p]\<rparr>)
             else let decision = fix_decision opts p banner in
               if \<not> ad_should_apply decision
               then Inr (w, rep\<lparr>fr_skipped := fr_skipped rep @ [(rp_id p, ad_reason decision)]\<rparr>)
               else if fo_dry_run opts then Inr (w, rep\<lparr>fr_applied := fr_applied rep @ [rp_id p]\<rparr>)
               else fix_edit env opts p path (ad_reason decision) (w, rep))))"

fun fix_loop :: "fix_env \<Rightarrow> fix_options \<Rightarrow> repair_proposal list \<Rightarrow> fix_world \<times> fix_report \<Rightarrow> fix_world + fix_world \<times> fix_report" where
  "fix_loop env opts [] st = Inr st"
| "fix_loop env opts (p # ps) st = (case fix_step env opts p st of Inl w \<Rightarrow> Inl w | Inr st' \<Rightarrow> fix_loop env opts ps st')"

datatype fix_result = Fx_exit int fix_world fix_report | Fx_crash fix_world

definition exit_config_error :: int where "exit_config_error = 2"
definition exit_test_execution_failed :: int where "exit_test_execution_failed = 6"

definition empty_report :: fix_report where
  "empty_report = \<lparr>fr_applied = [], fr_reviewed = [], fr_skipped = [], fr_errors = []\<rparr>"

text \<open>The bounds of \<open>--threshold\<close> are the parser's usage error, which exits with 2 as well.\<close>

definition run_fix :: "fix_env \<Rightarrow> fix_options \<Rightarrow> run_folder list \<Rightarrow> fix_world \<Rightarrow> fix_result" where
  "run_fix env opts base w =
     (if fo_threshold opts < fl (5 / 10) \<or> 1 < fo_threshold opts then Fx_exit exit_config_error w empty_report
      else if fo_apply opts \<notin> {''none'', ''safe'', ''aggressive''} then Fx_exit exit_config_error w empty_report
      else case resolve_run_dir (fo_latest opts) (fo_run_id opts) base of
          None \<Rightarrow> Fx_exit exit_config_error w empty_report
        | Some run \<Rightarrow>
          (case load_proposals run of None \<Rightarrow> Fx_crash w
           | Some [] \<Rightarrow> Fx_exit 0 w empty_report
           | Some ps \<Rightarrow>
             (case fix_loop env opts ps (w, empty_report) of
                Inl w' \<Rightarrow> Fx_crash w'
              | Inr (w', rep) \<Rightarrow> Fx_exit (if fr_errors rep \<noteq> [] then exit_test_execution_failed else 0) w' rep)))"

section \<open>Lemmas\<close>

fun world_of :: "fix_result \<Rightarrow> fix_world" where
  "world_of (Fx_exit code w rep) = w"
| "world_of (Fx_crash w) = w"

text \<open>What the gate knows of a proposal before an edit.\<close>

definition gated :: "fix_options \<Rightarrow> repair_proposal \<Rightarrow> banner_status \<Rightarrow> bool" where
  "gated opts p banner \<longleftrightarrow> \<not> fo_review_only opts \<and> fo_apply opts \<noteq> ''none'' \<and> \<not> fo_dry_run opts \<and>
     \<not> bs_hand_edited banner \<and> \<not> rp_requires_human_review p \<and> fo_threshold opts \<le> rp_confidence p \<and>
     rp_kind p \<in> (if fo_apply opts = ''safe'' then {Rk_locator, Rk_wait} else {Rk_locator, Rk_wait, Rk_fixture, Rk_assertion}) \<and>
     (rp_kind p = Rk_assertion \<longrightarrow> fo_allow_weaken opts)"

lemma decide_gated:
  assumes "ad_should_apply (decide_auto_apply p banner m t w)"
  shows "\<not> bs_hand_edited banner" "\<not> rp_requires_human_review p" "t \<le> rp_confidence p"
    "rp_kind p \<in> (if m = Apply_safe then {Rk_locator, Rk_wait} else {Rk_locator, Rk_wait, Rk_fixture, Rk_assertion})"
    "rp_kind p = Rk_assertion \<longrightarrow> w"
  using assms by (cases "rp_kind p"; auto simp: decide_auto_apply_def Let_def aggressive_kinds_def safe_kinds_def split: if_splits)+

lemma apply_done:
  "apply_unified_diff env path a b w = Ap_done w' \<Longrightarrow> \<exists>f f'. fw_files w path = Some f \<and> fw_files w' = (fw_files w)(path \<mapsto> f') \<and>
     fw_audit w' = fw_audit w \<and> f' = \<lparr>sp_content = edited_text (universal_newlines (sp_content f)) a b, sp_mtime = fe_clock env (fw_writes w)\<rparr>"
  by (auto simp: apply_unified_diff_def Let_def split: option.splits if_splits)

lemma write_audit_files [simp]: "fw_files (write_audit_entry env e w) = fw_files w"
  by (simp add: write_audit_entry_def)

text \<open>A step leaves the specs and the log alone, or edits one gated spec and appends one entry.\<close>

definition edits :: "fix_env \<Rightarrow> fix_options \<Rightarrow> repair_proposal \<Rightarrow> fix_world \<Rightarrow> fix_world \<Rightarrow> bool" where
  "edits env opts p w w' \<longleftrightarrow>
     (\<exists>banner reason w1. gated opts p banner \<and>
        detect_banner_status (fe_parse_iso env) 4096 (fw_files w (target_path w (rp_target_test p))) = Some banner \<and>
        apply_unified_diff env (target_path w (rp_target_test p)) (rp_original_behavior p) (rp_proposed_change p) w = Ap_done w1 \<and>
        w' = write_audit_entry env (apply_entry p reason (fo_allow_weaken opts) (fo_apply opts)) w1)"

lemma fix_step_crash: "fix_step env opts p (w, rep) = Inl w' \<Longrightarrow> w' = w"
  by (auto simp: fix_step_def fix_edit_def Let_def split: option.splits if_splits apply_result.splits)

lemma fix_step_cases:
  assumes "fix_step env opts p (w, rep) = Inr (w', rep')"
  obtains (kept) "w' = w" "fr_applied rep' = fr_applied rep \<or> fo_dry_run opts"
  | (edited) "edits env opts p w w'" "fr_applied rep' = fr_applied rep @ [rp_id p]"
proof -
  let ?path = "target_path w (rp_target_test p)"
  obtain banner where b: "detect_banner_status (fe_parse_iso env) 4096 (fw_files w ?path) = Some banner"
    using assms by (auto simp: fix_step_def Let_def split: option.splits if_splits)
  show thesis
  proof (cases "w' = w \<and> (fr_applied rep' = fr_applied rep \<or> fo_dry_run opts)")
    case False
    then have gate: "\<not> fo_review_only opts" "fo_apply opts \<noteq> ''none''" "\<not> fo_dry_run opts"
        "ad_should_apply (fix_decision opts p banner)"
      and e: "fix_edit env opts p ?path (ad_reason (fix_decision opts p banner)) (w, rep) = Inr (w', rep')"
      using assms b by (auto simp: fix_step_def Let_def split: if_splits)
    from e False gate(3) obtain w1 where a: "apply_unified_diff env ?path (rp_original_behavior p) (rp_proposed_change p) w = Ap_done w1"
        "w' = write_audit_entry env (apply_entry p (ad_reason (fix_decision opts p banner)) (fo_allow_weaken opts) (fo_apply opts)) w1"
        "fr_applied rep' = fr_applied rep @ [rp_id p]"
      by (auto simp: fix_edit_def split: apply_result.splits)
    have "gated opts p banner"
      using gate decide_gated [OF gate(4) [unfolded fix_decision_def]]
      by (cases "fo_apply opts = ''safe''") (simp_all add: gated_def mode_of_def)
    then show thesis using a b by (intro edited) (auto simp: edits_def)
  qed (use kept in blast)
qed

lemma edits_changed:
  assumes "edits env opts p w w'" "fw_files w' path \<noteq> fw_files w path"
  shows "path = target_path w (rp_target_test p)"
    "\<exists>banner. gated opts p banner \<and> detect_banner_status (fe_parse_iso env) 4096 (fw_files w path) = Some banner"
  using assms by (auto simp: edits_def dest!: apply_done split: if_splits)

lemma target_path_cases: "target_path w t \<in> {t, join_path fix_base t}"
  by (simp add: target_path_def Let_def)

definition loop_world :: "fix_world + fix_world \<times> fix_report \<Rightarrow> fix_world" where
  "loop_world r = (case r of Inl w \<Rightarrow> w | Inr st \<Rightarrow> fst st)"

lemma fix_loop_changed:
  "fw_files (loop_world (fix_loop env opts ps (w, rep))) path \<noteq> fw_files w path \<Longrightarrow>
   \<exists>p\<in>set ps. path \<in> {rp_target_test p, join_path fix_base (rp_target_test p)} \<and>
     (\<exists>banner. gated opts p banner \<and> detect_banner_status (fe_parse_iso env) 4096 (fw_files w path) = Some banner)"
proof (induction ps arbitrary: w rep)
  case Nil then show ?case by (simp add: loop_world_def)
next
  case (Cons p ps)
  show ?case
  proof (cases "fix_step env opts p (w, rep)")
    case (Inl w') then show ?thesis using Cons.prems fix_step_crash [OF Inl] by (simp add: loop_world_def)
  next
    case (Inr st)
    obtain w1 rep1 where st: "st = (w1, rep1)" by (cases st)
    have loop: "fix_loop env opts (p # ps) (w, rep) = fix_loop env opts ps (w1, rep1)" by (simp add: Inr st)
    show ?thesis
    proof (cases "fw_files w1 path = fw_files w path")
      case True
      have "fw_files (loop_world (fix_loop env opts ps (w1, rep1))) path \<noteq> fw_files w1 path"
        using Cons.prems True unfolding loop by simp
      from Cons.IH [OF this] True show ?thesis by auto
    next
      case False
      have "edits env opts p w w1" using fix_step_cases [OF Inr [unfolded st]] False by metis
      from edits_changed [OF this False] show ?thesis using target_path_cases [of w "rp_target_test p"] by auto
    qed
  qed
qed

lemma run_fix_loop:
  "world_of (run_fix env opts base w) = w \<or>
   (\<exists>run ps. resolve_run_dir (fo_latest opts) (fo_run_id opts) base = Some run \<and> load_proposals run = Some ps \<and>
     fo_apply opts \<in> {''none'', ''safe'', ''aggressive''} \<and>
     world_of (run_fix env opts base w) = loop_world (fix_loop env opts ps (w, empty_report)))"
proof (cases "resolve_run_dir (fo_latest opts) (fo_run_id opts) base")
  case (Some run)
  show ?thesis
  proof (cases "load_proposals run")
    case (Some ps)
    then show ?thesis using \<open>resolve_run_dir (fo_latest opts) (fo_run_id opts) base = Some run\<close>
      by (cases ps; cases "fix_loop env opts ps (w, empty_report)") (auto simp: run_fix_def loop_world_def split: sum.splits)
  qed (simp add: run_fix_def Some)
qed (simp add: run_fix_def)


lemma apply_entry_plain: "list_all (\<lambda>k. key_category k = None)
    [''event'', ''id'', ''kind'', ''target_test'', ''confidence'', ''decision_reason'', ''allow_weaken'', ''mode'']"
  by code_simp

definition entry_of :: "fix_env \<Rightarrow> string \<Rightarrow> json \<Rightarrow> bool" where
  "entry_of env i e \<longleftrightarrow> (\<exists>items. e = J_obj items \<and> map_of items ''event'' = Some (J_str (fe_scrub env ''healer.apply'')) \<and>
     map_of items ''id'' = Some (J_str (fe_scrub env i)))"

lemma write_apply_entry:
  "\<exists>e. fw_audit (write_audit_entry env (apply_entry p reason aw m) w) = fw_audit w @ [e] \<and> entry_of env (rp_id p) e"
  using apply_entry_plain by (simp add: write_audit_entry_def apply_entry_def entry_of_def numeral_eq_Suc)

lemma edits_audit: "edits env opts p w w' \<Longrightarrow> \<exists>e. fw_audit w' = fw_audit w @ [e] \<and> entry_of env (rp_id p) e"
  unfolding edits_def by (metis apply_done write_apply_entry)

lemma fix_loop_audit:
  assumes "fix_loop env opts ps (w, rep) = Inr (w', rep')" "\<not> fo_dry_run opts"
  shows "\<exists>ids es. fr_applied rep' = fr_applied rep @ ids \<and> fw_audit w' = fw_audit w @ es \<and> list_all2 (entry_of env) ids es"
  using assms(1)
proof (induction ps arbitrary: w rep)
  case Nil then show ?case by (auto intro!: exI [of _ "[]"])
next
  case (Cons p ps)
  obtain w1 rep1 where s: "fix_step env opts p (w, rep) = Inr (w1, rep1)" and l: "fix_loop env opts ps (w1, rep1) = Inr (w', rep')"
    using Cons.prems by (auto split: sum.splits)
  from Cons.IH [OF l] obtain ids es where ih: "fr_applied rep' = fr_applied rep1 @ ids" "fw_audit w' = fw_audit w1 @ es"
    "list_all2 (entry_of env) ids es" by blast
  from s show ?case
  proof (cases rule: fix_step_cases)
    case kept then show ?thesis using ih assms(2) by (intro exI [of _ ids] exI [of _ es]) auto
  next
    case edited
    then obtain e where "fw_audit w1 = fw_audit w @ [e]" "entry_of env (rp_id p) e" using edits_audit by blast
    then show ?thesis using ih edited by (intro exI [of _ "rp_id p # ids"] exI [of _ "e # es"]) auto
  qed
qed


lemma replace_first_at:
  assumes "old \<noteq> []" "\<And>k. k < length a \<Longrightarrow> \<not> py_startswith (drop k (a @ old @ b)) old"
  shows "replace_first old new (a @ old @ b) = a @ new @ b"
  using assms(2)
proof (induction a)
  case Nil
  then show ?case using assms(1) by (cases "old @ b") (auto simp: py_startswith_iff neq_Nil_conv)
next
  case (Cons c a)
  have head: "\<not> py_startswith (c # a @ old @ b) old" using Cons.prems [of 0] by simp
  have "replace_first old new (a @ old @ b) = a @ new @ b" by (rule Cons.IH) (use Cons.prems [of "Suc _"] in auto)
  then show ?case using head by simp
qed

lemma model_strip_sandwich:
  assumes "list_all is_model_space lead" "list_all is_model_space trail" "core \<noteq> []"
    "\<not> is_model_space (hd core)" "\<not> is_model_space (last core)"
  shows "model_strip (lead @ core @ trail) = core"
proof -
  have "dropWhile is_model_space (lead @ core @ trail) = core @ trail"
    using assms by (cases core) (auto simp: list_all_iff)
  moreover have "dropWhile is_model_space (rev (core @ trail)) = rev core"
    using assms by (cases core rule: rev_cases) (auto simp: list_all_iff dropWhile_append)
  ultimately show ?thesis by (simp add: model_strip_def)
qed

lemma newline_space: "is_model_space newline" by code_simp

lemma strip_line_sandwich:
  assumes "list_all is_model_space lead" "list_all is_model_space trail" "core \<noteq> []"
    "\<not> is_model_space (hd core)" "\<not> is_model_space (last core)"
  shows "model_strip (rstrip_newlines (lead @ core @ trail)) = core"
proof -
  let ?N = "\<lambda>c. c = newline"
  have "dropWhile ?N (rev (lead @ core @ trail)) = dropWhile ?N (rev trail) @ rev core @ rev lead"
    using assms(3,5) newline_space by (cases core rule: rev_cases) (auto simp: dropWhile_append)
  then have "rstrip_newlines (lead @ core @ trail) = lead @ core @ rev (dropWhile ?N (rev trail))" by (simp add: rstrip_newlines_def)
  moreover have "list_all is_model_space (rev (dropWhile ?N (rev trail)))"
    using assms(2) by (auto simp: list_all_iff dest!: set_dropWhileD)
  ultimately show ?thesis using model_strip_sandwich assms by metis
qed

lemma alpha_not_space: "is_ascii_alpha c \<Longrightarrow> \<not> is_model_space c"
  by (auto simp: is_ascii_alpha_def is_model_space_def Let_def)

lemma delimiter_not_space: "is_delimiter c \<Longrightarrow> \<not> is_model_space c"
  by (auto simp: is_delimiter_def is_slash_def is_quote_def is_model_space_def)

lemma name_argument_last:
  assumes "is_name_argument n"
  shows "n \<noteq> [] \<and> \<not> is_model_space (last n)"
proof -
  obtain q body flags where n: "n = q # body @ q # flags" and d: "is_delimiter q" and f: "list_all is_ascii_alpha flags"
    using assms by (auto simp: is_name_argument_def is_delimiter_def)
  show ?thesis using d f alpha_not_space delimiter_not_space unfolding n
    by (cases flags rule: rev_cases) (auto simp: list_all_iff)
qed

lemma role_call_ends:
  assumes "role_call b n r"
  shows "(\<exists>c\<in>set b. \<not> is_model_space c) \<and> n \<noteq> [] \<and> \<not> is_model_space (last n)"
proof -
  obtain x y where "b = x @ ''getByRole('' @ y" "is_name_argument n"
    using assms unfolding role_call_def by blast
  then show ?thesis using name_argument_last by (auto simp: is_model_space_def)
qed

lemma name_arg_literal_last: "name_arg_literal n \<noteq> [] \<and> \<not> is_model_space (last (name_arg_literal n))"
  by (simp add: name_arg_literal_def is_model_space_def)

text \<open>The line with its margins: what the model strips from both sides of the edit is the same.\<close>

lemma replace_locator_core:
  assumes "replace_locator_in_line l n = Some l'"
  obtains lead core core' trail where "l = lead @ core @ trail" "l' = lead @ core' @ trail" "list_all is_model_space lead"
    "core \<noteq> []" "\<not> is_model_space (hd core)" "\<not> is_model_space (last core)"
    "model_strip (rstrip_newlines l) = core" "model_strip (rstrip_newlines l') = core'" "core' \<noteq> []" "last core' \<noteq> newline"
proof -
  obtain b old r where f: "search_getbyrole [] l = Some (b, old, r)" and l': "l' = b @ name_arg_literal n @ r"
    using assms by (auto simp: replace_locator_in_line_def split: option.splits)
  have l: "l = b @ old @ r" using search_getbyrole_call [OF f] by simp
  have ends: "\<exists>c\<in>set b. \<not> is_model_space c" "old \<noteq> []" "\<not> is_model_space (last old)" using role_call_ends search_getbyrole_call [OF f] by blast+
  define lead b1 where "lead = takeWhile is_model_space b" and "b1 = dropWhile is_model_space b"
  define r1 trail where "r1 = rev (dropWhile is_model_space (rev r))" and "trail = rev (takeWhile is_model_space (rev r))"
  have b: "b = lead @ b1" "b1 \<noteq> []" "\<not> is_model_space (hd b1)" "list_all is_model_space lead"
    using ends(1) hd_dropWhile [of is_model_space b] by (auto simp: lead_def b1_def list_all_iff dest: set_takeWhileD)
  have r: "r = r1 @ trail" unfolding r1_def trail_def by (metis rev_append rev_rev_ident takeWhile_dropWhile_id)
  have t: "list_all is_model_space trail" by (auto simp: trail_def list_all_iff dest: set_takeWhileD)
  have r1: "r1 = [] \<or> \<not> is_model_space (last r1)"
    using hd_dropWhile [of is_model_space "rev r"] by (auto simp: r1_def last_rev)
  have core: "b1 @ m @ r1 \<noteq> [] \<and> \<not> is_model_space (hd (b1 @ m @ r1)) \<and> \<not> is_model_space (last (b1 @ m @ r1))"
    if "m \<noteq> []" "\<not> is_model_space (last m)" for m
    using b r1 that by (cases "r1 = []") (auto simp: last_append)
  have strip: "model_strip (rstrip_newlines (b @ m @ r)) = b1 @ m @ r1" if "m \<noteq> []" "\<not> is_model_space (last m)" for m
    using strip_line_sandwich [of lead trail "b1 @ m @ r1"] core [OF that] b(1,4) t r by simp
  have lit: "name_arg_literal n \<noteq> []" "\<not> is_model_space (last (name_arg_literal n))" using name_arg_literal_last by auto
  have "last (b1 @ name_arg_literal n @ r1) \<noteq> newline" using core [OF lit] newline_space by metis
  then show thesis
    by (intro that [of lead "b1 @ old @ r1" trail "b1 @ name_arg_literal n @ r1"])
      (use core [OF ends(2,3)] core [OF lit] strip [OF ends(2,3)] strip [OF lit] b(1,4) r l l' in simp_all)
qed

lemma drop_into: "k < length a \<Longrightarrow> py_startswith (drop k (a @ s)) t \<Longrightarrow> t \<noteq> [] \<Longrightarrow> hd t = a ! k"
  by (auto simp: py_startswith_iff hd_append Cons_nth_drop_Suc [symmetric])
     (metis Cons_nth_drop_Suc append_Cons hd_append2 list.sel(1))


lemma endswith_newline: "py_endswith s [newline] \<longleftrightarrow> s \<noteq> [] \<and> last s = newline"
  by (cases s rule: rev_cases) (auto simp: py_endswith_def py_startswith_iff)

lemma endswith_empty: "py_endswith s []"
  by (simp add: py_endswith_def py_startswith_iff)

lemma edited_text_at:
  assumes "core \<noteq> []" "\<not> is_model_space (last core)" "last core' \<noteq> newline" "core' \<noteq> []"
    and "\<And>k. k < length a \<Longrightarrow> \<not> py_startswith (drop k (a @ core @ b)) core"
  shows "edited_text (a @ core @ b) core core' = a @ core' @ b"
proof -
  have nl: "rstrip_newlines x = x" if "x \<noteq> []" "last x \<noteq> newline" for x
    using that by (cases x rule: rev_cases) (auto simp: rstrip_newlines_def)
  have c: "last core \<noteq> newline" using assms(2) newline_space by auto
  have r: "replace_first core core' (a @ core @ b) = a @ core' @ b" by (rule replace_first_at [OF assms(1)]) (use assms(5) in blast)
  show ?thesis
    using assms(1,4) c nl [OF assms(1) c] nl [OF assms(4) assms(3)] r
    by (cases "b = []") (auto simp: edited_text_def Let_def endswith_newline endswith_empty last_append)
qed

text \<open>
  C28. What \<open>sentinel fix\<close> writes is what the diff of a locator repair shows. When the stripped line the proposal quotes does not occur
  before the line it was made for, applying the proposal to the spec it was made from (as read, with line ends translated) yields
  exactly the text whose diff the proposal carries, indentation included, although the edit ignores both the diff and the line number.
\<close>

theorem fix_implements_diff:
  assumes "propose_locator_repair path source line d cs threshold rpr evd = Inr (Some p)"
    and "fw_files w target = Some f" "universal_newlines (sp_content f) = source" "fe_decodes env (sp_content f)" "fe_write_error env target = None"
    and "\<forall>k. py_startswith (drop k source) (rp_original_behavior p) \<longrightarrow> length (concat (take (nat (line - 1)) (splitlines source))) \<le> k"
  shows "\<exists>proposed w'. apply_unified_diff env target (rp_original_behavior p) (rp_proposed_change p) w = Ap_done w' \<and>
    fw_files w' = (fw_files w)(target \<mapsto> \<lparr>sp_content = proposed, sp_mtime = fe_clock env (fw_writes w)\<rparr>) \<and>
    proposed \<noteq> source \<and> rp_unified_diff p = model_strip (unified_diff_for path source proposed)"
proof -
  obtain c :: dom_candidate and i l' where i: "line_index line (splitlines source) = Some i"
    and new: "replace_locator_in_line (splitlines source ! i) (dc_accessible_name c) = Some l'"
    and orig: "rp_original_behavior p = model_strip (rstrip_newlines (splitlines source ! i))"
    and change: "rp_proposed_change p = model_strip (rstrip_newlines l')"
    and diff: "rp_unified_diff p = model_strip (unified_diff_for path source (concat ((splitlines source)[i := l'])))"
    and ne: "rp_unified_diff p \<noteq> []"
    by (rule propose_locator_cases [OF assms(1)]) blast
  obtain lead core core' trail where l: "splitlines source ! i = lead @ core @ trail" "l' = lead @ core' @ trail"
    and sp: "list_all is_model_space lead" and core: "core \<noteq> []" "\<not> is_model_space (hd core)" "\<not> is_model_space (last core)"
    and o: "rp_original_behavior p = core" and c': "rp_proposed_change p = core'" "core' \<noteq> []" "last core' \<noteq> newline"
    by (rule replace_locator_core [OF new]) (use orig change in simp)
  define P Q where "P = concat (take i (splitlines source))" and "Q = concat (drop (Suc i) (splitlines source))"
  have n: "i < length (splitlines source)" "i = nat (line - 1)" using line_index_Some [OF i] by auto
  have split: "concat ((splitlines source)[i := x]) = P @ x @ Q" for x
    using n(1) by (simp add: upd_conv_take_nth_drop P_def Q_def)
  have source: "source = (P @ lead) @ core @ (trail @ Q)"
    using split [of "splitlines source ! i"] unfolding list_update_id concat_splitlines by (simp add: l(1))
  have first: "\<not> py_startswith (drop k source) core" if "k < length (P @ lead)" for k
  proof
    assume s: "py_startswith (drop k source) core"
    then have "length P \<le> k" using assms(6) by (simp add: o n(2) [symmetric] P_def)
    moreover have "hd core = (P @ lead) ! k" using drop_into [OF that] s source core(1) by metis
    ultimately have "hd core \<in> set lead" using that by (simp add: nth_append split: if_splits)
    then show False using sp core(2) by (auto simp: list_all_iff)
  qed
  have "edited_text source core core' = P @ l' @ Q"
    unfolding source using edited_text_at [of core core' "P @ lead" "trail @ Q"] core c' first source l(2) by simp
  moreover have "py_in core source" unfolding py_in_iff using source by blast
  moreover have "rstrip_newlines core = core"
    using core newline_space by (cases core rule: rev_cases) (auto simp: rstrip_newlines_def)
  moreover have "P @ l' @ Q \<noteq> source" using ne diff split [of l'] unified_diff_for_same by auto
  ultimately show ?thesis using assms(2-5) diff split [of l'] by (auto simp: apply_unified_diff_def o c' Let_def)
qed

text \<open>
  A spec whose generation time is recorded can be repaired once. After an applied repair, any further proposal for the same spec is
  skipped as targeting a hand-edited file, when the write happened more than five seconds after the recorded time: the edit
  moves the modification time and leaves the recorded time as it was.
\<close>

theorem second_repair_refused:
  assumes "fix_step env opts p (w, rep) = Inr (w1, rep1)" "fw_files w1 \<noteq> fw_files w" "rp_target_test q = rp_target_test p"
    and "fw_files w1 (target_path w (rp_target_test p)) = Some f" "search_generated_at (take 4096 (sp_content f)) = Some t"
    and "fe_parse_iso env (replace_char CHR ''Z'' ''+00:00'' t) = Some (Aware g)" "g + 5000000 < fe_clock env (fw_writes w)"
  shows "\<exists>reason. fix_step env opts q (w1, rep1) =
    Inr (w1, rep1\<lparr>fr_skipped := fr_skipped rep1 @ [(rp_id q, ''target spec is hand-edited: '' @ reason)]\<rparr>)"
proof -
  let ?path = "target_path w (rp_target_test p)"
  have "edits env opts p w w1" using fix_step_cases [OF assms(1)] assms(2) by metis
  then obtain f0 where f0: "fw_files w ?path = Some f0" and upd: "fw_files w1 = (fw_files w)(?path \<mapsto> f)" "sp_mtime f = fe_clock env (fw_writes w)"
    and gate: "\<not> fo_review_only opts" "fo_apply opts \<noteq> ''none''"
    using assms(4) by (auto simp: edits_def gated_def dest!: apply_done)
  have path: "target_path w1 (rp_target_test q) = ?path"
    using f0 upd(1) unfolding assms(3) by (auto simp: target_path_def Let_def)
  have read: "fe_readable env ?path" using assms(1) f0 by (auto simp: fix_step_def Let_def split: if_splits)
  have late: "5000000 < sp_mtime f - g" using assms(7) upd(2) by simp
  have "\<exists>banner. detect_banner_status (fe_parse_iso env) 4096 (Some f) = Some banner \<and> bs_hand_edited banner"
    by (simp add: detect_banner_status_def Let_def assms(5,6) late)
  then obtain banner where b: "detect_banner_status (fe_parse_iso env) 4096 (fw_files w1 ?path) = Some banner" "bs_hand_edited banner"
    using assms(4) by auto
  have "fix_decision opts q banner = \<lparr>ad_should_apply = False, ad_reason = ''target spec is hand-edited: '' @ bs_reason banner\<rparr>"
    using b(2) by (simp add: fix_decision_def decide_auto_apply_def mode_of_def Let_def)
  then have "fix_step env opts q (w1, rep1) =
      Inr (w1, rep1\<lparr>fr_skipped := fr_skipped rep1 @ [(rp_id q, ''target spec is hand-edited: '' @ bs_reason banner)]\<rparr>)"
    using b gate read by (simp add: fix_step_def path Let_def)
  then show ?thesis by blast
qed

text \<open>
  One damaged proposal file makes \<open>sentinel fix\<close> fail. If a file of the run named as a proposal is no JSON text, the
  command ends with an exception in every mode, before any proposal is shown or applied, and nothing changes.
\<close>

theorem corrupt_artifact_aborts:
  assumes "fl (5 / 10) \<le> fo_threshold opts" "fo_threshold opts \<le> 1" "fo_apply opts \<in> {''none'', ''safe'', ''aggressive''}"
    and "resolve_run_dir (fo_latest opts) (fo_run_id opts) base = Some run" "rf_healer run = Some files"
    and "(name, Art_not_json) \<in> set files" "proposal_file name"
  shows "run_fix env opts base w = Fx_crash w"
proof -
  have "Art_not_json \<in> set (map snd (sort_key fst (filter (\<lambda>f. proposal_file (fst f)) files)))"
    using assms(6,7) by (simp only: set_map set_sort set_filter) force
  then have "load_proposals run = None" by (simp add: load_proposals_def iter_proposals_def assms(5) Let_def del: set_map)
  then show ?thesis using assms(1-4) by (simp add: run_fix_def not_less del: insert_iff)
qed

lemma fix_step_accounts:
  "fix_step env opts p (w, rep) = Inr (w', rep') \<Longrightarrow>
   length (fr_applied rep') + length (fr_reviewed rep') + length (fr_skipped rep') + length (fr_errors rep') =
   Suc (length (fr_applied rep) + length (fr_reviewed rep) + length (fr_skipped rep) + length (fr_errors rep))"
  by (auto simp: fix_step_def fix_edit_def Let_def split: option.splits if_splits apply_result.splits)

lemma fix_loop_accounts:
  "fix_loop env opts ps (w, rep) = Inr (w', rep') \<Longrightarrow>
   length (fr_applied rep') + length (fr_reviewed rep') + length (fr_skipped rep') + length (fr_errors rep') =
   length ps + (length (fr_applied rep) + length (fr_reviewed rep) + length (fr_skipped rep) + length (fr_errors rep))"
proof (induction ps arbitrary: w rep)
  case (Cons p ps)
  obtain w1 rep1 where s: "fix_step env opts p (w, rep) = Inr (w1, rep1)" and l: "fix_loop env opts ps (w1, rep1) = Inr (w', rep')"
    using Cons.prems by (auto split: sum.splits)
  show ?case using Cons.IH [OF l] fix_step_accounts [OF s] by simp
qed simp

text \<open>
  The audit log of a completed \<open>sentinel fix\<close> is its report. Without a dry run, the log grows by one entry per proposal reported
  as applied, in that order, each naming the event and the proposal as the redaction leaves them; every loaded proposal is
  reported once; and the exit code is 6 exactly when an edit failed, else 0.
\<close>

theorem fix_audits_applied:
  assumes "run_fix env opts base w = Fx_exit code w' rep" "code \<noteq> exit_config_error" "\<not> fo_dry_run opts"
  shows "\<exists>es run ps. fw_audit w' = fw_audit w @ es \<and> list_all2 (entry_of env) (fr_applied rep) es \<and>
    resolve_run_dir (fo_latest opts) (fo_run_id opts) base = Some run \<and> load_proposals run = Some ps \<and>
    length (fr_applied rep) + length (fr_reviewed rep) + length (fr_skipped rep) + length (fr_errors rep) = length ps \<and>
    (code = exit_test_execution_failed \<longleftrightarrow> fr_errors rep \<noteq> []) \<and> code \<in> {0, exit_test_execution_failed}"
proof -
  obtain run ps where r: "resolve_run_dir (fo_latest opts) (fo_run_id opts) base = Some run" "load_proposals run = Some ps"
    using assms(1,2) by (auto simp: run_fix_def split: if_splits option.splits)
  have "fix_loop env opts ps (w, empty_report) = Inr (w', rep) \<and> code = (if fr_errors rep \<noteq> [] then exit_test_execution_failed else 0)"
    using assms(1,2) r by (auto simp: run_fix_def empty_report_def split: if_splits list.splits sum.splits)
  then show ?thesis using fix_loop_audit [of env opts ps w empty_report w' rep] fix_loop_accounts [of env opts ps w empty_report w' rep] assms(3) r
    by (auto simp: empty_report_def exit_test_execution_failed_def)
qed


definition managed_spec :: string where
  "managed_spec = ''// SENTINELQA AUTO-GENERATED'' @ [newline] @ ''// generated_at: 0'' @ [newline] @ ''old();'' @ [newline]"

definition sample_proposal :: repair_proposal where
  "sample_proposal = \<lparr>rp_id = ''RPR-AAAAAAAAAAAA'', rp_kind = Rk_locator, rp_target_test = ''a.ts'', rp_target_test_line = Some 3,
     rp_original_behavior = ''old();'', rp_proposed_change = ''new();'', rp_confidence = 1, rp_reason = ''r'', rp_evidence = [],
     rp_requires_human_review = False, rp_unified_diff = ''--- a'', rp_descriptor = None\<rparr>"

definition sample_env :: fix_env where
  "sample_env = \<lparr>fe_parse_iso = (\<lambda>_. Some (Aware 0)), fe_clock = (\<lambda>_. 10000000), fe_stamp = (\<lambda>_. ''now''), fe_scrub = (\<lambda>s. s),
     fe_readable = (\<lambda>_. True), fe_decodes = (\<lambda>_. True), fe_write_error = (\<lambda>_. None)\<rparr>"

definition sample_world :: fix_world where
  "sample_world = \<lparr>fw_files = [''a.ts'' \<mapsto> \<lparr>sp_content = managed_spec, sp_mtime = 0\<rparr>], fw_audit = [], fw_writes = 0\<rparr>"

definition sample_options :: fix_options where
  "sample_options = \<lparr>fo_latest = True, fo_run_id = None, fo_apply = ''safe'', fo_dry_run = False, fo_allow_weaken = False,
     fo_review_only = False, fo_threshold = fl (9 / 10)\<rparr>"

definition sample_run :: run_folder where
  "sample_run = \<lparr>rf_name = ''RUN-A'', rf_mtime = 0, rf_healer = Some [(''RPR-AAAAAAAAAAAA.json'', Art_document sample_proposal)]\<rparr>"

lemma sample_proposal_ok: "check_proposal sample_proposal = Inr sample_proposal"
proof -
  have "check_proposal sample_proposal = Inr (strip_proposal sample_proposal)"
  proof (rule check_proposalI)
    show "bounded_str 1 2048 (model_strip (rp_target_test sample_proposal))" by (rule bounded_fits) (code_simp, simp)
    show "bounded_str 1 8000 (model_strip (rp_original_behavior sample_proposal))" by (rule bounded_fits) (code_simp, simp)
    show "bounded_str 1 8000 (model_strip (rp_proposed_change sample_proposal))" by (rule bounded_fits) (code_simp, simp)
    show "bounded_str 1 4000 (model_strip (rp_reason sample_proposal))" by (rule bounded_fits) (code_simp, simp)
    show "bounded_str 1 64000 (model_strip (rp_unified_diff sample_proposal))" by (rule bounded_fits) (code_simp, simp)
    show "1 \<le> l \<and> l \<le> 1000000" if "rp_target_test_line sample_proposal = Some l" for l using that by (simp add: sample_proposal_def)
  qed code_simp+
  moreover have "strip_proposal sample_proposal = sample_proposal" by code_simp
  ultimately show ?thesis by simp
qed

lemma sample_load: "load_proposals sample_run = Some [sample_proposal]"
  "resolve_run_dir (fo_latest sample_options) (fo_run_id sample_options) [sample_run] = Some sample_run"
  by (simp_all add: load_proposals_def iter_proposals_def sample_run_def proposal_file_def py_startswith_def py_endswith_def
      sample_proposal_ok List.map_filter_simps resolve_run_dir_def list_runs_def sample_options_def)

definition edited_spec :: string where
  "edited_spec = ''// SENTINELQA AUTO-GENERATED'' @ [newline] @ ''// generated_at: 0'' @ [newline] @ ''new();'' @ [newline]"

lemma sample_edit:
  "map_option sp_content (fw_files (loop_world (fix_loop sample_env sample_options [sample_proposal] (sample_world, empty_report))) ''a.ts'') = Some edited_spec"
  by code_simp

lemma sample_exit:
  "case fix_loop sample_env sample_options [sample_proposal] (sample_world, empty_report) of Inl w \<Rightarrow> False
    | Inr st \<Rightarrow> fr_errors (snd st) = [] \<and> fr_applied (snd st) = [''RPR-AAAAAAAAAAAA'']"
  by code_simp

lemma sample_run_fix:
  obtains w rep where "run_fix sample_env sample_options [sample_run] sample_world = Fx_exit 0 w rep"
    "fr_applied rep = [''RPR-AAAAAAAAAAAA'']" "fw_files w ''a.ts'' \<noteq> fw_files sample_world ''a.ts''"
    "fix_step sample_env sample_options sample_proposal (sample_world, empty_report) = Inr (w, rep)"
    "map_option sp_content (fw_files w ''a.ts'') = Some edited_spec"
proof -
  obtain w rep where l: "fix_loop sample_env sample_options [sample_proposal] (sample_world, empty_report) = Inr (w, rep)"
      "fr_errors rep = []" "fr_applied rep = [''RPR-AAAAAAAAAAAA'']"
    using sample_exit by (cases "fix_loop sample_env sample_options [sample_proposal] (sample_world, empty_report)") auto
  have e: "map_option sp_content (fw_files w ''a.ts'') = Some edited_spec" using sample_edit by (simp add: l(1) loop_world_def del: fix_loop.simps)
  have d: "\<not> fo_threshold sample_options < fl (5 / 10)" "\<not> 1 < fo_threshold sample_options"
    "fo_apply sample_options \<in> {''none'', ''safe'', ''aggressive''}" "edited_spec \<noteq> managed_spec" by code_simp+
  have "run_fix sample_env sample_options [sample_run] sample_world = Fx_exit 0 w rep"
    using d(1-3) l by (simp add: run_fix_def sample_load del: fix_loop.simps)
  moreover have "fix_step sample_env sample_options sample_proposal (sample_world, empty_report) = Inr (w, rep)"
    using l(1) by (simp split: sum.splits)
  moreover have "fw_files w ''a.ts'' \<noteq> fw_files sample_world ''a.ts''" using e d(4) by (auto simp: sample_world_def)
  ultimately show thesis using that l(3) e by blast
qed


theorem fix_audits_applied_witness:
  "\<exists>w rep es. run_fix sample_env sample_options [sample_run] sample_world = Fx_exit 0 w rep \<and> fw_audit w = es \<and> es \<noteq> [] \<and>
     list_all2 (entry_of sample_env) [''RPR-AAAAAAAAAAAA''] es"
proof -
  obtain w rep where r: "run_fix sample_env sample_options [sample_run] sample_world = Fx_exit 0 w rep" "fr_applied rep = [''RPR-AAAAAAAAAAAA'']"
    by (rule sample_run_fix)
  have "fw_audit sample_world = []" by (simp add: sample_world_def)
  then show ?thesis using r fix_audits_applied [OF r(1)] by (auto simp: exit_config_error_def sample_options_def list_all2_Cons1)
qed

theorem second_repair_refused_witness:
  "\<exists>w rep reason. fix_step sample_env sample_options sample_proposal (sample_world, empty_report) = Inr (w, rep) \<and>
     fix_step sample_env sample_options sample_proposal (w, rep) =
       Inr (w, rep\<lparr>fr_skipped := fr_skipped rep @ [(''RPR-AAAAAAAAAAAA'', ''target spec is hand-edited: '' @ reason)]\<rparr>)"
proof -
  obtain w rep where s: "fix_step sample_env sample_options sample_proposal (sample_world, empty_report) = Inr (w, rep)"
    and c: "fw_files w ''a.ts'' \<noteq> fw_files sample_world ''a.ts''" and e: "map_option sp_content (fw_files w ''a.ts'') = Some edited_spec"
    by (rule sample_run_fix)
  obtain f where f: "fw_files w ''a.ts'' = Some f" "sp_content f = edited_spec" using e by auto
  have t: "target_path sample_world (rp_target_test sample_proposal) = ''a.ts''" "search_generated_at (take 4096 edited_spec) = Some ''0''"
    "rp_id sample_proposal = ''RPR-AAAAAAAAAAAA''" by code_simp+
  have ne: "fw_files w \<noteq> fw_files sample_world" using c by auto
  show ?thesis
    using second_repair_refused [OF s ne refl, of f "''0''" 0] f t s by (auto simp: sample_env_def)
qed

definition sample_spec_world :: fix_world where
  "sample_spec_world = \<lparr>fw_files = [''a.ts'' \<mapsto> \<lparr>sp_content = sample_spec, sp_mtime = 0\<rparr>], fw_audit = [], fw_writes = 0\<rparr>"

theorem fix_implements_diff_witness:
  "\<exists>p proposed w. sample_repair sample_spec ''Log in'' = Inr (Some p) \<and>
     apply_unified_diff sample_env ''a.ts'' (rp_original_behavior p) (rp_proposed_change p) sample_spec_world = Ap_done w \<and>
     rp_unified_diff p = model_strip (unified_diff_for ''a.spec.ts'' sample_spec proposed)"
proof -
  obtain p where p: "sample_repair sample_spec ''Log in'' = Inr (Some p)" using sample_repair_returns by blast
  have u: "universal_newlines sample_spec = sample_spec" by code_simp
  show ?thesis
    using fix_implements_diff [OF p [unfolded sample_repair_def], of sample_spec_world "''a.ts''" "\<lparr>sp_content = sample_spec, sp_mtime = 0\<rparr>" sample_env] u p
    by (fastforce simp: sample_spec_world_def sample_env_def)
qed

theorem corrupt_artifact_aborts_witness:
  "run_fix sample_env sample_options [sample_run\<lparr>rf_healer := Some [(''RPR-A.json'', Art_not_json)]\<rparr>] sample_world = Fx_crash sample_world"
proof (rule corrupt_artifact_aborts)
  show "resolve_run_dir (fo_latest sample_options) (fo_run_id sample_options) [sample_run\<lparr>rf_healer := Some [(''RPR-A.json'', Art_not_json)]\<rparr>] =
      Some (sample_run\<lparr>rf_healer := Some [(''RPR-A.json'', Art_not_json)]\<rparr>)"
    by (simp add: resolve_run_dir_def list_runs_def sample_options_def sample_run_def)
  show "rf_healer (sample_run\<lparr>rf_healer := Some [(''RPR-A.json'', Art_not_json)]\<rparr>) = Some [(''RPR-A.json'', Art_not_json)]" by simp
  show "(''RPR-A.json'', Art_not_json) \<in> set [(''RPR-A.json'', Art_not_json)]" by simp
qed code_simp+

end
