(* ===== verification/Url.thy ===== *)
theory Url
  imports NetAddr
begin

text \<open>
  \<open>urllib.parse\<close> of the standard library as the crawler uses it (Python 3.11, the version the project requires): \<open>urlparse\<close>,
  \<open>urlunparse\<close> and \<open>urljoin\<close> on byte strings. \<open>None\<close> is a \<open>ValueError\<close>; \<open>nfkc_ok\<close> stands for the check of a network location
  that is not ASCII under Unicode normalization.
\<close>

record url_parts =
  up_scheme :: string
  up_netloc :: string
  up_path :: string
  up_params :: string
  up_query :: string
  up_fragment :: string

definition uses_relative :: "string list" where
  "uses_relative = ['''', ''ftp'', ''http'', ''gopher'', ''nntp'', ''imap'', ''wais'', ''file'', ''https'', ''shttp'', ''mms'',
     ''prospero'', ''rtsp'', ''rtsps'', ''rtspu'', ''sftp'', ''svn'', ''svn+ssh'', ''ws'', ''wss'']"

definition uses_netloc :: "string list" where
  "uses_netloc = ['''', ''ftp'', ''http'', ''gopher'', ''nntp'', ''telnet'', ''imap'', ''wais'', ''file'', ''mms'', ''https'', ''shttp'',
     ''snews'', ''prospero'', ''rtsp'', ''rtsps'', ''rtspu'', ''rsync'', ''svn'', ''svn+ssh'', ''sftp'', ''nfs'', ''git'', ''git+ssh'', ''ws'', ''wss'']"

definition uses_params :: "string list" where
  "uses_params = ['''', ''ftp'', ''hdl'', ''prospero'', ''http'', ''imap'', ''https'', ''shttp'', ''rtsp'', ''rtsps'', ''rtspu'', ''sip'',
     ''sips'', ''mms'', ''sftp'', ''tel'']"

definition cut_at :: "char \<Rightarrow> string \<Rightarrow> string \<times> string" where
  "cut_at c s = (before_char c s, case after_char c s of None \<Rightarrow> [] | Some r \<Rightarrow> r)"

definition split_scheme :: "string \<Rightarrow> string \<Rightarrow> string \<times> string" where
  "split_scheme default_scheme u =
     (let rest = url_after_scheme u in
      if rest = u then (default_scheme, u) else (py_lower (before_char CHR '':'' u), rest))"

definition split_netloc :: "string \<Rightarrow> string \<times> string" where
  "split_netloc u =
     (if take 2 u = ''//''
      then (takeWhile (\<lambda>c. c \<notin> set ''/?#'') (drop 2 u), dropWhile (\<lambda>c. c \<notin> set ''/?#'') (drop 2 u)) else ([], u))"

definition netloc_ok :: "(string \<Rightarrow> bool) \<Rightarrow> string \<Rightarrow> bool" where
  "netloc_ok nfkc_ok netloc \<longleftrightarrow>
     ((CHR ''['' \<in> set netloc) = (CHR '']'' \<in> set netloc)) \<and> (CHR ''['' \<in> set netloc \<longrightarrow> bracketed_ok (bracketed_part netloc)) \<and> nfkc_ok netloc"

definition split_params :: "string \<Rightarrow> string \<times> string" where
  "split_params path =
     (let segment = after_last_char CHR ''/'' path in
      (take (length path - length segment) path @ before_char CHR '';'' segment, snd (cut_at CHR '';'' segment)))"

definition urlparse :: "(string \<Rightarrow> bool) \<Rightarrow> string \<Rightarrow> string \<Rightarrow> url_parts option" where
  "urlparse nfkc_ok default_scheme url =
     (let (scheme, u1) = split_scheme default_scheme (url_clean url);
          (netloc, u2) = split_netloc u1;
          (u3, fragment) = cut_at CHR ''#'' u2;
          (u4, query) = cut_at CHR ''?'' u3;
          (path, params) = (if scheme \<in> set uses_params \<and> CHR '';'' \<in> set u4 then split_params u4 else (u4, []))
      in if netloc_ok nfkc_ok netloc
         then Some \<lparr>up_scheme = scheme, up_netloc = netloc, up_path = path, up_params = params, up_query = query, up_fragment = fragment\<rparr>
         else None)"

definition urlunparse :: "url_parts \<Rightarrow> string" where
  "urlunparse p =
     (let path = up_path p @ (if up_params p = [] then [] else '';'' @ up_params p);
          located = (if up_netloc p \<noteq> [] \<or> (up_scheme p \<noteq> [] \<and> up_scheme p \<in> set uses_netloc) \<or> take 2 path = ''//''
                     then ''//'' @ up_netloc p @ (if path \<noteq> [] \<and> take 1 path \<noteq> ''/'' then ''/'' @ path else path) else path)
      in (if up_scheme p = [] then [] else up_scheme p @ '':'') @ located @
         (if up_query p = [] then [] else ''?'' @ up_query p) @ (if up_fragment p = [] then [] else ''#'' @ up_fragment p))"

definition squeeze :: "string list \<Rightarrow> string list" where
  "squeeze segments =
     (case segments of a # b # rest \<Rightarrow> a # filter (\<lambda>s. s \<noteq> []) (butlast (b # rest)) @ [last (b # rest)] | _ \<Rightarrow> segments)"

definition resolve_dots :: "string list \<Rightarrow> string list" where
  "resolve_dots segments =
     foldl (\<lambda>out seg. if seg = ''..'' then butlast out else if seg = ''.'' then out else out @ [seg]) [] segments @
     (if last segments \<in> {''.'', ''..''} then [[]] else [])"

definition join_paths :: "string \<Rightarrow> string \<Rightarrow> string" where
  "join_paths base_path path =
     (let parts = split_on CHR ''/'' base_path;
          base_parts = (if last parts \<noteq> [] then butlast parts else parts);
          segments = (if take 1 path = ''/'' then split_on CHR ''/'' path else squeeze (base_parts @ split_on CHR ''/'' path));
          joined = py_join ''/'' (resolve_dots segments)
      in if joined = [] then ''/'' else joined)"

definition urljoin :: "(string \<Rightarrow> bool) \<Rightarrow> string \<Rightarrow> string \<Rightarrow> string option" where
  "urljoin nfkc_ok base url =
     (if base = [] then Some url else if url = [] then Some base
      else Option.bind (urlparse nfkc_ok [] base) (\<lambda>b.
           Option.bind (urlparse nfkc_ok (up_scheme b) url) (\<lambda>p.
             if up_scheme p \<noteq> up_scheme b \<or> up_scheme p \<notin> set uses_relative then Some url
             else if up_scheme p \<in> set uses_netloc \<and> up_netloc p \<noteq> [] then Some (urlunparse p)
             else (let q = (if up_scheme p \<in> set uses_netloc then p\<lparr>up_netloc := up_netloc b\<rparr> else p) in
               if up_path p = [] \<and> up_params p = []
               then Some (urlunparse (q\<lparr>up_path := up_path b, up_params := up_params b,
                      up_query := (if up_query p = [] then up_query b else up_query p)\<rparr>))
               else Some (urlunparse (q\<lparr>up_path := join_paths (up_path b) (up_path p)\<rparr>))))))"

end
