(* ===== verification/Crawler.thy ===== *)
theory Crawler
  imports Url PyFloat "HOL-Library.AList"
begin

text \<open>
  The crawler of \<open>engine/discovery/crawler.py\<close>. The target is a function from a URL and the number of the attempt to the outcome of
  the request: a crawl visits no URL twice and tries each at most four times, so every behaviour of a target is such a function. The robots
  text is a function of the network location for the same reason. \<open>httpx\<close> follows redirects inside one \<open>get\<close>: the URLs it requests on the way
  are \<open>cn_redirects\<close>, the outcome is that of the last one. A crawl logs each \<open>get\<close> with its redirects. BeautifulSoup, \<open>RobotFileParser\<close> and the clocks are arguments.
\<close>

section \<open>The target\<close>

record http_response =
  hr_status :: int
  hr_content_type :: string
  hr_text :: string

text \<open>\<open>Ho_error\<close> is an \<open>httpx.HTTPError\<close> with its text, \<open>Ho_raises\<close> any other exception (\<open>httpx.InvalidURL\<close> is one).\<close>

datatype get_outcome = Ho_response http_response | Ho_error string | Ho_raises

record crawl_net =
  cn_get :: "string \<Rightarrow> nat \<Rightarrow> get_outcome"
  cn_redirects :: "string \<Rightarrow> nat \<Rightarrow> string list"
  cn_robots :: "string \<Rightarrow> get_outcome"
  cn_get_script :: "string \<Rightarrow> get_outcome"
  cn_can_fetch :: "string \<Rightarrow> string \<Rightarrow> string \<Rightarrow> bool"
  cn_hrefs :: "string \<Rightarrow> string list"
  cn_scripts :: "string \<Rightarrow> (string option \<times> string) list"
  cn_nfkc_ok :: "string \<Rightarrow> bool"
  cn_clock :: "nat \<Rightarrow> flt"
  cn_elapsed :: "string \<Rightarrow> int"

record crawl_policy =
  cp_max_depth :: int
  cp_max_pages :: int
  cp_rate_limit_rps :: flt
  cp_respect_robots :: bool
  cp_same_host_only :: bool
  cp_extra_allowed_hosts :: "string list"
  cp_user_agent :: string

record crawl_page =
  pg_url :: string
  pg_status :: int
  pg_content_type :: "string option"
  pg_html :: string
  pg_depth :: int
  pg_elapsed_ms :: int
  pg_links :: "string list"
  pg_script_srcs :: "string list"
  pg_inline_scripts :: "string list"
  pg_network_error :: "string option"

definition is_html :: "crawl_page \<Rightarrow> bool" where
  "is_html p \<longleftrightarrow> (case pg_content_type p of None \<Rightarrow> False | Some t \<Rightarrow> py_startswith t ''text/html'')"

record crawl_result =
  cr_pages :: "crawl_page list"
  cr_robots_disallowed :: "string list"
  cr_skipped_external :: "string list"

section \<open>URLs\<close>

definition crawl_local_hosts :: "string list" where
  "crawl_local_hosts = [''localhost'', ''127.0.0.1'', ''::1'']"

definition rstrip_slashes :: "string \<Rightarrow> string" where
  "rstrip_slashes s = rev (dropWhile (\<lambda>c. c = CHR ''/'') (rev s))"

definition normalize_path :: "string \<Rightarrow> string" where
  "normalize_path path =
     (let p = (if path = [] then ''/'' else path) in
      if 1 < length p \<and> last p = CHR ''/'' then (if rstrip_slashes p = [] then ''/'' else rstrip_slashes p) else p)"

definition normalize_url :: "(string \<Rightarrow> bool) \<Rightarrow> string \<Rightarrow> string option" where
  "normalize_url nfkc_ok url =
     map_option (\<lambda>p. urlunparse (p\<lparr>up_fragment := [], up_path := normalize_path (up_path p)\<rparr>)) (urlparse nfkc_ok [] url)"

section \<open>The token bucket\<close>

text \<open>\<open>acquire\<close>: the wait and the new slot, from the time of the last slot and the time now.\<close>

definition bucket_interval :: "flt \<Rightarrow> flt option" where
  "bucket_interval rate = (if rate \<le> 0 then None else Some (fl (1 / rate)))"

definition acquire :: "flt \<Rightarrow> flt option \<Rightarrow> flt \<Rightarrow> flt \<times> flt" where
  "acquire interval last_emit t =
     (case last_emit of None \<Rightarrow> (0, t)
      | Some l \<Rightarrow>
        (let next_slot = fl (l + interval);
             wait = max 0 (fl (next_slot - t))
         in (wait, if 0 < wait then next_slot else t)))"

section \<open>Robots\<close>

text \<open>The text of \<open>/robots.txt\<close>, empty when there are no rules; \<open>None\<close> is an exception that is no \<open>HTTPError\<close>.\<close>

definition robots_text :: "crawl_net \<Rightarrow> string \<Rightarrow> string option" where
  "robots_text net host =
     (case cn_robots net host of Ho_response r \<Rightarrow> Some (if hr_status r = 200 then hr_text r else []) | Ho_error _ \<Rightarrow> Some [] | Ho_raises \<Rightarrow> None)"

definition is_local_netloc :: "string \<Rightarrow> bool" where
  "is_local_netloc host \<longleftrightarrow> host \<in> set crawl_local_hosts \<or> list_ex (\<lambda>h. py_endswith host (''.'' @ h)) crawl_local_hosts"

definition can_fetch :: "crawl_net \<Rightarrow> string \<Rightarrow> (string, string) dict \<Rightarrow> string \<Rightarrow> (bool \<times> (string, string) dict) option" where
  "can_fetch net ua cache url =
     Option.bind (urlparse (cn_nfkc_ok net) [] url) (\<lambda>parsed.
       let host = up_netloc parsed in
       if is_local_netloc host then Some (True, cache)
       else case map_of cache host of
           Some text \<Rightarrow> Some (cn_can_fetch net text ua url, cache)
         | None \<Rightarrow> map_option (\<lambda>text. (cn_can_fetch net text ua url, AList.update host text cache)) (robots_text net host))"

section \<open>Fetching\<close>

fun fetch_from :: "(nat \<Rightarrow> get_outcome) \<Rightarrow> nat list \<Rightarrow> get_outcome" where
  "fetch_from get [] = Ho_raises"
| "fetch_from get (attempt # later) =
     (case get attempt of
        Ho_response r \<Rightarrow> if hr_status r < 500 \<or> later = [] then Ho_response r else fetch_from get later
      | e \<Rightarrow> e)"

definition fetch_with_retries :: "crawl_net \<Rightarrow> string \<Rightarrow> get_outcome" where
  "fetch_with_retries net url = fetch_from (cn_get net url) [0, 1, 2, 3]"

text \<open>The attempts made at a URL, and the requests they are: the URL and the redirects followed from it.\<close>

fun attempts_made :: "(nat \<Rightarrow> get_outcome) \<Rightarrow> nat list \<Rightarrow> nat list" where
  "attempts_made get [] = []"
| "attempts_made get (attempt # later) =
     attempt # (case get attempt of Ho_response r \<Rightarrow> if hr_status r < 500 \<or> later = [] then [] else attempts_made get later | _ \<Rightarrow> [])"

definition gets_of :: "crawl_net \<Rightarrow> string \<Rightarrow> (string \<times> string list) list" where
  "gets_of net url = map (\<lambda>attempt. (url, cn_redirects net url attempt)) (attempts_made (cn_get net url) [0, 1, 2, 3])"

definition kept_href :: "string \<Rightarrow> bool" where
  "kept_href href \<longleftrightarrow> href \<noteq> [] \<and> \<not> py_startswith href ''#'' \<and> \<not> py_startswith href ''mailto:'' \<and> \<not> py_startswith href ''tel:''"

definition extract_links_and_scripts :: "crawl_net \<Rightarrow> string \<Rightarrow> string list \<times> string list \<times> string list" where
  "extract_links_and_scripts net html =
     (if html = [] then ([], [], [])
      else (filter kept_href (cn_hrefs net html),
            List.map_filter (\<lambda>(src, text). case src of Some s \<Rightarrow> if s \<noteq> [] then Some s else None | None \<Rightarrow> None) (cn_scripts net html),
            List.map_filter (\<lambda>(src, text). if src = None \<or> src = Some [] then (if py_strip text \<noteq> [] then Some text else None) else None)
              (cn_scripts net html)))"

definition fetch :: "crawl_net \<Rightarrow> string \<Rightarrow> int \<Rightarrow> crawl_page option" where
  "fetch net url depth =
     (case fetch_with_retries net url of
        Ho_raises \<Rightarrow> None
      | Ho_error message \<Rightarrow>
          Some \<lparr>pg_url = url, pg_status = 0, pg_content_type = None, pg_html = [], pg_depth = depth, pg_elapsed_ms = cn_elapsed net url,
            pg_links = [], pg_script_srcs = [], pg_inline_scripts = [], pg_network_error = Some message\<rparr>
      | Ho_response r \<Rightarrow>
          (let html = (if py_startswith (hr_content_type r) ''text/html'' then hr_text r else []);
               (links, scripts, inline) = extract_links_and_scripts net html
           in Some \<lparr>pg_url = url, pg_status = hr_status r,
                pg_content_type = (if hr_content_type r = [] then None else Some (hr_content_type r)), pg_html = html, pg_depth = depth,
                pg_elapsed_ms = cn_elapsed net url, pg_links = links, pg_script_srcs = scripts, pg_inline_scripts = inline,
                pg_network_error = None\<rparr>))"

section \<open>The crawl\<close>

record crawl_state =
  cs_seen :: "string set"
  cs_queue :: "(string \<times> int) list"
  cs_pages :: "crawl_page list"
  cs_disallowed :: "string list"
  cs_skipped :: "string list"
  cs_robots :: "(string, string) dict"
  cs_last_emit :: "flt option"
  cs_slots :: nat
  cs_gets :: "(string \<times> string list) list"

fun link_candidates :: "crawl_net \<Rightarrow> string \<Rightarrow> string list \<Rightarrow> string list option" where
  "link_candidates net url [] = Some []"
| "link_candidates net url (l # ls) =
     (case Option.bind (urljoin (cn_nfkc_ok net) url l) (normalize_url (cn_nfkc_ok net)) of
        None \<Rightarrow> None
      | Some c \<Rightarrow> map_option (Cons c) (link_candidates net url ls))"

text \<open>The end of an iteration: the slot, the request, and the links of the page behind the queue.\<close>

definition visit :: "crawl_net \<Rightarrow> crawl_policy \<Rightarrow> flt \<Rightarrow> string \<Rightarrow> int \<Rightarrow> crawl_state \<Rightarrow> crawl_state option" where
  "visit net policy interval url depth st =
     Option.bind (fetch net url depth) (\<lambda>page.
       map_option (\<lambda>candidates.
           st\<lparr>cs_pages := cs_pages st @ [page],
              cs_queue := cs_queue st @ map (\<lambda>c. (c, depth + 1)) (filter (\<lambda>c. c \<notin> cs_seen st) candidates),
              cs_last_emit := Some (snd (acquire interval (cs_last_emit st) (cn_clock net (cs_slots st)))),
              cs_slots := Suc (cs_slots st),
              cs_gets := cs_gets st @ gets_of net url\<rparr>)
         (if depth < cp_max_depth policy \<and> is_html page then link_candidates net url (pg_links page) else Some []))"

definition crawl_step :: "crawl_net \<Rightarrow> crawl_policy \<Rightarrow> flt \<Rightarrow> string set \<Rightarrow> string \<times> int \<Rightarrow> crawl_state \<Rightarrow> crawl_state option" where
  "crawl_step net policy interval allowed item st =
     (case item of (url, depth) \<Rightarrow>
       if url \<in> cs_seen st then Some st
       else let st1 = st\<lparr>cs_seen := insert url (cs_seen st)\<rparr> in
         Option.bind (urlparse (cn_nfkc_ok net) [] url) (\<lambda>parsed.
           if cp_same_host_only policy \<and> up_netloc parsed \<notin> allowed then Some (st1\<lparr>cs_skipped := cs_skipped st @ [url]\<rparr>)
           else Option.bind (if cp_respect_robots policy then can_fetch net (cp_user_agent policy) (cs_robots st) url else Some (True, cs_robots st))
             (\<lambda>(permitted, cache).
               let st2 = st1\<lparr>cs_robots := cache\<rparr> in
               if \<not> permitted then Some (st2\<lparr>cs_disallowed := cs_disallowed st @ [url]\<rparr>)
               else visit net policy interval url depth st2)))"

text \<open>Every iteration takes one entry off the queue; only a fetched page adds entries.\<close>

lemma visit_pages: "visit net policy i url d st = Some st' \<Longrightarrow> length (cs_pages st') = Suc (length (cs_pages st))"
  by (auto simp: visit_def bind_eq_Some_conv split: if_splits)

lemma crawl_step_progress:
  assumes "crawl_step net policy i allowed item st = Some st'"
  shows "cs_pages st' = cs_pages st \<and> cs_queue st' = cs_queue st \<or> length (cs_pages st') = Suc (length (cs_pages st))"
  using assms visit_pages by (auto simp: crawl_step_def Let_def bind_eq_Some_conv split: prod.splits if_splits)

function crawl_loop :: "crawl_net \<Rightarrow> crawl_policy \<Rightarrow> flt \<Rightarrow> string set \<Rightarrow> crawl_state \<Rightarrow> crawl_state option" where
  "crawl_loop net policy interval allowed st =
     (case cs_queue st of
        [] \<Rightarrow> Some st
      | item # rest \<Rightarrow>
          if cp_max_pages policy \<le> int (length (cs_pages st)) then Some st
          else case crawl_step net policy interval allowed item (st\<lparr>cs_queue := rest\<rparr>) of
              None \<Rightarrow> None
            | Some st' \<Rightarrow> crawl_loop net policy interval allowed st')"
  by pat_completeness auto
termination
proof (relation "measures [\<lambda>(net, policy, i, allowed, st). nat (cp_max_pages policy - int (length (cs_pages st))),
    \<lambda>(net, policy, i, allowed, st). length (cs_queue st)]", goal_cases)
  case (2 net policy i allowed st item rest st')
  then show ?case using crawl_step_progress [OF 2(3)] by auto
qed simp

declare crawl_loop.simps [simp del]

definition start_state :: "string \<Rightarrow> crawl_state" where
  "start_state base = \<lparr>cs_seen = {}, cs_queue = [(base, 0)], cs_pages = [], cs_disallowed = [], cs_skipped = [], cs_robots = [],
     cs_last_emit = None, cs_slots = 0, cs_gets = []\<rparr>"

text \<open>The whole of \<open>_crawl\<close>: the state it ends in, and what it returns of it.\<close>

definition crawl_run :: "crawl_net \<Rightarrow> crawl_policy \<Rightarrow> string \<Rightarrow> crawl_state option" where
  "crawl_run net policy base_url =
     Option.bind (normalize_url (cn_nfkc_ok net) base_url) (\<lambda>base.
     Option.bind (urlparse (cn_nfkc_ok net) [] base) (\<lambda>parsed.
     Option.bind (bucket_interval (cp_rate_limit_rps policy)) (\<lambda>interval.
       crawl_loop net policy interval (insert (up_netloc parsed) (set (cp_extra_allowed_hosts policy))) (start_state base))))"

definition crawl :: "crawl_net \<Rightarrow> crawl_policy \<Rightarrow> string \<Rightarrow> crawl_result option" where
  "crawl net policy base_url =
     map_option (\<lambda>st. \<lparr>cr_pages = cs_pages st, cr_robots_disallowed = cs_disallowed st, cr_skipped_external = cs_skipped st\<rparr>)
       (crawl_run net policy base_url)"

section \<open>Scripts\<close>

text \<open>The requests of \<open>collect_javascript\<close> with their outcomes; \<open>None\<close> is an exception that is no \<open>HTTPError\<close>.\<close>

fun collect_scripts :: "crawl_net \<Rightarrow> nat \<Rightarrow> (string \<times> string) list \<Rightarrow> string set \<Rightarrow> (string, string) dict \<Rightarrow> ((string, string) dict) option" where
  "collect_scripts net max_bytes [] seen bodies = Some bodies"
| "collect_scripts net max_bytes ((page_url, src) # rest) seen bodies =
     (case Option.bind (urljoin (cn_nfkc_ok net) page_url src) (normalize_url (cn_nfkc_ok net)) of
        None \<Rightarrow> None
      | Some absolute \<Rightarrow>
          if absolute \<in> seen then collect_scripts net max_bytes rest seen bodies
          else (case cn_get_script net absolute of
              Ho_raises \<Rightarrow> None
            | Ho_error _ \<Rightarrow> collect_scripts net max_bytes rest (insert absolute seen) bodies
            | Ho_response r \<Rightarrow> collect_scripts net max_bytes rest (insert absolute seen)
                (if hr_status r \<noteq> 200 then bodies else AList.update absolute (py_take max_bytes (hr_text r)) bodies)))"

definition collect_javascript :: "crawl_net \<Rightarrow> crawl_result \<Rightarrow> nat \<Rightarrow> ((string, string) dict) option" where
  "collect_javascript net result max_bytes =
     collect_scripts net max_bytes (concat (map (\<lambda>p. map (Pair (pg_url p)) (pg_script_srcs p)) (cr_pages result))) {} []"


section \<open>What the crawl is meant to find\<close>

definition host_of :: "crawl_net \<Rightarrow> string \<Rightarrow> string option" where
  "host_of net url = map_option up_netloc (urlparse (cn_nfkc_ok net) [] url)"

text \<open>The judgement of robots.txt, without a cache.\<close>

definition robots_permit :: "crawl_net \<Rightarrow> string \<Rightarrow> string \<Rightarrow> bool" where
  "robots_permit net ua url \<longleftrightarrow>
     (case host_of net url of None \<Rightarrow> False
      | Some h \<Rightarrow> is_local_netloc h \<or> (case robots_text net h of None \<Rightarrow> False | Some text \<Rightarrow> cn_can_fetch net text ua url))"

definition in_scope :: "crawl_net \<Rightarrow> crawl_policy \<Rightarrow> string set \<Rightarrow> string \<Rightarrow> bool" where
  "in_scope net policy allowed url \<longleftrightarrow>
     (cp_same_host_only policy \<longrightarrow> (\<exists>h\<in>allowed. host_of net url = Some h)) \<and>
     (cp_respect_robots policy \<longrightarrow> robots_permit net (cp_user_agent policy) url)"

definition successors :: "crawl_net \<Rightarrow> string \<Rightarrow> string list" where
  "successors net url =
     (case fetch net url 0 of None \<Rightarrow> []
      | Some page \<Rightarrow> if is_html page then (case link_candidates net url (pg_links page) of None \<Rightarrow> [] | Some cs \<Rightarrow> cs) else [])"

inductive linked :: "crawl_net \<Rightarrow> crawl_policy \<Rightarrow> string set \<Rightarrow> string \<Rightarrow> nat \<Rightarrow> string \<Rightarrow> bool"
  for net policy allowed base where
  start: "in_scope net policy allowed base \<Longrightarrow> linked net policy allowed base 0 base"
| follow: "linked net policy allowed base n u \<Longrightarrow> int n < cp_max_depth policy \<Longrightarrow> v \<in> set (successors net u) \<Longrightarrow>
    in_scope net policy allowed v \<Longrightarrow> linked net policy allowed base (Suc n) v"

definition robots_inv :: "crawl_net \<Rightarrow> crawl_state \<Rightarrow> bool" where
  "robots_inv net st \<longleftrightarrow> (\<forall>h text. map_of (cs_robots st) h = Some text \<longrightarrow> robots_text net h = Some text)"

lemma can_fetch_permit:
  assumes "can_fetch net ua cache url = Some (ok, cache')" "\<forall>h text. map_of cache h = Some text \<longrightarrow> robots_text net h = Some text"
  shows "ok = robots_permit net ua url" "\<forall>h text. map_of cache' h = Some text \<longrightarrow> robots_text net h = Some text"
  using assms by (auto simp: can_fetch_def robots_permit_def host_of_def bind_eq_Some_conv Let_def split: if_splits option.splits)

lemma fetch_fields:
  assumes "fetch net url d = Some page"
  shows "pg_url page = url" "pg_depth page = d" "fetch net url 0 = Some (page\<lparr>pg_depth := 0\<rparr>)"
  using assms by (auto simp: fetch_def Let_def split: get_outcome.splits prod.splits)

lemma is_html_depth [simp]: "is_html (page\<lparr>pg_depth := d\<rparr>) = is_html page"
  by (simp add: is_html_def)

text \<open>The log of the requests: those of the pages, in their order; and robots texts only of hosts in scope, each asked for once.\<close>

definition log_inv :: "crawl_net \<Rightarrow> crawl_policy \<Rightarrow> string set \<Rightarrow> crawl_state \<Rightarrow> bool" where
  "log_inv net policy allowed st \<longleftrightarrow>
     cs_gets st = concat (map (\<lambda>p. gets_of net (pg_url p)) (cs_pages st)) \<and> distinct (map fst (cs_robots st)) \<and>
     (cp_same_host_only policy \<longrightarrow> fst ` set (cs_robots st) \<subseteq> allowed)"

lemma can_fetch_hosts:
  assumes "can_fetch net ua cache url = Some (ok, cache')" "distinct (map fst cache)" "urlparse (cn_nfkc_ok net) [] url = Some parsed"
  shows "distinct (map fst cache')" "fst ` set cache' \<subseteq> insert (up_netloc parsed) (fst ` set cache)"
proof -
  have "cache' = cache \<or> (\<exists>body. cache' = AList.update (up_netloc parsed) body cache)"
    using assms(1,3) by (auto simp: can_fetch_def Let_def split: if_splits option.splits)
  moreover have "distinct (map fst (AList.update (up_netloc parsed) body cache))"
    "fst ` set (AList.update (up_netloc parsed) body cache) = insert (up_netloc parsed) (fst ` set cache)" for body
    using distinct_update [OF assms(2)] by (simp_all add: dom_update)
  ultimately show "distinct (map fst cache')" "fst ` set cache' \<subseteq> insert (up_netloc parsed) (fst ` set cache)"
    using assms(2) by (metis, metis order_refl subset_insertI)
qed

lemma visit_log:
  "visit net policy i url d st = Some st' \<Longrightarrow> log_inv net policy allowed st \<Longrightarrow> log_inv net policy allowed st'"
  using fetch_fields(1) by (fastforce simp: visit_def log_inv_def bind_eq_Some_conv split: if_splits)

lemma crawl_step_log:
  assumes "crawl_step net policy i allowed (url, d) st = Some st'" "log_inv net policy allowed st"
  shows "log_inv net policy allowed st'"
proof (cases "url \<in> cs_seen st")
  case True
  then show ?thesis using assms by (simp add: crawl_step_def)
next
  case fresh: False
  then obtain parsed where parsed: "urlparse (cn_nfkc_ok net) [] url = Some parsed"
    using assms(1) by (auto simp: crawl_step_def Let_def bind_eq_Some_conv)
  let ?st = "st\<lparr>cs_seen := insert url (cs_seen st)\<rparr>"
  show ?thesis
  proof (cases "cp_same_host_only policy \<and> up_netloc parsed \<notin> allowed")
    case True
    then have "st' = ?st\<lparr>cs_skipped := cs_skipped st @ [url]\<rparr>" using assms(1) fresh parsed by (simp add: crawl_step_def)
    then show ?thesis using assms(2) by (simp add: log_inv_def)
  next
    case host: False
    then obtain ok cache where c: "(if cp_respect_robots policy then can_fetch net (cp_user_agent policy) (cs_robots st) url
        else Some (True, cs_robots st)) = Some (ok, cache)"
      and end_st: "if ok then visit net policy i url d (?st\<lparr>cs_robots := cache\<rparr>) = Some st'
        else st' = ?st\<lparr>cs_robots := cache, cs_disallowed := cs_disallowed st @ [url]\<rparr>"
      using assms(1) fresh parsed by (auto simp: crawl_step_def Let_def bind_eq_Some_conv split: if_splits)
    have "distinct (map fst cache)" "fst ` set cache \<subseteq> insert (up_netloc parsed) (fst ` set (cs_robots st))"
      using c assms(2) can_fetch_hosts [OF _ _ parsed] by (auto simp: log_inv_def split: if_splits)
    then have log: "log_inv net policy allowed (?st\<lparr>cs_robots := cache\<rparr>)" using assms(2) host unfolding log_inv_def by simp (meson insert_subset order_trans)
    show ?thesis
    proof (cases ok)
      case True
      then show ?thesis using end_st visit_log [OF _ log] by simp
    next
      case False
      then show ?thesis using end_st log by (simp add: log_inv_def)
    qed
  qed
qed

lemma crawl_loop_log:
  "crawl_loop net policy i allowed st = Some st' \<Longrightarrow> log_inv net policy allowed st \<Longrightarrow> log_inv net policy allowed st'"
proof (induction net policy i allowed st rule: crawl_loop.induct)
  case (1 net policy i allowed st)
  show ?case
  proof (cases "cs_queue st = [] \<or> cp_max_pages policy \<le> int (length (cs_pages st))")
    case True
    then show ?thesis using "1.prems" by (auto simp: crawl_loop.simps [of net policy i allowed st] split: list.splits)
  next
    case False
    then obtain u d rest st1 where q: "cs_queue st = (u, d) # rest" "crawl_step net policy i allowed (u, d) (st\<lparr>cs_queue := rest\<rparr>) = Some st1"
      "crawl_loop net policy i allowed st1 = Some st'"
      using "1.prems"(1) by (auto simp: crawl_loop.simps [of net policy i allowed st] split: list.splits option.splits)
    have "log_inv net policy allowed (st\<lparr>cs_queue := rest\<rparr>)" using "1.prems"(2) by (simp add: log_inv_def)
    then have "log_inv net policy allowed st1" by (rule crawl_step_log [OF q(2)])
    then show ?thesis using "1.IH" [OF q(1) _ q(2,3)] False by simp
  qed
qed

text \<open>What one iteration does: an entry seen before or outside the scope only leaves the queue, any other is fetched.\<close>

lemma crawl_step_cases:
  assumes "crawl_step net policy i allowed (url, d) st = Some st'" "robots_inv net st"
  obtains (dropped) "url \<in> cs_seen st \<or> \<not> in_scope net policy allowed url" "cs_seen st' = insert url (cs_seen st)"
      "cs_queue st' = cs_queue st" "cs_pages st' = cs_pages st" "robots_inv net st'"
  | (visited) page new where "url \<notin> cs_seen st" "in_scope net policy allowed url" "cs_seen st' = insert url (cs_seen st)"
      "cs_pages st' = cs_pages st @ [page]" "pg_url page = url" "pg_depth page = d" "robots_inv net st'"
      "cs_queue st' = cs_queue st @ map (\<lambda>c. (c, d + 1)) (filter (\<lambda>c. c \<notin> insert url (cs_seen st)) new)"
      "new = (if d < cp_max_depth policy then successors net url else [])"
proof -
  consider "url \<in> cs_seen st" | (fresh) "url \<notin> cs_seen st" by blast
  then show thesis
  proof cases
    case 1
    then show thesis using assms by (intro dropped) (auto simp: crawl_step_def)
  next
    case fresh
    then obtain parsed where parsed: "urlparse (cn_nfkc_ok net) [] url = Some parsed"
      using assms(1) by (auto simp: crawl_step_def Let_def bind_eq_Some_conv)
    have host: "host_of net url = Some (up_netloc parsed)" by (simp add: host_of_def parsed)
    show thesis
    proof (cases "cp_same_host_only policy \<and> up_netloc parsed \<notin> allowed")
      case True
      then show thesis using assms fresh parsed host
        by (intro dropped) (auto simp: crawl_step_def in_scope_def robots_inv_def)
    next
      case False
      then obtain ok cache where c: "(if cp_respect_robots policy then can_fetch net (cp_user_agent policy) (cs_robots st) url
          else Some (True, cs_robots st)) = Some (ok, cache)"
        using assms(1) fresh parsed by (auto simp: crawl_step_def Let_def bind_eq_Some_conv)
      have inv: "\<forall>h text. map_of cache h = Some text \<longrightarrow> robots_text net h = Some text"
        and ok: "ok = (cp_respect_robots policy \<longrightarrow> robots_permit net (cp_user_agent policy) url)"
        using c assms(2) can_fetch_permit [of net "cp_user_agent policy" "cs_robots st" url ok cache]
        by (auto simp: robots_inv_def split: if_splits)
      have scope: "in_scope net policy allowed url = ok" using False host ok by (auto simp: in_scope_def)
      show thesis
      proof (cases ok)
        case False
        then show thesis using assms(1) fresh parsed c \<open>\<not> (cp_same_host_only policy \<and> up_netloc parsed \<notin> allowed)\<close> scope inv
          by (intro dropped) (auto simp: crawl_step_def robots_inv_def Let_def)
      next
        case True
        then have v: "visit net policy i url d (st\<lparr>cs_seen := insert url (cs_seen st), cs_robots := cache\<rparr>) = Some st'"
          using assms(1) fresh parsed c \<open>\<not> (cp_same_host_only policy \<and> up_netloc parsed \<notin> allowed)\<close>
          by (auto simp: crawl_step_def Let_def)
        then obtain page new where page: "fetch net url d = Some page"
          and new: "(if d < cp_max_depth policy \<and> is_html page then link_candidates net url (pg_links page) else Some []) = Some new"
          and st': "st' = st\<lparr>cs_seen := insert url (cs_seen st), cs_robots := cache, cs_pages := cs_pages st @ [page],
              cs_queue := cs_queue st @ map (\<lambda>c. (c, d + 1)) (filter (\<lambda>c. c \<notin> insert url (cs_seen st)) new),
              cs_last_emit := Some (snd (acquire i (cs_last_emit st) (cn_clock net (cs_slots st)))), cs_slots := Suc (cs_slots st),
              cs_gets := cs_gets st @ gets_of net url\<rparr>"
          by (auto simp: visit_def bind_eq_Some_conv)
        have "new = (if d < cp_max_depth policy then successors net url else [])"
          using new fetch_fields(3) [OF page] by (auto simp: successors_def split: if_splits)
        then show thesis using visited [of page new] fresh scope True fetch_fields(1,2) [OF page] inv st' by (simp add: robots_inv_def)
      qed
    qed
  qed
qed


section \<open>The invariant of the queue\<close>

text \<open>The entry \<open>v\<close> is accounted for at depth \<open>n\<close>: fetched by then, out of scope, or waiting.\<close>

definition reached :: "crawl_net \<Rightarrow> crawl_policy \<Rightarrow> string set \<Rightarrow> crawl_page list \<Rightarrow> (string \<times> int) list \<Rightarrow> string \<Rightarrow> int \<Rightarrow> bool" where
  "reached net policy allowed pages queue v n \<longleftrightarrow>
     (\<exists>q\<in>set pages. pg_url q = v \<and> pg_depth q \<le> n) \<or> \<not> in_scope net policy allowed v \<or> (\<exists>k. (v, k) \<in> set queue \<and> k \<le> n)"

definition depths_ok :: "crawl_page list \<Rightarrow> (string \<times> int) list \<Rightarrow> bool" where
  "depths_ok pages queue \<longleftrightarrow> sorted (map snd queue) \<and> (\<forall>p\<in>set pages. \<forall>(v, k)\<in>set queue. pg_depth p \<le> k) \<and>
     (\<forall>(v, k)\<in>set queue. \<forall>(v', k')\<in>set queue. k' \<le> k + 1)"

definition crawl_inv :: "crawl_net \<Rightarrow> crawl_policy \<Rightarrow> string set \<Rightarrow> string \<Rightarrow> crawl_state \<Rightarrow> bool" where
  "crawl_inv net policy allowed base st \<longleftrightarrow>
     robots_inv net st \<and> depths_ok (cs_pages st) (cs_queue st) \<and>
     (\<forall>p\<in>set (cs_pages st). 0 \<le> pg_depth p \<and> pg_url p \<in> cs_seen st \<and> linked net policy allowed base (nat (pg_depth p)) (pg_url p)) \<and>
     distinct (map pg_url (cs_pages st)) \<and>
     (\<forall>(v, k)\<in>set (cs_queue st). 0 \<le> k \<and> (in_scope net policy allowed v \<longrightarrow> linked net policy allowed base (nat k) v)) \<and>
     (\<forall>u\<in>cs_seen st. in_scope net policy allowed u \<longrightarrow> u \<in> pg_url ` set (cs_pages st)) \<and>
     reached net policy allowed (cs_pages st) (cs_queue st) base 0 \<and>
     (\<forall>p\<in>set (cs_pages st). pg_depth p < cp_max_depth policy \<longrightarrow>
        (\<forall>v\<in>set (successors net (pg_url p)). reached net policy allowed (cs_pages st) (cs_queue st) v (pg_depth p + 1)))"

lemma linked_in_scope: "linked net policy allowed base n u \<Longrightarrow> in_scope net policy allowed u"
  by (induction rule: linked.induct) auto

lemma linked_depth: "linked net policy allowed base n u \<Longrightarrow> int n \<le> max 0 (cp_max_depth policy)"
  by (induction rule: linked.induct) auto

lemma crawl_inv_start: "crawl_inv net policy allowed base (start_state base)"
  by (auto simp: crawl_inv_def start_state_def robots_inv_def depths_ok_def reached_def intro: linked.start)

lemma depths_pop: "depths_ok pages ((u, d) # rest) \<Longrightarrow> depths_ok pages rest"
  by (auto simp: depths_ok_def)

lemma depths_push:
  assumes "depths_ok pages ((u, d) # rest)" "pg_depth page = d"
  shows "depths_ok (pages @ [page]) (rest @ map (\<lambda>c. (c, d + 1)) cs)"
proof -
  have d: "\<forall>(v, k)\<in>set rest. d \<le> k \<and> k \<le> d + 1" using assms(1) by (auto simp: depths_ok_def)
  have "sorted (map snd (rest @ map (\<lambda>c. (c, d + 1)) cs))"
    using assms(1) d sorted_replicate [of "length cs" "d + 1"] by (auto simp: depths_ok_def sorted_append comp_def map_replicate_const)
  moreover have "\<forall>p\<in>set (pages @ [page]). \<forall>(v, k)\<in>set (rest @ map (\<lambda>c. (c, d + 1)) cs). pg_depth p \<le> k"
    using assms d by (fastforce simp: depths_ok_def)
  moreover have diff: "k' \<le> k + 1" if "(v, k) \<in> set (rest @ map (\<lambda>c. (c, d + 1)) cs)" "(v', k') \<in> set (rest @ map (\<lambda>c. (c, d + 1)) cs)" for v k v' k'
  proof -
    have "d \<le> k" "k' \<le> d + 1" using that d by auto
    then show ?thesis by simp
  qed
  have "\<forall>(v, k)\<in>set (rest @ map (\<lambda>c. (c, d + 1)) cs). \<forall>(v', k')\<in>set (rest @ map (\<lambda>c. (c, d + 1)) cs). k' \<le> k + 1"
    by (intro ballI, clarify, rule diff)
  ultimately show ?thesis unfolding depths_ok_def by blast
qed

lemma reached_drop:
  assumes "reached net policy allowed pages ((u, d) # rest) v n"
    and "in_scope net policy allowed u \<Longrightarrow> \<exists>q\<in>set pages. pg_url q = u \<and> pg_depth q \<le> d"
  shows "reached net policy allowed pages rest v n"
  using assms unfolding reached_def by (metis dual_order.trans prod.inject set_ConsD)

lemma reached_push:
  assumes "reached net policy allowed pages ((u, d) # rest) v n" "pg_url page = u" "pg_depth page = d"
  shows "reached net policy allowed (pages @ [page]) (rest @ added) v n"
  using assms unfolding reached_def by auto

lemma crawl_inv_step:
  assumes inv: "crawl_inv net policy allowed base st" and queue: "cs_queue st = (u, d) # rest"
    and step: "crawl_step net policy i allowed (u, d) (st\<lparr>cs_queue := rest\<rparr>) = Some st'"
  shows "crawl_inv net policy allowed base st'"
proof -
  have robots: "robots_inv net (st\<lparr>cs_queue := rest\<rparr>)" using inv by (simp add: crawl_inv_def robots_inv_def)
  have depths: "depths_ok (cs_pages st) ((u, d) # rest)" using inv queue by (simp add: crawl_inv_def)
  have seen_page: "\<exists>q\<in>set (cs_pages st). pg_url q = v \<and> pg_depth q \<le> d" if "v \<in> cs_seen st" "in_scope net policy allowed v" for v
    using inv depths that by (fastforce simp: crawl_inv_def depths_ok_def)
  have head: "0 \<le> d" "in_scope net policy allowed u \<Longrightarrow> linked net policy allowed base (nat d) u"
    using inv queue by (auto simp: crawl_inv_def)
  from step robots show ?thesis
  proof (cases rule: crawl_step_cases)
    case dropped
    have drop: "reached net policy allowed (cs_pages st) ((u, d) # rest) v n \<Longrightarrow> reached net policy allowed (cs_pages st) rest v n" for v n
      by (rule reached_drop) (use dropped(1) seen_page in auto)
    show ?thesis
      using inv queue dropped depths_pop [OF depths] drop by (auto simp: crawl_inv_def)
  next
    case (visited page new)
    have push: "reached net policy allowed (cs_pages st) ((u, d) # rest) v n \<Longrightarrow> reached net policy allowed (cs_pages st') (cs_queue st') v n" for v n
      using reached_push [of net policy allowed "cs_pages st" u d rest v n page] visited(4-6,8) by simp
    have links: "linked net policy allowed base (nat (d + 1)) v" if "v \<in> set new" "in_scope net policy allowed v" for v
      using linked.follow [OF head(2) [OF visited(2)], of v] that visited(9) head(1)
      by (auto simp: nat_add_distrib split: if_splits)
    have succ: "reached net policy allowed (cs_pages st') (cs_queue st') v (d + 1)" if "v \<in> set (successors net u)" "d < cp_max_depth policy" for v
    proof (cases "v \<in> insert u (cs_seen st)")
      case True
      then show ?thesis using seen_page [of v] visited(4-6) unfolding reached_def by fastforce
    next
      case False
      then show ?thesis using that visited(8,9) unfolding reached_def by auto
    qed
    have d': "depths_ok (cs_pages st') (cs_queue st')"
      using depths_push [OF depths visited(6)] visited(4,8) by simp
    have pages: "\<forall>p\<in>set (cs_pages st'). 0 \<le> pg_depth p \<and> pg_url p \<in> cs_seen st' \<and> linked net policy allowed base (nat (pg_depth p)) (pg_url p)"
      using inv visited(3-6) head(1) head(2) [OF visited(2)] by (auto simp: crawl_inv_def)
    have dist: "distinct (map pg_url (cs_pages st'))" using inv visited(1,4,5) by (auto simp: crawl_inv_def)
    have que: "\<forall>(v, k)\<in>set (cs_queue st'). 0 \<le> k \<and> (in_scope net policy allowed v \<longrightarrow> linked net policy allowed base (nat k) v)"
      using inv queue visited(8) head(1) links by (auto simp: crawl_inv_def)
    have seen: "\<forall>v\<in>cs_seen st'. in_scope net policy allowed v \<longrightarrow> v \<in> pg_url ` set (cs_pages st')"
      using inv visited(3-5) by (auto simp: crawl_inv_def)
    have base: "reached net policy allowed (cs_pages st') (cs_queue st') base 0"
      using inv queue push by (simp add: crawl_inv_def)
    have closed: "\<forall>p\<in>set (cs_pages st'). pg_depth p < cp_max_depth policy \<longrightarrow>
        (\<forall>v\<in>set (successors net (pg_url p)). reached net policy allowed (cs_pages st') (cs_queue st') v (pg_depth p + 1))"
      using inv queue push succ visited(4-6) by (auto simp: crawl_inv_def)
    show ?thesis using visited(7) d' pages dist que seen base closed by (simp add: crawl_inv_def)
  qed
qed

lemma crawl_loop_inv:
  "crawl_loop net policy i allowed st = Some st' \<Longrightarrow> crawl_inv net policy allowed base st \<Longrightarrow>
   crawl_inv net policy allowed base st' \<and> (cs_queue st' = [] \<or> cp_max_pages policy \<le> int (length (cs_pages st'))) \<and>
   (int (length (cs_pages st)) \<le> max 0 (cp_max_pages policy) \<longrightarrow> int (length (cs_pages st')) \<le> max 0 (cp_max_pages policy))"
proof (induction net policy i allowed st rule: crawl_loop.induct)
  case (1 net policy i allowed st)
  show ?case
  proof (cases "cs_queue st")
    case Nil then show ?thesis using "1.prems" by (simp add: crawl_loop.simps)
  next
    case (Cons item rest)
    obtain u d where item: "item = (u, d)" by (cases item)
    show ?thesis
    proof (cases "cp_max_pages policy \<le> int (length (cs_pages st))")
      case True then show ?thesis using "1.prems" Cons by (simp add: crawl_loop.simps)
    next
      case False
      then obtain st1 where s: "crawl_step net policy i allowed item (st\<lparr>cs_queue := rest\<rparr>) = Some st1"
        and l: "crawl_loop net policy i allowed st1 = Some st'"
        using "1.prems"(1) Cons by (auto simp: crawl_loop.simps [of net policy i allowed st] split: option.splits)
      have inv: "crawl_inv net policy allowed base st1"
        using crawl_inv_step [OF "1.prems"(2) Cons [unfolded item] s [unfolded item]] .
      have "int (length (cs_pages st1)) \<le> max 0 (cp_max_pages policy)"
        using crawl_step_progress [OF s] False by auto
      then show ?thesis using "1.IH" [OF Cons False s l inv] by simp
    qed
  qed
qed

lemma crawl_run_inv:
  assumes "crawl_run net policy base_url = Some st"
  obtains base allowed where "normalize_url (cn_nfkc_ok net) base_url = Some base"
    "allowed = set (cp_extra_allowed_hosts policy) \<union> {h. host_of net base = Some h}"
    "crawl_inv net policy allowed base st" "int (length (cs_pages st)) \<le> max 0 (cp_max_pages policy)"
    "cs_queue st = [] \<or> cp_max_pages policy \<le> int (length (cs_pages st))" "log_inv net policy allowed st"
proof -
  from assms obtain base parsed i where b: "normalize_url (cn_nfkc_ok net) base_url = Some base"
    "urlparse (cn_nfkc_ok net) [] base = Some parsed"
    and l: "crawl_loop net policy i (insert (up_netloc parsed) (set (cp_extra_allowed_hosts policy))) (start_state base) = Some st"
    by (auto simp: crawl_run_def bind_eq_Some_conv)
  have a: "insert (up_netloc parsed) (set (cp_extra_allowed_hosts policy)) = set (cp_extra_allowed_hosts policy) \<union> {h. host_of net base = Some h}"
    by (auto simp: host_of_def b(2))
  have z: "int (length (cs_pages (start_state base))) \<le> max 0 (cp_max_pages policy)" by (simp add: start_state_def)
  have g: "log_inv net policy (insert (up_netloc parsed) (set (cp_extra_allowed_hosts policy))) (start_state base)"
    by (simp add: start_state_def log_inv_def)
  show thesis using that [OF b(1) refl] crawl_loop_inv [OF l crawl_inv_start] crawl_loop_log [OF l g] z by (simp add: a)
qed

lemma crawl_result_inv:
  assumes "crawl net policy base_url = Some res"
  obtains base allowed st where "normalize_url (cn_nfkc_ok net) base_url = Some base"
    "allowed = set (cp_extra_allowed_hosts policy) \<union> {h. host_of net base = Some h}" "cr_pages res = cs_pages st"
    "crawl_inv net policy allowed base st" "int (length (cs_pages st)) \<le> max 0 (cp_max_pages policy)"
    "cs_queue st = [] \<or> cp_max_pages policy \<le> int (length (cs_pages st))"
proof -
  from assms obtain st where st: "crawl_run net policy base_url = Some st" "cr_pages res = cs_pages st" by (auto simp: crawl_def)
  show thesis by (rule crawl_run_inv [OF st(1)]) (rule that [OF _ _ st(2)])
qed

text \<open>The network locations a crawl may request pages from.\<close>

definition crawl_hosts :: "crawl_net \<Rightarrow> crawl_policy \<Rightarrow> string \<Rightarrow> string set" where
  "crawl_hosts net policy base_url =
     set (cp_extra_allowed_hosts policy) \<union>
     (case Option.bind (normalize_url (cn_nfkc_ok net) base_url) (host_of net) of None \<Rightarrow> {} | Some h \<Rightarrow> {h})"

lemma crawl_hosts_eq: "normalize_url (cn_nfkc_ok net) base_url = Some base \<Longrightarrow>
    crawl_hosts net policy base_url = set (cp_extra_allowed_hosts policy) \<union> {h. host_of net base = Some h}"
  by (simp add: crawl_hosts_def split: option.split)

text \<open>The requests of a page, and those of a crawl.\<close>

lemma attempts_made_prefix: "\<exists>n. attempts_made get attempts = take n attempts"
proof (induction attempts)
  case (Cons a as)
  then obtain n where n: "attempts_made get as = take n as" by blast
  have "attempts_made get (a # as) = [a] \<or> attempts_made get (a # as) = a # attempts_made get as" by (simp split: get_outcome.split)
  moreover have "[a] = take 1 (a # as)" "a # take n as = take (Suc n) (a # as)" by simp_all
  ultimately show ?case unfolding n by metis
qed simp

lemma gets_of_bounds:
  shows "length (gets_of net url) \<le> 4" "(u, rs) \<in> set (gets_of net url) \<Longrightarrow> u = url \<and> (\<exists>attempt<4. rs = cn_redirects net url attempt)"
proof -
  obtain n where n: "attempts_made (cn_get net url) [0, 1, 2, 3] = take n [0, 1, 2, 3]" using attempts_made_prefix by blast
  then show "length (gets_of net url) \<le> 4" by (simp add: gets_of_def)
  show "u = url \<and> (\<exists>attempt<4. rs = cn_redirects net url attempt)" if get: "(u, rs) \<in> set (gets_of net url)"
  proof -
    obtain attempt where "attempt \<in> set (take n [0, 1, 2, 3 :: nat])" "u = url" "rs = cn_redirects net url attempt"
      using get unfolding gets_of_def n set_map by blast
    then show ?thesis using set_take_subset [of n "[0, 1, 2, 3 :: nat]"] by (intro conjI exI [of _ attempt]) auto
  qed
qed

lemma gets_count:
  assumes "distinct (map pg_url pages)"
  shows "length (filter (\<lambda>g. fst g = u) (concat (map (\<lambda>p. gets_of net (pg_url p)) pages))) \<le> (if u \<in> pg_url ` set pages then 4 else 0)"
  using assms
proof (induction pages)
  case (Cons p ps)
  have "filter (\<lambda>g. fst g = u) (gets_of net (pg_url p)) = (if u = pg_url p then gets_of net (pg_url p) else [])"
    using gets_of_bounds(2) [of _ _ net "pg_url p"] by (force simp: filter_empty_conv intro: filter_True)
  then show ?case using Cons gets_of_bounds(1) [of net "pg_url p"] by (auto split: if_splits)
qed simp


text \<open>
  C11. A crawl that is not cut short finds exactly what is there. If the page budget is not used up, the URLs requested are those
  linked to the base URL by a chain of permitted pages no longer than the maximal depth, and the depth recorded for a
  page is the length of its shortest chain.
\<close>

theorem crawl_is_breadth_first:
  assumes "crawl net policy base_url = Some res" "int (length (cr_pages res)) < cp_max_pages policy"
    and "normalize_url (cn_nfkc_ok net) base_url = Some base"
  shows "(u \<in> pg_url ` set (cr_pages res) \<longleftrightarrow> (\<exists>n. linked net policy (crawl_hosts net policy base_url) base n u)) \<and>
    (\<forall>p\<in>set (cr_pages res). linked net policy (crawl_hosts net policy base_url) base (nat (pg_depth p)) (pg_url p) \<and>
       (\<forall>n. linked net policy (crawl_hosts net policy base_url) base n (pg_url p) \<longrightarrow> pg_depth p \<le> int n))"
proof -
  obtain allowed st where b: "allowed = set (cp_extra_allowed_hosts policy) \<union> {h. host_of net base = Some h}" "cr_pages res = cs_pages st"
    and inv: "crawl_inv net policy allowed base st" and q: "cs_queue st = []"
    using assms by (elim crawl_result_inv) auto
  have hosts: "crawl_hosts net policy base_url = allowed" by (simp add: crawl_hosts_eq assms(3) b(1))
  have all: "\<exists>p\<in>set (cs_pages st). pg_url p = v \<and> pg_depth p \<le> int n" if "linked net policy allowed base n v" for n v
    using that
  proof (induction rule: linked.induct)
    case start
    then show ?case using inv q by (auto simp: crawl_inv_def reached_def)
  next
    case (follow n u v)
    then obtain p where p: "p \<in> set (cs_pages st)" "pg_url p = u" "pg_depth p \<le> int n" by blast
    then have "reached net policy allowed (cs_pages st) [] v (pg_depth p + 1)"
      using inv q follow.hyps(2,3) by (auto simp: crawl_inv_def)
    then show ?case using follow.hyps(4) p(3) by (fastforce simp: reached_def)
  qed
  have sound: "linked net policy allowed base (nat (pg_depth p)) (pg_url p)" if "p \<in> set (cs_pages st)" for p
    using inv that by (auto simp: crawl_inv_def)
  have "inj_on pg_url (set (cs_pages st))" using inv by (simp add: crawl_inv_def distinct_map)
  then have least: "pg_depth p \<le> int n" if "p \<in> set (cs_pages st)" "linked net policy allowed base n (pg_url p)" for p n
    using all [OF that(2)] that(1) by (auto dest: inj_onD)
  have "u \<in> pg_url ` set (cs_pages st) \<longleftrightarrow> (\<exists>n. linked net policy allowed base n u)"
    using all [of _ u] sound by blast
  then show ?thesis using sound least unfolding hosts b(2) by blast
qed


lemma link_candidates_None: "l \<in> set ls \<Longrightarrow> urljoin (cn_nfkc_ok net) url l = None \<Longrightarrow> link_candidates net url ls = None"
  by (induction ls) (auto split: option.splits)

text \<open>
  One malformed link ends the whole crawl. If the base page is fetched as HTML, the policy allows to go deeper, and one of
  its links cannot be resolved (\<open>urljoin\<close> raises on \<open>http://[\<close>), the crawl ends with an exception and the pages fetched are lost.
\<close>

theorem malformed_link_aborts:
  assumes "normalize_url (cn_nfkc_ok net) base_url = Some base" "in_scope net policy (crawl_hosts net policy base_url) base"
    and "fetch net base 0 = Some page" "is_html page" "l \<in> set (pg_links page)" "urljoin (cn_nfkc_ok net) base l = None"
    and "0 < cp_max_depth policy" "0 < cp_max_pages policy"
  shows "crawl net policy base_url = None"
proof (rule ccontr)
  assume "crawl net policy base_url \<noteq> None"
  then obtain parsed i st where p: "urlparse (cn_nfkc_ok net) [] base = Some parsed"
    and l: "crawl_loop net policy i (insert (up_netloc parsed) (set (cp_extra_allowed_hosts policy))) (start_state base) = Some st"
    using assms(1) by (auto simp: crawl_def crawl_run_def bind_eq_Some_conv)
  have hosts: "insert (up_netloc parsed) (set (cp_extra_allowed_hosts policy)) = crawl_hosts net policy base_url"
    by (auto simp: crawl_hosts_eq assms(1) host_of_def p)
  from l obtain st1 where "crawl_step net policy i (crawl_hosts net policy base_url) (base, 0) (start_state base\<lparr>cs_queue := []\<rparr>) = Some st1"
    using assms(8) unfolding hosts by (subst (asm) crawl_loop.simps) (auto simp: start_state_def split: option.splits)
  moreover have "visit net policy i base 0 s = None" for s
    using link_candidates_None [OF assms(5,6)] assms(3,4,7) by (simp add: visit_def)
  ultimately show False
    using assms(2) p can_fetch_permit(1) [of net "cp_user_agent policy" "[]" base]
    by (auto simp: crawl_step_def start_state_def in_scope_def host_of_def Let_def bind_eq_Some_conv split: if_splits)
qed

lemma fetch_from_first: "(\<forall>r. get a = Ho_response r \<longrightarrow> hr_status r < 500) \<Longrightarrow> fetch_from get (a # later) = get a"
  by (cases "get a") auto

lemma collect_scripts_bodies:
  assumes "collect_scripts net k refs seen bodies = Some out"
  shows "map_of out a = (if a \<notin> seen \<and> (\<exists>(u, s)\<in>set refs. Option.bind (urljoin (cn_nfkc_ok net) u s) (normalize_url (cn_nfkc_ok net)) = Some a)
    then (case cn_get_script net a of Ho_response r \<Rightarrow> if hr_status r = 200 then Some (py_take k (hr_text r)) else map_of bodies a | _ \<Rightarrow> map_of bodies a)
    else map_of bodies a)"
  using assms
proof (induction net k refs seen bodies rule: collect_scripts.induct)
  case (2 net k u s rest seen bodies)
  obtain b where b: "Option.bind (urljoin (cn_nfkc_ok net) u s) (normalize_url (cn_nfkc_ok net)) = Some b"
    using "2.prems" by (auto split: option.splits)
  show ?case
  proof (cases "b \<in> seen")
    case True then show ?thesis using 2 b by (auto split: option.splits get_outcome.splits)
  next
    case False
    show ?thesis
    proof (cases "cn_get_script net b")
      case (Ho_response r)
      then show ?thesis using "2.IH"(2) [OF b False] "2.prems" b False
        by (cases "cn_get_script net a") (auto split: if_splits)
    next
      case (Ho_error m)
      then show ?thesis using "2.IH"(3) [OF b False Ho_error] "2.prems" b False by (auto split: if_splits)
    next
      case Ho_raises then show ?thesis using "2.prems" b False by simp
    qed
  qed
qed simp

text \<open>
  The scripts of a crawl are fetched from everywhere. When \<open>collect_javascript\<close> ends, it holds the body of every script a page refers
  to that answers with 200, cut at the limit, and nothing else: no policy, host, robots text or slot has a say in it.
\<close>

theorem scripts_ignore_policy:
  assumes "collect_javascript net res k = Some bodies"
  shows "map_of bodies a =
    (if \<exists>p\<in>set (cr_pages res). \<exists>s\<in>set (pg_script_srcs p). Option.bind (urljoin (cn_nfkc_ok net) (pg_url p) s) (normalize_url (cn_nfkc_ok net)) = Some a
     then (case cn_get_script net a of Ho_response r \<Rightarrow> if hr_status r = 200 then Some (py_take k (hr_text r)) else None | _ \<Rightarrow> None)
     else None)"
  using collect_scripts_bodies [OF assms [unfolded collect_javascript_def], of a] by (simp split: get_outcome.splits)

definition sample_get :: "string \<Rightarrow> nat \<Rightarrow> get_outcome" where
  "sample_get url attempt =
     (if url = ''http://h/'' then Ho_response \<lparr>hr_status = 200, hr_content_type = ''text/html'', hr_text = ''a''\<rparr>
      else if url = ''http://h/a'' then Ho_response \<lparr>hr_status = (if attempt = 0 then 503 else 200), hr_content_type = ''text/html'', hr_text = ''b''\<rparr>
      else Ho_error ''unreachable'')"

definition sample_net :: "string list \<Rightarrow> crawl_net" where
  "sample_net hrefs = \<lparr>cn_get = sample_get, cn_redirects = (\<lambda>url _. if url = ''http://h/a'' then [''http://elsewhere/''] else []), cn_robots = (\<lambda>_. Ho_error ''unreachable''),
     cn_get_script = (\<lambda>_. Ho_response \<lparr>hr_status = 200, hr_content_type = [], hr_text = ''js''\<rparr>), cn_can_fetch = (\<lambda>_ _ _. True),
     cn_hrefs = (\<lambda>html. if html = ''a'' then hrefs else [''/b'']), cn_scripts = (\<lambda>_. [(Some ''http://cdn/x.js'', [])]), cn_nfkc_ok = (\<lambda>_. True),
     cn_clock = (\<lambda>_. 0), cn_elapsed = (\<lambda>_. 0)\<rparr>"

definition sample_policy :: crawl_policy where
  "sample_policy = \<lparr>cp_max_depth = 1, cp_max_pages = 5, cp_rate_limit_rps = 5, cp_respect_robots = True, cp_same_host_only = True,
     cp_extra_allowed_hosts = [], cp_user_agent = ''SentinelQA/0''\<rparr>"

definition sample_hrefs :: "string list" where
  "sample_hrefs = [''/a#top'', ''http://elsewhere/'', ''./'']"

lemma sample_crawl:
  obtains res where "crawl (sample_net sample_hrefs) sample_policy ''http://h'' = Some res" "map pg_url (cr_pages res) = [''http://h/'', ''http://h/a'']"
    "map pg_script_srcs (cr_pages res) = [[''http://cdn/x.js''], [''http://cdn/x.js'']]"
proof -
  have "map_option (\<lambda>res. (map pg_url (cr_pages res), map pg_script_srcs (cr_pages res))) (crawl (sample_net sample_hrefs) sample_policy ''http://h'') =
    Some ([''http://h/'', ''http://h/a''], [[''http://cdn/x.js''], [''http://cdn/x.js'']])"
    by code_simp
  then show thesis using that by auto
qed

text \<open>
  A redirect leaves the scope. The crawl of the sample records two pages, both on the host of the base URL; the second answers with 503
  first and is asked for again, and both requests are redirected to another host, which is requested although it is not allowed.
\<close>

theorem redirects_leave_scope:
  "map_option (\<lambda>st. (map pg_url (cs_pages st), cs_gets st)) (crawl_run (sample_net sample_hrefs) sample_policy ''http://h'') =
     Some ([''http://h/'', ''http://h/a''],
       [(''http://h/'', []), (''http://h/a'', [''http://elsewhere/'']), (''http://h/a'', [''http://elsewhere/''])]) \<and>
   ''elsewhere'' \<notin> crawl_hosts (sample_net sample_hrefs) sample_policy ''http://h''"
  by (rule conjI; code_simp)


theorem crawl_is_breadth_first_witness:
  "\<exists>n. linked (sample_net sample_hrefs) sample_policy (crawl_hosts (sample_net sample_hrefs) sample_policy ''http://h'') ''http://h/'' n ''http://h/a''"
proof -
  obtain res where r: "crawl (sample_net sample_hrefs) sample_policy ''http://h'' = Some res" "map pg_url (cr_pages res) = [''http://h/'', ''http://h/a'']"
    by (rule sample_crawl)
  have b: "normalize_url (cn_nfkc_ok (sample_net sample_hrefs)) ''http://h'' = Some ''http://h/''" by code_simp
  have len: "int (length (cr_pages res)) < cp_max_pages sample_policy"
    using arg_cong [OF r(2), of length] by (simp add: sample_policy_def)
  have "''http://h/a'' \<in> pg_url ` set (cr_pages res)" using arg_cong [OF r(2), of set] by simp
  then show ?thesis using crawl_is_breadth_first [OF r(1) len b] by blast
qed

theorem malformed_link_aborts_witness:
  "crawl (sample_net [''/a'', ''http://['']) sample_policy ''http://h'' = None"
proof -
  let ?net = "sample_net [''/a'', ''http://['']"
  have f: "map_option (\<lambda>p. (is_html p, pg_links p)) (fetch ?net ''http://h/'' 0) = Some (True, [''/a'', ''http://[''])" by code_simp
  then obtain page where page: "fetch ?net ''http://h/'' 0 = Some page" "is_html page" "pg_links page = [''/a'', ''http://['']" by auto
  have b: "normalize_url (cn_nfkc_ok ?net) ''http://h'' = Some ''http://h/''" by code_simp
  have "urljoin (cn_nfkc_ok ?net) ''http://h/'' ''http://['' = None" "0 < cp_max_depth sample_policy" "0 < cp_max_pages sample_policy"
    "robots_permit ?net (cp_user_agent sample_policy) ''http://h/''" by code_simp+
  moreover have "host_of ?net ''http://h/'' = Some ''h''" by code_simp
  then have "in_scope ?net sample_policy (crawl_hosts ?net sample_policy ''http://h'') ''http://h/''"
    using \<open>robots_permit ?net (cp_user_agent sample_policy) ''http://h/''\<close> b by (simp add: in_scope_def crawl_hosts_eq)
  ultimately show ?thesis using malformed_link_aborts [OF b _ page(1,2), where l = "''http://[''"] page(3) by simp
qed

theorem scripts_ignore_policy_witness:
  "\<exists>res bodies. crawl (sample_net sample_hrefs) sample_policy ''http://h'' = Some res \<and> collect_javascript (sample_net sample_hrefs) res 9 = Some bodies \<and>
     map_of bodies ''http://cdn/x.js'' = Some ''js'' \<and> ''cdn'' \<notin> crawl_hosts (sample_net sample_hrefs) sample_policy ''http://h''"
proof -
  obtain res where r: "crawl (sample_net sample_hrefs) sample_policy ''http://h'' = Some res" "map pg_url (cr_pages res) = [''http://h/'', ''http://h/a'']"
    "map pg_script_srcs (cr_pages res) = [[''http://cdn/x.js''], [''http://cdn/x.js'']]" by (rule sample_crawl)
  obtain p q where pages: "cr_pages res = [p, q]" using r(2) by auto
  have fields: "pg_url p = ''http://h/''" "pg_script_srcs p = [''http://cdn/x.js'']" "pg_url q = ''http://h/a''" "pg_script_srcs q = [''http://cdn/x.js'']"
    using r(2,3) by (auto simp: pages)
  have "collect_scripts (sample_net sample_hrefs) 9 [(''http://h/'', ''http://cdn/x.js''), (''http://h/a'', ''http://cdn/x.js'')] {} [] =
      Some [(''http://cdn/x.js'', ''js'')]" by code_simp
  then have c: "collect_javascript (sample_net sample_hrefs) res 9 = Some [(''http://cdn/x.js'', ''js'')]"
    by (simp add: collect_javascript_def pages fields)
  have j: "Option.bind (urljoin (cn_nfkc_ok (sample_net sample_hrefs)) ''http://h/'' ''http://cdn/x.js'') (normalize_url (cn_nfkc_ok (sample_net sample_hrefs))) =
      Some ''http://cdn/x.js''" by code_simp
  have "map_of [(''http://cdn/x.js'', ''js'')] ''http://cdn/x.js'' = Some ''js''"
    unfolding scripts_ignore_policy [OF c, of "''http://cdn/x.js''"] using j by (simp add: pages fields sample_net_def)
  moreover have "''cdn'' \<notin> crawl_hosts (sample_net sample_hrefs) sample_policy ''http://h''" by code_simp
  ultimately show ?thesis using r(1) c by blast
qed

end
