(* ===== verification/Discovery.thy ===== *)
theory Discovery
  imports Crawler Domain
begin

text \<open>
  What \<open>engine/discovery/\<close> makes of a crawl: the endpoints and suspicions (\<open>api_detector.py\<close>), the authentication boundaries
  (\<open>auth_boundary.py\<close>) and the risk of each route (\<open>risk_model.py\<close>, \<open>risk_map.py\<close>). The forms of a page are an argument, like its
  links; the observations of the DOM and form inventories are lists of URL and kind.
\<close>

section \<open>Endpoints\<close>

definition is_hex_digit :: "char \<Rightarrow> bool" where
  "is_hex_digit c \<longleftrightarrow> hex_value c \<noteq> None"

text \<open>A pattern that ends with \<open>$\<close> matches before one final newline too.\<close>

definition without_newline :: "string \<Rightarrow> string" where
  "without_newline s = (if s \<noteq> [] \<and> last s = newline then butlast s else s)"

definition uuid_segment :: "string \<Rightarrow> bool" where
  "uuid_segment s \<longleftrightarrow> (let parts = split_on CHR ''-'' (without_newline s) in
     map length parts = [8, 4, 4, 4, 12] \<and> list_all (list_all is_hex_digit) parts)"

definition numeric_segment :: "string \<Rightarrow> bool" where
  "numeric_segment s \<longleftrightarrow> without_newline s \<noteq> [] \<and> list_all is_digit_char (without_newline s)"

definition hex_segment :: "string \<Rightarrow> bool" where
  "hex_segment s \<longleftrightarrow> 16 \<le> length (without_newline s) \<and> list_all is_hex_digit (without_newline s)"

definition template_segment :: "string \<Rightarrow> string" where
  "template_segment s =
     (if s = [] then s else if uuid_segment s then ''[uuid]'' else if numeric_segment s then ''[id]'' else if hex_segment s then ''[hex]'' else s)"

definition template_path :: "(string \<Rightarrow> bool) \<Rightarrow> string \<Rightarrow> string option" where
  "template_path nfkc_ok path =
     map_option (\<lambda>parsed.
         let raw = (if up_path parsed = [] then ''/'' else up_path parsed);
             out = py_join ''/'' (map template_segment (split_on CHR ''/'' raw))
         in if up_query parsed \<noteq> [] then out @ ''?'' @ up_query parsed else out)
       (urlparse nfkc_ok [] path)"

record api_endpoint =
  ae_id :: string
  ae_method :: string
  ae_path :: string

datatype suspicion_kind = Referenced_only | Observed_5xx | Mock_data_smell | Undocumented

record api_suspicion =
  su_endpoint_path :: string
  su_kind :: suspicion_kind
  su_detail :: string

record detector_result =
  dr_endpoints :: "api_endpoint list"
  dr_referenced_only :: "string list"
  dr_observed_5xx :: "string list"
  dr_suspicions :: "api_suspicion list"

text \<open>The dictionary of endpoints by method and path; \<open>ids\<close> yields the identifiers.\<close>

type_synonym endpoint_dict = "(string \<times> string, api_endpoint) dict"

definition record_endpoint :: "(nat \<Rightarrow> string) \<Rightarrow> string \<Rightarrow> string \<Rightarrow> endpoint_dict \<Rightarrow> endpoint_dict" where
  "record_endpoint ids meth path endpoints =
     (let p = py_take 2048 path; stripped = model_strip p in
      if map_of endpoints (meth, p) \<noteq> None \<or> stripped = [] then endpoints
      else endpoints @ [((meth, p), \<lparr>ae_id = ids (length endpoints), ae_method = meth, ae_path = stripped\<rparr>)])"

definition resolve_method :: "string option \<Rightarrow> string" where
  "resolve_method value =
     (case value of None \<Rightarrow> ''POST''
      | Some v \<Rightarrow> if py_upper v \<in> {''GET'', ''POST'', ''PUT'', ''PATCH'', ''DELETE'', ''HEAD'', ''OPTIONS''} then py_upper v else ''POST'')"

definition skipped_suffixes :: "string list" where
  "skipped_suffixes = [''.css'', ''.png'', ''.jpg'', ''.jpeg'', ''.svg'', ''.webp'', ''.ico'', ''.woff'', ''.woff2'', ''.js'', ''.map'']"

definition skipped_prefixes :: "string list" where
  "skipped_prefixes = [''/static/'', ''/assets/'', ''/_next/'', ''/build/'']"

definition looks_like_api :: "string \<Rightarrow> bool" where
  "looks_like_api path \<longleftrightarrow> py_startswith path ''/'' \<and> \<not> list_ex (py_endswith path) skipped_suffixes \<and>
     \<not> list_ex (py_startswith path) skipped_prefixes"

text \<open>\<open>_PATH_PATTERN\<close>: a quote, a slash, 1 to 200 path characters, the same quote.\<close>

definition is_path_quote :: "char \<Rightarrow> bool" where
  "is_path_quote c \<longleftrightarrow> c = CHR 0x27 \<or> c = CHR 0x22 \<or> c = CHR 0x60"

definition is_path_char :: "char \<Rightarrow> bool" where
  "is_path_char c \<longleftrightarrow> is_ascii_alpha c \<or> is_digit_char c \<or> c \<in> set ''_-./:[]{}''"

definition match_path :: "string \<Rightarrow> string option" where
  "match_path s =
     (case s of q # d # r \<Rightarrow>
        (let run = takeWhile is_path_char r in
         if is_path_quote q \<and> d = CHR ''/'' \<and> 1 \<le> length run \<and> length run \<le> 200 \<and> take 1 (drop (length run) r) = [q]
         then Some (d # run) else None)
      | _ \<Rightarrow> None)"

text \<open>\<open>finditer\<close>: after a match the scan goes on behind its closing quote.\<close>

fun find_paths :: "nat \<Rightarrow> string \<Rightarrow> string list" where
  "find_paths skip [] = []"
| "find_paths (Suc skip) (c # cs) = find_paths skip cs"
| "find_paths 0 (c # cs) = (case match_path (c # cs) of Some p \<Rightarrow> p # find_paths (length p + 1) cs | None \<Rightarrow> find_paths 0 cs)"

definition referenced_in :: "string \<Rightarrow> string list" where
  "referenced_in body = filter (\<lambda>p. \<not> py_startswith p ''//'' \<and> looks_like_api p) (find_paths 0 body)"

text \<open>\<open>None\<close> is the first \<open>ValueError\<close>.\<close>

fun all_some :: "'a option list \<Rightarrow> 'a list option" where
  "all_some [] = Some []"
| "all_some (x # xs) = Option.bind x (\<lambda>a. map_option (Cons a) (all_some xs))"

type_synonym page_forms = "string \<Rightarrow> (string option \<times> string option) list"

definition form_endpoint :: "(string \<Rightarrow> bool) \<Rightarrow> string \<Rightarrow> string option \<times> string option \<Rightarrow> (string \<times> string) option option" where
  "form_endpoint nfkc_ok page_url form =
     (case form of (action, meth) \<Rightarrow>
       (case action of None \<Rightarrow> Some None
        | Some a \<Rightarrow> if py_strip a = [] then Some None
            else map_option (\<lambda>t. Some (resolve_method meth, t)) (Option.bind (urljoin nfkc_ok page_url a) (template_path nfkc_ok))))"

text \<open>What one page contributes: its own endpoint, then those of its forms.\<close>

definition page_endpoints :: "(string \<Rightarrow> bool) \<Rightarrow> page_forms \<Rightarrow> crawl_page \<Rightarrow> (string \<times> string) list option" where
  "page_endpoints nfkc_ok forms page =
     Option.bind (template_path nfkc_ok (pg_url page)) (\<lambda>t.
       map_option (\<lambda>fs. (''GET'', t) # List.map_filter id fs) (all_some (map (form_endpoint nfkc_ok (pg_url page)) (forms (pg_html page)))))"

text \<open>What is made of the pages' endpoints, the failing paths and the referenced paths.\<close>

definition detector_of :: "(nat \<Rightarrow> string) \<Rightarrow> (string \<times> string) list \<Rightarrow> string list \<Rightarrow> string list \<Rightarrow> detector_result" where
  "detector_of ids seen failing referenced =
     (let endpoints = foldl (\<lambda>d (m, t). record_endpoint ids m t d) [] seen;
          observed = map (ae_path \<circ> snd) endpoints;
          referenced_only = sort (filter (\<lambda>p. p \<notin> set observed) (dedup referenced));
          observed_5xx = sort (dedup failing)
      in \<lparr>dr_endpoints = map snd (foldl (\<lambda>d t. record_endpoint ids ''GET'' t d) endpoints referenced_only),
           dr_referenced_only = referenced_only, dr_observed_5xx = observed_5xx,
           dr_suspicions =
             map (\<lambda>p. \<lparr>su_endpoint_path = p, su_kind = Referenced_only,
               su_detail = ''path string seen in JS but never reached during the crawl''\<rparr>) referenced_only @
             map (\<lambda>p. \<lparr>su_endpoint_path = p, su_kind = Observed_5xx,
               su_detail = ''endpoint returned a 5xx status during discovery''\<rparr>) observed_5xx\<rparr>)"

definition script_bodies :: "crawl_result \<Rightarrow> string list \<Rightarrow> string list" where
  "script_bodies crawled js_bodies =
     js_bodies @ concat (map (\<lambda>p. filter (\<lambda>b. py_strip b \<noteq> []) (pg_inline_scripts p)) (cr_pages crawled))"

definition detect_endpoints ::
  "(string \<Rightarrow> bool) \<Rightarrow> (nat \<Rightarrow> string) \<Rightarrow> page_forms \<Rightarrow> crawl_result \<Rightarrow> string list \<Rightarrow> detector_result option" where
  "detect_endpoints nfkc_ok ids forms crawled js_bodies =
     Option.bind (all_some (map (page_endpoints nfkc_ok forms) (cr_pages crawled))) (\<lambda>seen.
     Option.bind (all_some (map (template_path nfkc_ok \<circ> pg_url) (filter (\<lambda>p. 500 \<le> pg_status p \<and> pg_status p < 600) (cr_pages crawled)))) (\<lambda>failing.
     map_option (detector_of ids (concat seen) failing)
       (all_some (map (template_path nfkc_ok) (concat (map referenced_in (script_bodies crawled js_bodies)))))))"

section \<open>Authentication boundaries\<close>

record auth_verdict =
  av_url :: string
  av_requires_auth :: bool
  av_redirects_to :: "string option"
  av_anon_status :: int
  av_auth_status :: "int option"
  av_ui_only_auth :: bool
  av_role_escalation_hint :: bool

definition login_tokens :: "string list" where
  "login_tokens = [''/login'', ''/signin'', ''/sign-in'']"

definition double_quoted :: "string \<Rightarrow> string" where
  "double_quoted s = [CHR 0x22] @ s @ [CHR 0x22]"

definition classify_anonymous :: "crawl_page \<Rightarrow> bool \<times> string option" where
  "classify_anonymous page =
     (if pg_status page \<in> {401, 403} then (True, None)
      else if list_ex (\<lambda>t. py_in t (py_lower (pg_url page))) login_tokens then (False, None)
      else if py_in (''name='' @ double_quoted ''password'') (py_lower (pg_html page)) \<or>
              py_in (''type='' @ double_quoted ''password'') (py_lower (pg_html page))
      then (True, Some (pg_url page)) else (False, None))"

definition verdicts_from_anonymous :: "crawl_result \<Rightarrow> auth_verdict list" where
  "verdicts_from_anonymous crawled =
     map (\<lambda>p. \<lparr>av_url = pg_url p, av_requires_auth = fst (classify_anonymous p), av_redirects_to = snd (classify_anonymous p),
       av_anon_status = pg_status p, av_auth_status = None, av_ui_only_auth = False, av_role_escalation_hint = False\<rparr>) (cr_pages crawled)"

definition is_success :: "int \<Rightarrow> bool" where
  "is_success status \<longleftrightarrow> 200 \<le> status \<and> status < 300"

definition pages_by_url :: "crawl_result \<Rightarrow> (string, crawl_page) dict" where
  "pages_by_url crawled = foldl (\<lambda>d p. AList.update (pg_url p) p d) [] (cr_pages crawled)"

definition pair_verdict :: "string \<Rightarrow> crawl_page option \<Rightarrow> crawl_page option \<Rightarrow> auth_verdict" where
  "pair_verdict url anon auth =
     (let (requires0, redirects) = (case anon of None \<Rightarrow> (False, None) | Some a \<Rightarrow> classify_anonymous a);
          anon_status = (case anon of None \<Rightarrow> 0 | Some a \<Rightarrow> pg_status a);
          auth_status = map_option pg_status auth;
          (requires, escalation, ui_only) =
            (case (anon, auth) of
               (Some a, Some b) \<Rightarrow>
                 (let requires = (requires0 \<or> (anon_status \<in> {401, 403} \<and> is_success (pg_status b))) in
                  if is_success anon_status
                  then (requires,
                        (py_in ''/admin'' (py_lower url) \<or> py_in ''admin'' (py_lower (pg_html a))) \<and> is_success (pg_status b) \<and> py_in ''admin'' (py_lower url),
                        \<not> requires \<and> py_in ''logged'' (py_lower (pg_html b)) \<and> \<not> py_in ''logged'' (py_lower (pg_html a)))
                  else (requires, False, False))
             | _ \<Rightarrow> (requires0, False, False))
      in \<lparr>av_url = url, av_requires_auth = requires, av_redirects_to = redirects, av_anon_status = anon_status, av_auth_status = auth_status,
          av_ui_only_auth = ui_only, av_role_escalation_hint = escalation\<rparr>)"

definition verdicts_from_pair :: "crawl_result \<Rightarrow> crawl_result \<Rightarrow> auth_verdict list" where
  "verdicts_from_pair anonymous authenticated =
     map (\<lambda>url. pair_verdict url (map_of (pages_by_url anonymous) url) (map_of (pages_by_url authenticated) url))
       (sort (dedup (map pg_url (cr_pages anonymous) @ map pg_url (cr_pages authenticated))))"

record auth_boundary =
  ab_route_id :: string
  ab_enforced_server_side :: bool

text \<open>The identifier as \<open>AuthBoundary\<close> stores it, stripped.\<close>

fun boundaries_from :: "(string, string) dict \<Rightarrow> string set \<Rightarrow> auth_verdict list \<Rightarrow> auth_boundary list" where
  "boundaries_from route_ids seen [] = []"
| "boundaries_from route_ids seen (v # vs) =
     (if \<not> av_requires_auth v then boundaries_from route_ids seen vs
      else case map_of route_ids (av_url v) of
          None \<Rightarrow> boundaries_from route_ids seen vs
        | Some r \<Rightarrow>
            if r \<in> seen \<or> \<not> is_valid_id ''RT'' r then boundaries_from route_ids seen vs
            else (if is_valid_id ''RT'' (model_strip r)
                  then [\<lparr>ab_route_id = model_strip r, ab_enforced_server_side = (\<not> av_ui_only_auth v)\<rparr>] else []) @
                 boundaries_from route_ids (insert r seen) vs)"

record auth_report =
  ar_verdicts :: "auth_verdict list"
  ar_boundaries :: "auth_boundary list"
  ar_login_succeeded :: bool

text \<open>The response to the login request: its status and its \<open>location\<close> header.\<close>

datatype login_outcome = Lo_response int string | Lo_error | Lo_raises

definition perform_login :: "login_outcome \<Rightarrow> bool option" where
  "perform_login outcome =
     (case outcome of
        Lo_response status location \<Rightarrow>
          Some (is_success status \<or> (300 \<le> status \<and> status < 400 \<and> \<not> py_in ''login'' (py_lower location)))
      | Lo_error \<Rightarrow> Some False
      | Lo_raises \<Rightarrow> None)"

text \<open>\<open>login\<close> is absent without credentials; \<open>auth_net\<close> is the target as the session of the login sees it.\<close>

definition detect_boundaries ::
  "crawl_net \<Rightarrow> crawl_policy \<Rightarrow> string \<Rightarrow> crawl_result \<Rightarrow> login_outcome option \<Rightarrow> (string, string) dict \<Rightarrow> auth_report option" where
  "detect_boundaries auth_net policy base_url anonymous login route_ids =
     (let report = (\<lambda>verdicts ok. \<lparr>ar_verdicts = verdicts, ar_boundaries = boundaries_from route_ids {} verdicts, ar_login_succeeded = ok\<rparr>) in
      case login of
        None \<Rightarrow> Some (report (verdicts_from_anonymous anonymous) False)
      | Some outcome \<Rightarrow>
          Option.bind (perform_login outcome) (\<lambda>ok.
            if \<not> ok then Some (report (verdicts_from_anonymous anonymous) False)
            else map_option (\<lambda>authenticated. report (verdicts_from_pair anonymous authenticated) True) (crawl auth_net policy base_url)))"

section \<open>Risk\<close>

record observation =
  ob_route_url :: string
  ob_kind :: string

record rule_context =
  rc_route_url :: string
  rc_dom_kinds :: "string list"
  rc_form_kinds :: "string list"
  rc_suspicion_kinds :: "suspicion_kind list"
  rc_status :: int
  rc_crawl_failed :: bool

record rule_verdict =
  rv_name :: string
  rv_weight :: flt
  rv_detail :: string

text \<open>The path of the route is parsed once: \<open>path_contains\<close> gets it.\<close>

definition path_contains :: "string \<Rightarrow> string list \<Rightarrow> bool" where
  "path_contains path tokens \<longleftrightarrow> list_ex (\<lambda>t. py_in t (py_lower path)) tokens"

definition verdict_if :: "bool \<Rightarrow> string \<Rightarrow> flt \<Rightarrow> string \<Rightarrow> rule_verdict option" where
  "verdict_if fires name weight detail = (if fires then Some \<lparr>rv_name = name, rv_weight = weight, rv_detail = detail\<rparr> else None)"

definition rule_login_auth_critical :: "string \<Rightarrow> rule_context \<Rightarrow> rule_verdict option" where
  "rule_login_auth_critical path ctx =
     verdict_if (path_contains path [''/login'', ''/signin'', ''/sign-in'', ''/auth'']) ''login_auth_critical'' (fl (6 / 10)) ''auth-related route''"

definition rule_admin_route :: "string \<Rightarrow> rule_context \<Rightarrow> rule_verdict option" where
  "rule_admin_route path ctx =
     verdict_if (path_contains path [''/admin'', ''/internal'', ''/staff'']) ''admin_route'' (fl (5 / 10)) ''admin-only route''"

definition rule_payment_flow :: "string \<Rightarrow> rule_context \<Rightarrow> rule_verdict option" where
  "rule_payment_flow path ctx =
     verdict_if (path_contains path [''/checkout'', ''/payment'', ''/billing'', ''/cart'']) ''payment_flow'' (fl (55 / 100)) ''payment-related route''"

definition crawl_saw :: "rule_context \<Rightarrow> string" where
  "crawl_saw ctx = ''crawl saw status '' @ str_of_int (rc_status ctx)"

definition rule_5xx_during_discovery :: "string \<Rightarrow> rule_context \<Rightarrow> rule_verdict option" where
  "rule_5xx_during_discovery path ctx =
     verdict_if (500 \<le> rc_status ctx \<and> rc_status ctx < 600) ''5xx_during_discovery'' (fl (95 / 100)) (crawl_saw ctx)"

definition rule_unreachable_route :: "string \<Rightarrow> rule_context \<Rightarrow> rule_verdict option" where
  "rule_unreachable_route path ctx =
     verdict_if (400 \<le> rc_status ctx \<and> rc_status ctx < 500 \<and> rc_status ctx \<notin> {401, 403}) ''unreachable_route'' (fl (4 / 10)) (crawl_saw ctx)"

definition rule_form_without_submit :: "string \<Rightarrow> rule_context \<Rightarrow> rule_verdict option" where
  "rule_form_without_submit path ctx =
     verdict_if (''form_missing_submit_handler'' \<in> set (rc_form_kinds ctx)) ''form_without_submit'' (fl (5 / 10))
       ''form has no action / onsubmit / API hookup''"

definition rule_form_without_validation :: "string \<Rightarrow> rule_context \<Rightarrow> rule_verdict option" where
  "rule_form_without_validation path ctx =
     verdict_if (''form_missing_client_validation'' \<in> set (rc_form_kinds ctx)) ''form_without_validation'' (fl (2 / 10))
       ''form has no client-side validation hints''"

definition rule_missing_accessible_labels :: "string \<Rightarrow> rule_context \<Rightarrow> rule_verdict option" where
  "rule_missing_accessible_labels path ctx =
     (if ''input_missing_label'' \<in> set (rc_dom_kinds ctx)
      then verdict_if True ''missing_accessible_labels'' (fl (15 / 100)) ''inputs without associated labels''
      else verdict_if (''missing_accessible_name'' \<in> set (rc_dom_kinds ctx)) ''missing_accessible_labels'' (fl (1 / 10))
        ''interactive elements without accessible names'')"

definition rule_api_referenced_only :: "string \<Rightarrow> rule_context \<Rightarrow> rule_verdict option" where
  "rule_api_referenced_only path ctx =
     verdict_if (Referenced_only \<in> set (rc_suspicion_kinds ctx)) ''api_referenced_only'' (fl (45 / 100))
       ''endpoints referenced in JS but never reached''"

definition rule_crawl_failed :: "string \<Rightarrow> rule_context \<Rightarrow> rule_verdict option" where
  "rule_crawl_failed path ctx =
     verdict_if (rc_crawl_failed ctx) ''crawl_failed'' (fl (8 / 10)) ''crawler could not reach the route (network/DNS error)''"

definition risk_rules :: "(string \<Rightarrow> rule_context \<Rightarrow> rule_verdict option) list" where
  "risk_rules = [rule_5xx_during_discovery, rule_admin_route, rule_api_referenced_only, rule_crawl_failed, rule_form_without_submit,
     rule_form_without_validation, rule_login_auth_critical, rule_missing_accessible_labels, rule_payment_flow, rule_unreachable_route]"

text \<open>\<open>None\<close> is the \<open>ValueError\<close> of \<open>urlparse\<close>.\<close>

definition score_route :: "(string \<Rightarrow> bool) \<Rightarrow> rule_context \<Rightarrow> (flt \<times> string list) option" where
  "score_route nfkc_ok ctx =
     map_option (\<lambda>parsed.
         let verdicts = List.map_filter (\<lambda>rule. rule (up_path parsed) ctx) risk_rules;
             total0 = foldl (\<lambda>t v. fl (t + rv_weight v)) 0 verdicts;
             total1 = (if 1 < total0 then 1 else total0);
             total2 = (if total1 < 0 then 0 else total1)
         in (total2, map (\<lambda>v. rv_name v @ '': '' @ rv_detail v) verdicts))
       (urlparse nfkc_ok [] (rc_route_url ctx))"

record route_risk =
  rr_route_id :: string
  rr_score :: flt
  rr_justifications :: "string list"

definition kinds_at :: "string \<Rightarrow> observation list \<Rightarrow> string list" where
  "kinds_at url obs = map ob_kind (filter (\<lambda>x. ob_route_url x = url) obs)"

definition route_context ::
  "(string, crawl_page) dict \<Rightarrow> (string, string) dict \<Rightarrow> observation list \<Rightarrow> observation list \<Rightarrow> api_suspicion list \<Rightarrow> string \<Rightarrow> rule_context" where
  "route_context pages urls dom_obs form_obs suspicions route_id =
     (let url = dict_get urls route_id []; page = map_of pages url in
      \<lparr>rc_route_url = url, rc_dom_kinds = kinds_at url dom_obs, rc_form_kinds = kinds_at url form_obs,
       rc_suspicion_kinds = map su_kind (filter (\<lambda>s. su_endpoint_path s = url) suspicions),
       rc_status = (case page of None \<Rightarrow> 0 | Some p \<Rightarrow> pg_status p),
       rc_crawl_failed = (case page of None \<Rightarrow> False | Some p \<Rightarrow> pg_network_error p \<noteq> None \<and> pg_network_error p \<noteq> Some [])\<rparr>)"

definition risk_entry ::
  "(string \<Rightarrow> bool) \<Rightarrow> (string, crawl_page) dict \<Rightarrow> (string, string) dict \<Rightarrow> observation list \<Rightarrow> observation list \<Rightarrow> api_suspicion list
     \<Rightarrow> string \<Rightarrow> route_risk option option" where
  "risk_entry nfkc_ok pages urls dom_obs form_obs suspicions route_id =
     map_option (\<lambda>(score, justifications).
         if is_valid_id ''RT'' (model_strip route_id) \<and> 0 \<le> score \<and> score \<le> 1
         then Some \<lparr>rr_route_id = model_strip route_id, rr_score = score, rr_justifications = map model_strip justifications\<rparr> else None)
       (score_route nfkc_ok (route_context pages urls dom_obs form_obs suspicions route_id))"

definition build_risk_map ::
  "(string \<Rightarrow> bool) \<Rightarrow> string list \<Rightarrow> (string, crawl_page) dict \<Rightarrow> (string, string) dict \<Rightarrow> observation list \<Rightarrow> observation list \<Rightarrow> api_suspicion list
     \<Rightarrow> route_risk list option" where
  "build_risk_map nfkc_ok routes pages urls dom_obs form_obs suspicions =
     map_option (List.map_filter id) (all_some (map (risk_entry nfkc_ok pages urls dom_obs form_obs suspicions) routes))"

section \<open>Lemmas\<close>

lemma all_some_iff: "all_some xs = Some ys \<longleftrightarrow> xs = map Some ys"
  by (induction xs arbitrary: ys) (auto simp: bind_eq_Some_conv)

lemmas rule_defs = rule_login_auth_critical_def rule_admin_route_def rule_payment_flow_def rule_5xx_during_discovery_def
  rule_unreachable_route_def rule_form_without_submit_def rule_form_without_validation_def rule_missing_accessible_labels_def
  rule_api_referenced_only_def rule_crawl_failed_def verdict_if_def

lemma rule_weight:
  assumes "rule \<in> set risk_rules" "rule path ctx = Some v"
  shows "0 < rv_weight v \<and> fl (rv_weight v) = rv_weight v"
proof -
  have "list_all (\<lambda>x. 0 < fl x) [1 / 10, 15 / 100, 2 / 10, 4 / 10, 45 / 100, 5 / 10, 55 / 100, 6 / 10, 8 / 10, 95 / 100]" by code_simp
  then show ?thesis using assms by (auto simp: risk_rules_def rule_defs fl_idem split: if_splits)
qed

lemma fold_weights:
  assumes "0 \<le> t" "\<forall>v\<in>set vs. 0 < rv_weight v \<and> fl (rv_weight v) = rv_weight v" "fl t = t"
  shows "t \<le> foldl (\<lambda>t v. fl (t + rv_weight v)) t vs \<and> (vs \<noteq> [] \<longrightarrow> 0 < foldl (\<lambda>t v. fl (t + rv_weight v)) t vs)"
  using assms
proof (induction vs arbitrary: t)
  case (Cons v vs)
  have "t \<le> fl (t + rv_weight v)" using fl_mono [of t "t + rv_weight v"] Cons.prems by simp
  moreover have "0 < fl (t + rv_weight v)" using fl_mono [of "rv_weight v" "t + rv_weight v"] Cons.prems by fastforce
  ultimately show ?case using Cons.IH [of "fl (t + rv_weight v)"] Cons.prems by (fastforce simp: fl_idem)
qed simp

lemma score_route_unit:
  assumes "score_route nfkc_ok ctx = Some (score, js)"
  shows "0 \<le> score" "score \<le> 1" "score = 0 \<longleftrightarrow> js = []"
proof -
  obtain parsed where parsed: "urlparse nfkc_ok [] (rc_route_url ctx) = Some parsed" using assms by (auto simp: score_route_def)
  define vs where "vs = List.map_filter (\<lambda>rule. rule (up_path parsed) ctx) risk_rules"
  define t where "t = foldl (\<lambda>t v. fl (t + rv_weight v)) 0 vs"
  have "score = (let u = (if 1 < t then 1 else t) in if u < 0 then 0 else u)" and js: "js = map (\<lambda>v. rv_name v @ '': '' @ rv_detail v) vs"
    using assms unfolding score_route_def parsed vs_def t_def by (simp_all add: Let_def)
  moreover have "\<forall>v\<in>set vs. 0 < rv_weight v \<and> fl (rv_weight v) = rv_weight v"
    using rule_weight unfolding vs_def by (auto simp: List.map_filter_def)
  then have "0 \<le> t" "vs \<noteq> [] \<Longrightarrow> 0 < t" "vs = [] \<Longrightarrow> t = 0" using fold_weights [of 0 vs] unfolding t_def by auto
  ultimately show "0 \<le> score" "score \<le> 1" "score = 0 \<longleftrightarrow> js = []" by (auto simp: Let_def)
qed

lemma risk_entry_cases:
  assumes "risk_entry nfkc_ok pages urls dom_obs form_obs suspicions r = Some e"
  shows "if is_valid_id ''RT'' (model_strip r)
    then \<exists>x. e = Some x \<and> rr_route_id x = model_strip r \<and> 0 \<le> rr_score x \<and> rr_score x \<le> 1 \<and> (rr_score x = 0 \<longleftrightarrow> rr_justifications x = [])
    else e = None"
  using assms score_route_unit by (fastforce simp: risk_entry_def split: if_splits)

text \<open>
  C18. Every risk score lies between 0 and 1. Whatever the observations, the entries of the risk map are those of the routes
  with a valid identifier, in the order of the graph; each score is in the unit interval, and it is zero exactly when no rule gave a
  justification.
\<close>

theorem risk_in_unit:
  assumes "build_risk_map nfkc_ok routes pages urls dom_obs form_obs suspicions = Some entries"
  shows "map rr_route_id entries = map model_strip (filter (\<lambda>r. is_valid_id ''RT'' (model_strip r)) routes) \<and>
    (\<forall>e\<in>set entries. 0 \<le> rr_score e \<and> rr_score e \<le> 1 \<and> (rr_score e = 0 \<longleftrightarrow> rr_justifications e = []))"
proof -
  obtain es where es: "map (risk_entry nfkc_ok pages urls dom_obs form_obs suspicions) routes = map Some es" "entries = List.map_filter id es"
    using assms by (auto simp: build_risk_map_def all_some_iff)
  show ?thesis using es(1) unfolding es(2)
  proof (induction routes arbitrary: es)
    case (Cons r routes)
    then obtain e es' where e: "es = e # es'" "risk_entry nfkc_ok pages urls dom_obs form_obs suspicions r = Some e"
      "map (risk_entry nfkc_ok pages urls dom_obs form_obs suspicions) routes = map Some es'" by auto
    show ?case using Cons.IH [OF e(3)] risk_entry_cases [OF e(2)] unfolding e(1)
      by (cases "is_valid_id ''RT'' (model_strip r)") (auto simp: List.map_filter_simps)
  qed simp
qed

text \<open>The paths a script refers to are templated to paths.\<close>

definition rooted :: "string \<Rightarrow> bool" where
  "rooted p \<longleftrightarrow> p = [] \<or> hd p = CHR ''/''"

lemma split_params_rooted: "rooted p \<Longrightarrow> rooted (fst (split_params p))"
proof (cases p)
  case (Cons c s)
  assume "rooted p"
  then have p: "p = CHR ''/'' # s" by (simp add: rooted_def Cons)
  have "length (after_last_char CHR ''/'' p) \<le> length s"
    unfolding p after_last_char_def using length_takeWhile_le [of "\<lambda>x. x \<noteq> CHR ''/''" "rev s"] by (simp add: takeWhile_append)
  then show ?thesis unfolding split_params_def Let_def p by (cases "length (CHR ''/'' # s) - length (after_last_char CHR ''/'' (CHR ''/'' # s))")
      (simp_all add: rooted_def)
qed (simp add: split_params_def rooted_def after_last_char_def before_char_def Let_def)

lemma urlparse_rooted:
  assumes "urlparse nfkc_ok [] (CHR ''/'' # s) = Some parts"
  shows "rooted (up_path parts)"
proof -
  obtain u where u: "url_clean (CHR ''/'' # s) = CHR ''/'' # u" by (simp add: url_clean_def)
  have scheme: "split_scheme [] (CHR ''/'' # u) = ([], CHR ''/'' # u)"
    by (simp add: split_scheme_def url_after_scheme_def before_char_def is_ascii_alpha_def Let_def split: option.split)
  obtain netloc u2 where n: "split_netloc (CHR ''/'' # u) = (netloc, u2)" by fastforce
  have d: "dropWhile (\<lambda>c. c \<notin> S) x = [] \<or> hd (dropWhile (\<lambda>c. c \<notin> S) x) \<in> S" for x :: string and S by (metis hd_dropWhile)
  have "u2 = (if take 2 (CHR ''/'' # u) = ''//'' then dropWhile (\<lambda>c. c \<notin> set ''/?#'') (drop 2 (CHR ''/'' # u)) else CHR ''/'' # u)"
    using n by (simp add: split_netloc_def split: if_splits)
  then have u2: "u2 = [] \<or> hd u2 \<in> set ''/?#''"
    using d [of "set ''/?#''" "drop 2 (CHR ''/'' # u)"] by (simp split: if_splits)
  have before: "before_char CHR ''?'' (before_char CHR ''#'' u2) = [] \<or> hd (before_char CHR ''?'' (before_char CHR ''#'' u2)) = CHR ''/''"
    using u2 by (cases u2) (auto simp: before_char_def)
  then have r: "rooted (before_char CHR ''?'' (before_char CHR ''#'' u2))" by (simp add: rooted_def)
  show ?thesis
    using assms r split_params_rooted [OF r] by (auto simp: urlparse_def u scheme n cut_at_def Let_def split: prod.splits if_splits)
qed

lemma template_rooted:
  assumes "template_path nfkc_ok (CHR ''/'' # s) = Some t"
  shows "hd t = CHR ''/'' \<and> t \<noteq> []"
proof -
  obtain parsed where p: "urlparse nfkc_ok [] (CHR ''/'' # s) = Some parsed"
    and t: "t = (let raw = (if up_path parsed = [] then ''/'' else up_path parsed); out = py_join ''/'' (map template_segment (split_on CHR ''/'' raw))
         in if up_query parsed \<noteq> [] then out @ ''?'' @ up_query parsed else out)"
    using assms by (auto simp: template_path_def)
  obtain raw where raw: "(if up_path parsed = [] then ''/'' else up_path parsed) = CHR ''/'' # raw"
    using urlparse_rooted [OF p] by (cases "up_path parsed") (auto simp: rooted_def)
  have ne: "split_on CHR ''/'' raw \<noteq> []" by (cases raw) (auto split: list.splits)
  then obtain b bs where b: "split_on CHR ''/'' raw = b # bs" by (cases "split_on CHR ''/'' raw") auto
  have "\<exists>out. py_join ''/'' (map template_segment (split_on CHR ''/'' (CHR ''/'' # raw))) = CHR ''/'' # out"
    by (simp add: b template_segment_def py_join_def)
  then show ?thesis unfolding t raw by (auto simp: Let_def)
qed

lemma detect_referenced_rooted:
  assumes "detect_endpoints nfkc_ok ids forms crawled js = Some r" "s \<in> set (dr_suspicions r)" "su_kind s = Referenced_only"
  shows "hd (su_endpoint_path s) = CHR ''/'' \<and> su_endpoint_path s \<noteq> []"
proof -
  obtain bodies referenced seen failing where ref: "map (template_path nfkc_ok) (concat (map referenced_in bodies)) = map Some referenced"
    and r: "r = detector_of ids seen failing referenced"
    using assms(1) by (auto simp: detect_endpoints_def bind_eq_Some_conv all_some_iff)
  have "su_endpoint_path s \<in> set referenced" using assms(2,3) by (auto simp: r detector_of_def Let_def)
  then have "Some (su_endpoint_path s) \<in> template_path nfkc_ok ` set (concat (map referenced_in bodies))"
    using arg_cong [OF ref, of set] by (simp only: set_map) blast
  then obtain p body where p: "p \<in> set (referenced_in body)" "template_path nfkc_ok p = Some (su_endpoint_path s)" by force
  then obtain t where "p = CHR ''/'' # t" by (auto simp: referenced_in_def looks_like_api_def py_startswith_iff)
  then show ?thesis using template_rooted p(2) by blast
qed

lemma map_filter_eq: "(\<And>x. x \<in> set xs \<Longrightarrow> f x = g x) \<Longrightarrow> List.map_filter f xs = List.map_filter g xs"
  by (induction xs) (auto simp: List.map_filter_simps split: option.splits)

lemma score_route_suspicions:
  assumes "Referenced_only \<notin> set (rc_suspicion_kinds ctx)"
  shows "score_route nfkc_ok ctx = score_route nfkc_ok (ctx\<lparr>rc_suspicion_kinds := []\<rparr>)"
proof -
  have "\<forall>rule\<in>set risk_rules. rule path ctx = rule path (ctx\<lparr>rc_suspicion_kinds := []\<rparr>)" for path
    using assms by (simp add: risk_rules_def rule_defs crawl_saw_def)
  then have "List.map_filter (\<lambda>rule. rule path ctx) risk_rules =
      List.map_filter (\<lambda>rule. rule path (ctx\<lparr>rc_suspicion_kinds := []\<rparr>)) risk_rules" for path
    by (intro map_filter_eq) blast
  then show ?thesis by (simp add: score_route_def)
qed

text \<open>
  Endpoints referenced but never reached do not raise any risk. The suspicions of the detector change nothing in the risk map of a graph whose
  routes are absolute URLs (the first character of one is never a slash): a suspicion carries a path, and it is looked up by URL.
\<close>

theorem suspicions_never_count:
  assumes "detect_endpoints nfkc_ok ids forms crawled js = Some r" "\<forall>(i, url)\<in>set urls. \<not> py_startswith url ''/''"
  shows "build_risk_map nfkc_ok routes pages urls dom_obs form_obs (dr_suspicions r) = build_risk_map nfkc_ok routes pages urls dom_obs form_obs []"
proof -
  have "score_route nfkc_ok (route_context pages urls dom_obs form_obs (dr_suspicions r) i) =
      score_route nfkc_ok (route_context pages urls dom_obs form_obs [] i)" for i
  proof -
    have "\<not> py_startswith (dict_get urls i []) ''/''"
      using assms(2) by (auto simp: dict_get_def py_startswith_iff split: option.splits dest!: map_of_SomeD)
    then have "Referenced_only \<notin> set (map su_kind (filter (\<lambda>s. su_endpoint_path s = dict_get urls i []) (dr_suspicions r)))"
      using detect_referenced_rooted [OF assms(1)] by (auto simp: py_startswith_iff) (metis append_Cons append_Nil list.collapse)
    then show ?thesis
      using score_route_suspicions [of "route_context pages urls dom_obs form_obs (dr_suspicions r) i" nfkc_ok]
      by (simp add: route_context_def Let_def)
  qed
  then have "risk_entry nfkc_ok pages urls dom_obs form_obs (dr_suspicions r) = risk_entry nfkc_ok pages urls dom_obs form_obs []"
    by (simp add: risk_entry_def fun_eq_iff)
  then show ?thesis by (simp only: build_risk_map_def)
qed

text \<open>
  A boundary is always recorded as enforced by the server. No verdict that requires authentication is marked as enforced by
  the page only, so no boundary ever is, with or without credentials and whatever the two crawls saw.
\<close>

theorem boundaries_always_enforced:
  assumes "detect_boundaries auth_net policy base_url anonymous login route_ids = Some report" "b \<in> set (ar_boundaries report)"
  shows "ab_enforced_server_side b"
proof -
  have pair: "\<not> av_ui_only_auth (pair_verdict url x y)" if "av_requires_auth (pair_verdict url x y)" for url x y
    using that by (auto simp: pair_verdict_def Let_def split: option.splits prod.splits if_splits)
  have all: "ab_enforced_server_side b" if "b \<in> set (boundaries_from ids seen vs)" "\<forall>v\<in>set vs. av_requires_auth v \<longrightarrow> \<not> av_ui_only_auth v"
    for ids seen vs
    using that by (induction ids seen vs rule: boundaries_from.induct) (auto split: if_splits option.splits)
  obtain vs where "ar_boundaries report = boundaries_from route_ids {} vs" "\<forall>v\<in>set vs. av_requires_auth v \<longrightarrow> \<not> av_ui_only_auth v"
    using assms(1) pair
    by (auto simp: detect_boundaries_def verdicts_from_anonymous_def verdicts_from_pair_def Let_def bind_eq_Some_conv split: option.splits if_splits)
  then show ?thesis using all assms(2) by metis
qed

definition sample_page :: crawl_page where
  "sample_page = \<lparr>pg_url = ''http://h/api/x'', pg_status = 503, pg_content_type = Some ''text/html'', pg_html = ''b'', pg_depth = 0, pg_elapsed_ms = 0,
     pg_links = [], pg_script_srcs = [], pg_inline_scripts = [''fetch('' @ double_quoted ''/api/users/42'' @ '')''], pg_network_error = None\<rparr>"

definition sample_result :: crawl_result where
  "sample_result = \<lparr>cr_pages = [sample_page], cr_robots_disallowed = [], cr_skipped_external = []\<rparr>"

definition any_netloc :: "string \<Rightarrow> bool" where
  "any_netloc s = True"

lemma sample_detect:
  obtains r :: detector_result where "detect_endpoints any_netloc (\<lambda>_. ''API-A'') (\<lambda>_. []) sample_result [] = Some r"
    "dr_referenced_only r = [''/api/users/[id]'']"
proof -
  have "map_option dr_referenced_only (detect_endpoints any_netloc (\<lambda>_. ''API-A'') (\<lambda>_. []) sample_result []) = Some [''/api/users/[id]'']"
    by code_simp
  then show thesis using that by auto
qed

definition sample_risk_map :: "api_suspicion list \<Rightarrow> route_risk list option" where
  "sample_risk_map suspicions = build_risk_map any_netloc [''RT-AAAAAAAAAAAA''] [(''http://h/api/x'', sample_page)]
     [(''RT-AAAAAAAAAAAA'', ''http://h/api/x'')] [] [] suspicions"

theorem suspicions_never_count_witness:
  "\<exists>r :: detector_result. dr_referenced_only r = [''/api/users/[id]''] \<and> sample_risk_map (dr_suspicions r) = sample_risk_map []"
proof -
  obtain r where r: "detect_endpoints any_netloc (\<lambda>_. ''API-A'') (\<lambda>_. []) sample_result [] = Some r" "dr_referenced_only r = [''/api/users/[id]'']"
    by (rule sample_detect)
  have "\<forall>(i, url)\<in>set [(''RT-AAAAAAAAAAAA'', ''http://h/api/x'')]. \<not> py_startswith url ''/''" by (simp add: py_startswith_def)
  from suspicions_never_count [OF r(1) this] have "sample_risk_map (dr_suspicions r) = sample_risk_map []"
    unfolding sample_risk_map_def .
  with r(2) show ?thesis by blast
qed

theorem risk_in_unit_witness:
  "\<exists>entries :: route_risk list. sample_risk_map [] = Some entries \<and> map rr_route_id entries = [''RT-AAAAAAAAAAAA''] \<and> (\<forall>e\<in>set entries. 0 \<le> rr_score e \<and> rr_score e \<le> 1)"
proof -
  have "map_option (map rr_route_id) (sample_risk_map []) = Some [''RT-AAAAAAAAAAAA'']" by code_simp
  then obtain entries where e: "sample_risk_map [] = Some entries" "map rr_route_id entries = [''RT-AAAAAAAAAAAA'']" by auto
  then show ?thesis using risk_in_unit [OF e(1) [unfolded sample_risk_map_def]] by (intro exI [of _ entries]) simp
qed

theorem boundaries_always_enforced_witness:
  "\<exists>report b. detect_boundaries (sample_net sample_hrefs) sample_policy ''http://h'' (sample_result\<lparr>cr_pages := [sample_page\<lparr>pg_status := 401\<rparr>]\<rparr>)
      (Some (Lo_response 200 [])) [(''http://h/api/x'', ''RT-AAAAAAAAAAAA'')] = Some report \<and>
     ar_login_succeeded report \<and> ar_boundaries report = [b] \<and> ab_enforced_server_side b"
proof -
  let ?r = "detect_boundaries (sample_net sample_hrefs) sample_policy ''http://h'' (sample_result\<lparr>cr_pages := [sample_page\<lparr>pg_status := 401\<rparr>]\<rparr>)
      (Some (Lo_response 200 [])) [(''http://h/api/x'', ''RT-AAAAAAAAAAAA'')]"
  have "map_option (\<lambda>r. (ar_login_succeeded r, length (ar_boundaries r))) ?r = Some (True, 1)" by code_simp
  then obtain report where r: "?r = Some report" "ar_login_succeeded report" "length (ar_boundaries report) = 1" by auto
  then obtain b where "ar_boundaries report = [b]" by (auto simp: length_Suc_conv)
  then show ?thesis using boundaries_always_enforced [OF r(1), of b] r by simp
qed

end
