(* ===== verification/Ci.thy ===== *)
theory Ci
  imports Lifecycle NetAddr
begin

text \<open>
  What runs in CI: the mode presets (\<open>engine/ci/modes.py\<close>), the selection by diff (\<open>engine/ci/diff_aware.py\<close>), what \<open>sentinel ci\<close>
  makes of both (\<open>apps/cli/src/sentinel_cli/commands/ci_cmd.py\<close>), and the module selection of \<open>sentinel audit --changed-only\<close>
  (\<open>engine/orchestrator/changed_modules.py\<close>). Git is an argument, the list of changed files; a path holds no newline.
\<close>

section \<open>Mode presets\<close>

datatype ci_mode = Fast | Standard | Full | Nightly | Release

definition ci_modes :: "(string \<times> ci_mode) list" where
  "ci_modes = [(''fast'', Fast), (''standard'', Standard), (''full'', Full), (''nightly'', Nightly), (''release'', Release)]"

record mode_plan =
  mp_modules :: "string list"
  mp_grep :: "string option"
  mp_min_quality_score :: "int option"
  mp_extended_security :: bool

definition release_min_quality_score :: int where
  "release_min_quality_score = 90"

definition intersect_with_config :: "string list \<Rightarrow> modules_config \<Rightarrow> string list" where
  "intersect_with_config requested cfg = filter (\<lambda>m. m \<in> set (modules_from_config cfg)) requested"

fun grep_for_mode :: "ci_mode \<Rightarrow> string option" where
  "grep_for_mode Fast = Some ''@p0''"
| "grep_for_mode Standard = Some ''@p0|@p1''"
| "grep_for_mode _ = None"

definition with_chaos :: "string list \<Rightarrow> string list" where
  "with_chaos ms = (if ''chaos'' \<in> set ms then ms else ms @ [''chaos''])"

fun mode_plan_of :: "ci_mode \<Rightarrow> modules_config \<Rightarrow> policy \<Rightarrow> mode_plan" where
  "mode_plan_of Fast cfg pol = \<lparr>mp_modules = intersect_with_config [''functional'', ''security''] cfg, mp_grep = grep_for_mode Fast,
     mp_min_quality_score = None, mp_extended_security = False\<rparr>"
| "mode_plan_of Standard cfg pol = \<lparr>mp_modules = intersect_with_config [''functional'', ''security'', ''accessibility''] cfg,
     mp_grep = grep_for_mode Standard, mp_min_quality_score = None, mp_extended_security = False\<rparr>"
| "mode_plan_of Full cfg pol = \<lparr>mp_modules = modules_from_config cfg, mp_grep = None, mp_min_quality_score = None, mp_extended_security = False\<rparr>"
| "mode_plan_of Nightly cfg pol = \<lparr>mp_modules = with_chaos (modules_from_config cfg), mp_grep = None, mp_min_quality_score = None,
     mp_extended_security = True\<rparr>"
| "mode_plan_of Release cfg pol = \<lparr>mp_modules = with_chaos (modules_from_config cfg), mp_grep = None,
     mp_min_quality_score = (if min_quality_score pol < release_min_quality_score then Some release_min_quality_score else None),
     mp_extended_security = False\<rparr>"

definition apply_mode :: "modules_config \<Rightarrow> policy \<Rightarrow> ci_mode \<Rightarrow> int option \<Rightarrow> policy \<times> mode_plan" where
  "apply_mode cfg pol m fail_under =
     (let plan = mode_plan_of m cfg pol in
      (case (if fail_under \<noteq> None then fail_under else mp_min_quality_score plan) of
         None \<Rightarrow> pol
       | Some score \<Rightarrow> pol\<lparr>min_quality_score := score\<rparr>, plan))"

section \<open>Path patterns\<close>

text \<open>
  The regular expressions of both selections are sequences of these atoms, searched anywhere or at the start of a segment (\<open>(^|/)\<close>).
  \<open>matches\<close> is whether some way of matching exists, which is what \<open>search\<close> is asked for.
\<close>

datatype atom = Lit string | One_of "string list" | Any_char | Any_star | Segment_plus | Not_ahead string | At_end

fun matches :: "atom list \<Rightarrow> string \<Rightarrow> bool" where
  "matches [] s = True"
| "matches (Lit l # r) s = (py_startswith s l \<and> matches r (drop (length l) s))"
| "matches (One_of ls # r) s = list_ex (\<lambda>l. py_startswith s l \<and> matches r (drop (length l) s)) ls"
| "matches (Any_char # r) s = (case s of [] \<Rightarrow> False | _ # cs \<Rightarrow> matches r cs)"
| "matches (Any_star # r) [] = matches r []"
| "matches (Any_star # r) (c # cs) = (matches r (c # cs) \<or> matches (Any_star # r) cs)"
| "matches (Segment_plus # r) [] = False"
| "matches (Segment_plus # r) (c # cs) = (c \<noteq> CHR ''/'' \<and> (matches r cs \<or> matches (Segment_plus # r) cs))"
| "matches (Not_ahead l # r) s = (\<not> py_startswith s l \<and> matches r s)"
| "matches (At_end # r) s = (s = [] \<and> matches r s)"

datatype path_pattern = Anywhere "atom list" | At_segment "atom list"

fun search_anywhere :: "atom list \<Rightarrow> string \<Rightarrow> bool" where
  "search_anywhere p [] = matches p []"
| "search_anywhere p (c # cs) = (matches p (c # cs) \<or> search_anywhere p cs)"

fun search_after_slash :: "atom list \<Rightarrow> string \<Rightarrow> bool" where
  "search_after_slash p [] = False"
| "search_after_slash p (c # cs) = (c = CHR ''/'' \<and> matches p cs \<or> search_after_slash p cs)"

fun pattern_search :: "path_pattern \<Rightarrow> string \<Rightarrow> bool" where
  "pattern_search (Anywhere p) s = search_anywhere p s"
| "pattern_search (At_segment p) s = (matches p s \<or> search_after_slash p s)"

definition file_named :: "string \<Rightarrow> path_pattern" where
  "file_named name = At_segment [Lit name, At_end]"

definition under_dir :: "string \<Rightarrow> path_pattern" where
  "under_dir name = At_segment [Lit (name @ ''/'')]"

definition ending_in :: "string list \<Rightarrow> path_pattern" where
  "ending_in suffixes = Anywhere [One_of suffixes, At_end]"

section \<open>Modules impacted by a diff\<close>

definition all_modules :: "string list" where
  "all_modules = [''functional'', ''a11y'', ''perf'', ''security'', ''api'', ''visual'', ''chaos'', ''llm_audit'', ''supply_chain'']"

definition global_invalidators :: "path_pattern list" where
  "global_invalidators = map file_named [''package.json'', ''package-lock.json'', ''pnpm-lock.yaml'', ''yarn.lock'', ''pyproject.toml'', ''uv.lock'']
     @ [At_segment [Lit ''requirements'', Any_star, Lit ''.txt'', At_end], file_named ''Pipfile.lock'',
        At_segment [Lit ''tsconfig'', Any_star, Lit ''.json'', At_end]]
     @ map (\<lambda>tool. At_segment [Lit (tool @ ''.config.''), Segment_plus, At_end]) [''next'', ''nuxt'', ''astro'', ''vite'', ''svelte'', ''remix'']
     @ [At_segment [Lit ''sentinel.config.'', One_of [''yml'', ''yaml''], At_end],
        At_segment [Lit ''.github/workflows/'', Segment_plus, Lit ''.'', One_of [''yml'', ''yaml''], At_end],
        file_named ''Dockerfile'', At_segment [Lit ''Dockerfile.'', Segment_plus, At_end]]"

definition script_suffixes :: "string list" where
  "script_suffixes = [''.ts'', ''.tsx'', ''.js'', ''.jsx'']"

definition module_patterns :: "(string \<times> path_pattern list) list" where
  "module_patterns =
    [(''functional'', [ending_in (script_suffixes @ [''.vue'', ''.svelte'', ''.mjs'', ''.cjs'']), under_dir ''pages'',
        At_segment [Lit ''app/'', Not_ahead ''api/''], under_dir ''src'', under_dir ''routes'', under_dir ''components'']),
     (''a11y'', [ending_in (script_suffixes @ [''.vue'', ''.svelte'', ''.html'', ''.css'', ''.scss'']), under_dir ''components'',
        under_dir ''pages'', under_dir ''src'', under_dir ''styles'']),
     (''visual'', [ending_in (script_suffixes @ [''.vue'', ''.svelte'', ''.css'', ''.scss'', ''.html'', ''.module.css'']),
        under_dir ''components'', under_dir ''styles'', under_dir ''pages'']),
     (''perf'', [ending_in (script_suffixes @ [''.vue'', ''.svelte'', ''.html'', ''.css'', ''.scss'']), under_dir ''pages'', under_dir ''app'',
        under_dir ''public'']),
     (''api'', [ending_in [''.api.ts'', ''.api.tsx''], under_dir ''api'', under_dir ''app/api'', under_dir ''pages/api'',
        under_dir ''routes/api'', under_dir ''server'', ending_in [''.py''],
        Anywhere [Lit ''openapi'', Any_star, One_of [''.yaml'', ''.yml'', ''.json''], At_end],
        Anywhere [Lit ''graphql'', Any_star, One_of [''.graphql'', ''.gql'', ''.ts''], At_end]]),
     (''security'', [ending_in (script_suffixes @ [''.py'']), At_segment [Lit ''middleware.''], under_dir ''auth'', under_dir ''security'',
        ending_in [''.env''], Anywhere [Lit ''.env.'', Segment_plus, At_end]]),
     (''chaos'', [ending_in (script_suffixes @ [''.vue'', ''.svelte'']), under_dir ''src'', under_dir ''app'']),
     (''llm_audit'', [ending_in (script_suffixes @ [''.vue'', ''.svelte'', ''.py'']), under_dir ''src'', under_dir ''app'', under_dir ''components'']),
     (''supply_chain'', map file_named [''package.json'', ''pnpm-lock.yaml'', ''yarn.lock'', ''package-lock.json'', ''pyproject.toml'', ''uv.lock'']
        @ [At_segment [Lit ''requirements'', Any_star, Lit ''.txt'', At_end], file_named ''Pipfile.lock'', file_named ''Dockerfile'',
           At_segment [Lit ''Dockerfile.'', Segment_plus, At_end]])]"

record module_selection =
  ms_modules :: "string set"
  ms_changed_files :: "string list"
  ms_all_invalidated :: bool

definition matches_any :: "path_pattern list \<Rightarrow> string \<Rightarrow> bool" where
  "matches_any patterns path \<longleftrightarrow> list_ex (\<lambda>p. pattern_search p path) patterns"

definition impacted_modules :: "string list \<Rightarrow> module_selection" where
  "impacted_modules files =
     (if files = [] then \<lparr>ms_modules = {}, ms_changed_files = [], ms_all_invalidated = False\<rparr>
      else if list_ex (matches_any global_invalidators) files
      then \<lparr>ms_modules = set all_modules, ms_changed_files = files, ms_all_invalidated = True\<rparr>
      else \<lparr>ms_modules = set (map fst (filter (\<lambda>(m, patterns). list_ex (matches_any patterns) files) module_patterns)),
             ms_changed_files = files, ms_all_invalidated = False\<rparr>)"

text \<open>The three listings of git: the committed changes, the unstaged ones and the untracked files; \<open>None\<close> is a git failure.\<close>

definition changed_files_against :: "string list option \<Rightarrow> string list option \<Rightarrow> string list option \<Rightarrow> string list option" where
  "changed_files_against committed unstaged untracked =
     Option.bind committed (\<lambda>a. Option.bind unstaged (\<lambda>b. map_option (\<lambda>c. sort_key (split_on CHR ''/'') (dedup (filter (\<lambda>l. py_strip l \<noteq> []) (a @ b @ c)))) untracked))"

definition select_modules :: "string list option \<Rightarrow> string list option \<Rightarrow> string list option \<Rightarrow> string set option \<Rightarrow> module_selection option" where
  "select_modules committed unstaged untracked intersect_with =
     map_option (\<lambda>changed.
         let selection = impacted_modules changed in
         case intersect_with of None \<Rightarrow> selection | Some ms \<Rightarrow> selection\<lparr>ms_modules := ms_modules selection \<inter> ms\<rparr>)
       (changed_files_against committed unstaged untracked)"

text \<open>What \<open>sentinel audit --changed-only\<close> asks the lifecycle for, or that there is nothing to do, with exit code 0.\<close>

datatype changed_only = Co_git_error | Co_no_op | Co_run "string list"

definition audit_changed_only :: "string list option \<Rightarrow> string list option \<Rightarrow> string list option \<Rightarrow> string list option \<Rightarrow> changed_only" where
  "audit_changed_only committed unstaged untracked requested =
     (case select_modules committed unstaged untracked (case requested of None \<Rightarrow> None | Some [] \<Rightarrow> None | Some ms \<Rightarrow> Some (set ms)) of
        None \<Rightarrow> Co_git_error
      | Some selection \<Rightarrow> if ms_modules selection = {} then Co_no_op else Co_run (sorted_list_of_set (ms_modules selection)))"

section \<open>Tests impacted by a diff\<close>

record diff_selection =
  ds_changed_files :: "string list"
  ds_impacted_routes :: "string list"
  ds_impacted_endpoints :: "string list"
  ds_impacted_test_files :: "string list"
  ds_tags :: "string list"
  ds_fallback_to_full :: bool
  ds_reason :: string

definition smoke_tag :: string where
  "smoke_tag = ''@p0''"

definition selection_grep :: "diff_selection \<Rightarrow> string option" where
  "selection_grep s = (if ds_fallback_to_full s then None else Some (py_join ''|'' (sort (dedup (ds_tags s @ [smoke_tag])))))"

definition default_max_changed_files :: int where
  "default_max_changed_files = 50"

text \<open>\<open>^prefix(.+)(suffix|...)$\<close>: the text of the group.\<close>

definition between :: "string \<Rightarrow> string list \<Rightarrow> string \<Rightarrow> string option" where
  "between prefix suffixes path =
     (case filter (\<lambda>x. py_startswith path prefix \<and> py_endswith path x \<and> length prefix + length x < length path) suffixes of
        [] \<Rightarrow> None
      | x # _ \<Rightarrow> Some (take (length path - length prefix - length x) (drop (length prefix) path)))"

definition react_suffixes :: "string list" where
  "react_suffixes = [''.tsx'', ''.jsx'', ''.ts'', ''.js'']"

definition strip_index :: "string \<Rightarrow> string" where
  "strip_index raw =
     (if py_endswith raw ''/index'' then take (length raw - length ''/index'') raw else if raw = ''index'' then [] else raw)"

text \<open>The first pattern that matches; the second one has no group and stands for the root.\<close>

definition route_for_file :: "string \<Rightarrow> string option" where
  "route_for_file path =
     (case between ''app/'' (map (append ''/page'') react_suffixes) path of
        Some raw \<Rightarrow> Some (''/'' @ strip_index raw)
      | None \<Rightarrow>
        if path \<in> set (map (append ''app/page'') react_suffixes) then Some ''/''
        else map_option (\<lambda>raw. ''/'' @ strip_index raw)
          (case between ''pages/'' react_suffixes path of Some raw \<Rightarrow> Some raw
           | None \<Rightarrow> (case between ''src/routes/'' react_suffixes path of Some raw \<Rightarrow> Some raw
              | None \<Rightarrow> between ''src/pages/'' react_suffixes path)))"

definition endpoint_for_file :: "string \<Rightarrow> string option" where
  "endpoint_for_file path =
     map_option (\<lambda>raw. ''/api/'' @ strip_index raw)
       (case between ''app/api/'' (map (append ''/route'') react_suffixes) path of Some raw \<Rightarrow> Some raw
        | None \<Rightarrow> (case between ''pages/api/'' react_suffixes path of Some raw \<Rightarrow> Some raw
           | None \<Rightarrow> between ''api/'' (react_suffixes @ [''.py'']) path))"

definition openapi_patterns :: "path_pattern list" where
  "openapi_patterns =
     [At_segment [Lit ''openapi'', One_of [''.yaml'', ''.yml'', ''.json''], At_end],
      At_segment [Lit ''openapi/'', Any_char, Any_star, One_of [''.yaml'', ''.yml'', ''.json''], At_end],
      file_named ''schema.graphql'', file_named ''graphql.schema'']"

definition broad_impact_filenames :: "string list" where
  "broad_impact_filenames = [''package.json'', ''pnpm-lock.yaml'', ''yarn.lock'', ''package-lock.json'', ''uv.lock'', ''pyproject.toml'',
     ''requirements.txt'', ''Pipfile'', ''Pipfile.lock'', ''Dockerfile'', ''next.config.js'', ''next.config.ts'', ''next.config.mjs'',
     ''vite.config.ts'', ''vite.config.js'', ''tsconfig.json'', ''tsconfig.base.json'', ''tailwind.config.js'', ''tailwind.config.ts'',
     ''postcss.config.js'', ''babel.config.js'', ''vitest.config.ts'', ''vitest.config.js'', ''playwright.config.ts'',
     ''playwright.config.js'', ''remix.config.js'']"

definition normalize_changed :: "string \<Rightarrow> string" where
  "normalize_changed path = dropWhile (\<lambda>c. c = CHR ''.'' \<or> c = CHR ''/'') (replace_char (CHR 0x5C) ''/'' path)"

definition is_broad_impact :: "string \<Rightarrow> bool" where
  "is_broad_impact path \<longleftrightarrow> after_last_char CHR ''/'' path \<in> set broad_impact_filenames"

definition is_test_file :: "string \<Rightarrow> bool" where
  "is_test_file path \<longleftrightarrow> py_in ''tests/sentinel/'' path \<or>
     list_ex (py_endswith path) [''.spec.ts'', ''.spec.tsx'', ''.spec.js'', ''.test.ts'', ''.test.tsx'']"

definition fallback_selection :: "string list \<Rightarrow> string \<Rightarrow> diff_selection" where
  "fallback_selection files reason =
     \<lparr>ds_changed_files = files, ds_impacted_routes = [], ds_impacted_endpoints = [], ds_impacted_test_files = [], ds_tags = [],
      ds_fallback_to_full = True, ds_reason = reason\<rparr>"

definition select_from_files :: "string list \<Rightarrow> int \<Rightarrow> diff_selection" where
  "select_from_files changed_files max_changed_files =
     (let deduped = dedup (map normalize_changed (filter (\<lambda>p. p \<noteq> []) changed_files));
          count = str_of_nat (length deduped)
      in case filter is_broad_impact deduped of
           hit # _ \<Rightarrow> fallback_selection deduped (''broad-impact file changed ('' @ hit @ ''); running full regression.'')
         | [] \<Rightarrow>
           if max_changed_files < int (length deduped)
           then fallback_selection deduped (count @ '' files changed (> '' @ str_of_int max_changed_files @ '' threshold); running full regression.'')
           else
             let openapi_changed = list_ex (matches_any openapi_patterns) deduped;
                 mapped = filter (\<lambda>p. \<not> matches_any openapi_patterns p) deduped;
                 routes = sort (dedup (List.map_filter route_for_file mapped));
                 endpoints = sort (dedup (List.map_filter endpoint_for_file mapped));
                 specs = sort (dedup (filter is_test_file deduped))
             in \<lparr>ds_changed_files = deduped, ds_impacted_routes = routes, ds_impacted_endpoints = endpoints, ds_impacted_test_files = specs,
                 ds_tags = dedup ((if routes \<noteq> [] \<or> endpoints \<noteq> [] \<or> specs \<noteq> [] \<or> openapi_changed then [''@p1''] else []) @
                   (if openapi_changed then [''@module:api''] else []) @ map (append ''@route:'') routes @ map (append ''@endpoint:'') endpoints),
                 ds_fallback_to_full = False,
                 ds_reason = count @ '' file(s) changed; mapped to '' @ str_of_nat (length routes) @ '' route(s) + '' @
                   str_of_nat (length endpoints) @ '' endpoint(s).''\<rparr>)"

section \<open>The command sentinel ci\<close>

definition or_grep :: "string option list \<Rightarrow> string option" where
  "or_grep alternatives =
     (case filter (\<lambda>a. a \<noteq> []) (List.map_filter id alternatives) of [] \<Rightarrow> None | non_empty \<Rightarrow> Some (py_join ''|'' non_empty))"

definition combine_grep :: "string option \<Rightarrow> string option \<Rightarrow> string option" where
  "combine_grep mode_grep user_grep =
     (case (mode_grep, user_grep) of (None, u) \<Rightarrow> u | (Some m, None) \<Rightarrow> Some m | (Some m, Some u) \<Rightarrow> Some (''('' @ m @ '').*'' @ u))"

text \<open>What the command hands to the lifecycle: the policy, the modules (\<open>None\<close> for those the configuration enables) and the filter of the functional tests.\<close>

record ci_request =
  cq_policy :: policy
  cq_requested :: "string list option"
  cq_functional_grep :: "string option"

datatype ci_error = Invalid_ci_mode string

definition run_ci ::
  "modules_config \<Rightarrow> policy \<Rightarrow> string \<Rightarrow> string list option \<Rightarrow> int option \<Rightarrow> string option \<Rightarrow> ci_error + ci_request" where
  "run_ci cfg pol mode_text diff fail_under user_grep =
     (case map_of ci_modes mode_text of
        None \<Rightarrow> Inl (Invalid_ci_mode mode_text)
      | Some m \<Rightarrow>
        (let (policy, plan) = apply_mode cfg pol m fail_under;
             selection = map_option (\<lambda>files. select_from_files files default_max_changed_files) diff;
             diff_grep = Option.bind selection selection_grep;
             requested = (if mp_modules plan = [] then None else Some (mp_modules plan))
         in Inr \<lparr>cq_policy = policy,
              cq_requested = (case selection of Some s \<Rightarrow> if ds_fallback_to_full s then Some (modules_from_config cfg) else requested
                 | None \<Rightarrow> requested),
              cq_functional_grep = combine_grep (or_grep [mp_grep plan, diff_grep]) user_grep\<rparr>))"

section \<open>Lemmas\<close>

text \<open>A path none of the heuristics of the diff selection recognises.\<close>

definition unmapped_path :: "string \<Rightarrow> bool" where
  "unmapped_path p \<longleftrightarrow> \<not> is_broad_impact p \<and> \<not> is_test_file p \<and> \<not> matches_any openapi_patterns p \<and>
     route_for_file p = None \<and> endpoint_for_file p = None"

lemma split_on_nonempty: "split_on c s \<noteq> []"
  by (induction s) (auto split: list.splits)

lemma split_on_append: "split_on c (a @ c # b) = split_on c a @ split_on c b"
proof (induction a)
  case (Cons x a)
  show ?case
  proof (cases "x = c")
    case False
    obtain y ys where "split_on c a = y # ys" using split_on_nonempty [of c a] by (cases "split_on c a") auto
    then show ?thesis using Cons False by simp
  qed (simp add: Cons)
qed simp

lemma split_on_join: "x \<in> set xs \<Longrightarrow> c \<notin> set x \<Longrightarrow> x \<in> set (split_on c (py_join [c] xs))"
proof (induction xs)
  case (Cons a xs)
  show ?case
  proof (cases xs)
    case Nil then show ?thesis using Cons.prems by (simp add: py_join_def split_on_notin)
  next
    case (Cons b bs)
    then have "py_join [c] (a # xs) = a @ c # py_join [c] xs" by (simp add: py_join_def)
    then have s: "split_on c (py_join [c] (a # xs)) = split_on c a @ split_on c (py_join [c] xs)" by (simp add: split_on_append)
    show ?thesis
    proof (cases "x = a")
      case True then show ?thesis using Cons.prems(2) unfolding s by (simp add: split_on_notin)
    next
      case False
      then show ?thesis using Cons.IH Cons.prems unfolding s by simp
    qed
  qed
qed simp

lemma or_grep_pair: "or_grep [a, b] = (case (a, b) of
    (Some x, Some y) \<Rightarrow> (if x = [] then (if y = [] then None else Some y) else if y = [] then Some x else Some (x @ ''|'' @ y))
  | (Some x, None) \<Rightarrow> (if x = [] then None else Some x) | (None, Some y) \<Rightarrow> (if y = [] then None else Some y) | (None, None) \<Rightarrow> None)"
  by (cases a; cases b) (auto simp: or_grep_def List.map_filter_simps py_join_def)

lemma or_grep_alternatives:
  assumes "or_grep [a, b] = Some g"
  shows "(\<exists>x. a = Some x \<and> set (split_on CHR ''|'' x) \<subseteq> set (split_on CHR ''|'' g)) \<or>
    (\<exists>x. b = Some x \<and> set (split_on CHR ''|'' x) \<subseteq> set (split_on CHR ''|'' g))"
proof (cases a)
  case None
  then show ?thesis using assms by (cases b) (auto simp: or_grep_pair split: if_splits)
next
  case (Some x)
  then show ?thesis
  proof (cases "b = None \<or> b = Some [] \<or> x = []")
    case True
    then show ?thesis using assms Some by (cases b) (auto simp: or_grep_pair split: if_splits)
  next
    case False
    then obtain y where y: "b = Some y" "y \<noteq> []" "x \<noteq> []" by (cases b) auto
    then have "g = x @ CHR ''|'' # y" using assms Some by (simp add: or_grep_pair)
    then show ?thesis using Some by (simp add: split_on_append)
  qed
qed

lemma selection_grep_smoke:
  assumes "selection_grep s = Some g"
  shows "smoke_tag \<in> set (split_on CHR ''|'' g)" "g \<noteq> []" "\<not> ds_fallback_to_full s"
proof -
  have g: "g = py_join [CHR ''|''] (sort (dedup (ds_tags s @ [smoke_tag])))" and f: "\<not> ds_fallback_to_full s"
    using assms by (auto simp: selection_grep_def split: if_splits)
  have "smoke_tag \<in> set (sort (dedup (ds_tags s @ [smoke_tag])))" by simp
  then show 1: "smoke_tag \<in> set (split_on CHR ''|'' g)" unfolding g by (rule split_on_join) (simp add: smoke_tag_def)
  then show "g \<noteq> []" by (auto simp: smoke_tag_def)
  show "\<not> ds_fallback_to_full s" by (rule f)
qed

lemma mode_plan_grep: "mp_grep (mode_plan_of m cfg pol) = grep_for_mode m"
  by (cases m) simp_all

lemma run_ci_grep:
  assumes "run_ci cfg pol mode_text diff fail_under None = Inr q" "map_of ci_modes mode_text = Some m"
  shows "cq_functional_grep q = or_grep [grep_for_mode m, Option.bind (map_option (\<lambda>files. select_from_files files default_max_changed_files) diff) selection_grep]"
  using assms by (auto simp: run_ci_def apply_mode_def Let_def mode_plan_grep combine_grep_def split: option.splits)

lemma ci_modes_simps:
  "map_of ci_modes ''fast'' = Some Fast" "map_of ci_modes ''standard'' = Some Standard" "map_of ci_modes ''full'' = Some Full"
  "map_of ci_modes ''nightly'' = Some Nightly" "map_of ci_modes ''release'' = Some Release"
  by (simp_all add: ci_modes_def)

lemma p0_in_presets:
  "smoke_tag \<in> set (split_on CHR ''|'' ''@p0'')" "smoke_tag \<in> set (split_on CHR ''|'' ''@p0|@p1'')"
  by code_simp+

lemma full_modes:
  assumes "mode_text \<in> {''full'', ''nightly'', ''release''}"
  obtains m where "map_of ci_modes mode_text = Some m" "grep_for_mode m = None"
  using assms
proof (elim insertE emptyE)
  assume m: "mode_text = ''full''"
  show thesis by (rule that [of Full]) (simp_all only: m ci_modes_simps grep_for_mode.simps)
next
  assume m: "mode_text = ''nightly''"
  show thesis by (rule that [of Nightly]) (simp_all only: m ci_modes_simps grep_for_mode.simps)
next
  assume m: "mode_text = ''release''"
  show thesis by (rule that [of Release]) (simp_all only: m ci_modes_simps grep_for_mode.simps)
qed

lemma ci_modes_cases: "map_of ci_modes mode_text = Some m \<longleftrightarrow>
    (mode_text, m) \<in> {(''fast'', Fast), (''standard'', Standard), (''full'', Full), (''nightly'', Nightly), (''release'', Release)}"
  by (auto simp: ci_modes_def split: if_splits)

definition sample_modules :: modules_config where
  "sample_modules = lc_modules sample_start"

text \<open>
  C14. The smoke tests are the floor of every filter. Whatever the mode, the diff and the gate override, if \<open>sentinel ci\<close> hands a filter to
  the functional tests without one of the user's own, \<open>@p0\<close> is one of its alternatives.
\<close>

theorem smoke_floor:
  assumes "run_ci cfg pol mode_text diff fail_under None = Inr q" "cq_functional_grep q = Some g"
  shows "smoke_tag \<in> set (split_on CHR ''|'' g)"
proof -
  obtain m where m: "map_of ci_modes mode_text = Some m" using assms(1) by (auto simp: run_ci_def split: option.splits)
  define d where "d = Option.bind (map_option (\<lambda>files. select_from_files files default_max_changed_files) diff) selection_grep"
  have g: "or_grep [grep_for_mode m, d] = Some g" using run_ci_grep [OF assms(1) m] assms(2) by (simp add: d_def)
  have d: "smoke_tag \<in> set (split_on CHR ''|'' x)" "x \<noteq> []" if "d = Some x" for x
    using that selection_grep_smoke(1,2) by (auto simp: d_def bind_eq_Some_conv)
  have m': "smoke_tag \<in> set (split_on CHR ''|'' x)" if "grep_for_mode m = Some x" for x
    using that p0_in_presets by (cases m) auto
  from or_grep_alternatives [OF g] show ?thesis
  proof (elim disjE exE conjE)
    fix x assume "grep_for_mode m = Some x" "set (split_on CHR ''|'' x) \<subseteq> set (split_on CHR ''|'' g)"
    then show ?thesis using m' by blast
  next
    fix x assume "d = Some x" "set (split_on CHR ''|'' x) \<subseteq> set (split_on CHR ''|'' g)"
    then show ?thesis using d(1) by blast
  qed
qed

lemma login_page_filter:
  "(case run_ci sample_modules default_policy ''full'' (Some [''app/login/page.tsx'']) None None of Inl _ \<Rightarrow> False
    | Inr q \<Rightarrow> cq_functional_grep q = Some ''@p0|@p1|@route:/login'')"
  by code_simp

theorem smoke_floor_witness:
  "smoke_tag \<in> set (split_on CHR ''|'' ''@p0|@p1|@route:/login'')"
proof -
  obtain q where "run_ci sample_modules default_policy ''full'' (Some [''app/login/page.tsx'']) None None = Inr q"
    "cq_functional_grep q = Some ''@p0|@p1|@route:/login''"
    using login_page_filter by (auto split: sum.splits)
  then show ?thesis by (rule smoke_floor)
qed

text \<open>
  A diff narrows the modes that run everything. In the modes full, nightly and release no filter is set; with a diff that is
  small enough to be mapped, the filter of the diff takes the place of no filter, so that only the smoke tests and the tagged ones run.
\<close>

lemma diff_narrows_full_modes:
  assumes "mode_text \<in> {''full'', ''nightly'', ''release''}" "\<not> ds_fallback_to_full (select_from_files files default_max_changed_files)"
  shows "\<exists>q q'. run_ci cfg pol mode_text None fail_under None = Inr q \<and> cq_functional_grep q = None \<and>
    run_ci cfg pol mode_text (Some files) fail_under None = Inr q' \<and>
    cq_functional_grep q' = Some (py_join ''|'' (sort (dedup (ds_tags (select_from_files files default_max_changed_files) @ [smoke_tag]))))"
proof -
  obtain m where m: "map_of ci_modes mode_text = Some m" "grep_for_mode m = None" by (rule full_modes [OF assms(1)])
  obtain q q' where q: "run_ci cfg pol mode_text None fail_under None = Inr q" "run_ci cfg pol mode_text (Some files) fail_under None = Inr q'"
    using m(1) by (auto simp: run_ci_def apply_mode_def Let_def)
  obtain g where g: "selection_grep (select_from_files files default_max_changed_files) = Some g"
    "g = py_join ''|'' (sort (dedup (ds_tags (select_from_files files default_max_changed_files) @ [smoke_tag])))"
    using assms(2) by (simp add: selection_grep_def)
  show ?thesis
    using run_ci_grep [OF q(1) m(1)] run_ci_grep [OF q(2) m(1)] q m(2) g selection_grep_smoke(2) [OF g(1)]
    by (intro exI [of _ q] exI [of _ q']) (simp add: or_grep_pair)
qed

lemma readme_not_broad: "\<not> ds_fallback_to_full (select_from_files [''README.md''] default_max_changed_files)"
  by code_simp

lemma map_filter_none: "(\<And>x. x \<in> set xs \<Longrightarrow> f x = None) \<Longrightarrow> List.map_filter f xs = []"
  by (induction xs) (auto simp: List.map_filter_simps)

lemma unmapped_selection:
  assumes "\<forall>p\<in>set files. unmapped_path (normalize_changed p)" "length files \<le> 50"
  shows "\<not> ds_fallback_to_full (select_from_files files default_max_changed_files)"
    "ds_tags (select_from_files files default_max_changed_files) = []"
proof -
  let ?deduped = "dedup (map normalize_changed (filter (\<lambda>p. p \<noteq> []) files))"
  have u: "unmapped_path p" if "p \<in> set ?deduped" for p using that assms(1) by auto
  have "length (dedup xs) \<le> length xs" for xs :: "string list"
    using card_length [of xs] distinct_card [OF distinct_dedup, of xs] by simp
  from this [of "map normalize_changed (filter (\<lambda>p. p \<noteq> []) files)"]
  have "length ?deduped \<le> length (filter (\<lambda>p. p \<noteq> []) files)" by simp
  then have len: "length ?deduped \<le> 50" using assms(2) length_filter_le [of "\<lambda>p. p \<noteq> []" files] by linarith
  have none: "filter is_broad_impact ?deduped = []" "filter is_test_file ?deduped = []" "\<not> list_ex (matches_any openapi_patterns) ?deduped"
    using u unfolding filter_empty_conv list_ex_iff by (auto simp: unmapped_path_def)
  have mapped: "List.map_filter route_for_file (filter (\<lambda>p. \<not> matches_any openapi_patterns p) ?deduped) = []"
    "List.map_filter endpoint_for_file (filter (\<lambda>p. \<not> matches_any openapi_patterns p) ?deduped) = []"
    using u by (auto intro!: map_filter_none simp: unmapped_path_def)
  have bound: "\<not> default_max_changed_files < int (length ?deduped)" using len by (simp add: default_max_changed_files_def)
  show "\<not> ds_fallback_to_full (select_from_files files default_max_changed_files)"
    "ds_tags (select_from_files files default_max_changed_files) = []"
    unfolding select_from_files_def Let_def none(1) using bound none mapped by (simp_all add: dedup_def)
qed

text \<open>
  A diff that maps to nothing leaves the smoke tests alone. In the modes full, nightly and release, when no changed file is a broad
  one and none is recognised as a route, an endpoint, a schema or a test (a change of backend code, say, or no change at all), the
  functional tests run under the filter \<open>@p0\<close>; without the diff the same mode runs all of them.
\<close>

theorem unmapped_diff_smoke_only:
  assumes "mode_text \<in> {''full'', ''nightly'', ''release''}" "\<forall>p\<in>set files. unmapped_path (normalize_changed p)" "length files \<le> 50"
  shows "\<exists>q q'. run_ci cfg pol mode_text None fail_under None = Inr q \<and> cq_functional_grep q = None \<and>
    run_ci cfg pol mode_text (Some files) fail_under None = Inr q' \<and> cq_functional_grep q' = Some smoke_tag"
proof -
  have "py_join ''|'' (sort (dedup ([] @ [smoke_tag]))) = smoke_tag" by code_simp
  then show ?thesis
    using diff_narrows_full_modes [OF assms(1) unmapped_selection(1) [OF assms(2,3)]] unfolding unmapped_selection(2) [OF assms(2,3)]
    by simp
qed

lemma backend_unmapped: "\<forall>p\<in>set [''src/orders/service.go'']. unmapped_path (normalize_changed p)"
  by code_simp

theorem unmapped_diff_smoke_only_witness:
  "\<exists>q q'. run_ci sample_modules default_policy ''full'' None None None = Inr q \<and> cq_functional_grep q = None \<and>
    run_ci sample_modules default_policy ''full'' (Some [''src/orders/service.go'']) None None = Inr q' \<and> cq_functional_grep q' = Some smoke_tag"
  by (rule unmapped_diff_smoke_only [OF _ backend_unmapped]) simp_all

text \<open>
  The full regression after a broad change is not full. When the diff is too broad to be mapped, \<open>sentinel ci\<close> runs the modules the
  configuration enables, but under the filter of the mode (the smoke tests only in the fast mode) and, in the modes that
  always add the chaos module, without it.
\<close>

theorem fallback_keeps_filter:
  assumes "ds_fallback_to_full (select_from_files files default_max_changed_files)" "map_of ci_modes mode_text = Some m"
  shows "\<exists>q. run_ci sample_modules default_policy mode_text (Some files) fail_under None = Inr q \<and> cq_functional_grep q = grep_for_mode m \<and>
    cq_requested q = Some (modules_from_config sample_modules)"
proof -
  obtain q where q: "run_ci sample_modules default_policy mode_text (Some files) fail_under None = Inr q" using assms(2) by (auto simp: run_ci_def apply_mode_def Let_def)
  have "cq_requested q = Some (modules_from_config sample_modules)" using q assms by (auto simp: run_ci_def apply_mode_def Let_def)
  moreover have "cq_functional_grep q = grep_for_mode m"
    using run_ci_grep [OF q assms(2)] assms(1) by (cases m) (simp_all add: selection_grep_def or_grep_pair)
  ultimately show ?thesis using q by blast
qed

lemma package_json_broad: "ds_fallback_to_full (select_from_files [''package.json''] default_max_changed_files)"
  by code_simp

theorem fallback_keeps_filter_witness:
  "\<exists>q. run_ci sample_modules default_policy ''fast'' (Some [''package.json'']) None None = Inr q \<and> cq_functional_grep q = grep_for_mode Fast \<and>
    cq_requested q = Some (modules_from_config sample_modules)"
  by (rule fallback_keeps_filter [OF package_json_broad ci_modes_simps(1)])

text \<open>
  The gate and the modules of a CI run. The policy changes in its quality floor only: the override of the user if there is one, else the
  larger of 90 and the configured floor in the release mode, else the configured floor. The modules asked for are distinct, and each is
  enabled in the configuration or is the chaos module of the nightly and release modes.
\<close>

theorem ci_policy_exact:
  assumes "run_ci cfg pol mode_text diff fail_under user_grep = Inr q"
  shows "cq_policy q = pol\<lparr>min_quality_score := (case fail_under of Some s \<Rightarrow> s
      | None \<Rightarrow> if mode_text = ''release'' then max 90 (min_quality_score pol) else min_quality_score pol)\<rparr> \<and>
    (\<forall>ms. cq_requested q = Some ms \<longrightarrow> distinct ms \<and>
       set ms \<subseteq> set (modules_from_config cfg) \<union> (if mode_text \<in> {''nightly'', ''release''} then {''chaos''} else {}))"
proof -
  obtain m where m: "map_of ci_modes mode_text = Some m" using assms by (auto simp: run_ci_def split: option.splits)
  let ?plan = "mode_plan_of m cfg pol"
  have pol: "pol\<lparr>min_quality_score := min_quality_score pol\<rparr> = pol" by (cases pol) simp
  have p: "cq_policy q = fst (apply_mode cfg pol m fail_under)" using assms m by (auto simp: run_ci_def Let_def split: prod.splits)
  note dist = distinct_modules_from_config [of cfg]
  have plan: "distinct (mp_modules ?plan)" "set (mp_modules ?plan) \<subseteq> set (modules_from_config cfg) \<union>
      (if m \<in> {Nightly, Release} then {''chaos''} else {})"
    using dist by (cases m; simp add: with_chaos_def intersect_with_config_def; blast?)+
  have late: "m \<in> {Nightly, Release} \<Longrightarrow> mode_text \<in> {''nightly'', ''release''}" "m = Release \<longleftrightarrow> mode_text = ''release''"
    using m unfolding ci_modes_cases by (cases m; simp)+
  have r: "cq_requested q = Some ms \<Longrightarrow> ms = modules_from_config cfg \<or> ms = mp_modules ?plan" for ms
    using assms m by (auto simp: run_ci_def apply_mode_def Let_def split: option.splits if_splits)
  have q: "cq_policy q = pol\<lparr>min_quality_score := (case fail_under of Some s \<Rightarrow> s
      | None \<Rightarrow> if m = Release then max 90 (min_quality_score pol) else min_quality_score pol)\<rparr>"
    by (cases fail_under; cases m) (simp_all add: p apply_mode_def Let_def pol release_min_quality_score_def)
  have "distinct ms \<and> set ms \<subseteq> set (modules_from_config cfg) \<union> (if mode_text \<in> {''nightly'', ''release''} then {''chaos''} else {})"
    if "cq_requested q = Some ms" for ms
    using r [OF that] plan dist late(1) by (cases "m \<in> {Nightly, Release}") auto
  then show ?thesis using q unfolding late(2) by blast
qed

theorem ci_policy_exact_witness:
  "\<forall>q. run_ci sample_modules default_policy ''release'' None None None = Inr q \<longrightarrow> min_quality_score (cq_policy q) = 90"
proof (intro allI impI)
  fix q assume "run_ci sample_modules default_policy ''release'' None None None = Inr q"
  from ci_policy_exact [OF this] show "min_quality_score (cq_policy q) = 90" by (simp add: default_policy_def)
qed



lemma impacted_modules_known: "ms_modules (impacted_modules files) \<subseteq> set all_modules"
proof -
  have "set (map fst module_patterns) \<subseteq> set all_modules" by (simp add: module_patterns_def all_modules_def)
  then have "set (map fst (filter P module_patterns)) \<subseteq> set all_modules" for P by (auto simp: image_iff)
  then show ?thesis unfolding impacted_modules_def by (simp del: set_map set_filter)
qed

text \<open>
  A larger diff never drops a module: whatever files are added to it, every module that was impacted stays impacted.
\<close>

theorem impacted_modules_mono:
  assumes "set files \<subseteq> set files'"
  shows "ms_modules (impacted_modules files) \<subseteq> ms_modules (impacted_modules files')"
proof (cases "files = [] \<or> list_ex (matches_any global_invalidators) files'")
  case True
  then show ?thesis using impacted_modules_known [of files] by (cases "files' = []") (auto simp: impacted_modules_def)
next
  case False
  then have "files \<noteq> []" "files' \<noteq> []" "\<not> list_ex (matches_any global_invalidators) files'" "\<not> list_ex (matches_any global_invalidators) files"
    using assms by (auto simp: list_ex_iff)
  moreover have "list_ex (matches_any patterns) files \<Longrightarrow> list_ex (matches_any patterns) files'" for patterns
    using assms by (auto simp: list_ex_iff)
  ultimately show ?thesis by (auto simp: impacted_modules_def intro!: image_eqI)
qed

theorem impacted_modules_mono_witness:
  "ms_modules (impacted_modules [''README.md'']) \<subseteq> ms_modules (impacted_modules [''README.md'', ''uv.lock''])"
  by (rule impacted_modules_mono) simp

lemma audit_changed_only_names:
  assumes "audit_changed_only committed unstaged untracked requested = Co_run names"
  shows "set names \<subseteq> set all_modules"
proof -
  obtain selection where s: "select_modules committed unstaged untracked
      (case requested of None \<Rightarrow> None | Some [] \<Rightarrow> None | Some ms \<Rightarrow> Some (set ms)) = Some selection"
      "names = sorted_list_of_set (ms_modules selection)"
    using assms by (auto simp: audit_changed_only_def split: option.splits if_splits)
  have sub: "ms_modules selection \<subseteq> set all_modules"
    using s(1) impacted_modules_known by (fastforce simp: select_modules_def Let_def split: option.splits)
  then have "finite (ms_modules selection)" by (rule finite_subset) simp
  then show ?thesis using sub by (simp add: s(2))
qed

lemma result_map_source:
  assumes "result_map f xs = Inr rs" "r \<in> set rs"
  obtains x where "f x = Inr r"
  using assms by (induction xs arbitrary: rs) (auto split: sum.splits)

text \<open>
  \<open>--changed-only\<close> never runs the accessibility and the performance module. The selection names them \<open>a11y\<close> and \<open>perf\<close>, which no module
  is registered as: whatever changed and whatever modules are asked for, a run of the selected modules has an outcome for each of
  them, none is of the accessibility or the performance module, and those called \<open>a11y\<close> and \<open>perf\<close> are skipped.
\<close>

theorem changed_only_skips_accessibility:
  assumes "audit_changed_only committed unstaged untracked requested = Co_run names"
    and "\<forall>sd. wd_module w ''a11y'' sd = None \<and> wd_module w ''perf'' sd = None"
    and "lc_requested ctx = Some names" "lc_outcomes ctx = []" "set (wd_completion w) = {..<length names}"
    and "run_modules w ctx = Inr ctx'"
  shows "map mo_name (lc_outcomes ctx') = names \<and> ''accessibility'' \<notin> set names \<and> ''performance'' \<notin> set names \<and>
    (\<forall>r\<in>set (lc_outcomes ctx'). mo_name r \<in> {''a11y'', ''perf''} \<longrightarrow> mo_status r = O_skipped)"
proof -
  have names: "modules_to_run ctx = names" by (simp add: modules_to_run_def assms(3))
  have "set (wd_completion w) = {..<length (modules_to_run ctx)}" by (simp add: names assms(5))
  from run_modules_eq [OF this assms(6)] obtain rs where rs: "result_map (execute_one_module w ctx) names = Inr rs"
    "ctx' = foldl merge_module_result (if names = [] then ctx else log_event (Tr_modules names) ctx) rs"
    unfolding names by blast
  have out: "lc_outcomes ctx' = map fst rs" by (simp add: rs(2) log_event_def assms(4))
  have "mo_status (fst r) = O_skipped" if r: "r \<in> set rs" and n: "mo_name (fst r) \<in> {''a11y'', ''perf''}" for r
  proof -
    obtain name where e: "execute_one_module w ctx name = Inr r" using rs(1) r by (rule result_map_source)
    then have "mo_name (fst r) = name" by (rule execute_one_name)
    then have "wd_module w name (lc_safety ctx) = None" using n assms(2) by auto
    then show ?thesis using e by (auto simp: execute_one_module_def clean_outcome_def)
  qed
  moreover have "''accessibility'' \<notin> set all_modules \<and> ''performance'' \<notin> set all_modules" by (simp add: all_modules_def)
  ultimately show ?thesis
    using audit_changed_only_names [OF assms(1)] result_map_names [OF rs(1)] by (auto simp: out)
qed

theorem changed_only_skips_accessibility_witness:
  "\<exists>ctx'. run_modules sample_world sample_start = Inr ctx' \<and> map mo_name (lc_outcomes ctx') = [''a11y'', ''api''] \<and>
    mo_status (hd (lc_outcomes ctx')) = O_skipped"
proof -
  have sel: "audit_changed_only (Some [''package.json'']) (Some []) (Some []) (Some [''a11y'', ''api'']) = Co_run [''a11y'', ''api'']"
    by code_simp
  have names: "lc_requested sample_start = Some [''a11y'', ''api'']" "lc_outcomes sample_start = []"
    by (simp_all add: sample_start_def new_context_def)
  have none: "\<forall>sd. wd_module sample_world ''a11y'' sd = None \<and> wd_module sample_world ''perf'' sd = None" by (simp add: sample_world_def)
  have comp: "set (wd_completion sample_world) = {..<length [''a11y'', ''api'']}" by (auto simp: sample_world_def)
  obtain ctx' where run: "run_modules sample_world sample_start = Inr ctx'"
    by (simp add: run_modules_def modules_to_run_def sample_start_def sample_world_def new_context_def run_parallel_def execute_one_module_def
        clean_outcome_def merge_module_result_def log_event_def Let_def)
  from changed_only_skips_accessibility [OF sel none names comp run] have all: "map mo_name (lc_outcomes ctx') = [''a11y'', ''api'']"
    "\<forall>r\<in>set (lc_outcomes ctx'). mo_name r \<in> {''a11y'', ''perf''} \<longrightarrow> mo_status r = O_skipped" by simp_all
  then obtain r rs where "lc_outcomes ctx' = r # rs" "mo_name r = ''a11y''" by auto
  then show ?thesis using run all by auto
qed

end
