(* ===== verification/Flows.thy ===== *)
theory Flows
  imports Domain PyFloat NetAddr
begin

text \<open>
  The flow extractors of \<open>engine/planner/flows.py\<close> and the entities they read and build (\<open>engine/domain/\<close>: \<open>route.py\<close>, \<open>form.py\<close>,
  \<open>api_endpoint.py\<close>, \<open>flow.py\<close>). An extractor returns drafts, flows without an identifier; \<open>make_flow\<close> is the entity's
  validation. A form's action is what \<open>AnyUrl.path\<close> gives of it.
\<close>

section \<open>What discovery hands over\<close>

record route_entity =
  ro_id :: string
  ro_path :: string
  ro_auth_required :: bool

record form_field =
  ff_name :: string
  ff_type :: string

record form_entity =
  fo_id :: string
  fo_action :: "string option option"
  fo_fields :: "form_field list"
  fo_submit_handler :: bool

record endpoint_entity =
  en_id :: string
  en_method :: string
  en_path :: string
  en_auth_strategy :: string
  en_source :: string

record role_boundary =
  rb_route_id :: string
  rb_required_role :: "string option"

record discovery_graph =
  dg_id :: string
  dg_routes :: "route_entity list"
  dg_forms :: "form_entity list"
  dg_api_endpoints :: "endpoint_entity list"
  dg_auth_boundaries :: "role_boundary list"

section \<open>Flows\<close>

datatype priority = Prio_P0 | Prio_P1 | Prio_P2 | Prio_P3

datatype risk_level = Risk_critical | Risk_high | Risk_medium | Risk_low

type_synonym step_draft = "string \<times> string option \<times> string"

record flow_draft =
  fd_name :: string
  fd_description :: string
  fd_steps :: "step_draft list"
  fd_priority :: priority
  fd_risk :: risk_level
  fd_confidence :: flt
  fd_role :: "string option"
  fd_data_state :: "string option"
  fd_extractor :: string
  fd_tags :: "string list"

record flow = flow_draft +
  fw_id :: string

definition step_ok :: "step_draft \<Rightarrow> bool" where
  "step_ok s \<longleftrightarrow> (case s of (description, target, outcome) \<Rightarrow>
     bounded_str 1 2000 (model_strip description) \<and> bounded_str 1 2000 (model_strip outcome) \<and>
     (case target of None \<Rightarrow> True | Some t \<Rightarrow> is_valid_id ''RT'' (model_strip t)))"

definition opt_text_max :: "nat \<Rightarrow> string option \<Rightarrow> bool" where
  "opt_text_max hi s \<longleftrightarrow> (case s of None \<Rightarrow> True | Some t \<Rightarrow> bounded_str 0 hi (model_strip t))"

definition draft_ok :: "flow_draft \<Rightarrow> bool" where
  "draft_ok d \<longleftrightarrow> bounded_str 1 200 (model_strip (fd_name d)) \<and> bounded_str 0 2000 (model_strip (fd_description d)) \<and>
     fd_steps d \<noteq> [] \<and> list_all step_ok (fd_steps d) \<and> 0 \<le> fd_confidence d \<and> fd_confidence d \<le> 1 \<and>
     opt_text_max 64 (fd_role d) \<and> opt_text_max 200 (fd_data_state d) \<and> bounded_str 0 64 (model_strip (fd_extractor d))"

definition strip_step :: "step_draft \<Rightarrow> step_draft" where
  "strip_step s = (case s of (description, target, outcome) \<Rightarrow> (model_strip description, map_option model_strip target, model_strip outcome))"

text \<open>The construction of a \<open>Flow\<close>; \<open>None\<close> is its \<open>ValidationError\<close>.\<close>

definition make_flow :: "string \<Rightarrow> flow_draft \<Rightarrow> flow option" where
  "make_flow new_id d =
     (if draft_ok d \<and> is_valid_id ''FLW'' (model_strip new_id)
      then Some \<lparr>fd_name = model_strip (fd_name d), fd_description = model_strip (fd_description d), fd_steps = map strip_step (fd_steps d),
             fd_priority = fd_priority d, fd_risk = fd_risk d, fd_confidence = fd_confidence d,
             fd_role = map_option model_strip (fd_role d), fd_data_state = map_option model_strip (fd_data_state d),
             fd_extractor = model_strip (fd_extractor d), fd_tags = map model_strip (sort (dedup (fd_tags d))), fw_id = model_strip new_id\<rparr>
      else None)"

section \<open>Helpers of the extractors\<close>

definition proposal_threshold :: flt where
  "proposal_threshold = fl (5 / 10)"

definition path_has :: "string \<Rightarrow> string list \<Rightarrow> bool" where
  "path_has path needles \<longleftrightarrow> list_ex (\<lambda>n. py_in n (py_lower path)) needles"

definition route_path_matches :: "route_entity \<Rightarrow> string list \<Rightarrow> bool" where
  "route_path_matches r needles \<longleftrightarrow> path_has (ro_path r) needles"

definition action_path :: "form_entity \<Rightarrow> string option" where
  "action_path f = map_option (\<lambda>p. case p of None \<Rightarrow> ''/'' | Some s \<Rightarrow> if s = [] then ''/'' else s) (fo_action f)"

definition form_action_route :: "discovery_graph \<Rightarrow> form_entity \<Rightarrow> route_entity option" where
  "form_action_route g f = Option.bind (action_path f) (\<lambda>p. find (\<lambda>r. ro_path r = p) (dg_routes g))"

definition form_has_field :: "form_entity \<Rightarrow> string list \<Rightarrow> string list \<Rightarrow> bool" where
  "form_has_field f names kinds \<longleftrightarrow>
     list_ex (\<lambda>x. py_lower (ff_name x) \<in> set (map py_lower names) \<or> py_lower (ff_type x) \<in> set (map py_lower kinds)) (fo_fields f)"

definition draft_flow :: "string \<Rightarrow> string \<Rightarrow> string \<Rightarrow> step_draft list \<Rightarrow> priority \<Rightarrow> risk_level \<Rightarrow> flt \<Rightarrow> string list \<Rightarrow> string option \<Rightarrow> string option \<Rightarrow> flow_draft" where
  "draft_flow extractor name description steps prio risk confidence tags auth_role data_state =
     \<lparr>fd_name = name, fd_description = description, fd_steps = steps, fd_priority = prio, fd_risk = risk, fd_confidence = confidence,
      fd_role = auth_role, fd_data_state = data_state, fd_extractor = extractor,
      fd_tags = tags @ (if confidence < proposal_threshold then [''confidence_low''] else []) @ [''extractor:'' @ extractor]\<rparr>"

definition on_route :: "route_entity \<Rightarrow> string \<Rightarrow> string \<Rightarrow> step_draft" where
  "on_route r description outcome = (description, Some (ro_id r), outcome)"

section \<open>The extractors\<close>

definition login_path_hints :: "string list" where
  "login_path_hints = [''/login'', ''/sign-in'', ''/signin'', ''/log-in'']"

definition login_form :: "form_entity \<Rightarrow> bool" where
  "login_form f \<longleftrightarrow> form_has_field f [''password'', ''pass''] [''password''] \<and>
     form_has_field f [''email'', ''username'', ''user'', ''login''] [''email'']"

definition login_flow :: "route_entity option \<Rightarrow> flow_draft" where
  "login_flow route =
     (let target = map_option ro_id route;
          path = (case route of None \<Rightarrow> ''/login'' | Some r \<Rightarrow> ro_path r);
          sure = (case route of None \<Rightarrow> False | Some r \<Rightarrow> route_path_matches r login_path_hints)
      in draft_flow ''login'' ''login'' ''Authenticate via the discovered login form.''
           [(''Navigate to '' @ path, target, ''login form is visible''),
            (''Enter test credentials'', target, ''form accepts input without client-side errors''),
            (''Submit credentials'', target, ''user lands on an authenticated route'')]
           Prio_P0 Risk_critical (fl (if sure then 95 / 100 else 7 / 10)) [''login'', ''auth''] None None)"

definition login_route_flow :: "route_entity \<Rightarrow> flow_draft" where
  "login_route_flow r =
     draft_flow ''login'' ''login (route-only)''
       (''Login route detected by path heuristic; no form found by the '' @
        ''HTTP crawler (SPA suspected). Phase 17 Playwright backend '' @ ''is expected to fill this in.'')
       [on_route r (''Navigate to '' @ ro_path r) ''route renders or redirects to authenticated landing'']
       Prio_P1 Risk_high (fl (45 / 100)) [''login'', ''auth''] None None"

definition extract_login :: "discovery_graph \<Rightarrow> flow_draft list" where
  "extract_login g =
     (let candidates = filter (\<lambda>r. route_path_matches r login_path_hints) (dg_routes g);
          fallback = (case candidates of [] \<Rightarrow> None | r # _ \<Rightarrow> Some r);
          flows = map (\<lambda>f. login_flow (case form_action_route g f of Some r \<Rightarrow> Some r | None \<Rightarrow> fallback)) (filter login_form (dg_forms g))
      in if flows = [] then map login_route_flow candidates else flows)"

definition extract_signup :: "discovery_graph \<Rightarrow> flow_draft list" where
  "extract_signup g =
     map (\<lambda>r. draft_flow ''signup'' ''signup'' ''Register a new account through the discovered signup route.''
           [on_route r (''Navigate to '' @ ro_path r) ''signup form is visible'',
            on_route r ''Fill required fields with safe sample data'' ''form accepts input'',
            on_route r ''Submit'' ''account is created or verification email is requested'']
           Prio_P0 Risk_critical (fl (9 / 10)) [''signup'', ''auth''] None None)
       (filter (\<lambda>r. route_path_matches r [''/signup'', ''/sign-up'', ''/register'', ''/create-account'', ''/join'']) (dg_routes g))"

definition extract_logout :: "discovery_graph \<Rightarrow> flow_draft list" where
  "extract_logout g =
     map (\<lambda>r. draft_flow ''logout'' ''logout'' ''Sign out an authenticated session.''
           [(''Authenticate first'', None, ''session is established''),
            on_route r (''Hit '' @ ro_path r)
              (''session cookie / token is invalidated; subsequent requests '' @ ''are anonymous'')]
           Prio_P1 Risk_high (fl (9 / 10)) [''logout'', ''auth''] None None)
       (filter (\<lambda>r. route_path_matches r [''/logout'', ''/log-out'', ''/sign-out'', ''/signout'']) (dg_routes g))"

definition extract_password_reset :: "discovery_graph \<Rightarrow> flow_draft list" where
  "extract_password_reset g =
     map (\<lambda>r. draft_flow ''password_reset'' ''password reset'' ''Request a password reset and follow the reset flow.''
           [on_route r (''Navigate to '' @ ro_path r) ''reset form is visible'',
            on_route r ''Submit email address'' ''server confirms a reset email was sent'']
           Prio_P1 Risk_high (fl (85 / 100)) [''password_reset'', ''auth''] None None)
       (filter (\<lambda>r. route_path_matches r [''/password-reset'', ''/reset-password'', ''/forgot-password'', ''/forgot'', ''/reset/'']) (dg_routes g))"

text \<open>\<open>path[:path.find(token)].rstrip("/")\<close>.\<close>

fun before_token :: "string \<Rightarrow> string \<Rightarrow> string" where
  "before_token token [] = []"
| "before_token token (c # cs) = (if py_startswith (c # cs) token then [] else c # before_token token cs)"

definition template_tokens :: "string list" where
  "template_tokens = [''[id]'', ''[uuid]'', ''[hex]'', ''/:id'', ''{id}'']"

definition collection_for :: "route_entity \<Rightarrow> string option" where
  "collection_for r =
     map_option (\<lambda>token.
         let prefix = rev (dropWhile (\<lambda>c. c = CHR ''/'') (rev (before_token token (ro_path r))))
         in if prefix = [] then ''/'' else prefix)
       (find (\<lambda>token. py_in token (ro_path r)) template_tokens)"

definition crud_flow :: "string \<Rightarrow> string \<Rightarrow> string \<Rightarrow> step_draft \<Rightarrow> priority \<Rightarrow> risk_level \<Rightarrow> string \<Rightarrow> flow_draft" where
  "crud_flow verb parent description step prio risk data_state =
     draft_flow ''crud'' (''crud:'' @ verb @ '' '' @ parent) description [step] prio risk (fl (7 / 10)) [''crud'', verb] None (Some data_state)"

definition crud_flows :: "discovery_graph \<Rightarrow> string \<Rightarrow> flow_draft list" where
  "crud_flows g parent =
     (let list_route = find (\<lambda>r. ro_path r = parent) (dg_routes g);
          anchor = hd (sort_key ro_path (filter (\<lambda>r. collection_for r = Some parent) (dg_routes g)))
      in [crud_flow ''create'' parent (''Create a new resource under '' @ parent @ ''. '' @ ''No prior fixture state required.'')
            (''POST '' @ parent, map_option ro_id list_route, ''201 with persisted entity in response'') Prio_P1 Risk_medium ''none'',
          crud_flow ''read'' parent (''Read a single resource via '' @ ro_path anchor @ ''.'')
            (on_route anchor (''GET '' @ ro_path anchor) ''200 with documented payload'') Prio_P2 Risk_medium ''existing-record'',
          crud_flow ''update'' parent (''Update a single resource via '' @ ro_path anchor @ ''.'')
            (on_route anchor (''PATCH/PUT '' @ ro_path anchor) ''200 with updated entity'') Prio_P1 Risk_high ''existing-record'',
          crud_flow ''delete'' parent (''Delete a single resource via '' @ ro_path anchor @ ''.'')
            (on_route anchor (''DELETE '' @ ro_path anchor) ''204 OR 200; subsequent GET returns 404'') Prio_P1 Risk_high ''existing-record''])"

definition extract_crud :: "discovery_graph \<Rightarrow> flow_draft list" where
  "extract_crud g = concat (map (crud_flows g) (sort (dedup (List.map_filter collection_for (dg_routes g)))))"

definition extract_search :: "discovery_graph \<Rightarrow> flow_draft list" where
  "extract_search g =
     map (\<lambda>r. draft_flow ''search_filter_sort'' (''search/filter/sort: '' @ ro_path r) ''Exercise the search/filter/sort query surface.''
           [on_route r (''Issue a query against '' @ ro_path r) ''200 with sorted/filtered results'']
           Prio_P2 Risk_medium (fl (7 / 10)) [''search_filter_sort''] None None)
       (filter (\<lambda>r. path_has (ro_path r) [''?q='', ''?search='', ''?filter='', ''?sort='', ''?order=''] \<or>
          route_path_matches r [''/search'', ''/filter'']) (dg_routes g))"

definition admin_path_hints :: "string list" where
  "admin_path_hints = [''/admin'', ''/manage'', ''/console'', ''/superuser'']"

text \<open>A dictionary built by a comprehension keeps the last value of a key.\<close>

definition boundary_role :: "discovery_graph \<Rightarrow> string \<Rightarrow> string option" where
  "boundary_role g route_id =
     (case map_of (rev (map (\<lambda>b. (rb_route_id b, rb_required_role b)) (dg_auth_boundaries g))) route_id of None \<Rightarrow> None | Some r \<Rightarrow> r)"

definition extract_admin :: "discovery_graph \<Rightarrow> flow_draft list" where
  "extract_admin g =
     map (\<lambda>r. draft_flow ''admin'' (''admin: '' @ ro_path r) ''Verify admin-only access enforcement.''
           [on_route r (''Anonymous GET '' @ ro_path r) ''403 or redirect to login'',
            on_route r (''Authenticated non-admin GET '' @ ro_path r) ''403'',
            on_route r (''Authenticated admin GET '' @ ro_path r) ''200 with admin UI'']
           Prio_P0 Risk_critical (fl (85 / 100)) [''admin'', ''authorization'']
           (Some (case boundary_role g (ro_id r) of None \<Rightarrow> ''admin'' | Some x \<Rightarrow> if x = [] then ''admin'' else x)) None)
       (filter (\<lambda>r. route_path_matches r admin_path_hints) (dg_routes g))"

definition role_arrow :: string where
  "role_arrow = '' '' @ [CHR 0xE2, CHR 0x86, CHR 0x92] @ '' ''"

definition role_flow :: "string \<Rightarrow> route_entity \<Rightarrow> flow_draft" where
  "role_flow auth_role r =
     draft_flow ''role'' (''role:'' @ auth_role @ role_arrow @ ro_path r)
       (''Verify that role='' @ py_repr auth_role @ '' is required to access '' @ ro_path r @ '' and lower-privileged roles are denied.'')
       [on_route r (''Authenticated lower-privileged GET '' @ ro_path r) ''403'',
        on_route r (''Authenticated '' @ auth_role @ '' GET '' @ ro_path r) ''200 with role-appropriate UI'']
       Prio_P1 Risk_high (fl (8 / 10)) [''role'', ''authorization''] (Some auth_role) None"

definition extract_role :: "discovery_graph \<Rightarrow> flow_draft list" where
  "extract_role g =
     List.map_filter (\<lambda>b. case rb_required_role b of None \<Rightarrow> None
         | Some x \<Rightarrow> map_option (role_flow x) (map_of (rev (map (\<lambda>r. (ro_id r, r)) (dg_routes g))) (rb_route_id b)))
       (sort_key (\<lambda>b. (case rb_required_role b of None \<Rightarrow> [] | Some x \<Rightarrow> x, rb_route_id b)) (dg_auth_boundaries g))"

definition extract_files :: "discovery_graph \<Rightarrow> flow_draft list" where
  "extract_files g =
     map (\<lambda>f. draft_flow ''file_upload_download'' ''file upload'' ''Upload a small safe sample file and verify the response.''
           [(''Pick a small safe sample file (PNG)'', None, ''file selector accepts the input''),
            (''Submit'', map_option ro_id (form_action_route g f),
             ''server returns 200/201 with a downloadable reference; '' @ ''no executable types accepted'')]
           Prio_P1 Risk_high (fl (8 / 10)) [''file_upload''] None None)
       (filter (\<lambda>f. list_ex (\<lambda>x. ff_type x = ''file'') (fo_fields f)) (dg_forms g)) @
     map (\<lambda>r. draft_flow ''file_upload_download'' (''file download: '' @ ro_path r) ''Download the resource and assert content-type + size.''
           [on_route r (''GET '' @ ro_path r) ''200 with non-empty body and a sensible Content-Type'']
           Prio_P2 Risk_medium (fl (7 / 10)) [''file_download''] None None)
       (filter (\<lambda>r. path_has (ro_path r) [''/download'', ''/export'']) (dg_routes g))"

definition payment_path_hints :: "string list" where
  "payment_path_hints = [''/checkout'', ''/payment'', ''/pay'', ''/billing'', ''/subscribe'']"

definition payment_provider :: "route_entity \<Rightarrow> string option" where
  "payment_provider r = find (\<lambda>p. py_in p (py_lower (ro_path r))) [''stripe'', ''paypal'', ''square'', ''braintree'', ''adyen'']"

definition extract_payment :: "discovery_graph \<Rightarrow> flow_draft list" where
  "extract_payment g =
     map (\<lambda>r. draft_flow ''payment_sandbox'' (''payment sandbox: '' @ ro_path r)
           (''Exercise the payment flow in sandbox mode with the provider'' @ [CHR 0x27] @ ''s '' @
            ''documented test cards. Never use production credentials.'')
           [on_route r (''Navigate to '' @ ro_path r) ''payment form is visible'',
            on_route r ''Submit a provider-documented test card''
              (''sandbox returns a success / declined response per the '' @ ''provider documentation'')]
           Prio_P0 Risk_critical (fl (if payment_provider r \<noteq> None then 75 / 100 else 65 / 100))
           ([''payment_sandbox'', ''sandbox''] @ (case payment_provider r of None \<Rightarrow> [] | Some p \<Rightarrow> [''provider:'' @ p])) None None)
       (filter (\<lambda>r. route_path_matches r payment_path_hints) (dg_routes g))"

definition extract_notification :: "discovery_graph \<Rightarrow> flow_draft list" where
  "extract_notification g =
     map (\<lambda>r. draft_flow ''notification'' (''notification callback: '' @ ro_path r)
           (''Verify a notification/email link callback. The token is opaque; '' @ ''fetched fresh from the test environment per run.'')
           [on_route r (''GET '' @ ro_path r @ '' with a fresh token'') ''200 with the documented post-action UI / redirect'']
           Prio_P2 Risk_medium (fl (7 / 10)) [''notification''] None None)
       (filter (\<lambda>r. route_path_matches r [''/verify'', ''/confirm'', ''/activate'', ''/invite''] \<or>
          path_has (ro_path r) [''[token]'', ''{token}'', ''[code]'', '':token'']) (dg_routes g))"

definition builtin_extractors :: "(discovery_graph \<Rightarrow> flow_draft list) list" where
  "builtin_extractors = [extract_login, extract_signup, extract_logout, extract_password_reset, extract_crud, extract_search, extract_admin,
     extract_role, extract_files, extract_payment, extract_notification]"

definition run_extractors :: "(discovery_graph \<Rightarrow> flow_draft list) list \<Rightarrow> discovery_graph \<Rightarrow> flow_draft list" where
  "run_extractors extractors g = concat (map (\<lambda>x. x g) extractors)"

section \<open>Drafts that are flows\<close>

text \<open>The lengths of the texts: a UTF-8 string has at most as many characters as bytes, and stripping keeps a text that starts with a letter.\<close>

lemma length_model_strip: "length (model_strip s) \<le> length s"
  unfolding model_strip_def length_rev using length_dropWhile_le [of is_model_space] by (metis le_trans length_rev)

lemma model_strip_Cons:
  assumes "\<not> is_model_space c"
  obtains t where "model_strip (c # s) = c # t"
proof -
  have "\<exists>t. dropWhile is_model_space (rev s @ [c]) = t @ [c]" using assms by (cases "\<forall>x\<in>set (rev s). is_model_space x") (auto simp: dropWhile_append)
  then obtain t where "dropWhile is_model_space (rev s @ [c]) = t @ [c]" by blast
  then have "model_strip (c # s) = c # rev t" using assms by (simp add: model_strip_def)
  then show thesis by (rule that)
qed

lemma bounded_strip_0: "length s \<le> n \<Longrightarrow> bounded_str 0 n (model_strip s)"
  using py_len_le_length [of "model_strip s"] length_model_strip [of s] by (simp add: bounded_str_def)

lemma bounded_strip_1:
  assumes "\<not> is_model_space c" "\<not> is_cont c" "length (c # s) \<le> n"
  shows "bounded_str 1 n (model_strip (c # s))"
proof -
  obtain t where "model_strip (c # s) = c # t" by (rule model_strip_Cons [OF assms(1)])
  then have "1 \<le> py_len (model_strip (c # s))" using assms(2) by (simp add: py_len_def)
  then show ?thesis using bounded_strip_0 [OF assms(3)] by (simp add: bounded_str_def)
qed

lemma length_repr: "length (py_repr s) \<le> 4 * length s + 2"
proof -
  have "length (repr_char q c) \<le> 4" for q c by (simp add: repr_char_def Let_def)
  then have "length (concat (map (repr_char q) s)) \<le> 4 * length s" for q by (induction s) (auto simp: add_mono intro: le_trans)
  then show ?thesis by (simp add: py_repr_def Let_def)
qed

definition short_route :: "route_entity \<Rightarrow> bool" where
  "short_route r \<longleftrightarrow> length (ro_path r) \<le> 120 \<and> is_valid_id ''RT'' (model_strip (ro_id r))"

definition short_role :: "string option \<Rightarrow> bool" where
  "short_role x \<longleftrightarrow> (case x of None \<Rightarrow> True | Some s \<Rightarrow> length s \<le> 64)"

named_theorems draft_rules "what makes a draft acceptable"

lemma literal_char: "\<not> is_model_space c \<and> \<not> is_cont c" if "33 \<le> (of_char c :: nat)" "(of_char c :: nat) < 127"
  using that by (simp add: is_model_space_def is_cont_def Let_def)

lemma fine_1 [draft_rules]:
  "33 \<le> (of_char c :: nat) \<Longrightarrow> (of_char c :: nat) < 127 \<Longrightarrow> length (c # s) \<le> n \<Longrightarrow> bounded_str (Suc 0) n (model_strip (c # s))"
  using bounded_strip_1 literal_char by simp

lemma fine_0 [draft_rules]: "length s \<le> n \<Longrightarrow> bounded_str 0 n (model_strip s)"
  by (rule bounded_strip_0)

lemma fine_steps [draft_rules]:
  "short_route r \<Longrightarrow> bounded_str 1 2000 (model_strip d) \<Longrightarrow> bounded_str 1 2000 (model_strip x) \<Longrightarrow> step_ok (on_route r d x)"
  "bounded_str 1 2000 (model_strip d) \<Longrightarrow> bounded_str 1 2000 (model_strip x) \<Longrightarrow> step_ok (d, None, x)"
  by (simp_all add: step_ok_def on_route_def short_route_def)

lemma routes_draft_ok:
  assumes "\<And>r. short_route r \<Longrightarrow> length (ro_path r) \<le> 120 \<Longrightarrow> draft_ok (F r)" "list_all short_route rs" "d \<in> set (map F (filter P rs))"
  shows "draft_ok d"
  using assms by (auto simp: list_all_iff short_route_def)

lemmas draft_defs = draft_ok_def draft_flow_def opt_text_max_def fl_unit

lemma extract_signup_ok: "d \<in> set (extract_signup g) \<Longrightarrow> list_all short_route (dg_routes g) \<Longrightarrow> draft_ok d"
  unfolding extract_signup_def by (erule routes_draft_ok [rotated 2]) (simp_all add: draft_defs draft_rules)

lemma extract_logout_ok: "d \<in> set (extract_logout g) \<Longrightarrow> list_all short_route (dg_routes g) \<Longrightarrow> draft_ok d"
  unfolding extract_logout_def by (erule routes_draft_ok [rotated 2]) (simp_all add: draft_defs draft_rules)

lemma extract_password_reset_ok: "d \<in> set (extract_password_reset g) \<Longrightarrow> list_all short_route (dg_routes g) \<Longrightarrow> draft_ok d"
  unfolding extract_password_reset_def by (erule routes_draft_ok [rotated 2]) (simp_all add: draft_defs draft_rules)

lemma extract_search_ok: "d \<in> set (extract_search g) \<Longrightarrow> list_all short_route (dg_routes g) \<Longrightarrow> draft_ok d"
  unfolding extract_search_def by (erule routes_draft_ok [rotated 2]) (simp_all add: draft_defs draft_rules)

lemma extract_notification_ok: "d \<in> set (extract_notification g) \<Longrightarrow> list_all short_route (dg_routes g) \<Longrightarrow> draft_ok d"
  unfolding extract_notification_def by (erule routes_draft_ok [rotated 2]) (simp_all add: draft_defs draft_rules)

lemma payment_confidence: "0 \<le> fl (if b then 75 / 100 else 65 / 100) \<and> fl (if b then 75 / 100 else 65 / 100) \<le> 1"
  by (rule fl_unit) simp_all

lemma extract_payment_ok: "d \<in> set (extract_payment g) \<Longrightarrow> list_all short_route (dg_routes g) \<Longrightarrow> draft_ok d"
  unfolding extract_payment_def
  by (erule routes_draft_ok [rotated 2]) (simp_all add: draft_defs draft_rules payment_confidence del: if_distrib)

lemma boundary_role_short:
  assumes "list_all (short_role \<circ> rb_required_role) (dg_auth_boundaries g)"
  shows "short_role (boundary_role g i)"
proof (cases "map_of (rev (map (\<lambda>b. (rb_route_id b, rb_required_role b)) (dg_auth_boundaries g))) i")
  case (Some x)
  then have "(i, x) \<in> set (rev (map (\<lambda>b. (rb_route_id b, rb_required_role b)) (dg_auth_boundaries g)))" by (rule map_of_SomeD)
  then show ?thesis using assms Some by (auto simp: boundary_role_def list_all_iff)
qed (simp add: boundary_role_def short_role_def)

lemma extract_admin_ok:
  assumes "list_all (short_role \<circ> rb_required_role) (dg_auth_boundaries g)"
  shows "d \<in> set (extract_admin g) \<Longrightarrow> list_all short_route (dg_routes g) \<Longrightarrow> draft_ok d"
proof -
  have role: "length (case boundary_role g i of None \<Rightarrow> ''admin'' | Some x \<Rightarrow> if x = [] then ''admin'' else x) \<le> 64" for i
    using boundary_role_short [OF assms, of i] by (auto simp: short_role_def split: option.splits)
  have "bounded_str 0 64 (model_strip (case boundary_role g i of None \<Rightarrow> ''admin'' | Some x \<Rightarrow> if x = [] then ''admin'' else x))" for i
    by (rule fine_0 [OF role])
  then show "d \<in> set (extract_admin g) \<Longrightarrow> list_all short_route (dg_routes g) \<Longrightarrow> draft_ok d"
    unfolding extract_admin_def by (erule_tac routes_draft_ok [rotated 2]) (simp_all add: draft_defs draft_rules)
qed

lemma action_route_in: "form_action_route g f = Some r \<Longrightarrow> r \<in> set (dg_routes g)"
  by (auto simp: form_action_route_def bind_eq_Some_conv find_Some_iff)

lemma fine_target [draft_rules]:
  "(\<And>r. route = Some r \<Longrightarrow> short_route r) \<Longrightarrow> bounded_str 1 2000 (model_strip d) \<Longrightarrow> bounded_str 1 2000 (model_strip x) \<Longrightarrow>
    step_ok (d, map_option ro_id route, x)"
  by (cases route) (simp_all add: step_ok_def short_route_def)

lemma login_flow_ok:
  assumes "\<And>r. route = Some r \<Longrightarrow> short_route r"
  shows "draft_ok (login_flow route)"
proof -
  have "length (case route of None \<Rightarrow> ''/login'' | Some r \<Rightarrow> ro_path r) \<le> 120"
    using assms by (cases route) (simp_all add: short_route_def)
  moreover have "0 \<le> fl (if b then 95 / 100 else 7 / 10) \<and> fl (if b then 95 / 100 else 7 / 10) \<le> 1" for b by (rule fl_unit) simp_all
  ultimately show ?thesis using assms by (simp add: login_flow_def Let_def draft_defs draft_rules del: if_distrib)
qed

lemma login_route_flow_ok: "short_route r \<Longrightarrow> length (ro_path r) \<le> 120 \<Longrightarrow> draft_ok (login_route_flow r)"
  by (simp add: login_route_flow_def draft_defs draft_rules)

lemma extract_login_ok:
  assumes "list_all short_route (dg_routes g)" "d \<in> set (extract_login g)"
  shows "draft_ok d"
proof -
  let ?c = "filter (\<lambda>r. route_path_matches r login_path_hints) (dg_routes g)"
  consider r where "r \<in> set (dg_routes g)" "d = login_route_flow r"
    | f where "d = login_flow (case form_action_route g f of Some r \<Rightarrow> Some r | None \<Rightarrow> (case ?c of [] \<Rightarrow> None | r # _ \<Rightarrow> Some r))"
    using assms(2) by (auto simp: extract_login_def Let_def split: if_splits)
  then show ?thesis
  proof cases
    case 1
    then show ?thesis using assms(1) login_route_flow_ok by (simp add: list_all_iff short_route_def)
  next
    case 2
    have c: "list_all short_route ?c" using assms(1) by (simp add: list_all_iff)
    have a: "short_route r" if "form_action_route g f = Some r" for r using assms(1) action_route_in [OF that] by (simp add: list_all_iff)
    have "short_route r" if "(case ?c of [] \<Rightarrow> None | r # _ \<Rightarrow> Some r) = Some r" for r using that c by (cases ?c) simp_all
    then show ?thesis unfolding 2 using a by (intro login_flow_ok) (cases "form_action_route g f", simp_all)
  qed
qed

lemma extract_files_ok:
  assumes "list_all short_route (dg_routes g)" "d \<in> set (extract_files g)"
  shows "draft_ok d"
proof -
  have "short_route r" if "form_action_route g f = Some r" for f r using assms(1) action_route_in [OF that] by (simp add: list_all_iff)
  moreover have "0 \<le> fl (8 / 10) \<and> fl (8 / 10) \<le> 1" by (rule fl_unit) simp_all
  ultimately have uploads: "draft_ok d" if "d \<in> set (take (length (filter (\<lambda>f. list_ex (\<lambda>x. ff_type x = ''file'') (fo_fields f)) (dg_forms g))) (extract_files g))"
    using that by (auto simp: extract_files_def draft_defs draft_rules)
  have "draft_ok d" if "d \<in> set (drop (length (filter (\<lambda>f. list_ex (\<lambda>x. ff_type x = ''file'') (fo_fields f)) (dg_forms g))) (extract_files g))"
    using that assms(1) unfolding extract_files_def
    by (simp del: set_map set_filter) (erule routes_draft_ok [rotated 2], simp_all add: draft_defs draft_rules)
  then show ?thesis using uploads assms(2) by (metis append_take_drop_id Un_iff set_append)
qed

lemma before_token_length: "length (before_token t s) \<le> length s"
  by (induction s) auto

lemma collection_short:
  assumes "collection_for r = Some c" "length (ro_path r) \<le> 120"
  shows "length c \<le> 120"
proof -
  obtain t where "c = (let prefix = rev (dropWhile (\<lambda>c. c = CHR ''/'') (rev (before_token t (ro_path r)))) in if prefix = [] then ''/'' else prefix)"
    using assms(1) unfolding collection_for_def by blast
  moreover have "length (rev (dropWhile (\<lambda>c. c = CHR ''/'') (rev (before_token t (ro_path r))))) \<le> length (before_token t (ro_path r))"
    using length_dropWhile_le [of _ "rev (before_token t (ro_path r))"] by simp
  ultimately show ?thesis using before_token_length [of t "ro_path r"] assms(2) by (auto simp: Let_def split: if_splits)
qed

lemma crud_flows_ok:
  assumes "list_all short_route (dg_routes g)" "parent \<in> set (List.map_filter collection_for (dg_routes g))"
  shows "list_all draft_ok (crud_flows g parent)"
proof -
  let ?members = "filter (\<lambda>r. collection_for r = Some parent) (dg_routes g)"
  let ?anchor = "hd (sort_key ro_path ?members)"
  obtain r where r: "r \<in> set (dg_routes g)" "collection_for r = Some parent" using assms(2) by (auto simp: List.map_filter_def)
  have p: "length parent \<le> 120" using collection_short [OF r(2)] r(1) assms(1) by (auto simp: list_all_iff short_route_def)
  have "?members \<noteq> []" using r by (auto simp: filter_empty_conv)
  then have "sort_key ro_path ?members \<noteq> []" by (metis length_sort length_0_conv)
  then have "?anchor \<in> set (sort_key ro_path ?members)" by (rule hd_in_set)
  then have "?anchor \<in> set (dg_routes g)" by simp
  then have a: "short_route ?anchor" "length (ro_path ?anchor) \<le> 120" using assms(1) by (auto simp: list_all_iff short_route_def)
  have l: "short_route x" if "find (\<lambda>r. ro_path r = parent) (dg_routes g) = Some x" for x
    using that assms(1) by (auto simp: find_Some_iff list_all_iff)
  have "0 \<le> fl (7 / 10) \<and> fl (7 / 10) \<le> 1" by (rule fl_unit) simp_all
  then show ?thesis unfolding crud_flows_def Let_def using p a l
    by (simp add: crud_flow_def draft_defs draft_rules)
qed

lemma extract_crud_ok:
  assumes "list_all short_route (dg_routes g)" "d \<in> set (extract_crud g)"
  shows "draft_ok d"
  using assms crud_flows_ok [OF assms(1)] by (fastforce simp: extract_crud_def list_all_iff)

lemma role_flow_ok:
  assumes "short_route r" "length (ro_path r) \<le> 120" "length x \<le> 64"
  shows "draft_ok (role_flow x r)"
proof -
  have "length (py_repr x) \<le> 258" using length_repr [of x] assms(3) by simp
  moreover have "0 \<le> fl (8 / 10) \<and> fl (8 / 10) \<le> 1" by (rule fl_unit) simp_all
  ultimately show ?thesis using assms by (simp add: role_flow_def role_arrow_def draft_defs draft_rules)
qed

lemma extract_role_ok:
  assumes "list_all short_route (dg_routes g)" "list_all (short_role \<circ> rb_required_role) (dg_auth_boundaries g)" "d \<in> set (extract_role g)"
  shows "draft_ok d"
proof -
  obtain b x r where b: "b \<in> set (dg_auth_boundaries g)" "rb_required_role b = Some x"
    "map_of (rev (map (\<lambda>r. (ro_id r, r)) (dg_routes g))) (rb_route_id b) = Some r" "d = role_flow x r"
    using assms(3) by (auto simp: extract_role_def List.map_filter_def split: option.splits)
  have "r \<in> set (dg_routes g)" using map_of_SomeD [OF b(3)] by auto
  moreover have "length x \<le> 64" using assms(2) b(1,2) by (auto simp: list_all_iff short_role_def)
  ultimately show ?thesis using assms(1) role_flow_ok unfolding b(4) by (simp add: list_all_iff short_route_def)
qed

lemma run_extractors_ok:
  assumes r: "list_all short_route (dg_routes g)" and b: "list_all (short_role \<circ> rb_required_role) (dg_auth_boundaries g)"
    and d: "d \<in> set (run_extractors builtin_extractors g)"
  shows "draft_ok d"
proof -
  obtain x where x: "x \<in> set builtin_extractors" "d \<in> set (x g)" using d by (auto simp: run_extractors_def)
  have "\<forall>x\<in>set builtin_extractors. \<forall>d\<in>set (x g). draft_ok d"
    unfolding builtin_extractors_def list.set ball_simps
    using extract_login_ok [OF r] extract_signup_ok [OF _ r] extract_logout_ok [OF _ r] extract_password_reset_ok [OF _ r] extract_crud_ok [OF r]
      extract_search_ok [OF _ r] extract_admin_ok [OF b _ r] extract_role_ok [OF r b] extract_files_ok [OF r] extract_payment_ok [OF _ r]
      extract_notification_ok [OF _ r] by (intro conjI ballI TrueI)
  then show ?thesis using x by blast
qed

end
