(* ===== verification/Planning.thy ===== *)
theory Planning
  imports Flows "HOL-Library.Multiset"
begin

text \<open>
  The deterministic planner of \<open>engine/planner/core.py\<close> and the entities of the plan (\<open>engine/domain/test_case.py\<close>, \<open>test_plan.py\<close>).
  The identifier generator is one sequence per prefix: \<open>flow_id k\<close> is the \<open>k\<close>-th FLW identifier drawn, \<open>case_id k\<close> the \<open>k\<close>-th TC one.
  Every flow is drafted with the type of its test case, and flows and cases are drawn in the order of the drafts.
\<close>

section \<open>Risk and priority\<close>

definition bucketed_risk :: "flt \<Rightarrow> risk_level" where
  "bucketed_risk score =
     (if fl (80 / 100) \<le> score then Risk_critical else if fl (60 / 100) \<le> score then Risk_high
      else if fl (30 / 100) \<le> score then Risk_medium else Risk_low)"

fun priority_for_risk :: "risk_level \<Rightarrow> priority" where
  "priority_for_risk Risk_critical = Prio_P0"
| "priority_for_risk Risk_high = Prio_P1"
| "priority_for_risk Risk_medium = Prio_P2"
| "priority_for_risk Risk_low = Prio_P3"

fun risk_weight :: "risk_level \<Rightarrow> int" where
  "risk_weight Risk_critical = 4"
| "risk_weight Risk_high = 3"
| "risk_weight Risk_medium = 2"
| "risk_weight Risk_low = 1"

text \<open>The order of the strings P0 to P3.\<close>

fun priority_rank :: "priority \<Rightarrow> nat" where
  "priority_rank Prio_P0 = 0"
| "priority_rank Prio_P1 = 1"
| "priority_rank Prio_P2 = 2"
| "priority_rank Prio_P3 = 3"

definition classify_route :: "route_entity \<Rightarrow> string" where
  "classify_route r =
     (if path_has (ro_path r) [''/login'', ''/sign-in'', ''/signin'', ''/log-in''] then ''login''
      else if path_has (ro_path r) [''/signup'', ''/sign-up'', ''/register'', ''/create-account''] then ''signup''
      else if path_has (ro_path r) [''/checkout'', ''/payment'', ''/pay'', ''/billing'', ''/subscribe''] then ''payment''
      else if path_has (ro_path r) [''/admin'', ''/manage'', ''/console'', ''/superuser''] then ''admin'' else [])"

definition sensitive_categories :: "string list" where
  "sensitive_categories = [''login'', ''payment'', ''admin'', ''signup'']"

definition bump_for_sensitive :: "string \<Rightarrow> priority \<Rightarrow> priority" where
  "bump_for_sensitive category base = (if category \<in> set sensitive_categories \<and> base \<noteq> Prio_P0 then Prio_P0 else base)"

section \<open>Forms and routes\<close>

definition form_home :: "route_entity list \<Rightarrow> form_entity \<Rightarrow> route_entity" where
  "form_home routes f =
     (let by_path = sort_key ro_path routes in
      case find (\<lambda>r. ro_path r = (case action_path f of None \<Rightarrow> [] | Some p \<Rightarrow> p)) by_path of None \<Rightarrow> hd by_path | Some r \<Rightarrow> r)"

definition forms_of_route :: "discovery_graph \<Rightarrow> string \<Rightarrow> form_entity list" where
  "forms_of_route g route_id =
     (if dg_routes g = [] then [] else filter (\<lambda>f. ro_id (form_home (dg_routes g) f) = route_id) (sort_key fo_id (dg_forms g)))"

definition role_for_route :: "discovery_graph \<Rightarrow> string \<Rightarrow> string option" where
  "role_for_route g route_id =
     (case find (\<lambda>b. rb_route_id b = route_id) (dg_auth_boundaries g) of None \<Rightarrow> None | Some b \<Rightarrow> rb_required_role b)"

section \<open>Drafts\<close>

type_synonym planned = "flow_draft \<times> string"

definition deterministic_confidence :: flt where
  "deterministic_confidence = fl (95 / 100)"

definition plan_draft :: "string \<Rightarrow> string \<Rightarrow> string \<Rightarrow> step_draft list \<Rightarrow> priority \<Rightarrow> risk_level \<Rightarrow> string list \<Rightarrow> string option \<Rightarrow> flow_draft" where
  "plan_draft extractor name description steps prio risk tags auth_role =
     \<lparr>fd_name = name, fd_description = description, fd_steps = steps, fd_priority = prio, fd_risk = risk,
      fd_confidence = deterministic_confidence, fd_role = auth_role, fd_data_state = None, fd_extractor = extractor, fd_tags = tags\<rparr>"

definition category_tag :: "string \<Rightarrow> string list" where
  "category_tag category = (if category = [] then [] else [''category:'' @ category])"

definition smoke_draft :: "route_entity \<Rightarrow> form_entity list \<Rightarrow> string \<Rightarrow> priority \<Rightarrow> risk_level \<Rightarrow> flow_draft" where
  "smoke_draft r forms category prio risk =
     plan_draft ''route.smoke'' (''smoke: '' @ ro_path r)
       (''Smoke test: load '' @ ro_path r @ '' and assert a stable anchor element.'')
       [on_route r (''Navigate to '' @ ro_path r) ''page renders without 5xx errors'',
        on_route r ''Assert an anchor element is visible'' ''anchor element is present in the rendered DOM'']
       prio risk ([''smoke''] @ category_tag category @ (if list_ex (\<lambda>f. \<not> fo_submit_handler f) forms then [''llm_audit_candidate''] else [])) None"

definition auth_boundary_draft :: "discovery_graph \<Rightarrow> route_entity \<Rightarrow> string \<Rightarrow> priority \<Rightarrow> risk_level \<Rightarrow> flow_draft" where
  "auth_boundary_draft g r category prio risk =
     plan_draft ''route.auth_boundary'' (''auth-boundary: '' @ ro_path r)
       (''Anonymous request must be redirected or 401; authenticated '' @ ''request must succeed.'')
       [on_route r (''Anonymous GET '' @ ro_path r) ''redirect to login OR 401/403 response'',
        on_route r (''Authenticated GET '' @ ro_path r) ''200 response with authenticated content'']
       (if category = ''admin'' then bump_for_sensitive ''admin'' prio else prio) risk [''auth_boundary'', ''security''] (role_for_route g (ro_id r))"

definition form_draft :: "discovery_graph \<Rightarrow> route_entity \<Rightarrow> string \<Rightarrow> priority \<Rightarrow> risk_level \<Rightarrow> form_entity \<Rightarrow> flow_draft" where
  "form_draft g r category prio risk f =
     plan_draft ''form.submit'' (''submit form on '' @ ro_path r)
       (''Fill the form ('' @ str_of_nat (length (fo_fields f)) @ '' field(s)) and verify '' @ ''submission outcome.'')
       [on_route r (''Navigate to '' @ ro_path r) ''form is present and interactive'',
        on_route r ''Fill required fields with safe sample data'' ''all required fields accept input'',
        on_route r ''Submit the form'' ''server returns a success or validated-failure response'']
       (if category \<in> set sensitive_categories \<or> prio = Prio_P0 then Prio_P0 else Prio_P1) risk
       ([''form'', ''form:'' @ fo_id f] @ category_tag category @ (if fo_submit_handler f then [] else [''llm_audit_candidate'']))
       (role_for_route g (ro_id r))"

definition route_plan :: "discovery_graph \<Rightarrow> (string, flt) dict \<Rightarrow> route_entity \<Rightarrow> planned list" where
  "route_plan g scores r =
     (let risk = bucketed_risk (dict_get scores (ro_id r) 0);
          category = classify_route r;
          prio = bump_for_sensitive category (priority_for_risk risk);
          forms = forms_of_route g (ro_id r)
      in [(smoke_draft r forms category prio risk, ''functional'')] @
         (if ro_id r \<in> set (map ro_id (filter ro_auth_required (dg_routes g)))
          then [(auth_boundary_draft g r category prio risk, ''functional'')] else []) @
         map (\<lambda>f. (form_draft g r category prio risk f, if fo_submit_handler f then ''functional'' else ''llm_audit'')) forms)"

definition api_draft :: "endpoint_entity \<Rightarrow> flow_draft" where
  "api_draft e =
     plan_draft ''api.contract'' (''api contract: '' @ en_method e @ '' '' @ en_path e)
       (''Contract test for '' @ en_method e @ '' '' @ en_path e @ '' '' @ ''(source='' @ en_source e @ '').'')
       [(''Issue '' @ en_method e @ '' '' @ en_path e, None, ''response matches the documented contract'')]
       Prio_P1 (if en_auth_strategy e \<noteq> ''none'' then Risk_high else Risk_medium)
       [''api'', ''endpoint:'' @ en_id e, ''source:'' @ en_source e] None"

definition test_type_for_extractor :: "string \<Rightarrow> string" where
  "test_type_for_extractor extractor = ''functional''"

definition sorted_endpoints :: "endpoint_entity list \<Rightarrow> endpoint_entity list" where
  "sorted_endpoints = sort_key (\<lambda>e. (en_path e, en_method e, en_id e))"

definition drafts :: "discovery_graph \<Rightarrow> (string, flt) dict \<Rightarrow> planned list" where
  "drafts g scores =
     concat (map (route_plan g scores) (sort_key (\<lambda>r. (ro_path r, ro_id r)) (dg_routes g))) @
     map (\<lambda>d. (d, test_type_for_extractor (fd_extractor d))) (run_extractors builtin_extractors g) @
     map (\<lambda>e. (api_draft e, ''api'')) (sorted_endpoints (dg_api_endpoints g))"

section \<open>The plan\<close>

record test_case =
  tc_id :: string
  tc_flow_id :: string
  tc_file_path :: string
  tc_test_type :: string
  tc_confidence :: flt
  tc_module :: string

definition type_to_module :: "string \<Rightarrow> string" where
  "type_to_module t = (if t = ''regression'' then ''functional'' else t)"

definition slug_from_id :: "string \<Rightarrow> string" where
  "slug_from_id v = replace_char CHR ''-'' ''_'' (py_lower v)"

definition make_case :: "string \<Rightarrow> flow \<Rightarrow> string \<Rightarrow> test_case option" where
  "make_case new_id f t =
     (if is_valid_id ''TC'' (model_strip new_id)
      then Some \<lparr>tc_id = model_strip new_id, tc_flow_id = fw_id f, tc_file_path = ''tests/sentinel/'' @ t @ ''_'' @ slug_from_id (fw_id f) @ ''.spec.ts'',
             tc_test_type = t, tc_confidence = fd_confidence f, tc_module = type_to_module t\<rparr>
      else None)"

record test_plan =
  tp_id :: string
  tp_run_id :: string
  tp_graph_id :: string
  tp_risk_map_id :: string
  tp_target_url :: string
  tp_flows :: "flow list"
  tp_test_cases :: "test_case list"
  tp_by_module :: "(string, nat) dict"
  tp_total :: nat

definition draw :: "(nat \<Rightarrow> string) \<Rightarrow> (nat \<Rightarrow> string) \<Rightarrow> nat \<times> planned \<Rightarrow> (flow \<times> test_case) option" where
  "draw flow_id case_id item =
     (case item of (k, d, t) \<Rightarrow> Option.bind (make_flow (flow_id k) d) (\<lambda>f. map_option (Pair f) (make_case (case_id k) f t)))"

definition order_flows :: "flow list \<Rightarrow> flow list" where
  "order_flows = sort_key (\<lambda>f. (priority_rank (fd_priority f), - risk_weight (fd_risk f), fd_name f, fw_id f))"

definition flow_index :: "flow list \<Rightarrow> string \<Rightarrow> int" where
  "flow_index flows i = (case map_of (rev (zip (map fw_id flows) [0..<length flows])) i of None \<Rightarrow> 2 ^ 30 | Some n \<Rightarrow> int n)"

definition order_cases :: "flow list \<Rightarrow> test_case list \<Rightarrow> test_case list" where
  "order_cases flows = sort_key (\<lambda>c. (flow_index flows (tc_flow_id c), tc_test_type c, tc_id c))"

definition coverage_counts :: "test_case list \<Rightarrow> (string, nat) dict" where
  "coverage_counts cases = foldl (\<lambda>d c. AList.update (tc_module c) (dict_get d (tc_module c) 0 + 1) d) [] cases"

definition make_plan ::
  "(string \<Rightarrow> string) \<Rightarrow> (nat \<Rightarrow> string) \<Rightarrow> (nat \<Rightarrow> string) \<Rightarrow> discovery_graph \<Rightarrow> string \<Rightarrow> (string \<times> flt) list \<Rightarrow> string \<Rightarrow> string \<Rightarrow> test_plan option" where
  "make_plan new_id flow_id case_id g risk_map_id entries run_id target_url =
     Option.bind (those (map (draw flow_id case_id) (enumerate 0 (drafts g (rev entries))))) (\<lambda>drawn.
       let flows = order_flows (map fst drawn);
           cases = order_cases flows (map snd drawn);
           plan_id = model_strip (new_id ''PLN'')
       in if is_valid_id ''PLN'' plan_id \<and> is_valid_id ''RUN'' (model_strip run_id) \<and> is_valid_id ''DG'' (model_strip (dg_id g)) \<and>
             is_valid_id ''RM'' (model_strip risk_map_id) \<and> bounded_str 1 2048 (model_strip target_url)
          then Some \<lparr>tp_id = plan_id, tp_run_id = model_strip run_id, tp_graph_id = model_strip (dg_id g), tp_risk_map_id = model_strip risk_map_id,
                 tp_target_url = model_strip target_url, tp_flows = flows, tp_test_cases = cases,
                 tp_by_module = sort_key fst (coverage_counts cases), tp_total = length cases\<rparr>
          else None)"

section \<open>Lemmas\<close>

lemma those_iff: "those xs = Some ys \<longleftrightarrow> xs = map Some ys"
  by (induction xs arbitrary: ys) (auto split: option.splits)

lemma make_planE:
  assumes "make_plan new_id flow_id case_id g rm entries run_id url = Some p"
  obtains drawn where "map (draw flow_id case_id) (enumerate 0 (drafts g (rev entries))) = map Some drawn"
    "tp_flows p = order_flows (map fst drawn)" "tp_test_cases p = order_cases (tp_flows p) (map snd drawn)"
    "tp_by_module p = sort_key fst (coverage_counts (tp_test_cases p))" "tp_total p = length (tp_test_cases p)"
proof -
  obtain drawn where d: "those (map (draw flow_id case_id) (enumerate 0 (drafts g (rev entries)))) = Some drawn"
    using assms by (auto simp: make_plan_def bind_eq_Some_conv)
  show thesis
    using assms d by (intro that [of drawn]) (auto simp: make_plan_def those_iff Let_def split: if_splits)
qed

lemma draw_iff:
  "draw flow_id case_id (k, d, t) = Some (f, c) \<longleftrightarrow> make_flow (flow_id k) d = Some f \<and> make_case (case_id k) f t = Some c"
  by (auto simp: draw_def bind_eq_Some_conv)

text \<open>What the construction of a flow keeps of its draft, and a case of its flow.\<close>

lemma make_flow_fields:
  assumes "make_flow i d = Some f"
  shows "fw_id f = model_strip i" "fd_extractor f = model_strip (fd_extractor d)" "fd_name f = model_strip (fd_name d)"
    "fd_steps f = map strip_step (fd_steps d)" "fd_priority f = fd_priority d" "fd_risk f = fd_risk d" "fd_confidence f = fd_confidence d"
    "set (fd_tags f) = model_strip ` set (fd_tags d)" "draft_ok d" "is_valid_id ''FLW'' (fw_id f)"
  using assms by (auto simp: make_flow_def split: if_splits)

lemma make_case_fields:
  assumes "make_case i f t = Some c"
  shows "tc_flow_id c = fw_id f" "tc_test_type c = t" "tc_module c = type_to_module t"
    "tc_file_path c = ''tests/sentinel/'' @ t @ ''_'' @ slug_from_id (fw_id f) @ ''.spec.ts''"
  using assms by (auto simp: make_case_def split: if_splits)

lemma drawn_nth:
  assumes "map (draw flow_id case_id) (enumerate 0 D) = map Some drawn"
  shows "length drawn = length D"
    "k < length D \<Longrightarrow> make_flow (flow_id k) (fst (D ! k)) = Some (fst (drawn ! k)) \<and> make_case (case_id k) (fst (drawn ! k)) (snd (D ! k)) = Some (snd (drawn ! k))"
proof -
  show len: "length drawn = length D" using arg_cong [OF assms, of length] by simp
  show "make_flow (flow_id k) (fst (D ! k)) = Some (fst (drawn ! k)) \<and> make_case (case_id k) (fst (drawn ! k)) (snd (D ! k)) = Some (snd (drawn ! k))"
    if "k < length D"
  proof -
    have "map (draw flow_id case_id) (enumerate 0 D) ! k = Some (drawn ! k)" using assms that len by simp
    then have "draw flow_id case_id (k, fst (D ! k), snd (D ! k)) = Some (fst (drawn ! k), snd (drawn ! k))"
      using that by (simp add: nth_enumerate_eq)
    then show ?thesis unfolding draw_iff .
  qed
qed

lemma drawn_ids:
  assumes "map (draw flow_id case_id) (enumerate 0 D) = map Some drawn"
  shows "map fw_id (map fst drawn) = map (\<lambda>k. model_strip (flow_id k)) [0..<length D]"
    "map tc_flow_id (map snd drawn) = map fw_id (map fst drawn)"
proof -
  note n = drawn_nth [OF assms]
  show "map fw_id (map fst drawn) = map (\<lambda>k. model_strip (flow_id k)) [0..<length D]"
    by (rule nth_equalityI) (simp_all add: n(1) make_flow_fields(1) [OF conjunct1 [OF n(2)]])
  show "map tc_flow_id (map snd drawn) = map fw_id (map fst drawn)"
    by (rule nth_equalityI) (simp_all add: n(1) make_case_fields(1) [OF conjunct2 [OF n(2)]])
qed

lemma draft_drawn:
  assumes "map (draw flow_id case_id) (enumerate 0 D) = map Some drawn" "(d, t) \<in> set D"
  obtains f c i j where "(f, c) \<in> set drawn" "make_flow i d = Some f" "make_case j f t = Some c"
proof -
  obtain k where k: "k < length D" "D ! k = (d, t)" using assms(2) by (auto simp: in_set_conv_nth)
  then have "drawn ! k \<in> set drawn" using drawn_nth(1) [OF assms(1)] by simp
  then show thesis
    using that [of "fst (drawn ! k)" "snd (drawn ! k)" "flow_id k" "case_id k"] drawn_nth(2) [OF assms(1) k(1)] k(2) by simp
qed

lemma distinct_map_sort: "distinct (map f (sort_key k xs)) = distinct (map f xs)"
  by (simp add: distinct_map)

lemma order_flows_mset [simp]: "mset (order_flows fs) = mset fs" "length (order_flows fs) = length fs" "set (order_flows fs) = set fs"
  by (simp_all add: order_flows_def)

lemma order_cases_mset [simp]: "mset (order_cases fs cs) = mset cs" "length (order_cases fs cs) = length cs" "set (order_cases fs cs) = set cs"
  by (simp_all add: order_cases_def)

lemma map_of_rev_distinct:
  assumes "distinct (map fst xs)"
  shows "map_of (rev xs) = map_of xs"
proof (rule ext)
  fix k
  have d: "distinct (map fst (rev xs))" using assms by (simp add: rev_map [symmetric])
  have "map_of (rev xs) k = Some v \<longleftrightarrow> map_of xs k = Some v" for v by (simp add: map_of_eq_Some_iff [OF d] map_of_eq_Some_iff [OF assms])
  then show "map_of (rev xs) k = map_of xs k" by (metis option.exhaust)
qed

lemma flow_index_nth:
  assumes "distinct (map fw_id fs)" "n < length fs"
  shows "flow_index fs (fw_id (fs ! n)) = int n"
proof -
  have d: "distinct (map fst (zip (map fw_id fs) [0..<length fs]))" using assms(1) by simp
  then have "map_of (rev (zip (map fw_id fs) [0..<length fs])) = map_of (zip (map fw_id fs) [0..<length fs])" by (rule map_of_rev_distinct)
  moreover have "map_of (zip (map fw_id fs) [0..<length fs]) (map fw_id fs ! n) = Some ([0..<length fs] ! n)"
    using assms by (intro map_of_zip_nth) simp_all
  ultimately show ?thesis using assms(2) by (simp add: flow_index_def)
qed

text \<open>Sorted by the position of their flow, the cases follow the flows.\<close>

lemma cases_follow:
  assumes "distinct (map fw_id fs)" "mset (map tc_flow_id cs) = mset (map fw_id fs)"
  shows "map tc_flow_id (order_cases fs cs) = map fw_id fs"
proof -
  let ?A = "map tc_flow_id (order_cases fs cs)"
  let ?i = "flow_index fs"
  have len: "length ?A = length fs" using arg_cong [OF assms(2), of size] by simp
  have "sorted (map (\<lambda>c. (?i (tc_flow_id c), tc_test_type c, tc_id c)) (order_cases fs cs))" unfolding order_cases_def by simp
  then have sA: "sorted (map ?i ?A)"
    unfolding map_map sorted_map comp_def by (rule sorted_wrt_mono_rel [rotated]) (auto simp: less_eq_prod_def)
  have B: "map ?i (map fw_id fs) = map int [0..<length fs]" by (rule nth_equalityI) (simp_all add: flow_index_nth [OF assms(1)])
  have sB: "sorted (map ?i (map fw_id fs))" unfolding B by (simp add: sorted_iff_nth_mono)
  have m: "mset ?A = mset (map fw_id fs)" using assms(2) by (simp add: order_cases_def mset_map)
  then have "mset (map ?i ?A) = mset (map ?i (map fw_id fs))" by (metis mset_map)
  with sA sB have eq: "map ?i ?A = map ?i (map fw_id fs)" by (metis properties_for_sort)
  have set: "set ?A = set (map fw_id fs)" using m by (metis set_mset_mset)
  have "inj_on ?i (set (map fw_id fs))"
  proof (rule inj_onI)
    fix x y assume x: "x \<in> set (map fw_id fs)" and y: "y \<in> set (map fw_id fs)" and e: "?i x = ?i y"
    obtain n where n: "n < length fs" "x = fw_id (fs ! n)" using x by (auto simp: in_set_conv_nth)
    obtain k where k: "k < length fs" "y = fw_id (fs ! k)" using y by (auto simp: in_set_conv_nth)
    have "int n = int k" using e by (simp add: n k flow_index_nth [OF assms(1)])
    then show "x = y" by (simp add: n k)
  qed
  then have "inj_on ?i (set ?A \<union> set (map fw_id fs))" unfolding set by simp
  with eq show ?thesis by (rule map_inj_on)
qed

text \<open>The identifiers of flows and the names of the spec files.\<close>

definition id_char :: "char \<Rightarrow> bool" where
  "id_char c \<longleftrightarrow> is_upper_char c \<or> is_digit_char c \<or> c = CHR ''-''"

definition slug_char :: "char \<Rightarrow> char" where
  "slug_char c = (if lower_char c = CHR ''-'' then CHR ''_'' else lower_char c)"

lemma slug_from_id_map: "slug_from_id v = map slug_char v"
  by (induction v) (auto simp: slug_from_id_def py_lower_def replace_char_def slug_char_def)

lemma of_slug_char:
  assumes "id_char c"
  shows "(of_char (slug_char c) :: nat) = (if is_upper_char c then of_char c + 32 else if is_digit_char c then of_char c else 95)"
proof -
  consider "is_upper_char c" | "is_digit_char c" "\<not> is_upper_char c" | "c = CHR ''-''" using assms by (auto simp: id_char_def)
  then show ?thesis
  proof cases
    case 1
    then have n: "65 \<le> (of_char c :: nat)" "(of_char c :: nat) \<le> 90" by (simp_all add: is_upper_char_def Let_def)
    then have l: "(of_char (lower_char c) :: nat) = of_char c + 32" by (simp add: lower_char_def Let_def)
    then have "lower_char c \<noteq> CHR ''-''" using n by auto
    then show ?thesis using 1 l by (simp add: slug_char_def)
  next
    case 2
    then have n: "48 \<le> (of_char c :: nat)" "(of_char c :: nat) \<le> 57" by (simp_all add: is_digit_char_def Let_def)
    then have l: "lower_char c = c" by (simp add: lower_char_def Let_def)
    then have "lower_char c \<noteq> CHR ''-''" using n by auto
    then show ?thesis using 2 l by (simp add: slug_char_def)
  next
    case 3
    then show ?thesis by (simp add: slug_char_def lower_char_def is_upper_char_def is_digit_char_def Let_def)
  qed
qed

lemma slug_char_inj:
  assumes "id_char c" "id_char d" "slug_char c = slug_char d"
  shows "c = d"
proof -
  have e: "(of_char (slug_char c) :: nat) = of_char (slug_char d)" by (simp add: assms(3))
  have r: "is_upper_char x \<Longrightarrow> 65 \<le> (of_char x :: nat) \<and> (of_char x :: nat) \<le> 90" "is_digit_char x \<Longrightarrow> 48 \<le> (of_char x :: nat) \<and> (of_char x :: nat) \<le> 57" for x
    by (simp_all add: is_upper_char_def is_digit_char_def Let_def)
  have "(of_char c :: nat) = of_char d \<or> c = CHR ''-'' \<and> d = CHR ''-''"
    using e r [of c] r [of d] assms(1,2) unfolding of_slug_char [OF assms(1)] of_slug_char [OF assms(2)]
    by (auto simp: id_char_def split: if_splits)
  then show ?thesis by (auto dest: of_char_eq_iff [THEN iffD1])
qed

lemma model_strip_last: "model_strip s \<noteq> [] \<Longrightarrow> last (model_strip s) \<noteq> newline"
proof -
  assume "model_strip s \<noteq> []"
  then have ne: "dropWhile is_model_space (rev (dropWhile is_model_space s)) \<noteq> []" by (simp add: model_strip_def)
  then have "\<not> is_model_space (last (model_strip s))" using hd_dropWhile [OF ne] by (simp add: model_strip_def last_rev)
  moreover have "is_model_space newline" by (simp add: is_model_space_def newline_def)
  ultimately show ?thesis by metis
qed

lemma flow_id_shape:
  assumes "is_valid_id ''FLW'' i" "i = model_strip j"
  shows "length i = 16 \<and> list_all id_char i"
proof -
  have v: "id_regex_match i" "py_startswith i (''FLW'' @ ''-'')" using assms(1) by (simp_all add: is_valid_id_def validate_id_def split: if_splits)
  then obtain r where r: "i = ''FLW-'' @ r" by (auto simp: py_startswith_iff)
  then have "last i \<noteq> newline" using model_strip_last [of j] assms(2) by simp
  then have "id_body_match i" using v(1) by (simp add: id_regex_match_def split: if_splits)
  moreover have "takeWhile is_upper_char (''FLW-'' @ r) = ''FLW''" "dropWhile is_upper_char (''FLW-'' @ r) = CHR ''-'' # r"
    by (simp_all add: is_upper_char_def)
  ultimately have "length r = 12" "list_all (\<lambda>d. is_upper_char d \<or> is_digit_char d) r" unfolding r id_body_match_def Let_def by simp_all
  then show ?thesis unfolding r by (auto simp: id_char_def is_upper_char_def list_all_iff)
qed

lemma slug_inj:
  assumes "list_all id_char a" "list_all id_char b" "slug_from_id a = slug_from_id b"
  shows "a = b"
proof -
  have "inj_on slug_char {c. id_char c}" using slug_char_inj by (auto intro: inj_onI)
  then show ?thesis
    using assms unfolding slug_from_id_map by (intro map_inj_on [of slug_char a b]) (auto simp: list_all_iff inj_on_def)
qed

lemma drawn_flow:
  assumes "map (draw flow_id case_id) (enumerate 0 D) = map Some drawn" "(f, c) \<in> set drawn"
  obtains a i where "tc_file_path c = (a @ slug_from_id (tc_flow_id c)) @ ''.spec.ts''" "tc_flow_id c = model_strip i" "is_valid_id ''FLW'' (tc_flow_id c)"
proof -
  obtain k where k: "k < length D" "drawn ! k = (f, c)" using assms(2) drawn_nth(1) [OF assms(1)] by (auto simp: in_set_conv_nth)
  then have f: "make_flow (flow_id k) (fst (D ! k)) = Some f" and c: "make_case (case_id k) f (snd (D ! k)) = Some c"
    using drawn_nth(2) [OF assms(1) k(1)] by simp_all
  show thesis
    using that [of "''tests/sentinel/'' @ snd (D ! k) @ ''_''" "flow_id k"] make_flow_fields(1,10) [OF f] make_case_fields(1,4) [OF c] by simp
qed

lemma same_spec_file:
  assumes "p = (a @ slug_from_id i) @ e" "i = model_strip i'" "is_valid_id ''FLW'' i"
    and "p = (b @ slug_from_id j) @ e" "j = model_strip j'" "is_valid_id ''FLW'' j"
  shows "i = j"
proof -
  have i: "length i = 16" "list_all id_char i" and j: "length j = 16" "list_all id_char j"
    using flow_id_shape [OF assms(3,2)] flow_id_shape [OF assms(6,5)] by simp_all
  have "a @ slug_from_id i = b @ slug_from_id j" using assms(1,4) by simp
  moreover have "length (slug_from_id i) = length (slug_from_id j)" by (simp add: slug_from_id_map i(1) j(1))
  ultimately have "slug_from_id i = slug_from_id j" by simp
  then show ?thesis by (rule slug_inj [OF i(2) j(2)])
qed

lemma coverage_counts_get:
  "dict_get (foldl (\<lambda>d c. AList.update (tc_module c) (dict_get d (tc_module c) 0 + 1) d) d0 cs) m 0 =
    dict_get d0 m 0 + length (filter (\<lambda>c. tc_module c = m) cs)"
  by (induction cs arbitrary: d0) auto

lemma coverage_counts_distinct:
  "distinct (map fst d0) \<Longrightarrow> distinct (map fst (foldl (\<lambda>d c. AList.update (tc_module c) (dict_get d (tc_module c) 0 + 1) d) d0 cs))"
  by (induction cs arbitrary: d0) (auto intro: distinct_update)

lemma map_of_sort_key:
  assumes "distinct (map fst d)"
  shows "map_of (sort_key fst d) = map_of d"
proof (rule ext)
  fix k
  have d: "distinct (map fst (sort_key fst d))" using assms by (simp add: distinct_map)
  have "map_of (sort_key fst d) k = Some v \<longleftrightarrow> map_of d k = Some v" for v by (simp add: map_of_eq_Some_iff [OF d] map_of_eq_Some_iff [OF assms])
  then show "map_of (sort_key fst d) k = map_of d k" by (metis option.exhaust)
qed

lemma coverage_exact:
  "dict_get (sort_key fst (coverage_counts cs)) m 0 = length (filter (\<lambda>c. tc_module c = m) cs)"
proof -
  have "distinct (map fst (coverage_counts cs))" unfolding coverage_counts_def by (rule coverage_counts_distinct) simp
  then have "dict_get (sort_key fst (coverage_counts cs)) m 0 = dict_get (coverage_counts cs) m 0" by (simp add: dict_get_def map_of_sort_key)
  moreover have "dict_get (coverage_counts cs) m 0 = dict_get [] m 0 + length (filter (\<lambda>c. tc_module c = m) cs)"
    unfolding coverage_counts_def by (rule coverage_counts_get)
  moreover have "dict_get [] m (0 :: nat) = 0" by (simp add: dict_get_def)
  ultimately show ?thesis by simp
qed

text \<open>
  C13. A plan is consistent. When the identifiers drawn for the flows are distinct, the flows are ordered by priority and, within a priority,
  by decreasing risk; there is exactly one test case for each flow, in the same order; no two test cases are given the same spec
  file; and the coverage estimate counts the test cases, per module and in total.
\<close>

theorem plan_is_consistent:
  assumes "make_plan new_id flow_id case_id g rm entries run_id url = Some p" "inj_on (\<lambda>k. model_strip (flow_id k)) {..<length (drafts g (rev entries))}"
  shows "map tc_flow_id (tp_test_cases p) = map fw_id (tp_flows p) \<and> distinct (map tc_file_path (tp_test_cases p)) \<and>
    sorted (map (\<lambda>f. (priority_rank (fd_priority f), - risk_weight (fd_risk f))) (tp_flows p)) \<and>
    tp_total p = length (tp_flows p) \<and>
    (\<forall>m. dict_get (tp_by_module p) m 0 = length (filter (\<lambda>c. tc_module c = m) (tp_test_cases p)))"
proof -
  obtain drawn where d: "map (draw flow_id case_id) (enumerate 0 (drafts g (rev entries))) = map Some drawn"
    and flows: "tp_flows p = order_flows (map fst drawn)" and cases: "tp_test_cases p = order_cases (tp_flows p) (map snd drawn)"
    and cov: "tp_by_module p = sort_key fst (coverage_counts (tp_test_cases p))" and tot: "tp_total p = length (tp_test_cases p)"
    by (rule make_planE [OF assms(1)])
  have "distinct (map fw_id (map fst drawn))" unfolding drawn_ids(1) [OF d] using assms(2) by (simp add: distinct_map lessThan_atLeast0)
  then have dist: "distinct (map fw_id (tp_flows p))" unfolding flows order_flows_def distinct_map_sort .
  have "mset (map tc_flow_id (map snd drawn)) = mset (map fw_id (tp_flows p))" by (simp only: drawn_ids(2) [OF d] flows mset_map order_flows_mset)
  then have 1: "map tc_flow_id (tp_test_cases p) = map fw_id (tp_flows p)" unfolding cases by (rule cases_follow [OF dist])
  have "\<exists>a i. tc_file_path c = (a @ slug_from_id (tc_flow_id c)) @ ''.spec.ts'' \<and> tc_flow_id c = model_strip i \<and> is_valid_id ''FLW'' (tc_flow_id c)"
    if "c \<in> set (tp_test_cases p)" for c
  proof -
    have "c \<in> snd ` set drawn" using that unfolding cases by simp
    then obtain f where "(f, c) \<in> set drawn" by force
    then show ?thesis using drawn_flow [OF d] by blast
  qed
  note own = this
  have path: "tc_flow_id c = tc_flow_id c'"
    if c: "c \<in> set (tp_test_cases p)" "c' \<in> set (tp_test_cases p)" "tc_file_path c = tc_file_path c'" for c c'
  proof -
    obtain a i where "tc_file_path c = (a @ slug_from_id (tc_flow_id c)) @ ''.spec.ts''" "tc_flow_id c = model_strip i" "is_valid_id ''FLW'' (tc_flow_id c)"
      using own [OF c(1)] by blast
    moreover obtain b j where "tc_file_path c = (b @ slug_from_id (tc_flow_id c')) @ ''.spec.ts''" "tc_flow_id c' = model_strip j" "is_valid_id ''FLW'' (tc_flow_id c')"
      using own [OF c(2)] unfolding c(3) by blast
    ultimately show ?thesis by (rule same_spec_file)
  qed
  have "distinct (map tc_flow_id (tp_test_cases p))" unfolding 1 by (rule dist)
  then have inj: "inj_on tc_flow_id (set (tp_test_cases p))" "distinct (tp_test_cases p)" by (simp_all add: distinct_map)
  have 2: "distinct (map tc_file_path (tp_test_cases p))"
    unfolding distinct_map
  proof (intro conjI inj_onI)
    fix c c' assume c: "c \<in> set (tp_test_cases p)" "c' \<in> set (tp_test_cases p)" "tc_file_path c = tc_file_path c'"
    show "c = c'" by (rule inj_onD [OF inj(1) path [OF c] c(1,2)])
  qed (rule inj(2))
  have "sorted (map (\<lambda>f. (priority_rank (fd_priority f), - risk_weight (fd_risk f), fd_name f, fw_id f)) (tp_flows p))"
    unfolding flows order_flows_def by simp
  then have 3: "sorted (map (\<lambda>f. (priority_rank (fd_priority f), - risk_weight (fd_risk f))) (tp_flows p))"
    unfolding sorted_map by (rule sorted_wrt_mono_rel [rotated]) (auto simp: less_eq_prod_def)
  have 4: "tp_total p = length (tp_flows p)" using arg_cong [OF 1, of length] by (simp add: tot)
  have 5: "dict_get (tp_by_module p) m 0 = length (filter (\<lambda>c. tc_module c = m) (tp_test_cases p))" for m
    unfolding cov by (rule coverage_exact)
  show ?thesis using 1 2 3 4 5 by blast
qed

lemma form_home_in:
  assumes "routes \<noteq> []"
  shows "form_home routes f \<in> set routes"
proof -
  let ?s = "sort_key ro_path routes"
  have "?s \<noteq> []" using assms by (metis length_sort length_0_conv)
  then have "hd ?s \<in> set ?s" by (rule hd_in_set)
  moreover have "find P ?s = Some r \<Longrightarrow> r \<in> set ?s" for P r by (metis find_Some_iff nth_mem)
  ultimately have "form_home routes f \<in> set ?s" unfolding form_home_def Let_def by (auto simp del: set_sort split: option.split)
  then show ?thesis by simp
qed

lemma forms_of_route_home:
  assumes "f \<in> set (dg_forms g)" "dg_routes g \<noteq> []"
  obtains r where "r \<in> set (dg_routes g)" "f \<in> set (forms_of_route g (ro_id r))"
  using that [OF form_home_in [OF assms(2), of f]] assms by (simp add: forms_of_route_def)

lemma route_draft_in: "r \<in> set (dg_routes g) \<Longrightarrow> x \<in> set (route_plan g scores r) \<Longrightarrow> x \<in> set (drafts g scores)"
  by (auto simp: drafts_def)

text \<open>A drawn draft is in the plan, with its test case.\<close>

lemma planned_drawn:
  assumes "make_plan new_id flow_id case_id g rm entries run_id url = Some p" "(d, t) \<in> set (drafts g (rev entries))"
  shows "\<exists>f\<in>set (tp_flows p). \<exists>c\<in>set (tp_test_cases p). \<exists>i. make_flow i d = Some f \<and> tc_flow_id c = fw_id f \<and> tc_test_type c = t"
proof -
  obtain drawn where d: "map (draw flow_id case_id) (enumerate 0 (drafts g (rev entries))) = map Some drawn"
    and flows: "tp_flows p = order_flows (map fst drawn)" and cases: "tp_test_cases p = order_cases (tp_flows p) (map snd drawn)"
    by (rule make_planE [OF assms(1)])
  obtain f c i j where fc: "(f, c) \<in> set drawn" "make_flow i d = Some f" "make_case j f t = Some c" by (rule draft_drawn [OF d assms(2)])
  have "f \<in> set (tp_flows p)" "c \<in> set (tp_test_cases p)" using fc(1) by (force simp: flows cases)+
  then show ?thesis using fc(2,3) make_case_fields(1,2) [OF fc(3)] by blast
qed

definition planned_for :: "test_plan \<Rightarrow> string \<Rightarrow> string \<Rightarrow> string \<Rightarrow> bool" where
  "planned_for p extractor tag t \<longleftrightarrow>
     (\<exists>f\<in>set (tp_flows p). \<exists>c\<in>set (tp_test_cases p). tc_flow_id c = fw_id f \<and> tc_test_type c = t \<and> fd_extractor f = extractor \<and> tag \<in> set (fd_tags f))"

definition planned_on :: "test_plan \<Rightarrow> string \<Rightarrow> string \<Rightarrow> string \<Rightarrow> priority \<Rightarrow> bool" where
  "planned_on p extractor route_id t prio \<longleftrightarrow>
     (\<exists>f\<in>set (tp_flows p). \<exists>c\<in>set (tp_test_cases p). tc_flow_id c = fw_id f \<and> tc_test_type c = t \<and> fd_extractor f = extractor \<and>
        fd_priority f = prio \<and> fd_steps f \<noteq> [] \<and> list_all (\<lambda>s. fst (snd s) = Some route_id) (fd_steps f))"

definition expected_priority :: "(string, flt) dict \<Rightarrow> route_entity \<Rightarrow> priority" where
  "expected_priority scores r =
     (if classify_route r \<noteq> [] then Prio_P0 else priority_for_risk (bucketed_risk (dict_get scores (ro_id r) 0)))"

lemma classify_sensitive: "classify_route r \<noteq> [] \<longleftrightarrow> classify_route r \<in> set sensitive_categories"
  by (simp add: classify_route_def sensitive_categories_def)

lemma expected_priority_bump:
  "bump_for_sensitive (classify_route r) (priority_for_risk (bucketed_risk (dict_get scores (ro_id r) 0))) = expected_priority scores r"
  using classify_sensitive [of r] by (simp add: bump_for_sensitive_def expected_priority_def)

lemma planned_onI:
  assumes "make_plan new_id flow_id case_id g rm entries run_id url = Some p" "(d, t) \<in> set (drafts g (rev entries))"
    and "fd_extractor d = x" "model_strip x = x" "list_all (\<lambda>s. fst (snd s) = Some route_id) (fd_steps d)"
  shows "planned_on p x (model_strip route_id) t (fd_priority d)"
proof -
  obtain f c i where f: "f \<in> set (tp_flows p)" "c \<in> set (tp_test_cases p)" "make_flow i d = Some f" "tc_flow_id c = fw_id f" "tc_test_type c = t"
    using planned_drawn [OF assms(1,2)] by blast
  have "fd_steps d \<noteq> []" using make_flow_fields(9) [OF f(3)] by (simp add: draft_ok_def)
  moreover have "list_all (\<lambda>s. fst (snd s) = Some (model_strip route_id)) (map strip_step (fd_steps d))"
    using assms(5) by (auto simp: list_all_iff strip_step_def)
  ultimately show ?thesis
    unfolding planned_on_def using f make_flow_fields(2,4,5) [OF f(3)] assms(3,4)
    by (intro bexI [of _ f] bexI [of _ c]) auto
qed

lemma planned_forI:
  assumes "make_plan new_id flow_id case_id g rm entries run_id url = Some p" "(d, t) \<in> set (drafts g (rev entries))"
    and "fd_extractor d = x" "model_strip x = x" "tag \<in> set (fd_tags d)"
  shows "planned_for p x (model_strip tag) t"
proof -
  obtain f c i where f: "f \<in> set (tp_flows p)" "c \<in> set (tp_test_cases p)" "make_flow i d = Some f" "tc_flow_id c = fw_id f" "tc_test_type c = t"
    using planned_drawn [OF assms(1,2)] by blast
  then show ?thesis
    unfolding planned_for_def using make_flow_fields(2,8) [OF f(3)] assms(3-5)
    by (intro bexI [of _ f] bexI [of _ c]) auto
qed

text \<open>Every form is tested at exactly one route.\<close>

lemma one_home:
  assumes "distinct (map k xs)" "y \<in> set xs"
  shows "(\<Sum>x\<leftarrow>xs. if k y = k x then {#v#} else {#}) = {#v#}"
  using assms
proof (induction xs)
  case (Cons x xs)
  have z: "(\<Sum>x\<leftarrow>xs. if k y = k x then {#v#} else {#}) = {#}" if "k y \<notin> k ` set xs" using that by (induction xs) auto
  show ?case using Cons z by (cases "k y = k x") auto
qed simp

lemma homes_partition:
  assumes "distinct (map k xs)" "\<And>y. y \<in> set ys \<Longrightarrow> h y \<in> set xs"
  shows "(\<Sum>x\<leftarrow>xs. mset (filter (\<lambda>y. k (h y) = k x) ys)) = mset ys"
  using assms(2)
proof (induction ys)
  case Nil
  then show ?case by (induction xs) auto
next
  case (Cons y ys)
  have "(\<Sum>x\<leftarrow>xs. mset (filter (\<lambda>y. k (h y) = k x) (y # ys))) =
      (\<Sum>x\<leftarrow>xs. (if k (h y) = k x then {#y#} else {#}) + mset (filter (\<lambda>y. k (h y) = k x) ys))"
    by (intro arg_cong [of _ _ sum_list] map_cong) auto
  also have "\<dots> = {#y#} + mset ys" using one_home [OF assms(1), of "h y" y] Cons by (simp add: sum_list_addf)
  finally show ?case by simp
qed

lemma sum_singletons: "(\<Sum>r\<leftarrow>rs. {#f r#}) = image_mset f (mset rs)"
  by (induction rs) auto

lemma sum_filtered: "(\<Sum>r\<leftarrow>rs. if P r then {#f r#} else {#}) = image_mset f (mset (filter P rs))"
  by (induction rs) auto

lemma sum_image: "(\<Sum>r\<leftarrow>rs. image_mset f (m r)) = image_mset f (\<Sum>r\<leftarrow>rs. m r)"
  by (induction rs) auto

section \<open>What a plan is made for\<close>

text \<open>
  The subjects of a graph, each to be tested by one flow: a page load of every route, the boundary of every route that requires
  authentication, every form (of a graph that has a route), every flow an extractor finds, and every endpoint.
\<close>

datatype subject = Page_load route_entity | Boundary route_entity | Submission form_entity | Extracted flow_draft | Contract endpoint_entity

definition plan_subjects :: "discovery_graph \<Rightarrow> subject multiset" where
  "plan_subjects g =
     image_mset Page_load (mset (dg_routes g)) + image_mset Boundary (mset (filter ro_auth_required (dg_routes g))) +
     (if dg_routes g = [] then {#} else image_mset Submission (mset (dg_forms g))) +
     image_mset Extracted (mset (run_extractors builtin_extractors g)) + image_mset Contract (mset (dg_api_endpoints g))"

text \<open>The flow that tests a subject.\<close>

definition all_on :: "string \<Rightarrow> flow \<Rightarrow> bool" where
  "all_on route_id f \<longleftrightarrow> fd_steps f \<noteq> [] \<and> list_all (\<lambda>s. fst (snd s) = Some (model_strip route_id)) (fd_steps f)"

fun flow_tests :: "discovery_graph \<Rightarrow> subject \<Rightarrow> flow \<Rightarrow> bool" where
  "flow_tests g (Page_load r) f \<longleftrightarrow> fd_extractor f = ''route.smoke'' \<and> all_on (ro_id r) f"
| "flow_tests g (Boundary r) f \<longleftrightarrow> fd_extractor f = ''route.auth_boundary'' \<and> all_on (ro_id r) f"
| "flow_tests g (Submission x) f \<longleftrightarrow> fd_extractor f = ''form.submit'' \<and> model_strip (''form:'' @ fo_id x) \<in> set (fd_tags f) \<and>
     all_on (ro_id (form_home (dg_routes g) x)) f"
| "flow_tests g (Extracted d) f \<longleftrightarrow> (\<exists>i. make_flow i d = Some f)"
| "flow_tests g (Contract e) f \<longleftrightarrow> fd_extractor f = ''api.contract'' \<and> model_strip (''endpoint:'' @ en_id e) \<in> set (fd_tags f)"

text \<open>The subjects in the order of the drafts.\<close>

definition route_subjects :: "discovery_graph \<Rightarrow> route_entity \<Rightarrow> subject list" where
  "route_subjects g r =
     [Page_load r] @ (if ro_id r \<in> set (map ro_id (filter ro_auth_required (dg_routes g))) then [Boundary r] else []) @
     map Submission (forms_of_route g (ro_id r))"

definition subject_list :: "discovery_graph \<Rightarrow> subject list" where
  "subject_list g =
     concat (map (route_subjects g) (sort_key (\<lambda>r. (ro_path r, ro_id r)) (dg_routes g))) @
     map Extracted (run_extractors builtin_extractors g) @ map Contract (sorted_endpoints (dg_api_endpoints g))"

lemma subject_list_mset:
  assumes "distinct (map ro_id (dg_routes g))"
  shows "mset (subject_list g) = plan_subjects g"
proof -
  let ?s = "sort_key (\<lambda>r. (ro_path r, ro_id r)) (dg_routes g)"
  let ?auth = "\<lambda>r. ro_id r \<in> set (map ro_id (filter ro_auth_required (dg_routes g)))"
  have d: "distinct (map ro_id ?s)" using assms by (simp add: distinct_map)
  have auth: "?auth r \<longleftrightarrow> ro_auth_required r" if "r \<in> set ?s" for r
    using that assms by (auto simp: distinct_map inj_on_def)
  have m: "mset (route_subjects g r) =
      {#Page_load r#} + (if ro_auth_required r then {#Boundary r#} else {#}) + image_mset Submission (mset (forms_of_route g (ro_id r)))"
    if "r \<in> set ?s" for r
    unfolding route_subjects_def auth [OF that] by (cases "ro_auth_required r") simp_all
  have f: "(\<Sum>r\<leftarrow>?s. mset (forms_of_route g (ro_id r))) = (if dg_routes g = [] then {#} else mset (dg_forms g))"
  proof (cases "dg_routes g = []")
    case False
    then have "form_home (dg_routes g) x \<in> set ?s" for x using form_home_in by simp
    then show ?thesis
      using homes_partition [OF d, of "sort_key fo_id (dg_forms g)" "form_home (dg_routes g)"] False by (simp add: forms_of_route_def)
  qed simp
  have "mset (concat (map (route_subjects g) ?s)) = (\<Sum>r\<leftarrow>?s. mset (route_subjects g r))" by (simp add: mset_concat comp_def)
  also have "\<dots> = (\<Sum>r\<leftarrow>?s. {#Page_load r#} + (if ro_auth_required r then {#Boundary r#} else {#}) +
      image_mset Submission (mset (forms_of_route g (ro_id r))))"
    using m by (intro arg_cong [of _ _ sum_list] map_cong) auto
  also have "\<dots> = image_mset Page_load (mset ?s) + image_mset Boundary (mset (filter ro_auth_required ?s)) +
      image_mset Submission (if dg_routes g = [] then {#} else mset (dg_forms g))"
    unfolding sum_list_addf sum_singletons sum_filtered sum_image f ..
  also have "\<dots> = image_mset Page_load (mset (dg_routes g)) + image_mset Boundary (mset (filter ro_auth_required (dg_routes g))) +
      (if dg_routes g = [] then {#} else image_mset Submission (mset (dg_forms g)))" by simp
  finally show ?thesis by (simp add: subject_list_def plan_subjects_def sorted_endpoints_def)
qed

lemma strip_literals:
  "model_strip ''route.smoke'' = ''route.smoke''" "model_strip ''route.auth_boundary'' = ''route.auth_boundary''"
  "model_strip ''form.submit'' = ''form.submit''" "model_strip ''api.contract'' = ''api.contract''"
  by code_simp+

lemma route_drafts:
  assumes "r \<in> set (dg_routes g)"
  shows "\<exists>d. (d, ''functional'') \<in> set (drafts g scores) \<and> fd_extractor d = ''route.smoke'' \<and> fd_priority d = expected_priority scores r \<and>
      list_all (\<lambda>s. fst (snd s) = Some (ro_id r)) (fd_steps d)"
    "ro_auth_required r \<Longrightarrow> \<exists>d. (d, ''functional'') \<in> set (drafts g scores) \<and> fd_extractor d = ''route.auth_boundary'' \<and>
      fd_priority d = expected_priority scores r \<and> list_all (\<lambda>s. fst (snd s) = Some (ro_id r)) (fd_steps d)"
proof -
  let ?prio = "expected_priority scores r" and ?risk = "bucketed_risk (dict_get scores (ro_id r) 0)" and ?forms = "forms_of_route g (ro_id r)"
  have "(smoke_draft r ?forms (classify_route r) ?prio ?risk, ''functional'') \<in> set (route_plan g scores r)"
    by (simp add: route_plan_def Let_def expected_priority_bump)
  then show "\<exists>d. (d, ''functional'') \<in> set (drafts g scores) \<and> fd_extractor d = ''route.smoke'' \<and> fd_priority d = ?prio \<and>
      list_all (\<lambda>s. fst (snd s) = Some (ro_id r)) (fd_steps d)"
    using assms by (intro exI conjI) (erule (1) route_draft_in [rotated], simp_all add: smoke_draft_def plan_draft_def on_route_def)
  have admin: "(if classify_route r = ''admin'' then bump_for_sensitive ''admin'' ?prio else ?prio) = ?prio"
    by (simp add: expected_priority_def bump_for_sensitive_def)
  show "\<exists>d. (d, ''functional'') \<in> set (drafts g scores) \<and> fd_extractor d = ''route.auth_boundary'' \<and>
      fd_priority d = ?prio \<and> list_all (\<lambda>s. fst (snd s) = Some (ro_id r)) (fd_steps d)" if "ro_auth_required r"
  proof -
    have "(auth_boundary_draft g r (classify_route r) ?prio ?risk, ''functional'') \<in> set (route_plan g scores r)"
      using that assms by (simp add: route_plan_def Let_def expected_priority_bump)
    then show ?thesis
      using assms by (intro exI conjI) (erule (1) route_draft_in [rotated], simp_all add: auth_boundary_draft_def plan_draft_def on_route_def admin)
  qed
qed

lemma form_drafts:
  assumes "x \<in> set (dg_forms g)" "dg_routes g \<noteq> []"
  shows "\<exists>d. (d, if fo_submit_handler x then ''functional'' else ''llm_audit'') \<in> set (drafts g scores) \<and> fd_extractor d = ''form.submit'' \<and>
    ''form:'' @ fo_id x \<in> set (fd_tags d)"
proof -
  obtain r where r: "r \<in> set (dg_routes g)" "x \<in> set (forms_of_route g (ro_id r))" by (rule forms_of_route_home [OF assms])
  let ?d = "form_draft g r (classify_route r) (expected_priority scores r) (bucketed_risk (dict_get scores (ro_id r) 0)) x"
  have "(?d, if fo_submit_handler x then ''functional'' else ''llm_audit'') \<in> set (route_plan g scores r)"
    using r(2) by (simp add: route_plan_def Let_def expected_priority_bump)
  then have "(?d, if fo_submit_handler x then ''functional'' else ''llm_audit'') \<in> set (drafts g scores)" by (rule route_draft_in [OF r(1)])
  then show ?thesis by (intro exI [of _ ?d]) (simp add: form_draft_def plan_draft_def)
qed

lemma endpoint_drafts:
  assumes "e \<in> set (dg_api_endpoints g)"
  shows "(api_draft e, ''api'') \<in> set (drafts g scores) \<and> fd_extractor (api_draft e) = ''api.contract'' \<and> ''endpoint:'' @ en_id e \<in> set (fd_tags (api_draft e))"
  using assms by (auto simp: drafts_def sorted_endpoints_def api_draft_def plan_draft_def)

text \<open>The drafts follow the subjects, one each.\<close>

definition draft_tests :: "discovery_graph \<Rightarrow> subject \<Rightarrow> planned \<Rightarrow> bool" where
  "draft_tests g x p \<longleftrightarrow> (\<forall>i f. make_flow i (fst p) = Some f \<longrightarrow> flow_tests g x f)"

lemma all_onI:
  assumes "make_flow i d = Some f" "list_all (\<lambda>s. fst (snd s) = Some route_id) (fd_steps d)"
  shows "all_on route_id f"
proof -
  have "fd_steps d \<noteq> []" using make_flow_fields(9) [OF assms(1)] by (simp add: draft_ok_def)
  then show ?thesis
    unfolding all_on_def make_flow_fields(4) [OF assms(1)] using assms(2) by (auto simp: list_all_iff strip_step_def)
qed

lemmas draft_bodies = smoke_draft_def auth_boundary_draft_def form_draft_def api_draft_def plan_draft_def on_route_def

lemma smoke_tests: "draft_tests g (Page_load r) (smoke_draft r fs category prio risk, t)"
  by (auto simp: draft_tests_def make_flow_fields(2) draft_bodies strip_literals intro!: all_onI)

lemma boundary_tests: "draft_tests g (Boundary r) (auth_boundary_draft g r category prio risk, t)"
  by (auto simp: draft_tests_def make_flow_fields(2) draft_bodies strip_literals intro!: all_onI)

lemma form_tests: "ro_id (form_home (dg_routes g) x) = ro_id r \<Longrightarrow> draft_tests g (Submission x) (form_draft g r category prio risk x, t)"
  by (auto simp: draft_tests_def make_flow_fields(2,8) draft_bodies strip_literals intro!: all_onI)

lemma contract_tests: "draft_tests g (Contract e) (api_draft e, t)"
  by (auto simp: draft_tests_def make_flow_fields(2,8) draft_bodies strip_literals)

lemma extracted_tests: "draft_tests g (Extracted d) (d, t)"
  by (auto simp: draft_tests_def)

lemma route_drafts_follow: "list_all2 (draft_tests g) (route_subjects g r) (route_plan g scores r)"
proof -
  have "list_all2 (draft_tests g) (map Submission (forms_of_route g (ro_id r)))
      (map (\<lambda>f. (form_draft g r category prio risk f, t f)) (forms_of_route g (ro_id r)))" for category prio risk t
    unfolding list_all2_map1 list_all2_map2
    by (rule list.rel_refl_strong) (auto simp: forms_of_route_def split: if_splits intro: form_tests)
  then show ?thesis
    unfolding route_subjects_def route_plan_def Let_def by (intro list_all2_appendI) (auto intro: smoke_tests boundary_tests)
qed

lemma drafts_follow: "list_all2 (draft_tests g) (subject_list g) (drafts g scores)"
proof -
  have r: "list_all2 (draft_tests g) (concat (map (route_subjects g) rs)) (concat (map (route_plan g scores) rs))" for rs
    by (induction rs) (auto intro: list_all2_appendI route_drafts_follow)
  have x: "list_all2 (draft_tests g) (map Extracted ds) (map (\<lambda>d. (d, t d)) ds)" for ds t
    by (induction ds) (auto intro: extracted_tests)
  have e: "list_all2 (draft_tests g) (map Contract es) (map (\<lambda>e. (api_draft e, ''api'')) es)" for es
    by (induction es) (auto intro: contract_tests)
  show ?thesis unfolding subject_list_def drafts_def by (intro list_all2_appendI r x e)
qed

lemma flows_follow:
  assumes "map (draw flow_id case_id) (enumerate 0 (drafts g scores)) = map Some drawn"
  shows "list_all2 (flow_tests g) (subject_list g) (map fst drawn)"
proof (rule list_all2_all_nthI)
  have len: "length (subject_list g) = length (drafts g scores)" by (rule list_all2_lengthD [OF drafts_follow])
  then show "length (subject_list g) = length (map fst drawn)" by (simp add: drawn_nth(1) [OF assms])
  fix k assume "k < length (subject_list g)"
  then have k: "k < length (drafts g scores)" by (simp add: len)
  have "draft_tests g (subject_list g ! k) (drafts g scores ! k)" using list_all2_nthD2 [OF drafts_follow k] .
  then show "flow_tests g (subject_list g ! k) (map fst drawn ! k)"
    using drawn_nth(2) [OF assms k] k drawn_nth(1) [OF assms] by (auto simp: draft_tests_def)
qed

text \<open>
  C12. A plan covers the discovery graph, with nothing twice and nothing else. When the identifiers of the routes are distinct: every route has
  a smoke flow whose steps are all on that route, with a functional test and the priority of its risk, P0 when its path is a sensitive one;
  every route that requires authentication has an auth-boundary flow of the same priority; when the graph has a route at all, every form
  has a flow, whose test is functional when it has a submit handler and an LLM audit when it has none (a graph without routes has no flows
  for its forms); every endpoint has a contract test. The flows of the plan are in one-to-one correspondence with these subjects and
  the flows the extractors draft: one smoke flow on each route, one boundary flow on each route that requires authentication, one flow for
  each form, on its route, one contract test for each endpoint, one flow for each draft of an extractor, and no other.
\<close>

theorem plan_covers_graph:
  assumes "make_plan new_id flow_id case_id g rm entries run_id url = Some p" "distinct (map ro_id (dg_routes g))"
  shows "(\<forall>r\<in>set (dg_routes g). planned_on p ''route.smoke'' (model_strip (ro_id r)) ''functional'' (expected_priority (rev entries) r)) \<and>
    (\<forall>r\<in>set (dg_routes g). ro_auth_required r \<longrightarrow>
       planned_on p ''route.auth_boundary'' (model_strip (ro_id r)) ''functional'' (expected_priority (rev entries) r)) \<and>
    (dg_routes g \<noteq> [] \<longrightarrow> (\<forall>x\<in>set (dg_forms g). planned_for p ''form.submit'' (model_strip (''form:'' @ fo_id x))
       (if fo_submit_handler x then ''functional'' else ''llm_audit''))) \<and>
    (\<forall>e\<in>set (dg_api_endpoints g). planned_for p ''api.contract'' (model_strip (''endpoint:'' @ en_id e)) ''api'') \<and>
    length (tp_flows p) = length (dg_routes g) + length (filter ro_auth_required (dg_routes g)) +
      (if dg_routes g = [] then 0 else length (dg_forms g)) + length (run_extractors builtin_extractors g) + length (dg_api_endpoints g) \<and>
    rel_mset (flow_tests g) (plan_subjects g) (mset (tp_flows p))"
proof (intro conjI ballI impI)
  fix r assume r: "r \<in> set (dg_routes g)"
  obtain d where "(d, ''functional'') \<in> set (drafts g (rev entries))" "fd_extractor d = ''route.smoke''"
    "fd_priority d = expected_priority (rev entries) r" "list_all (\<lambda>s. fst (snd s) = Some (ro_id r)) (fd_steps d)"
    using route_drafts(1) [OF r] by blast
  then show "planned_on p ''route.smoke'' (model_strip (ro_id r)) ''functional'' (expected_priority (rev entries) r)"
    using planned_onI [OF assms(1) _ _ strip_literals(1)] by metis
next
  fix r assume r: "r \<in> set (dg_routes g)" "ro_auth_required r"
  obtain d where "(d, ''functional'') \<in> set (drafts g (rev entries))" "fd_extractor d = ''route.auth_boundary''"
    "fd_priority d = expected_priority (rev entries) r" "list_all (\<lambda>s. fst (snd s) = Some (ro_id r)) (fd_steps d)"
    using route_drafts(2) [OF r] by blast
  then show "planned_on p ''route.auth_boundary'' (model_strip (ro_id r)) ''functional'' (expected_priority (rev entries) r)"
    using planned_onI [OF assms(1) _ _ strip_literals(2)] by metis
next
  fix x assume "dg_routes g \<noteq> []" "x \<in> set (dg_forms g)"
  then show "planned_for p ''form.submit'' (model_strip (''form:'' @ fo_id x)) (if fo_submit_handler x then ''functional'' else ''llm_audit'')"
    using form_drafts planned_forI [OF assms(1) _ _ strip_literals(3)] by blast
next
  fix e assume "e \<in> set (dg_api_endpoints g)"
  then show "planned_for p ''api.contract'' (model_strip (''endpoint:'' @ en_id e)) ''api''"
    using endpoint_drafts planned_forI [OF assms(1) _ _ strip_literals(4)] by blast
next
  obtain drawn where d: "map (draw flow_id case_id) (enumerate 0 (drafts g (rev entries))) = map Some drawn"
    and flows: "tp_flows p = order_flows (map fst drawn)" by (rule make_planE [OF assms(1)])
  have "size (plan_subjects g) = length drawn"
    unfolding subject_list_mset [OF assms(2), symmetric] using list_all2_lengthD [OF flows_follow [OF d]] by simp
  then show "length (tp_flows p) = length (dg_routes g) + length (filter ro_auth_required (dg_routes g)) +
      (if dg_routes g = [] then 0 else length (dg_forms g)) + length (run_extractors builtin_extractors g) + length (dg_api_endpoints g)"
    by (auto simp: flows plan_subjects_def simp flip: mset_filter)
  show "rel_mset (flow_tests g) (plan_subjects g) (mset (tp_flows p))"
    unfolding subject_list_mset [OF assms(2), symmetric] flows order_flows_mset rel_mset_def using flows_follow [OF d] by blast
qed

lemma model_strip_prefix:
  assumes "\<not> is_model_space c" "model_strip x = x" "x \<noteq> []"
  shows "model_strip (c # a @ x) = c # a @ x"
proof -
  have "x = rev (dropWhile is_model_space (rev (dropWhile is_model_space x)))" using assms(2) by (simp add: model_strip_def)
  then have d: "rev x = dropWhile is_model_space (rev (dropWhile is_model_space x))" by (metis rev_rev_ident)
  then have ne: "dropWhile is_model_space (rev (dropWhile is_model_space x)) \<noteq> []" using assms(3) by (metis rev_is_Nil_conv)
  have "\<not> is_model_space (hd (rev x))" unfolding d by (rule hd_dropWhile [OF ne])
  then have "dropWhile is_model_space (rev x @ y) = rev x @ y" for y using assms(3) by (cases "rev x") auto
  then show ?thesis using assms(1) by (simp add: model_strip_def)
qed

lemma make_plan_drafts_ok:
  assumes "make_plan new_id flow_id case_id g rm entries run_id url = Some p" "(d, t) \<in> set (drafts g (rev entries))"
  shows "draft_ok d"
  using planned_drawn [OF assms] make_flow_fields(9) by blast

text \<open>
  One long path aborts the planning. A route may have a path of 2048 characters, the name of a flow 200: when any path of the
  graph is longer than 193 characters (a page with a query string, say), the smoke flow of the route cannot be built and the planner
  raises for the whole graph.
\<close>

theorem long_path_aborts:
  assumes "r \<in> set (dg_routes g)" "model_strip (ro_path r) = ro_path r" "193 < py_len (ro_path r)"
  shows "make_plan new_id flow_id case_id g rm entries run_id url = None"
proof (rule ccontr)
  assume "make_plan new_id flow_id case_id g rm entries run_id url \<noteq> None"
  then obtain p where p: "make_plan new_id flow_id case_id g rm entries run_id url = Some p" by blast
  let ?d = "smoke_draft r (forms_of_route g (ro_id r)) (classify_route r) (expected_priority (rev entries) r)
    (bucketed_risk (dict_get (rev entries) (ro_id r) 0))"
  have "(?d, ''functional'') \<in> set (route_plan g (rev entries) r)" by (simp add: route_plan_def Let_def expected_priority_bump)
  then have "draft_ok ?d" using make_plan_drafts_ok [OF p] route_draft_in [OF assms(1)] by blast
  then have "py_len (model_strip (''smoke: '' @ ro_path r)) \<le> 200" by (simp add: draft_ok_def smoke_draft_def plan_draft_def bounded_str_def)
  moreover have "ro_path r \<noteq> []" using assms(3) by (auto simp: py_len_def)
  then have "model_strip (''smoke: '' @ ro_path r) = ''smoke: '' @ ro_path r"
    using model_strip_prefix [of "CHR ''s''" "ro_path r" "''moke: ''"] assms(2) by (simp add: is_model_space_def)
  ultimately have "py_len (''smoke: '' @ ro_path r) \<le> 200" by simp
  moreover have "py_len (''smoke: '' @ ro_path r) = py_len ''smoke: '' + py_len (ro_path r)" by (rule py_len_append)
  moreover have "py_len ''smoke: '' = 7" by code_simp
  ultimately show False using assms(3) by simp
qed

text \<open>
  Low confidence does not keep a flow out of the plan. When the graph has a login route and no login form, the flow drafted for the route
  has a confidence below the threshold and is tagged so; it is in the plan all the same, with a functional test to be generated
  and run.
\<close>

theorem low_confidence_planned:
  assumes "make_plan new_id flow_id case_id g rm entries run_id url = Some p"
    and "r \<in> set (dg_routes g)" "route_path_matches r login_path_hints" "\<forall>f\<in>set (dg_forms g). \<not> login_form f"
  shows "\<exists>f\<in>set (tp_flows p). \<exists>c\<in>set (tp_test_cases p). tc_flow_id c = fw_id f \<and> tc_test_type c = ''functional'' \<and>
    fd_confidence f < proposal_threshold \<and> ''confidence_low'' \<in> set (fd_tags f)"
proof -
  have low: "fl (45 / 100) < proposal_threshold" by code_simp
  have "filter login_form (dg_forms g) = []" using assms(4) by (simp add: filter_empty_conv)
  then have "login_route_flow r \<in> set (extract_login g)" using assms(2,3) by (simp add: extract_login_def Let_def)
  then have "login_route_flow r \<in> set (run_extractors builtin_extractors g)" by (simp add: run_extractors_def builtin_extractors_def)
  then have "(login_route_flow r, ''functional'') \<in> set (drafts g (rev entries))" by (force simp: drafts_def test_type_for_extractor_def)
  then obtain f c i where f: "f \<in> set (tp_flows p)" "c \<in> set (tp_test_cases p)" "make_flow i (login_route_flow r) = Some f"
    "tc_flow_id c = fw_id f" "tc_test_type c = ''functional''" using planned_drawn [OF assms(1)] by blast
  have "fd_confidence f < proposal_threshold" using low by (simp add: make_flow_fields(7) [OF f(3)] login_route_flow_def draft_flow_def)
  moreover have "''confidence_low'' \<in> set (fd_tags (login_route_flow r))" using low by (simp add: login_route_flow_def draft_flow_def)
  then have "model_strip ''confidence_low'' \<in> set (fd_tags f)" unfolding make_flow_fields(8) [OF f(3)] by (rule imageI)
  moreover have "model_strip ''confidence_low'' = ''confidence_low''" by code_simp
  ultimately have "fd_confidence f < proposal_threshold" "''confidence_low'' \<in> set (fd_tags f)" by simp_all
  with f show ?thesis by blast
qed

section \<open>Planning succeeds\<close>

definition short_graph :: "discovery_graph \<Rightarrow> bool" where
  "short_graph g \<longleftrightarrow> is_valid_id ''DG'' (model_strip (dg_id g)) \<and> list_all short_route (dg_routes g) \<and>
     list_all (short_role \<circ> rb_required_role) (dg_auth_boundaries g) \<and> list_all (\<lambda>f. length (fo_fields f) \<le> 1000) (dg_forms g) \<and>
     list_all (\<lambda>e. length (en_method e) \<le> 20 \<and> length (en_path e) \<le> 120 \<and> length (en_source e) \<le> 20) (dg_api_endpoints g)"

lemma length_digits_of: "length (digits_of n) \<le> Suc n"
  by (induction n rule: digits_of.induct) (subst digits_of.simps, auto)

lemmas plan_defs = draft_ok_def plan_draft_def opt_text_max_def fl_unit deterministic_confidence_def

lemma role_for_route_short:
  assumes "list_all (short_role \<circ> rb_required_role) (dg_auth_boundaries g)"
  shows "short_role (role_for_route g i)"
proof (cases "find (\<lambda>b. rb_route_id b = i) (dg_auth_boundaries g)")
  case (Some b)
  then have "b \<in> set (dg_auth_boundaries g)" by (metis find_Some_iff nth_mem)
  then show ?thesis using assms Some by (simp add: role_for_route_def list_all_iff)
qed (simp add: role_for_route_def short_role_def)

lemma opt_text_max_role: "short_role x \<Longrightarrow> opt_text_max 64 x"
  by (auto simp: short_role_def opt_text_max_def fine_0 split: option.split)

lemma smoke_draft_ok: "short_route r \<Longrightarrow> length (ro_path r) \<le> 120 \<Longrightarrow> draft_ok (smoke_draft r fs category prio risk)"
  by (simp add: smoke_draft_def plan_defs draft_rules)

lemma auth_boundary_draft_ok:
  assumes "short_route r" "length (ro_path r) \<le> 120" "opt_text_max 64 (role_for_route g (ro_id r))"
  shows "draft_ok (auth_boundary_draft g r category prio risk)"
  using assms fl_unit [of "95 / 100"]
  by (simp add: auth_boundary_draft_def draft_ok_def plan_draft_def deterministic_confidence_def draft_rules) (simp add: opt_text_max_def)

lemma form_draft_ok:
  assumes "short_route r" "length (ro_path r) \<le> 120" "opt_text_max 64 (role_for_route g (ro_id r))" "length (fo_fields f) \<le> 1000"
  shows "draft_ok (form_draft g r category prio risk f)"
proof -
  have "length (str_of_nat (length (fo_fields f))) \<le> 1001" using length_digits_of [of "length (fo_fields f)"] assms(4) by (simp add: str_of_nat_def)
  then show ?thesis using assms fl_unit [of "95 / 100"]
    by (simp add: form_draft_def draft_ok_def plan_draft_def deterministic_confidence_def draft_rules) (simp add: opt_text_max_def)
qed

lemma api_draft_ok:
  "length (en_method e) \<le> 20 \<Longrightarrow> length (en_path e) \<le> 120 \<Longrightarrow> length (en_source e) \<le> 20 \<Longrightarrow> draft_ok (api_draft e)"
  by (simp add: api_draft_def plan_defs draft_rules)

lemma drafts_ok:
  assumes "short_graph g" "(d, t) \<in> set (drafts g scores)"
  shows "draft_ok d"
proof -
  have r: "list_all short_route (dg_routes g)" and b: "list_all (short_role \<circ> rb_required_role) (dg_auth_boundaries g)"
    and f: "f \<in> set (dg_forms g) \<Longrightarrow> length (fo_fields f) \<le> 1000"
    and e: "x \<in> set (dg_api_endpoints g) \<Longrightarrow> draft_ok (api_draft x)" for f x
    using assms(1) api_draft_ok by (auto simp: short_graph_def list_all_iff)
  note role = opt_text_max_role [OF role_for_route_short [OF b]]
  have route: "draft_ok d" if "x \<in> set (dg_routes g)" "(d, t) \<in> set (route_plan g scores x)" for x
  proof -
    have x: "short_route x" "length (ro_path x) \<le> 120" using r that(1) by (auto simp: list_all_iff short_route_def)
    have "f \<in> set (forms_of_route g i) \<Longrightarrow> length (fo_fields f) \<le> 1000" for f i using f by (auto simp: forms_of_route_def split: if_splits)
    then show ?thesis
      using that(2) smoke_draft_ok [OF x] auth_boundary_draft_ok [OF x role] form_draft_ok [OF x role]
      by (auto simp: route_plan_def Let_def split: if_splits)
  qed
  have ext: "draft_ok d" if "d \<in> set (run_extractors builtin_extractors g)" by (rule run_extractors_ok [OF r b that])
  show ?thesis using assms(2) route ext e by (auto simp: drafts_def sorted_endpoints_def)
qed

lemma those_all: "None \<notin> set xs \<Longrightarrow> \<exists>ys. those xs = Some ys"
proof (induction xs)
  case (Cons x xs)
  then show ?case by (cases x) auto
qed simp

lemma make_plan_succeeds:
  assumes "short_graph g" "\<forall>k<length (drafts g (rev entries)). is_valid_id ''FLW'' (model_strip (flow_id k)) \<and> is_valid_id ''TC'' (model_strip (case_id k))"
    and "is_valid_id ''PLN'' (model_strip (new_id ''PLN''))" "is_valid_id ''RUN'' (model_strip run_id)" "is_valid_id ''RM'' (model_strip rm)"
    and "bounded_str 1 2048 (model_strip url)"
  shows "\<exists>p. make_plan new_id flow_id case_id g rm entries run_id url = Some p"
proof -
  let ?D = "drafts g (rev entries)"
  have "draw flow_id case_id (k, d, t) \<noteq> None" if "(k, d, t) \<in> set (enumerate 0 ?D)" for k d t
  proof -
    have k: "k < length ?D" "?D ! k = (d, t)" using that by (auto simp: in_set_enumerate_eq)
    then have "draft_ok d" using drafts_ok [OF assms(1)] by (metis nth_mem)
    then show ?thesis using assms(2) k(1) by (simp add: draw_def make_flow_def make_case_def)
  qed
  then have "draw flow_id case_id x \<noteq> None" if "x \<in> set (enumerate 0 ?D)" for x using that by (cases x) blast
  then have "None \<notin> set (map (draw flow_id case_id) (enumerate 0 ?D))" by (simp add: image_iff) (metis option.discI)
  then obtain drawn where "those (map (draw flow_id case_id) (enumerate 0 ?D)) = Some drawn" using those_all by blast
  moreover have "is_valid_id ''DG'' (model_strip (dg_id g))" using assms(1) by (simp add: short_graph_def)
  ultimately show ?thesis using assms(3-6) by (simp add: make_plan_def Let_def)
qed

section \<open>A sample\<close>

definition sample_graph :: discovery_graph where
  "sample_graph = \<lparr>dg_id = ''DG-AAAAAAAAAAAA'',
     dg_routes = [\<lparr>ro_id = ''RT-AAAAAAAAAAAA'', ro_path = ''/login'', ro_auth_required = False\<rparr>,
                  \<lparr>ro_id = ''RT-BBBBBBBBBBBB'', ro_path = ''/a'', ro_auth_required = True\<rparr>],
     dg_forms = [\<lparr>fo_id = ''FRM-AAAAAAAAAAAA'', fo_action = Some (Some ''/a''), fo_fields = [\<lparr>ff_name = ''q'', ff_type = ''text''\<rparr>],
                   fo_submit_handler = False\<rparr>],
     dg_api_endpoints = [\<lparr>en_id = ''API-AAAAAAAAAAAA'', en_method = ''GET'', en_path = ''/api'', en_auth_strategy = ''none'', en_source = ''discovered''\<rparr>],
     dg_auth_boundaries = []\<rparr>"

definition sample_flow_id :: "nat \<Rightarrow> string" where
  "sample_flow_id k = ''FLW-AAAAAAAAAAA'' @ [if k < 6 then ''ABCDEF'' ! k else CHR ''Z'']"

definition sample_case_id :: "nat \<Rightarrow> string" where
  "sample_case_id k = ''TC-AAAAAAAAAAA'' @ [if k < 6 then ''ABCDEF'' ! k else CHR ''Z'']"

definition sample_risks :: "(string \<times> flt) list" where
  "sample_risks = [(''RT-AAAAAAAAAAAA'', 9 / 10), (''RT-BBBBBBBBBBBB'', 1 / 2)]"

definition sample_plan :: "test_plan option" where
  "sample_plan = make_plan (\<lambda>p. p @ ''-AAAAAAAAAAAA'') sample_flow_id sample_case_id sample_graph ''RM-AAAAAAAAAAAA''
     sample_risks ''RUN-AAAAAAAAAAAA'' ''http://h''"

lemma sample_drafts: "length (drafts sample_graph (rev sample_risks)) = 6"
  by code_simp

lemma sample_plan_ids:
  "list_all (\<lambda>k. is_valid_id ''FLW'' (model_strip (sample_flow_id k)) \<and> is_valid_id ''TC'' (model_strip (sample_case_id k))) [0..<6]"
  "distinct (map (\<lambda>k. model_strip (sample_flow_id k)) [0..<6])"
  by code_simp+

lemma sample_graph_short: "short_graph sample_graph"
  by code_simp

lemma sample_other_ids:
  "is_valid_id ''PLN'' (model_strip (''PLN'' @ ''-AAAAAAAAAAAA'')) \<and> is_valid_id ''RUN'' (model_strip ''RUN-AAAAAAAAAAAA'') \<and>
     is_valid_id ''RM'' (model_strip ''RM-AAAAAAAAAAAA'') \<and> bounded_str 1 2048 (model_strip ''http://h'')"
  by code_simp

lemma sample_flow_ids_distinct: "inj_on (\<lambda>k. model_strip (sample_flow_id k)) {..<length (drafts sample_graph (rev sample_risks))}"
  using sample_plan_ids(2) unfolding sample_drafts distinct_map by (simp add: lessThan_atLeast0)

lemma sample_draws:
  "\<forall>k<length (drafts sample_graph (rev sample_risks)). is_valid_id ''FLW'' (model_strip (sample_flow_id k)) \<and> is_valid_id ''TC'' (model_strip (sample_case_id k))"
proof (intro allI impI)
  fix k assume "k < length (drafts sample_graph (rev sample_risks))"
  then have "k \<in> set [0..<6]" unfolding sample_drafts by simp
  then show "is_valid_id ''FLW'' (model_strip (sample_flow_id k)) \<and> is_valid_id ''TC'' (model_strip (sample_case_id k))"
    using sample_plan_ids(1) [unfolded list_all_iff] by blast
qed

lemma sample_plan_some: obtains p where "sample_plan = Some p"
  using make_plan_succeeds [OF sample_graph_short sample_draws, of "\<lambda>p. p @ ''-AAAAAAAAAAAA''" "''RUN-AAAAAAAAAAAA''" "''RM-AAAAAAAAAAAA''" "''http://h''"]
    sample_other_ids unfolding sample_plan_def by blast

text \<open>
  C27. The planner succeeds on every graph of short texts. When the paths of the routes and endpoints have at most 120 bytes, the roles at
  most 64, the forms at most 1000 fields, and the identifiers drawn are valid, no entity of the plan fails its validation and the
  planner returns a plan.
\<close>

theorem short_graph_planned:
  assumes "short_graph g"
    and "\<forall>k<length (drafts g (rev entries)). is_valid_id ''FLW'' (model_strip (flow_id k)) \<and> is_valid_id ''TC'' (model_strip (case_id k))"
    and "is_valid_id ''PLN'' (model_strip (new_id ''PLN''))" "is_valid_id ''RUN'' (model_strip run_id)" "is_valid_id ''RM'' (model_strip rm)"
    and "bounded_str 1 2048 (model_strip url)"
  shows "\<exists>p. make_plan new_id flow_id case_id g rm entries run_id url = Some p"
  using assms by (rule make_plan_succeeds)

theorem short_graph_planned_witness: "\<exists>p. sample_plan = Some p"
  using short_graph_planned [OF sample_graph_short sample_draws, of "\<lambda>p. p @ ''-AAAAAAAAAAAA''" "''RUN-AAAAAAAAAAAA''" "''RM-AAAAAAAAAAAA''" "''http://h''"]
    sample_other_ids unfolding sample_plan_def by blast

theorem plan_is_consistent_witness:
  "\<exists>p. sample_plan = Some p \<and> map tc_flow_id (tp_test_cases p) = map fw_id (tp_flows p) \<and> tp_total p = length (tp_flows p)"
proof -
  obtain p where p: "sample_plan = Some p" by (rule sample_plan_some)
  from plan_is_consistent [OF p [unfolded sample_plan_def] sample_flow_ids_distinct] p show ?thesis by blast
qed

theorem plan_covers_graph_witness:
  "\<exists>p. sample_plan = Some p \<and> planned_for p ''form.submit'' (model_strip ''form:FRM-AAAAAAAAAAAA'') ''llm_audit'' \<and>
     rel_mset (flow_tests sample_graph) (plan_subjects sample_graph) (mset (tp_flows p))"
proof -
  obtain p where p: "sample_plan = Some p" by (rule sample_plan_some)
  have d: "distinct (map ro_id (dg_routes sample_graph))" by (simp add: sample_graph_def)
  have "dg_routes sample_graph \<noteq> []" by (simp add: sample_graph_def)
  then have "\<forall>x\<in>set (dg_forms sample_graph). planned_for p ''form.submit'' (model_strip (''form:'' @ fo_id x))
      (if fo_submit_handler x then ''functional'' else ''llm_audit'')"
    using plan_covers_graph [OF p [unfolded sample_plan_def] d] by blast
  then have "planned_for p ''form.submit'' (model_strip ''form:FRM-AAAAAAAAAAAA'') ''llm_audit''" by (simp add: sample_graph_def)
  moreover have "rel_mset (flow_tests sample_graph) (plan_subjects sample_graph) (mset (tp_flows p))"
    using plan_covers_graph [OF p [unfolded sample_plan_def] d] by blast
  ultimately show ?thesis using p by blast
qed

theorem low_confidence_planned_witness:
  "\<exists>p. sample_plan = Some p \<and> (\<exists>f\<in>set (tp_flows p). ''confidence_low'' \<in> set (fd_tags f))"
proof -
  obtain p where p: "sample_plan = Some p" by (rule sample_plan_some)
  have r: "hd (dg_routes sample_graph) \<in> set (dg_routes sample_graph)" by (simp add: sample_graph_def)
  have "route_path_matches (hd (dg_routes sample_graph)) login_path_hints" "list_all (\<lambda>f. \<not> login_form f) (dg_forms sample_graph)" by code_simp+
  then show ?thesis using low_confidence_planned [OF p [unfolded sample_plan_def] r] p by (auto simp: list_all_iff)
qed

definition long_graph :: discovery_graph where
  "long_graph = sample_graph\<lparr>dg_routes := [\<lparr>ro_id = ''RT-AAAAAAAAAAAA'', ro_path = CHR ''/'' # replicate 193 CHR ''a'', ro_auth_required = False\<rparr>]\<rparr>"

theorem long_path_aborts_witness:
  "make_plan (\<lambda>p. p @ ''-AAAAAAAAAAAA'') sample_flow_id sample_case_id long_graph ''RM-AAAAAAAAAAAA'' [] ''RUN-AAAAAAAAAAAA'' ''http://h'' = None"
proof (rule long_path_aborts)
  show "hd (dg_routes long_graph) \<in> set (dg_routes long_graph)" by (simp add: long_graph_def)
  show "model_strip (ro_path (hd (dg_routes long_graph))) = ro_path (hd (dg_routes long_graph))" by code_simp
  show "193 < py_len (ro_path (hd (dg_routes long_graph)))" by code_simp
qed

end
