(* ===== verification/Sarif.thy ===== *)
theory Sarif
  imports Domain Url
begin

text \<open>
  SARIF (\<open>engine/reporter/sarif_rules.py\<close>, \<open>sarif_writer.py\<close>): the registry of rules, keyed by category, and the document built from the findings of a
  run. A document is the record of what the writer puts in it; the constants of the format are left out. A finding carries its three taxonomy
  identifiers here.
\<close>

section \<open>Rules\<close>

record sarif_rule =
  sr_id :: string
  sr_name :: string
  sr_short :: string
  sr_full :: string
  sr_help :: string
  sr_category :: string
  sr_level :: string

type_synonym sarif_registry = "(string, sarif_rule) dict"

text \<open>\<open>None\<close> is the \<open>ValueError\<close> of a category registered twice.\<close>

definition sarif_register :: "sarif_rule \<Rightarrow> sarif_registry \<Rightarrow> sarif_registry option" where
  "sarif_register rule reg = (if map_of reg (sr_category rule) \<noteq> None then None else Some (reg @ [(sr_category rule, rule)]))"

definition known_categories :: "sarif_registry \<Rightarrow> string list" where
  "known_categories reg = sort (map fst reg)"

definition sarif_help_base :: string where
  "sarif_help_base = ''https://docs.sentinelqa.dev/rules/''"

definition canonical_category :: "string \<Rightarrow> string" where
  "canonical_category category = py_upper (replace_char CHR ''_'' ''-'' (replace_char CHR ''/'' ''-'' category))"

definition synthesize :: "string \<Rightarrow> sarif_rule" where
  "synthesize category =
     (let canonical = canonical_category category; rid = ''GEN-'' @ canonical in
      \<lparr>sr_id = rid, sr_name = (if canonical = [] then ''UnknownRule'' else canonical),
       sr_short = ''Unregistered SentinelQA rule '' @ py_repr category @ ''.'',
       sr_full = ''No SARIF rule has been registered for category '' @ py_repr category @ '' yet. '' @
         ''This is a placeholder synthesized by Phase 03'' @ [CHR 0x27] @ ''s SARIF writer; '' @
         ''later phases will register a real rule before they emit findings.'',
       sr_help = sarif_help_base @ rid, sr_category = category, sr_level = ''warning''\<rparr>)"

definition sarif_get :: "sarif_registry \<Rightarrow> string \<Rightarrow> sarif_rule" where
  "sarif_get reg category = (case map_of reg category of Some r \<Rightarrow> r | None \<Rightarrow> synthesize category)"

section \<open>The document\<close>

record tagged_finding = finding +
  tf_cwe :: "string option"
  tf_attack :: "string option"
  tf_owasp :: "string option"

record sarif_taxonomy =
  sx_name :: string
  sx_uri :: string
  sx_short :: string
  sx_taxa :: "(string \<times> string) list"

record sarif_result =
  sq_rule_id :: string
  sq_rule_index :: nat
  sq_level :: string
  sq_message :: string
  sq_uri :: string
  sq_line :: "nat option"
  sq_selector :: "string option"
  sq_confidence :: flt
  sq_severity :: severity
  sq_category :: string
  sq_module :: string
  sq_finding_id :: string
  sq_evidence :: "evidence list"
  sq_taxa :: "(string \<times> nat \<times> string) list"
  sq_tags :: "string option list"

record sarif_document =
  sd_run_id :: string
  sd_rules :: "sarif_rule list"
  sd_supported :: "string list"
  sd_results :: "sarif_result list"
  sd_taxonomies :: "sarif_taxonomy list"

fun severity_to_level :: "severity \<Rightarrow> string" where
  "severity_to_level Critical = ''error''"
| "severity_to_level High = ''error''"
| "severity_to_level Medium = ''warning''"
| "severity_to_level Low = ''note''"
| "severity_to_level Info = ''note''"

definition taxa_cwe_name :: string where
  "taxa_cwe_name = ''CWE''"

definition taxa_attack_name :: string where
  "taxa_attack_name = ''MITRE-ATTACK''"

definition taxa_owasp_name :: string where
  "taxa_owasp_name = ''OWASP-API-Top10-2023''"

definition taxa_owasp_uri :: string where
  "taxa_owasp_uri = ''https://owasp.org/API-Security/editions/2023/en/0x11-t10/''"

definition cwe_help_uri :: "string \<Rightarrow> string" where
  "cwe_help_uri cwe =
     ''https://cwe.mitre.org/data/definitions/'' @ (if py_startswith cwe ''CWE-'' then drop 4 cwe else cwe) @ ''.html''"

definition attack_help_uri :: "string \<Rightarrow> string" where
  "attack_help_uri attack =
     (case cut_at CHR ''.'' attack of (base, sub) \<Rightarrow>
        if sub \<noteq> [] then ''https://attack.mitre.org/techniques/'' @ base @ ''/'' @ sub @ ''/''
        else ''https://attack.mitre.org/techniques/'' @ base @ ''/'')"

text \<open>The identifiers that are set, \<open>sorted({...})\<close>: an empty one counts as none.\<close>

definition set_ids :: "('f \<Rightarrow> string option) \<Rightarrow> 'f list \<Rightarrow> string list" where
  "set_ids tag fs = sort (dedup (List.map_filter (\<lambda>f. case tag f of Some x \<Rightarrow> if x \<noteq> [] then Some x else None | None \<Rightarrow> None) fs))"

text \<open>The position of an entry in a list without repetitions; the dictionary the code builds by enumerating it.\<close>

fun position :: "'a \<Rightarrow> 'a list \<Rightarrow> nat option" where
  "position x [] = None"
| "position x (y # ys) = (if x = y then Some 0 else map_option Suc (position x ys))"

definition build_taxonomies :: "string list \<Rightarrow> string list \<Rightarrow> string list \<Rightarrow> sarif_taxonomy list" where
  "build_taxonomies cwes attacks owasps =
     (if cwes = [] \<and> attacks = [] \<and> owasps = [] then []
      else [\<lparr>sx_name = taxa_cwe_name, sx_uri = ''https://cwe.mitre.org'', sx_short = ''Common Weakness Enumeration'', sx_taxa = map (\<lambda>i. (i, cwe_help_uri i)) cwes\<rparr>,
            \<lparr>sx_name = taxa_attack_name, sx_uri = ''https://attack.mitre.org'', sx_short = ''MITRE ATT&CK technique catalog'', sx_taxa = map (\<lambda>i. (i, attack_help_uri i)) attacks\<rparr>,
            \<lparr>sx_name = taxa_owasp_name, sx_uri = taxa_owasp_uri, sx_short = ''OWASP API Security Top-10 (2023)'', sx_taxa = map (\<lambda>i. (i, taxa_owasp_uri)) owasps\<rparr>])"

definition taxa_reference :: "string \<Rightarrow> string list \<Rightarrow> string option \<Rightarrow> (string \<times> nat \<times> string) list" where
  "taxa_reference name ids tag =
     (case tag of None \<Rightarrow> []
      | Some x \<Rightarrow> if x = [] then [] else (case position x ids of None \<Rightarrow> [] | Some i \<Rightarrow> [(x, i, name)]))"

text \<open>The address of a location: \<open>run_url\<close> is the base URL of the run; \<open>None\<close> is a URL that cannot be parsed.\<close>

definition location_uri :: "string \<Rightarrow> finding_location \<Rightarrow> string option" where
  "location_uri run_url l =
     (case loc_file l of Some (c # cs) \<Rightarrow> Some (c # cs)
      | _ \<Rightarrow> (case loc_route l of
            Some (c # cs) \<Rightarrow>
              Some (rev (dropWhile (\<lambda>x. x = CHR ''/'') (rev run_url)) @ (if c = CHR ''/'' then c # cs else ''/'' @ c # cs))
          | _ \<Rightarrow> map_option (\<lambda>host. fst (split_scheme [] (url_clean run_url)) @ ''://'' @ (if host = [] then ''localhost'' else host) @ ''/'') (url_hostname run_url)))"

definition finding_message :: "'a finding_scheme \<Rightarrow> string" where
  "finding_message f =
     (let title = py_strip (f_title f); description = py_strip (f_description f) in
      if description \<noteq> [] then title @ [newline, newline] @ description else title)"

definition finding_result ::
  "string \<Rightarrow> string list \<Rightarrow> string list \<Rightarrow> string list \<Rightarrow> sarif_rule \<Rightarrow> nat \<Rightarrow> tagged_finding \<Rightarrow> sarif_result option" where
  "finding_result run_url cwes attacks owasps rule i f =
     map_option (\<lambda>uri.
         \<lparr>sq_rule_id = sr_id rule, sq_rule_index = i, sq_level = severity_to_level (f_severity f), sq_message = finding_message f, sq_uri = uri,
          sq_line = map_option (max 1) (loc_line (f_location f)),
          sq_selector = (case loc_selector (f_location f) of Some (c # cs) \<Rightarrow> Some (c # cs) | _ \<Rightarrow> None),
          sq_confidence = round_to 4 (f_confidence f), sq_severity = f_severity f, sq_category = f_category f, sq_module = f_module f,
          sq_finding_id = f_id f, sq_evidence = f_evidence f,
          sq_taxa = taxa_reference taxa_cwe_name cwes (tf_cwe f) @ taxa_reference taxa_attack_name attacks (tf_attack f) @
            taxa_reference taxa_owasp_name owasps (tf_owasp f),
          sq_tags = map (\<lambda>t. if t = Some [] then None else t) [tf_cwe f, tf_attack f, tf_owasp f]\<rparr>)
       (location_uri run_url (f_location f))"

text \<open>The outer \<open>None\<close> is the \<open>KeyError\<close> of a category whose rule is filed under another one.\<close>

definition build_sarif_document :: "sarif_registry \<Rightarrow> string \<Rightarrow> string \<Rightarrow> tagged_finding list \<Rightarrow> sarif_document option" where
  "build_sarif_document reg run_id run_url fs =
     (let categories = sort (dedup (map f_category fs));
          rules = map (sarif_get reg) categories;
          cwes = set_ids tf_cwe fs; attacks = set_ids tf_attack fs; owasps = set_ids tf_owasp fs;
          taxonomies = build_taxonomies cwes attacks owasps;
          index_of = map_of (rev (zip (map sr_category rules) [0..<length rules]))
      in map_option (\<lambda>results.
           \<lparr>sd_run_id = run_id, sd_rules = rules, sd_supported = map sx_name (filter (\<lambda>t. sx_taxa t \<noteq> []) taxonomies), sd_results = results,
            sd_taxonomies = taxonomies\<rparr>)
         (those (map (\<lambda>f. Option.bind (index_of (f_category f)) (\<lambda>i. finding_result run_url cwes attacks owasps (sarif_get reg (f_category f)) i f)) fs)))"

section \<open>References resolve\<close>

definition filed :: "sarif_registry \<Rightarrow> bool" where
  "filed reg \<longleftrightarrow> (\<forall>c r. map_of reg c = Some r \<longrightarrow> sr_category r = c)"

lemma filed_register: "filed reg \<Longrightarrow> sarif_register rule reg = Some reg' \<Longrightarrow> filed reg'"
  by (auto simp: filed_def sarif_register_def map_add_def split: if_splits option.splits)

lemma filed_get: "filed reg \<Longrightarrow> sr_category (sarif_get reg c) = c"
  by (auto simp: filed_def sarif_get_def synthesize_def Let_def split: option.split)

lemma position_Some: "position x ys = Some i \<Longrightarrow> i < length ys \<and> ys ! i = x"
  by (induction ys arbitrary: i) (auto split: if_splits)

lemma taxa_reference_resolves:
  assumes "(x, i, n) \<in> set (taxa_reference name ids tag)"
  shows "n = name \<and> tag = Some x \<and> x \<noteq> [] \<and> i < length ids \<and> ids ! i = x"
  using assms position_Some [of x ids i] by (auto simp: taxa_reference_def split: option.splits if_splits)

lemma index_of_nth:
  assumes "distinct cs" "map_of (rev (zip cs [0..<length cs])) c = Some i"
  shows "i < length cs \<and> cs ! i = c"
proof -
  have "(c, i) \<in> set (rev (zip cs [0..<length cs]))" using assms(2) by (rule map_of_SomeD)
  then show ?thesis by (auto simp: set_zip)
qed

definition resolves :: "sarif_document \<Rightarrow> sarif_result \<Rightarrow> bool" where
  "resolves d r \<longleftrightarrow> sq_rule_index r < length (sd_rules d) \<and> sr_id (sd_rules d ! sq_rule_index r) = sq_rule_id r \<and>
     sr_category (sd_rules d ! sq_rule_index r) = sq_category r \<and>
     list_all (\<lambda>(x, i, n). list_ex (\<lambda>t. sx_name t = n \<and> i < length (sx_taxa t) \<and> fst (sx_taxa t ! i) = x) (sd_taxonomies d)) (sq_taxa r)"


lemma taxonomy_of:
  assumes "(x, i, n) \<in> set (taxa_reference taxa_cwe_name cwes t1 @ taxa_reference taxa_attack_name attacks t2 @ taxa_reference taxa_owasp_name owasps t3)"
  shows "list_ex (\<lambda>t. sx_name t = n \<and> i < length (sx_taxa t) \<and> fst (sx_taxa t ! i) = x) (build_taxonomies cwes attacks owasps)"
proof -
  consider "(x, i, n) \<in> set (taxa_reference taxa_cwe_name cwes t1)" | "(x, i, n) \<in> set (taxa_reference taxa_attack_name attacks t2)"
    | "(x, i, n) \<in> set (taxa_reference taxa_owasp_name owasps t3)" using assms by auto
  then show ?thesis
  proof cases
    case 1
    note r = taxa_reference_resolves [OF 1]
    then have "cwes \<noteq> []" by auto
    with r show ?thesis by (simp add: build_taxonomies_def)
  next
    case 2
    note r = taxa_reference_resolves [OF 2]
    then have "attacks \<noteq> []" by auto
    with r show ?thesis by (simp add: build_taxonomies_def)
  next
    case 3
    note r = taxa_reference_resolves [OF 3]
    then have "owasps \<noteq> []" by auto
    with r show ?thesis by (simp add: build_taxonomies_def)
  qed
qed

lemma finding_result_fields:
  assumes "finding_result run_url cwes attacks owasps rule i f = Some r"
  shows "sq_finding_id r = f_id f" "sq_category r = f_category f" "sq_rule_index r = i" "sq_rule_id r = sr_id rule"
    "sq_taxa r = taxa_reference taxa_cwe_name cwes (tf_cwe f) @ taxa_reference taxa_attack_name attacks (tf_attack f) @
      taxa_reference taxa_owasp_name owasps (tf_owasp f)"
  using assms by (auto simp: finding_result_def)

lemma those_nth: "those xs = Some ys \<Longrightarrow> length ys = length xs \<and> (\<forall>k<length xs. xs ! k = Some (ys ! k))"
proof (induction xs arbitrary: ys)
  case (Cons x xs)
  then obtain y zs where y: "x = Some y" "those xs = Some zs" "ys = y # zs" by (auto split: option.splits)
  then show ?case using Cons.IH [OF y(2)] by (auto simp: nth_Cons split: nat.split)
qed simp

lemma position_in: "x \<in> set ys \<Longrightarrow> position x ys \<noteq> None"
  by (induction ys) auto

lemma in_set_ids: "f \<in> set fs \<Longrightarrow> tag f = Some x \<Longrightarrow> x \<noteq> [] \<Longrightarrow> x \<in> set (set_ids tag fs)"
  unfolding set_ids_def set_sort set_dedup by (induction fs) (auto simp: map_filter_simps split: option.split)

lemma tag_referenced:
  assumes "f \<in> set fs" "tag f = Some x" "x \<noteq> []"
  shows "x \<in> fst ` set (taxa_reference name (set_ids tag fs) (tag f))"
proof -
  obtain i where "position x (set_ids tag fs) = Some i" using position_in [OF in_set_ids [of f fs tag x, OF assms]] by blast
  then show ?thesis by (simp add: taxa_reference_def assms(2,3))
qed

text \<open>
  C30. Every reference in a SARIF document resolves. When every rule of the registry is filed under its own category (as registering keeps it), the
  document has one result for each finding, in order; its rule index points at a rule of the document with the identifier the result names and the
  category of the finding; each of its taxonomy references points at the entry of that identifier in a taxonomy of the document; and the
  CWE, ATT&CK and OWASP identifiers that the finding has are among them.
\<close>

theorem sarif_references_resolve:
  assumes "filed reg" "build_sarif_document reg run_id run_url fs = Some d"
  shows "length (sd_results d) = length fs \<and> (\<forall>k<length fs. sq_finding_id (sd_results d ! k) = f_id (fs ! k) \<and>
    sq_category (sd_results d ! k) = f_category (fs ! k) \<and> resolves d (sd_results d ! k) \<and>
    (\<forall>tag\<in>{tf_cwe, tf_attack, tf_owasp}. \<forall>x. tag (fs ! k) = Some x \<and> x \<noteq> [] \<longrightarrow> x \<in> fst ` set (sq_taxa (sd_results d ! k))))"
proof -
  let ?cs = "sort (dedup (map f_category fs))" and ?cwes = "set_ids tf_cwe fs" and ?attacks = "set_ids tf_attack fs" and ?owasps = "set_ids tf_owasp fs"
  let ?rules = "map (sarif_get reg) ?cs"
  let ?index = "map_of (rev (zip (map sr_category ?rules) [0..<length ?rules]))"
  let ?result = "\<lambda>f. Option.bind (?index (f_category f)) (\<lambda>i. finding_result run_url ?cwes ?attacks ?owasps (sarif_get reg (f_category f)) i f)"
  obtain rs where rs: "those (map ?result fs) = Some rs" and d: "d = \<lparr>sd_run_id = run_id, sd_rules = ?rules,
      sd_supported = map sx_name (filter (\<lambda>t. sx_taxa t \<noteq> []) (build_taxonomies ?cwes ?attacks ?owasps)), sd_results = rs,
      sd_taxonomies = build_taxonomies ?cwes ?attacks ?owasps\<rparr>"
    using assms(2) unfolding build_sarif_document_def Let_def by blast
  have cats: "map sr_category ?rules = ?cs" using filed_get [OF assms(1)] by (simp add: map_idI)
  have dist: "distinct ?cs" by simp
  have len: "length rs = length fs" using those_nth [OF rs] by simp
  have one: "sq_finding_id (rs ! k) = f_id (fs ! k) \<and> sq_category (rs ! k) = f_category (fs ! k) \<and> resolves d (rs ! k) \<and>
      (\<forall>tag\<in>{tf_cwe, tf_attack, tf_owasp}. \<forall>x. tag (fs ! k) = Some x \<and> x \<noteq> [] \<longrightarrow> x \<in> fst ` set (sq_taxa (rs ! k)))" if k: "k < length fs" for k
  proof -
    have "?result (fs ! k) = Some (rs ! k)" using those_nth [OF rs] k by simp
    then obtain i where i: "?index (f_category (fs ! k)) = Some i"
      "finding_result run_url ?cwes ?attacks ?owasps (sarif_get reg (f_category (fs ! k))) i (fs ! k) = Some (rs ! k)"
      by (auto simp: bind_eq_Some_conv)
    have n: "i < length ?cs" "?cs ! i = f_category (fs ! k)"
      using index_of_nth [OF dist, of "f_category (fs ! k)" i] i(1) unfolding cats length_map by simp_all
    define r where "r = rs ! k"
    note r = finding_result_fields [OF i(2), folded r_def]
    have "list_all (\<lambda>(x, i, n). list_ex (\<lambda>t. sx_name t = n \<and> i < length (sx_taxa t) \<and> fst (sx_taxa t ! i) = x)
        (build_taxonomies ?cwes ?attacks ?owasps)) (sq_taxa r)"
      unfolding list_all_iff r(5) by (auto dest!: taxonomy_of simp del: set_append)
    then have "resolves d r"
      using n filed_get [OF assms(1), of "f_category (fs ! k)"] by (simp add: resolves_def d r(2-4))
    moreover have "fs ! k \<in> set fs" using k by simp
    then have "x \<in> fst ` set (sq_taxa r)" if "tag \<in> {tf_cwe, tf_attack, tf_owasp}" "tag (fs ! k) = Some x" "x \<noteq> []" for tag x
      using that tag_referenced [of "fs ! k" fs tag x] unfolding r(5) set_append image_Un by blast
    ultimately show ?thesis using r(1,2) unfolding r_def by blast
  qed
  then show ?thesis using len by (simp add: d)
qed


section \<open>Witnesses\<close>

definition sample_tagged :: "string \<Rightarrow> string \<Rightarrow> tagged_finding" where
  "sample_tagged category cwe =
     \<lparr>f_id = ''FND-AAAAAAAAAAAA'', f_run_id = ''RUN-AAAAAAAAAAAA'', f_module = ''security'', f_category = category, f_severity = High,
      f_confidence = 1, f_title = ''t'', f_description = ''d'', f_location = \<lparr>loc_route = Some ''/'', loc_selector = None, loc_file = None, loc_line = None\<rparr>,
      f_evidence = [], f_reproduction_steps = [], f_affected_target = None, f_recommendation = None, f_created_at = 0,
      tf_cwe = Some cwe, tf_attack = None, tf_owasp = None\<rparr>"

definition sample_findings :: "tagged_finding list" where
  "sample_findings = [sample_tagged ''security/b'' ''CWE-79'', sample_tagged ''security/a'' ''CWE-693'', sample_tagged ''security/b'' ''CWE-693'']"

lemma sample_sarif: "\<exists>d. build_sarif_document [] ''RUN-AAAAAAAAAAAA'' ''https://h'' sample_findings = Some d"
proof -
  have "build_sarif_document [] ''RUN-AAAAAAAAAAAA'' ''https://h'' sample_findings \<noteq> None" by code_simp
  then show ?thesis by blast
qed

lemma sarif_references_resolve_witness:
  "\<exists>d. build_sarif_document [] ''RUN-AAAAAAAAAAAA'' ''https://h'' sample_findings = Some d \<and> length (sd_results d) = 3 \<and>
    resolves d (sd_results d ! 1) \<and> ''CWE-693'' \<in> fst ` set (sq_taxa (sd_results d ! 1))"
proof -
  obtain d where d: "build_sarif_document [] ''RUN-AAAAAAAAAAAA'' ''https://h'' sample_findings = Some d" using sample_sarif by blast
  have "filed []" by (simp add: filed_def)
  note t = sarif_references_resolve [OF this d]
  have "length sample_findings = 3" "tf_cwe (sample_findings ! 1) = Some ''CWE-693''" by (simp_all add: sample_findings_def sample_tagged_def)
  then show ?thesis using d t by (intro exI [of _ d]) auto
qed

end
