(* ===== verification/Secrules.thy ===== *)
theory Secrules
  imports Sarif Redaction
begin

text \<open>
  The catalogue of the security module (\<open>modules/security/rules.py\<close>), its taxonomy (\<open>cwe_mapping.py\<close>), the issues of its checks
  (\<open>models.py\<close>) and the findings made of them (\<open>findings.py\<close>).
\<close>

section \<open>The catalogue\<close>

record security_rule =
  ru_id :: string
  ru_category :: string
  ru_name :: string
  ru_title :: string
  ru_description :: string
  ru_recommendation :: string
  ru_level :: string

definition header_rules :: "security_rule list" where
  "header_rules =
    [\<lparr>ru_id = ''SEC-HEADERS-HSTS-MISSING'', ru_category = ''security/headers/hsts_missing'', ru_name = ''HstsMissing'',
      ru_title = ''Strict-Transport-Security header missing on HTTPS endpoint'',
      ru_description =
        ''The Strict-Transport-Security response header was not present on an HTTPS route. Without HSTS, an '' @
        ''active network attacker can downgrade subsequent requests to HTTP and intercept them. OWASP '' @
        ''recommends a max-age of at least 31536000 seconds.'',
      ru_recommendation =
        ''Send `Strict-Transport-Security: max-age=31536000; includeSubDomains` on every HTTPS response '' @
        ''(preload eligibility optional).'',
      ru_level = ''error''\<rparr>,
     \<lparr>ru_id = ''SEC-HEADERS-CSP-MISSING'', ru_category = ''security/headers/csp_missing'', ru_name = ''ContentSecurityPolicyMissing'',
      ru_title = ''Content-Security-Policy header missing'',
      ru_description =
        ''No Content-Security-Policy header was returned. CSP is the primary defence against XSS by '' @
        ''restricting the sources of executable script. Missing CSP is a high-impact gap for any endpoint that '' @ ''accepts user input.'',
      ru_recommendation =
        ''Return a Content-Security-Policy that at minimum sets `default-src 'self'` and locks down `script-src`.'',
      ru_level = ''error''\<rparr>,
     \<lparr>ru_id = ''SEC-HEADERS-CSP-UNSAFE-INLINE'', ru_category = ''security/headers/csp_unsafe_inline'', ru_name = ''ContentSecurityPolicyUnsafeInline'',
      ru_title = ''Content-Security-Policy permits unsafe-inline script'',
      ru_description =
        ''The Content-Security-Policy header declares `'unsafe-inline'` (or `'unsafe-eval'`) for `script-src`. '' @
        ''Both directives effectively disable CSP's XSS protections.'',
      ru_recommendation =
        ''Remove `'unsafe-inline'` / `'unsafe-eval'`. Use nonces or hashes for inline scripts, or refactor to '' @
        ''external script files.'',
      ru_level = ''warning''\<rparr>,
     \<lparr>ru_id = ''SEC-HEADERS-XFRAME-MISSING'', ru_category = ''security/headers/xframe_missing'', ru_name = ''XFrameOptionsMissing'',
      ru_title = ''X-Frame-Options / CSP frame-ancestors missing'',
      ru_description =
        ''Neither X-Frame-Options nor a CSP `frame-ancestors` directive was returned. The response can be '' @
        ''embedded in a hostile frame (clickjacking).'',
      ru_recommendation =
        ''Set `X-Frame-Options: DENY` (or `SAMEORIGIN`) or include `frame-ancestors 'self'` in CSP.'',
      ru_level = ''warning''\<rparr>,
     \<lparr>ru_id = ''SEC-HEADERS-XCONTENT-NOSNIFF-MISSING'', ru_category = ''security/headers/xcontent_nosniff_missing'', ru_name = ''XContentTypeOptionsMissing'',
      ru_title = ''X-Content-Type-Options: nosniff header missing'',
      ru_description =
        ''Without `X-Content-Type-Options: nosniff`, MIME-sniffing browsers may execute responses whose '' @
        ''Content-Type is wrong (e.g. treat a JSON response as JavaScript).'',
      ru_recommendation =
        ''Set `X-Content-Type-Options: nosniff` on every response.'',
      ru_level = ''warning''\<rparr>,
     \<lparr>ru_id = ''SEC-HEADERS-REFERRER-POLICY-MISSING'', ru_category = ''security/headers/referrer_policy_missing'', ru_name = ''ReferrerPolicyMissing'',
      ru_title = ''Referrer-Policy header missing'',
      ru_description =
        ''No Referrer-Policy header was returned. Sensitive URLs may leak to third-party sites via the Referer '' @ ''header.'',
      ru_recommendation =
        ''Send `Referrer-Policy: strict-origin-when-cross-origin` or `no-referrer` for sensitive pages.'',
      ru_level = ''note''\<rparr>,
     \<lparr>ru_id = ''SEC-HEADERS-PERMISSIONS-POLICY-MISSING'', ru_category = ''security/headers/permissions_policy_missing'', ru_name = ''PermissionsPolicyMissing'',
      ru_title = ''Permissions-Policy header missing'',
      ru_description =
        ''No Permissions-Policy header was returned. The page does not lock down powerful features (camera, '' @
        ''microphone, geolocation, etc.) for embedded iframes.'',
      ru_recommendation =
        ''Send a Permissions-Policy header that disables features the site does not use (e.g. `camera=(), '' @
        ''microphone=(), geolocation=()`).'',
      ru_level = ''note''\<rparr>]"

definition cookie_rules :: "security_rule list" where
  "cookie_rules =
    [\<lparr>ru_id = ''SEC-COOKIE-MISSING-SECURE'', ru_category = ''security/cookies/missing_secure'', ru_name = ''CookieMissingSecure'',
      ru_title = ''Cookie set without Secure flag on HTTPS endpoint'',
      ru_description =
        ''A cookie was set without the `Secure` attribute on an HTTPS response. The cookie can be transmitted '' @
        ''over plain HTTP if the browser is ever tricked into using HTTP for the site.'',
      ru_recommendation =
        ''Add the `Secure` attribute to every cookie on HTTPS sites.'',
      ru_level = ''error''\<rparr>,
     \<lparr>ru_id = ''SEC-COOKIE-MISSING-HTTPONLY'', ru_category = ''security/cookies/missing_httponly'', ru_name = ''CookieMissingHttpOnly'',
      ru_title = ''Cookie set without HttpOnly flag'',
      ru_description =
        ''A cookie was set without the `HttpOnly` attribute. JavaScript running in the page can read the '' @
        ''cookie, which makes it an attractive target for any XSS bug.'',
      ru_recommendation =
        ''Add `HttpOnly` to session and authentication cookies so they are inaccessible from JavaScript.'',
      ru_level = ''error''\<rparr>,
     \<lparr>ru_id = ''SEC-COOKIE-MISSING-SAMESITE'', ru_category = ''security/cookies/missing_samesite'', ru_name = ''CookieMissingSameSite'',
      ru_title = ''Cookie missing SameSite attribute'',
      ru_description =
        ''A cookie was set without a `SameSite` attribute. Browsers default to `Lax`, but explicitly setting '' @
        ''`SameSite=Lax` or `SameSite=Strict` removes the risk of cross-origin CSRF.'',
      ru_recommendation =
        ''Set `SameSite=Lax` (default) or `SameSite=Strict` on auth cookies; use `SameSite=None; Secure` only '' @ ''for cross-site SSO.'',
      ru_level = ''warning''\<rparr>,
     \<lparr>ru_id = ''SEC-COOKIE-SAMESITE-NONE-WITHOUT-SECURE'', ru_category = ''security/cookies/samesite_none_without_secure'', ru_name = ''CookieSameSiteNoneWithoutSecure'',
      ru_title = ''Cookie SameSite=None without Secure'',
      ru_description =
        ''`SameSite=None` is only honored by modern browsers when the cookie is also marked `Secure`. Without '' @
        ''`Secure`, the cookie will be silently dropped.'',
      ru_recommendation =
        ''Always pair `SameSite=None` with `Secure`.'',
      ru_level = ''error''\<rparr>]"

definition cors_rules :: "security_rule list" where
  "cors_rules =
    [\<lparr>ru_id = ''SEC-CORS-WILDCARD-CREDENTIALS'', ru_category = ''security/cors/wildcard_credentials'', ru_name = ''CorsWildcardWithCredentials'',
      ru_title = ''CORS wildcard origin with credentials allowed'',
      ru_description =
        ''The server returned `Access-Control-Allow-Origin: *` together with '' @
        ''`Access-Control-Allow-Credentials: true`. Modern browsers ignore this combination, but legacy '' @
        ''clients may honour it and expose authenticated responses to any origin.'',
      ru_recommendation =
        ''Echo a strict allowlist of origins in `Access-Control-Allow-Origin` (or omit credentials).'',
      ru_level = ''error''\<rparr>,
     \<lparr>ru_id = ''SEC-CORS-REFLECTIVE-ALLOW-ORIGIN'', ru_category = ''security/cors/reflective_allow_origin'', ru_name = ''CorsReflectiveAllowOrigin'',
      ru_title = ''CORS reflects any origin'',
      ru_description =
        ''The server reflected the `Origin` request header in `Access-Control-Allow-Origin` without an '' @
        ''allowlist. Any site the user visits can read cross-origin responses.'',
      ru_recommendation =
        ''Maintain a strict allowlist of trusted origins; never echo arbitrary `Origin` values.'',
      ru_level = ''error''\<rparr>]"

definition csrf_rules :: "security_rule list" where
  "csrf_rules =
    [\<lparr>ru_id = ''SEC-CSRF-MISSING-TOKEN'', ru_category = ''security/csrf/missing_token'', ru_name = ''CsrfMissingToken'',
      ru_title = ''State-changing endpoint missing CSRF token'',
      ru_description =
        ''A POST/PUT/PATCH/DELETE endpoint behind authentication does not appear to require a CSRF token, and '' @
        ''the matching auth cookie was not declared `SameSite=Lax` or `SameSite=Strict`.'',
      ru_recommendation =
        ''Add an anti-CSRF token (synchroniser pattern) or set `SameSite=Lax`/`Strict` on the auth cookie.'',
      ru_level = ''error''\<rparr>]"

definition xss_rules :: "security_rule list" where
  "xss_rules =
    [\<lparr>ru_id = ''SEC-XSS-REFLECTED'', ru_category = ''security/xss/reflected'', ru_name = ''ReflectedXss'',
      ru_title = ''Reflected XSS marker echoed unescaped'',
      ru_description =
        ''A harmless SentinelQA marker payload was reflected unescaped in the response body. Untrusted input '' @
        ''is rendered into HTML without proper escaping.'',
      ru_recommendation =
        ''Escape all user-supplied values before inserting them into HTML. Where dynamic HTML is required, use '' @
        ''a templating library that auto-escapes by default.'',
      ru_level = ''error''\<rparr>,
     \<lparr>ru_id = ''SEC-XSS-STORED'', ru_category = ''security/xss/stored'', ru_name = ''StoredXss'',
      ru_title = ''Stored XSS marker rendered unescaped on subsequent page-load'',
      ru_description =
        ''A harmless SentinelQA marker was submitted into a form and later rendered unescaped on a different '' @
        ''page-load. Stored XSS persists across users and sessions.'',
      ru_recommendation =
        ''Sanitise stored content on the way in and escape it on the way out. Prefer rich-text editors that '' @ ''emit safe HTML.'',
      ru_level = ''error''\<rparr>]"

definition sqli_rules :: "security_rule list" where
  "sqli_rules =
    [\<lparr>ru_id = ''SEC-SQLI-BEHAVIORAL'', ru_category = ''security/sqli/behavioral'', ru_name = ''SqliBehavioral'',
      ru_title = ''Endpoint behaviour suggests SQL injection'',
      ru_description =
        ''Boolean-true and boolean-false probes produced significantly different responses, suggesting the '' @
        ''parameter is concatenated into a SQL statement.'',
      ru_recommendation =
        ''Switch to parameterised queries (prepared statements). Never concatenate user input into SQL strings.'',
      ru_level = ''error''\<rparr>]"

definition idor_rules :: "security_rule list" where
  "idor_rules =
    [\<lparr>ru_id = ''SEC-IDOR-CROSS-USER-ACCESS'', ru_category = ''security/idor/cross_user_access'', ru_name = ''IdorCrossUserAccess'',
      ru_title = ''Endpoint returns another user's resource'',
      ru_description =
        ''A path-id endpoint returned a 2xx response when called with another user's identifier while '' @
        ''authenticated as a low-privilege test user. The endpoint does not enforce object-level access '' @ ''control.'',
      ru_recommendation =
        ''Validate object-level authorization on every read/write: the resource owner (or an explicit ACL) '' @
        ''must match the calling user.'',
      ru_level = ''error''\<rparr>]"

definition frontend_rules :: "security_rule list" where
  "frontend_rules =
    [\<lparr>ru_id = ''SEC-FRONTEND-SECRET-IN-BUNDLE'', ru_category = ''security/frontend/secret_in_bundle'', ru_name = ''FrontendSecretInBundle'',
      ru_title = ''Secret-looking value found in JS bundle'',
      ru_description =
        ''A SentinelQA detector pattern matched inside a JavaScript bundle served to the browser. Hardcoded '' @
        ''credentials, API keys, or tokens in client code are recoverable by anyone.'',
      ru_recommendation =
        ''Move the secret server-side. Use a backend-for-frontend or an OAuth token-exchange flow to scope '' @ ''what the browser can do.'',
      ru_level = ''error''\<rparr>,
     \<lparr>ru_id = ''SEC-FRONTEND-TOKEN-IN-STORAGE'', ru_category = ''security/frontend/token_in_storage'', ru_name = ''FrontendTokenInStorage'',
      ru_title = ''Auth token written to localStorage/sessionStorage'',
      ru_description =
        ''A JWT, opaque session token, or API key was found in localStorage / sessionStorage. Tokens stored '' @
        ''here are accessible to any JavaScript that runs in the page, including XSS payloads.'',
      ru_recommendation =
        ''Store auth tokens in HttpOnly+Secure cookies. If a JS-readable token is unavoidable, minimise '' @
        ''lifetime and scope and pair it with strong CSP.'',
      ru_level = ''warning''\<rparr>,
     \<lparr>ru_id = ''SEC-FRONTEND-PII-IN-DOM'', ru_category = ''security/frontend/pii_in_dom'', ru_name = ''FrontendPiiInDom'',
      ru_title = ''Personally-identifiable data found in DOM for anonymous user'',
      ru_description =
        ''Email-address or phone-number patterns appeared in the DOM for a session SentinelQA loaded without '' @
        ''authentication. Anonymous PII exposure may breach data-protection policy.'',
      ru_recommendation =
        ''Gate PII rendering behind authentication and authorization checks; double-check error pages and 404 '' @ ''templates.'',
      ru_level = ''warning''\<rparr>]"

definition dependency_rules :: "security_rule list" where
  "dependency_rules =
    [\<lparr>ru_id = ''SEC-DEPS-VULNERABLE'', ru_category = ''security/deps/vulnerable'', ru_name = ''VulnerableDependency'',
      ru_title = ''Vulnerable dependency detected'',
      ru_description =
        ''A dependency scanner (pip-audit / npm audit / osv-scanner) reported a known-vulnerable package in '' @ ''the lockfile.'',
      ru_recommendation =
        ''Upgrade the dependency to the advisory's fixed version, or remove the package if it is unused.'',
      ru_level = ''warning''\<rparr>,
     \<lparr>ru_id = ''SEC-SAST-FINDING'', ru_category = ''security/sast/finding'', ru_name = ''SastFinding'',
      ru_title = ''SAST rule matched in source code'',
      ru_description =
        ''A SAST tool (semgrep) reported a code pattern matching one of its security rules.'',
      ru_recommendation =
        ''Review the matching code and apply the language- or framework-appropriate hardening (escape, '' @
        ''validate, parameterise, or refactor).'',
      ru_level = ''warning''\<rparr>]"

definition jwt_rules :: "security_rule list" where
  "jwt_rules =
    [\<lparr>ru_id = ''SEC-JWT-ALG-NONE'', ru_category = ''security/jwt_weakness/sec-jwt-alg-none'', ru_name = ''JwtAlgNone'',
      ru_title = ''JWT advertises alg=none'',
      ru_description =
        ''Server-issued JWT advertises the unsigned `alg: none` algorithm. Any client can forge a token by '' @
        ''submitting an empty signature segment. CWE-347.'',
      ru_recommendation =
        ''Reject `alg: none` at the verifier; pin the expected algorithm.'',
      ru_level = ''error''\<rparr>,
     \<lparr>ru_id = ''SEC-JWT-WEAK-HS256-SECRET'', ru_category = ''security/jwt_weakness/sec-jwt-weak-hs256-secret'', ru_name = ''JwtWeakHs256Secret'',
      ru_title = ''JWT signed with a well-known weak HS256 secret'',
      ru_description =
        ''Server-issued JWT verifies against one of the well-known weak HS256 secrets (e.g. `secret`, '' @
        ''`password`). The signing key MUST be rotated to a 256-bit random value. CWE-347.'',
      ru_recommendation =
        ''Rotate the HS256 secret to a cryptographically random 256-bit value held in a secret manager.'',
      ru_level = ''error''\<rparr>,
     \<lparr>ru_id = ''SEC-JWT-MISSING-EXP'', ru_category = ''security/jwt_weakness/sec-jwt-missing-exp'', ru_name = ''JwtMissingExp'',
      ru_title = ''JWT has no exp claim'',
      ru_description =
        ''The JWT carries no `exp` (expiration) claim. Stolen tokens remain valid forever. CWE-613.'',
      ru_recommendation =
        ''Set `exp` on every JWT and reject expired tokens.'',
      ru_level = ''warning''\<rparr>,
     \<lparr>ru_id = ''SEC-JWT-EXPIRED'', ru_category = ''security/jwt_weakness/sec-jwt-expired'', ru_name = ''JwtExpired'',
      ru_title = ''JWT exp is in the past'',
      ru_description =
        ''JWT's `exp` claim is past the current wall-clock time but the server still surfaced it; expiration '' @
        ''is not being enforced. CWE-613.'',
      ru_recommendation =
        ''Reject tokens whose `exp` is in the past with a small clock-skew tolerance.'',
      ru_level = ''warning''\<rparr>,
     \<lparr>ru_id = ''SEC-JWT-MISSING-ISS-AUD'', ru_category = ''security/jwt_weakness/sec-jwt-missing-iss-aud'', ru_name = ''JwtMissingIssAud'',
      ru_title = ''Multi-tenant JWT missing iss / aud claims'',
      ru_description =
        ''JWT carries multi-tenant claims but no `iss` or `aud`; tokens can be replayed across tenants. CWE-345.'',
      ru_recommendation =
        ''Set `iss` to the issuing service and `aud` to the intended audience; verify both at the receiver.'',
      ru_level = ''note''\<rparr>]"

definition cookie_scope_rules :: "security_rule list" where
  "cookie_scope_rules =
    [\<lparr>ru_id = ''SEC-COOKIE-MISSING-PREFIX'', ru_category = ''security/cookies/sec-cookie-missing-prefix'', ru_name = ''CookieMissingPrefix'',
      ru_title = ''Session cookie missing __Host- / __Secure- prefix'',
      ru_description =
        ''A session-shaped cookie was set without the `__Host-` or `__Secure-` cookie name prefix. The '' @
        ''prefixes bind the cookie to the exact host and to HTTPS-only contexts. CWE-1004.'',
      ru_recommendation =
        ''Rename auth cookies with the `__Host-` prefix (Path=/ and no Domain) or `__Secure-` prefix for '' @ ''cross-subdomain auth.'',
      ru_level = ''warning''\<rparr>,
     \<lparr>ru_id = ''SEC-COOKIE-OVERBROAD-DOMAIN'', ru_category = ''security/cookies/sec-cookie-overbroad-domain'', ru_name = ''CookieOverbroadDomain'',
      ru_title = ''Cookie Domain attribute is over-broad'',
      ru_description =
        ''A cookie set on a sub-domain declared `Domain=.parent.tld`, making it readable by every sibling '' @ ''sub-domain. CWE-1275.'',
      ru_recommendation =
        ''Scope the cookie's `Domain` to exactly the host that needs it (or omit `Domain` so the browser uses '' @ ''the strict default).'',
      ru_level = ''warning''\<rparr>,
     \<lparr>ru_id = ''SEC-COOKIE-OVERBROAD-PATH'', ru_category = ''security/cookies/sec-cookie-overbroad-path'', ru_name = ''CookieOverbroadPath'',
      ru_title = ''Sensitive cookie scoped to Path=/'',
      ru_description =
        ''A sensitive-looking cookie was scoped to `Path=/`. Path scoping is a small defence-in-depth measure '' @
        ''for single-purpose cookies. CWE-1275.'',
      ru_recommendation =
        ''Scope the cookie's `Path` to exactly the route family that consumes it (e.g. `/admin`).'',
      ru_level = ''note''\<rparr>]"

definition tls_rules :: "security_rule list" where
  "tls_rules =
    [\<lparr>ru_id = ''SEC-TLS-VERSION-LEGACY'', ru_category = ''security/tls_posture/sec-tls-version-legacy'', ru_name = ''TlsVersionLegacy'',
      ru_title = ''TLS handshake negotiated a legacy protocol'',
      ru_description =
        ''The TLS handshake negotiated a deprecated protocol version (TLS 1.0, 1.1 or SSLv3). Modern clients '' @
        ''should reject these. CWE-326.'',
      ru_recommendation =
        ''Disable TLS 1.0 / 1.1 / SSLv3 on the server.'',
      ru_level = ''error''\<rparr>,
     \<lparr>ru_id = ''SEC-TLS-WEAK-CIPHER'', ru_category = ''security/tls_posture/sec-tls-weak-cipher'', ru_name = ''TlsWeakCipher'',
      ru_title = ''TLS handshake negotiated a weak cipher suite'',
      ru_description =
        ''The TLS handshake negotiated a cipher suite that is considered weak by modern standards (RC4 / DES / '' @
        ''3DES / NULL / EXPORT, or CBC-mode with TLS 1.2). CWE-326.'',
      ru_recommendation =
        ''Restrict the server's cipher list to AEAD suites (GCM / CHACHA20-POLY1305).'',
      ru_level = ''warning''\<rparr>,
     \<lparr>ru_id = ''SEC-TLS-CERT-EXPIRED'', ru_category = ''security/tls_posture/sec-tls-cert-expired'', ru_name = ''TlsCertExpired'',
      ru_title = ''TLS leaf certificate is expired'',
      ru_description =
        ''The presented leaf certificate's `notAfter` is in the past. Browsers will refuse to connect. CWE-295.'',
      ru_recommendation =
        ''Renew and deploy the certificate immediately.'',
      ru_level = ''error''\<rparr>,
     \<lparr>ru_id = ''SEC-TLS-CERT-EXPIRING-SOON'', ru_category = ''security/tls_posture/sec-tls-cert-expiring-soon'', ru_name = ''TlsCertExpiringSoon'',
      ru_title = ''TLS leaf certificate expires within 14 days'',
      ru_description =
        ''The presented leaf certificate's `notAfter` is less than 14 days away. Schedule a renewal. CWE-295.'',
      ru_recommendation =
        ''Renew the certificate before it expires.'',
      ru_level = ''warning''\<rparr>,
     \<lparr>ru_id = ''SEC-TLS-HSTS-MISSING'', ru_category = ''security/tls_posture/sec-tls-hsts-missing'', ru_name = ''TlsHstsMissing'',
      ru_title = ''HTTPS endpoint did not return HSTS'',
      ru_description =
        ''No `Strict-Transport-Security` header was returned over HTTPS. Without HSTS, downgrade attacks '' @ ''remain feasible. CWE-319.'',
      ru_recommendation =
        ''Send `Strict-Transport-Security: max-age=31536000; includeSubDomains` on every HTTPS response.'',
      ru_level = ''warning''\<rparr>,
     \<lparr>ru_id = ''SEC-TLS-HSTS-TOO-SHORT'', ru_category = ''security/tls_posture/sec-tls-hsts-too-short'', ru_name = ''TlsHstsTooShort'',
      ru_title = ''HSTS max-age is under one year'',
      ru_description =
        ''The `Strict-Transport-Security` `max-age` is below the 365-day recommendation. Short windows let '' @
        ''downgrade windows re-open. CWE-319.'',
      ru_recommendation =
        ''Raise `Strict-Transport-Security` `max-age` to at least 31536000 (one year).'',
      ru_level = ''warning''\<rparr>]"

definition graphql_rules :: "security_rule list" where
  "graphql_rules =
    [\<lparr>ru_id = ''SEC-GRAPHQL-INTROSPECTION-ENABLED'', ru_category = ''security/graphql_safety/sec-graphql-introspection-enabled'', ru_name = ''GraphqlIntrospectionEnabled'',
      ru_title = ''GraphQL introspection is reachable in production'',
      ru_description =
        ''The canonical introspection query `{ __schema { types { name } } }` returned the schema. Production '' @
        ''deployments should disable introspection. CWE-200.'',
      ru_recommendation =
        ''Disable introspection in production (e.g. Apollo `playground false` / `introspection false`).'',
      ru_level = ''error''\<rparr>,
     \<lparr>ru_id = ''SEC-GRAPHQL-NO-DEPTH-LIMIT'', ru_category = ''security/graphql_safety/sec-graphql-no-depth-limit'', ru_name = ''GraphqlNoDepthLimit'',
      ru_title = ''GraphQL endpoint has no query-depth limit'',
      ru_description =
        ''A depth-5 nested query was accepted; deeply nested queries are a classic resource-exhaustion vector. '' @ ''CWE-770.'',
      ru_recommendation =
        ''Install a query-depth limiter (e.g. `graphql-depth-limit`) and cap depth at a reasonable value ('' @
        [CHR 0xE2, CHR 0x89, CHR 0xA4] @ ''7 is typical).'',
      ru_level = ''warning''\<rparr>,
     \<lparr>ru_id = ''SEC-GRAPHQL-NO-COMPLEXITY-LIMIT'', ru_category = ''security/graphql_safety/sec-graphql-no-complexity-limit'', ru_name = ''GraphqlNoComplexityLimit'',
      ru_title = ''GraphQL endpoint has no query-complexity limit'',
      ru_description =
        ''A query with five aliases for the same field was accepted; alias-based complexity bombs remain a '' @
        ''resource-exhaustion risk. CWE-770.'',
      ru_recommendation =
        ''Install a query-cost analyser (e.g. `graphql-query-complexity`).'',
      ru_level = ''warning''\<rparr>,
     \<lparr>ru_id = ''SEC-GRAPHQL-MUTATION-NO-AUTH'', ru_category = ''security/graphql_safety/sec-graphql-mutation-no-auth'', ru_name = ''GraphqlMutationNoAuth'',
      ru_title = ''GraphQL mutation accepts anonymous requests'',
      ru_description =
        ''An introspected mutation returned a non-error response when called without authentication. CWE-862.'',
      ru_recommendation =
        ''Gate mutations behind authentication; assert the caller's identity before any state-changing '' @ ''resolver runs.'',
      ru_level = ''error''\<rparr>]"

definition bola_rules :: "security_rule list" where
  "bola_rules =
    [\<lparr>ru_id = ''SEC-BOLA-CROSS-TENANT-READ'', ru_category = ''security/api_bola_bfla/sec-bola-cross-tenant-read'', ru_name = ''BolaCrossTenantRead'',
      ru_title = ''API endpoint returns identity-A data when called as identity-B'',
      ru_description =
        ''An API call captured under identity A returned 200 with A's payload when replayed under identity B's auth '' @
        [CHR 0xE2, CHR 0x80, CHR 0x94] @ '' object-level authorization is missing. OWASP API-2023-01 (BOLA). CWE-639.'',
      ru_recommendation =
        ''Validate object ownership server-side on every read and write; never trust client-supplied resource '' @ ''ids alone.'',
      ru_level = ''error''\<rparr>,
     \<lparr>ru_id = ''SEC-BFLA-ELEVATED-ACTION'', ru_category = ''security/api_bola_bfla/sec-bfla-elevated-action'', ru_name = ''BflaElevatedAction'',
      ru_title = ''Admin-shaped endpoint accepts non-admin identity'',
      ru_description =
        ''An endpoint scoped to admin returned 2xx when called with a non-admin identity. OWASP API-2023-03 '' @ ''(BFLA). CWE-863.'',
      ru_recommendation =
        ''Enforce role-based authorization before the controller body runs; deny by default.'',
      ru_level = ''error''\<rparr>]"

definition bundle_rules :: "security_rule list" where
  "bundle_rules =
    [\<lparr>ru_id = ''SEC-BUNDLE-SECRET-AWS'', ru_category = ''security/bundle_secrets/sec-bundle-secret-aws'', ru_name = ''BundleSecretAws'',
      ru_title = ''Possible AWS access key in JS bundle'',
      ru_description =
        ''A JS bundle served to the browser contains a string matching the AWS access-key prefix `AKIA`. CWE-540.'',
      ru_recommendation =
        ''Move the credential server-side; invoke AWS via a backend proxy or use IAM-Role-for-Browser identity '' @ ''flows.'',
      ru_level = ''error''\<rparr>,
     \<lparr>ru_id = ''SEC-BUNDLE-SECRET-GCP'', ru_category = ''security/bundle_secrets/sec-bundle-secret-gcp'', ru_name = ''BundleSecretGcp'',
      ru_title = ''Possible Google API key in JS bundle'',
      ru_description =
        ''A JS bundle served to the browser contains a string matching the Google API key prefix `AIza`. CWE-540.'',
      ru_recommendation =
        ''Restrict the API key by HTTP referrer + API scope, or move API calls server-side.'',
      ru_level = ''warning''\<rparr>,
     \<lparr>ru_id = ''SEC-BUNDLE-SECRET-AZURE'', ru_category = ''security/bundle_secrets/sec-bundle-secret-azure'', ru_name = ''BundleSecretAzure'',
      ru_title = ''Possible Azure subscription key in JS bundle'',
      ru_description =
        ''A JS bundle includes a 32-hex string in a subscription-key context. CWE-540.'',
      ru_recommendation =
        ''Move the subscription key server-side; rotate the exposed key immediately.'',
      ru_level = ''error''\<rparr>,
     \<lparr>ru_id = ''SEC-BUNDLE-SECRET-STRIPE'', ru_category = ''security/bundle_secrets/sec-bundle-secret-stripe'', ru_name = ''BundleSecretStripe'',
      ru_title = ''Stripe live secret key in JS bundle'',
      ru_description =
        ''A JS bundle contains a `sk_live_'' @ [CHR 0xE2, CHR 0x80, CHR 0xA6] @
        ''` Stripe secret key. Anyone with the page source can issue arbitrary Stripe API calls. CWE-540.'',
      ru_recommendation =
        ''Rotate the Stripe key immediately and route Stripe API calls through your backend.'',
      ru_level = ''error''\<rparr>,
     \<lparr>ru_id = ''SEC-BUNDLE-SECRET-GITHUB'', ru_category = ''security/bundle_secrets/sec-bundle-secret-github'', ru_name = ''BundleSecretGithub'',
      ru_title = ''GitHub token in JS bundle'',
      ru_description =
        ''A JS bundle contains a `ghp_'' @ [CHR 0xE2, CHR 0x80, CHR 0xA6] @ ''` / `gho_'' @ [CHR 0xE2, CHR 0x80, CHR 0xA6] @
        ''` GitHub token. CWE-540.'',
      ru_recommendation =
        ''Rotate the token immediately; route GitHub API calls through a server-side proxy.'',
      ru_level = ''error''\<rparr>,
     \<lparr>ru_id = ''SEC-BUNDLE-SECRET-SLACK'', ru_category = ''security/bundle_secrets/sec-bundle-secret-slack'', ru_name = ''BundleSecretSlack'',
      ru_title = ''Slack token in JS bundle'',
      ru_description =
        ''A JS bundle contains a Slack `xox[abprs]-` token. CWE-540.'',
      ru_recommendation =
        ''Rotate the Slack token immediately; never embed Slack tokens in browser code.'',
      ru_level = ''error''\<rparr>,
     \<lparr>ru_id = ''SEC-BUNDLE-SECRET-PRIVATE-KEY'', ru_category = ''security/bundle_secrets/sec-bundle-secret-private-key'', ru_name = ''BundleSecretPrivateKey'',
      ru_title = ''PEM private-key header in JS bundle'',
      ru_description =
        ''A JS bundle contains a `-----BEGIN ... PRIVATE KEY-----` header. CWE-540.'',
      ru_recommendation =
        ''Rotate the key immediately; private keys must never reach the browser.'',
      ru_level = ''error''\<rparr>]"

definition ssrf_rules :: "security_rule list" where
  "ssrf_rules =
    [\<lparr>ru_id = ''SEC-SSRF-SUSPECTED'', ru_category = ''security/ssrf_redirect/sec-ssrf-suspected'', ru_name = ''SsrfSuspected'',
      ru_title = ''Endpoint may follow attacker-controlled URLs (SSRF)'',
      ru_description =
        ''A URL-shaped form / query parameter accepted a canonical internal target (loopback, link-local, '' @
        ''file://) without a clean rejection. CWE-918.'',
      ru_recommendation =
        ''Validate that user-supplied URLs resolve outside the server's local network; deny `127.0.0.0/8`, '' @
        ''`169.254.0.0/16`, `fc00::/7`, and all non-HTTP schemes.'',
      ru_level = ''error''\<rparr>,
     \<lparr>ru_id = ''SEC-OPEN-REDIRECT'', ru_category = ''security/ssrf_redirect/sec-open-redirect'', ru_name = ''OpenRedirect'',
      ru_title = ''Redirect endpoint accepts attacker-controlled destination'',
      ru_description =
        ''A redirect endpoint emitted a 30x with an attacker-supplied URL in `Location`. CWE-601.'',
      ru_recommendation =
        ''Restrict redirect destinations to an allowlist of known callback URLs; reject '' @ ''`//evil.example.com`-style inputs.'',
      ru_level = ''warning''\<rparr>]"

definition security_rules :: "security_rule list" where
  "security_rules = header_rules @ cookie_rules @ cors_rules @ csrf_rules @ xss_rules @ sqli_rules @ idor_rules @ frontend_rules @
     dependency_rules @ jwt_rules @ cookie_scope_rules @ tls_rules @ graphql_rules @ bola_rules @ bundle_rules @ ssrf_rules"

lemmas catalogue_defs = header_rules_def cookie_rules_def cors_rules_def csrf_rules_def xss_rules_def sqli_rules_def idor_rules_def frontend_rules_def
  dependency_rules_def jwt_rules_def cookie_scope_rules_def tls_rules_def graphql_rules_def bola_rules_def bundle_rules_def ssrf_rules_def

text \<open>\<open>None\<close> is a \<open>KeyError\<close>.\<close>

definition rule_by_id :: "string \<Rightarrow> security_rule option" where
  "rule_by_id i = map_of (rev (map (\<lambda>r. (ru_id r, r)) security_rules)) i"

definition help_uri :: "security_rule \<Rightarrow> string" where
  "help_uri r = ''https://docs.sentinelqa.dev/rules/security/'' @ replace_char CHR ''_'' ''-'' (py_lower (ru_id r))"

definition to_sarif_rule :: "security_rule \<Rightarrow> sarif_rule" where
  "to_sarif_rule r =
     \<lparr>sr_id = ru_id r, sr_name = ru_name r, sr_short = ru_title r, sr_full = ru_description r, sr_help = help_uri r, sr_category = ru_category r,
      sr_level = ru_level r\<rparr>"

text \<open>The state of the process: whether the default registry was filled, and the registry.\<close>

fun register_rules :: "security_rule list \<Rightarrow> sarif_registry \<Rightarrow> sarif_registry option" where
  "register_rules [] reg = Some reg"
| "register_rules (r # rs) reg =
     (if ru_category r \<in> set (known_categories reg) then register_rules rs reg
      else Option.bind (sarif_register (to_sarif_rule r) reg) (register_rules rs))"

definition register_security_rules :: "bool \<times> sarif_registry \<Rightarrow> (bool \<times> sarif_registry) option" where
  "register_security_rules state =
     (case state of (registered, reg) \<Rightarrow> if registered then Some state else map_option (Pair True) (register_rules security_rules reg))"

section \<open>The taxonomy\<close>

type_synonym taxonomy_ids = "string option \<times> string option \<times> string option"

definition taxonomy_defaults :: "(string, taxonomy_ids) dict" where
  "taxonomy_defaults =
    [(''security/headers/sec-headers-hsts-missing'', (Some ''CWE-319'', None, None)),
     (''security/headers/sec-headers-csp-missing'', (Some ''CWE-693'', None, None)),
     (''security/headers/sec-headers-csp-unsafe-inline'', (Some ''CWE-693'', None, None)),
     (''security/headers/sec-headers-xframe-missing'', (Some ''CWE-1021'', None, None)),
     (''security/headers/sec-headers-xcontent-nosniff-missing'', (Some ''CWE-693'', None, None)),
     (''security/headers/sec-headers-referrer-policy-missing'', (Some ''CWE-200'', None, None)),
     (''security/headers/sec-headers-permissions-policy-missing'', (Some ''CWE-693'', None, None)),
     (''security/cookies/sec-cookie-missing-secure'', (Some ''CWE-614'', None, None)),
     (''security/cookies/sec-cookie-missing-httponly'', (Some ''CWE-1004'', None, None)),
     (''security/cookies/sec-cookie-missing-samesite'', (Some ''CWE-1275'', None, None)),
     (''security/cookies/sec-cookie-samesite-none-without-secure'', (Some ''CWE-614'', None, None)),
     (''security/cookies/sec-cookie-missing-prefix'', (Some ''CWE-1004'', None, None)),
     (''security/cookies/sec-cookie-overbroad-domain'', (Some ''CWE-1275'', None, None)),
     (''security/cookies/sec-cookie-overbroad-path'', (Some ''CWE-1275'', None, None)),
     (''security/cors/sec-cors-wildcard-credentials'', (Some ''CWE-942'', None, None)),
     (''security/cors/sec-cors-reflective-allow-origin'', (Some ''CWE-942'', None, None)),
     (''security/csrf/sec-csrf-missing-token'', (Some ''CWE-352'', None, None)),
     (''security/xss_reflected/sec-xss-reflected'', (Some ''CWE-79'', None, None)),
     (''security/xss_stored/sec-xss-stored'', (Some ''CWE-79'', None, None)),
     (''security/sqli/sec-sqli-behavioral'', (Some ''CWE-89'', None, None)),
     (''security/idor/sec-idor-cross-user-access'', (Some ''CWE-639'', None, Some ''API-2023-01'')),
     (''security/api_bola_bfla/sec-bola-cross-tenant-read'', (Some ''CWE-639'', None, Some ''API-2023-01'')),
     (''security/api_bola_bfla/sec-bfla-elevated-action'', (Some ''CWE-863'', None, Some ''API-2023-03'')),
     (''security/frontend/sec-frontend-secret-in-bundle'', (Some ''CWE-540'', None, None)),
     (''security/frontend/sec-frontend-token-in-storage'', (Some ''CWE-922'', None, None)),
     (''security/frontend/sec-frontend-pii-in-dom'', (Some ''CWE-359'', None, None)),
     (''security/bundle_secrets/sec-bundle-secret-aws'', (Some ''CWE-540'', None, None)),
     (''security/bundle_secrets/sec-bundle-secret-gcp'', (Some ''CWE-540'', None, None)),
     (''security/bundle_secrets/sec-bundle-secret-azure'', (Some ''CWE-540'', None, None)),
     (''security/bundle_secrets/sec-bundle-secret-stripe'', (Some ''CWE-540'', None, None)),
     (''security/bundle_secrets/sec-bundle-secret-github'', (Some ''CWE-540'', None, None)),
     (''security/bundle_secrets/sec-bundle-secret-slack'', (Some ''CWE-540'', None, None)),
     (''security/bundle_secrets/sec-bundle-secret-private-key'', (Some ''CWE-540'', None, None)),
     (''security/deps/sec-deps-vulnerable'', (Some ''CWE-1104'', None, None)),
     (''security/sast/sec-sast-finding'', (Some ''CWE-693'', None, None)),
     (''security/jwt_weakness/sec-jwt-alg-none'', (Some ''CWE-347'', Some ''T1606.001'', None)),
     (''security/jwt_weakness/sec-jwt-weak-hs256-secret'', (Some ''CWE-347'', None, None)),
     (''security/jwt_weakness/sec-jwt-missing-exp'', (Some ''CWE-613'', None, None)),
     (''security/jwt_weakness/sec-jwt-expired'', (Some ''CWE-613'', None, None)),
     (''security/jwt_weakness/sec-jwt-missing-iss-aud'', (Some ''CWE-345'', None, None)),
     (''security/tls_posture/sec-tls-version-legacy'', (Some ''CWE-326'', Some ''T1573'', None)),
     (''security/tls_posture/sec-tls-weak-cipher'', (Some ''CWE-326'', Some ''T1573'', None)),
     (''security/tls_posture/sec-tls-cert-expired'', (Some ''CWE-295'', None, None)),
     (''security/tls_posture/sec-tls-cert-expiring-soon'', (Some ''CWE-295'', None, None)),
     (''security/tls_posture/sec-tls-hsts-too-short'', (Some ''CWE-319'', None, None)),
     (''security/tls_posture/sec-tls-hsts-missing'', (Some ''CWE-319'', None, None)),
     (''security/graphql_safety/sec-graphql-introspection-enabled'', (Some ''CWE-200'', None, None)),
     (''security/graphql_safety/sec-graphql-no-depth-limit'', (Some ''CWE-770'', None, None)),
     (''security/graphql_safety/sec-graphql-no-complexity-limit'', (Some ''CWE-770'', None, None)),
     (''security/graphql_safety/sec-graphql-mutation-no-auth'', (Some ''CWE-862'', None, Some ''API-2023-05'')),
     (''security/ssrf_redirect/sec-ssrf-suspected'', (Some ''CWE-918'', None, Some ''API-2023-07'')),
     (''security/ssrf_redirect/sec-open-redirect'', (Some ''CWE-601'', None, None))]"

definition prefix_defaults :: "(string, taxonomy_ids) dict" where
  "prefix_defaults =
    [(''security/headers/'', (Some ''CWE-693'', None, None)),
     (''security/cookies/'', (Some ''CWE-1004'', None, None)),
     (''security/cors/'', (Some ''CWE-942'', None, None)),
     (''security/csrf/'', (Some ''CWE-352'', None, None)),
     (''security/xss'', (Some ''CWE-79'', None, None)),
     (''security/sqli/'', (Some ''CWE-89'', None, None)),
     (''security/idor/'', (Some ''CWE-639'', None, None)),
     (''security/frontend/'', (Some ''CWE-540'', None, None)),
     (''security/jwt_weakness/'', (Some ''CWE-347'', None, None)),
     (''security/tls_posture/'', (Some ''CWE-326'', None, None)),
     (''security/graphql_safety/'', (Some ''CWE-770'', None, None)),
     (''security/ssrf_redirect/'', (Some ''CWE-918'', None, None)),
     (''security/bundle_secrets/'', (Some ''CWE-540'', None, None)),
     (''security/api_bola_bfla/'', (Some ''CWE-639'', None, Some ''API-2023-01''))]"

text \<open>The longest prefix; of two of the same length the first.\<close>

definition taxonomy_lookup :: "string \<Rightarrow> taxonomy_ids" where
  "taxonomy_lookup category =
     (case map_of taxonomy_defaults category of
        Some ids \<Rightarrow> ids
      | None \<Rightarrow> fst (foldl (\<lambda>(best, len) (prefix, ids). if py_startswith category prefix \<and> len < length prefix then (ids, length prefix) else (best, len))
          ((None, None, None), 0) prefix_defaults))"

section \<open>Issues and findings\<close>

record security_issue =
  is_rule_id :: string
  is_severity :: severity
  is_confidence :: flt
  is_title :: string
  is_description :: string
  is_route :: "string option"
  is_evidence :: "(string \<times> json) list"
  is_recommendation :: "string option"

record check_result =
  ck_check :: string
  ck_targets :: nat
  ck_issues :: "security_issue list"
  ck_skipped :: bool
  ck_reason :: "string option"

text \<open>
  The issue a check makes of a rule of the catalogue; \<open>None\<close> when it is not there (\<open>KeyError\<close>) or when the route is too long (\<open>ValidationError\<close>).
\<close>

definition rule_issue :: "string \<Rightarrow> severity \<Rightarrow> flt \<Rightarrow> string \<Rightarrow> (string \<times> json) list \<Rightarrow> security_issue option" where
  "rule_issue rule_id sev confidence route extra =
     (if 2048 < py_len route then None
      else map_option (\<lambda>r. \<lparr>is_rule_id = rule_id, is_severity = sev, is_confidence = confidence, is_title = ru_title r, is_description = ru_description r,
             is_route = Some route, is_evidence = extra, is_recommendation = Some (ru_recommendation r)\<rparr>)
           (rule_by_id rule_id))"

definition issue_category :: "string \<Rightarrow> string \<Rightarrow> string" where
  "issue_category check_name rule_id = ''security/'' @ check_name @ ''/'' @ py_lower rule_id"

text \<open>\<open>show\<close> is Python's \<open>str\<close> of a value of the evidence that is not a string.\<close>

definition evidence_text :: "(json \<Rightarrow> string) \<Rightarrow> json \<Rightarrow> string" where
  "evidence_text show v = (case v of J_str s \<Rightarrow> s | _ \<Rightarrow> show v)"

definition extras_text :: "(json \<Rightarrow> string) \<Rightarrow> (string \<times> json) list \<Rightarrow> string" where
  "extras_text show extra = py_join ''; '' (map (\<lambda>(k, v). k @ ''='' @ evidence_text show v) (sort_key fst extra))"

definition evidence_tag :: "(json \<Rightarrow> string) \<Rightarrow> security_issue \<Rightarrow> string \<Rightarrow> string option \<Rightarrow> string option" where
  "evidence_tag show issue key other =
     (case map_of (is_evidence issue) key of None \<Rightarrow> other | Some J_null \<Rightarrow> other | Some v \<Rightarrow> Some (evidence_text show v))"

definition issue_to_finding ::
  "(json \<Rightarrow> string) \<Rightarrow> string \<Rightarrow> string \<Rightarrow> string \<Rightarrow> string \<Rightarrow> int \<Rightarrow> string \<times> string \<Rightarrow> security_issue \<Rightarrow> tagged_finding" where
  "issue_to_finding show check_name run_id target artifact stamp ids issue =
     (let text = extras_text show (is_evidence issue);
          category = issue_category check_name (is_rule_id issue)
      in case taxonomy_lookup category of (cwe, attack, owasp) \<Rightarrow>
        \<lparr>f_id = snd ids, f_run_id = run_id, f_module = ''security'', f_category = category, f_severity = is_severity issue,
         f_confidence = is_confidence issue, f_title = is_title issue,
         f_description = (if text = [] then is_description issue else is_description issue @ [newline, newline] @ ''Evidence: '' @ text),
         f_location = \<lparr>loc_route = is_route issue, loc_selector = None, loc_file = None, loc_line = None\<rparr>,
         f_evidence = [\<lparr>ev_id = fst ids, ev_type = Api_Sample, ev_path = artifact\<rparr>], f_reproduction_steps = [],
         f_affected_target = Some target, f_recommendation = is_recommendation issue, f_created_at = stamp,
         tf_cwe = evidence_tag show issue ''cwe_id'' cwe, tf_attack = evidence_tag show issue ''attack_id'' attack,
         tf_owasp = evidence_tag show issue ''owasp_api_id'' owasp\<rparr>)"

text \<open>The patterns of the taxonomy identifiers.\<close>

definition cwe_pattern :: "string \<Rightarrow> bool" where
  "cwe_pattern s \<longleftrightarrow> py_startswith s ''CWE-'' \<and> py_isdigit (drop 4 s) \<and> py_len s \<le> 32"

definition attack_pattern :: "string \<Rightarrow> bool" where
  "attack_pattern s \<longleftrightarrow> (case s of
       t # ds \<Rightarrow> t = CHR ''T'' \<and> py_isdigit (take 4 ds) \<and> 4 \<le> length ds \<and>
         (drop 4 ds = [] \<or> (take 1 (drop 4 ds) = ''.'' \<and> length ds = 8 \<and> py_isdigit (drop 5 ds)))
     | _ \<Rightarrow> False)"

definition owasp_pattern :: "string \<Rightarrow> bool" where
  "owasp_pattern s \<longleftrightarrow> py_startswith s ''API-'' \<and> length s = 11 \<and> py_isdigit (take 4 (drop 4 s)) \<and> s ! 8 = CHR ''-'' \<and> py_isdigit (drop 9 s)"

definition valid_tagged :: "tagged_finding \<Rightarrow> bool" where
  "valid_tagged f \<longleftrightarrow> valid_finding (finding.truncate f) \<and> (case tf_cwe f of None \<Rightarrow> True | Some s \<Rightarrow> cwe_pattern s) \<and>
     (case tf_attack f of None \<Rightarrow> True | Some s \<Rightarrow> attack_pattern s) \<and> (case tf_owasp f of None \<Rightarrow> True | Some s \<Rightarrow> owasp_pattern s)"

text \<open>
  The identifiers are drawn in the order of the issues: \<open>ids k\<close> are those of the evidence and of the finding of the \<open>k\<close>-th one. \<open>None\<close> is a
  \<open>ValidationError\<close>.
\<close>

definition findings_from_checks ::
  "(json \<Rightarrow> string) \<Rightarrow> string \<Rightarrow> string \<Rightarrow> (string, string) dict \<Rightarrow> int \<Rightarrow> (nat \<Rightarrow> string \<times> string) \<Rightarrow> check_result list \<Rightarrow> tagged_finding list option" where
  "findings_from_checks show run_id target artifacts stamp ids checks =
     those (map (\<lambda>(k, check_name, issue).
         let f = issue_to_finding show check_name run_id target
             (case map_of artifacts check_name of None \<Rightarrow> ''security/'' @ check_name @ ''.json'' | Some a \<Rightarrow> a) stamp (ids k) issue
         in if valid_tagged f then Some f else None)
       (enumerate 0 (concat (map (\<lambda>c. map (Pair (ck_check c)) (ck_issues c)) checks))))"

end
