(* ===== verification/Pyre.thy ===== *)
theory Pyre
  imports Prelude
begin

text \<open>
  The regular expressions of Python's \<open>re\<close> module as the security checks use them: a backtracking matcher whose results are the ends and the groups of
  all ways to match, in the order in which the module tries them; the match is the first. Text is a byte string: \<open>\b\<close>, \<open>\w\<close>, \<open>\s\<close> and \<open>\d\<close> are those of
  ASCII text.
\<close>

datatype rx =
    Rx_char "char \<Rightarrow> bool"
  | Rx_eps
  | Rx_seq rx rx
  | Rx_alt rx rx
  | Rx_star bool rx
  | Rx_group nat rx
  | Rx_start
  | Rx_end
  | Rx_boundary

type_synonym rx_state = "nat \<times> (nat \<times> nat \<times> nat) list"

definition is_word :: "char \<Rightarrow> bool" where
  "is_word c \<longleftrightarrow> is_digit_char c \<or> (let n = (of_char c :: nat) in (65 \<le> n \<and> n \<le> 90) \<or> n = 95 \<or> (97 \<le> n \<and> n \<le> 122))"

definition word_at :: "string \<Rightarrow> nat \<Rightarrow> bool" where
  "word_at s i \<longleftrightarrow> i < length s \<and> is_word (s ! i)"

text \<open>Repetition: at most \<open>n\<close> times, greedily or not, and never by matching nothing.\<close>

fun rx_repeat :: "nat \<Rightarrow> (rx_state \<Rightarrow> rx_state list) \<Rightarrow> bool \<Rightarrow> rx_state \<Rightarrow> rx_state list" where
  "rx_repeat 0 step greedy st = [st]"
| "rx_repeat (Suc n) step greedy st =
     (let more = concat (map (\<lambda>t. if fst t \<le> fst st then [] else rx_repeat n step greedy t) (step st))
      in if greedy then more @ [st] else st # more)"

primrec rx_ends :: "rx \<Rightarrow> string \<Rightarrow> rx_state \<Rightarrow> rx_state list" where
  "rx_ends (Rx_char p) s st = (if fst st < length s \<and> p (s ! fst st) then [(Suc (fst st), snd st)] else [])"
| "rx_ends Rx_eps s st = [st]"
| "rx_ends (Rx_seq a b) s st = concat (map (rx_ends b s) (rx_ends a s st))"
| "rx_ends (Rx_alt a b) s st = rx_ends a s st @ rx_ends b s st"
| "rx_ends (Rx_star greedy r) s st = rx_repeat (length s) (rx_ends r s) greedy st"
| "rx_ends (Rx_group k r) s st = map (\<lambda>t. (fst t, (k, fst st, fst t) # snd t)) (rx_ends r s st)"
| "rx_ends Rx_start s st = (if fst st = 0 then [st] else [])"
| "rx_ends Rx_end s st = (if fst st = length s \<or> (Suc (fst st) = length s \<and> s ! fst st = newline) then [st] else [])"
| "rx_ends Rx_boundary s st = (if (0 < fst st \<and> word_at s (fst st - 1)) \<noteq> word_at s (fst st) then [st] else [])"

text \<open>A match: where it starts, where it ends, its groups.\<close>

type_synonym rx_found = "nat \<times> rx_state"

definition rx_match_at :: "rx \<Rightarrow> string \<Rightarrow> nat \<Rightarrow> rx_found option" where
  "rx_match_at r s i = (case rx_ends r s (i, []) of [] \<Rightarrow> None | t # _ \<Rightarrow> Some (i, t))"

text \<open>\<open>fuel\<close> is the number of positions that are left.\<close>

fun rx_search_from :: "nat \<Rightarrow> rx \<Rightarrow> string \<Rightarrow> nat \<Rightarrow> rx_found option" where
  "rx_search_from 0 r s i = rx_match_at r s i"
| "rx_search_from (Suc n) r s i = (case rx_match_at r s i of None \<Rightarrow> rx_search_from n r s (Suc i) | Some m \<Rightarrow> Some m)"

definition rx_search :: "rx \<Rightarrow> string \<Rightarrow> rx_found option" where
  "rx_search r s = rx_search_from (length s) r s 0"

text \<open>\<open>finditer\<close>, for expressions that do not match the empty string.\<close>

fun rx_find_from :: "nat \<Rightarrow> rx \<Rightarrow> string \<Rightarrow> nat \<Rightarrow> rx_found list" where
  "rx_find_from 0 r s i = []"
| "rx_find_from (Suc n) r s i =
     (if length s < i then []
      else case rx_search_from (length s - i) r s i of None \<Rightarrow> [] | Some m \<Rightarrow> m # rx_find_from n r s (max (Suc i) (fst (snd m))))"

definition rx_findall :: "rx \<Rightarrow> string \<Rightarrow> rx_found list" where
  "rx_findall r s = rx_find_from (Suc (length s)) r s 0"

definition rx_group :: "nat \<Rightarrow> string \<Rightarrow> rx_found \<Rightarrow> string option" where
  "rx_group k s m = map_option (\<lambda>(i, j). take (j - i) (drop i s)) (map_of (snd (snd m)) k)"

section \<open>Abbreviations\<close>

primrec rx_seqs :: "rx list \<Rightarrow> rx" where
  "rx_seqs [] = Rx_eps"
| "rx_seqs (r # rs) = (if rs = [] then r else Rx_seq r (rx_seqs rs))"

fun rx_alts :: "rx list \<Rightarrow> rx" where
  "rx_alts [] = Rx_char (\<lambda>_. False)"
| "rx_alts [r] = r"
| "rx_alts (r # rs) = Rx_alt r (rx_alts rs)"

text \<open>A literal text, with \<open>re.IGNORECASE\<close> or without.\<close>

definition rx_lit :: "string \<Rightarrow> rx" where
  "rx_lit s = rx_seqs (map (\<lambda>c. Rx_char (\<lambda>d. d = c)) s)"

definition rx_ilit :: "string \<Rightarrow> rx" where
  "rx_ilit s = rx_seqs (map (\<lambda>c. Rx_char (\<lambda>d. lower_char d = lower_char c)) s)"

definition rx_plus :: "rx \<Rightarrow> rx" where
  "rx_plus r = Rx_seq r (Rx_star True r)"

definition rx_opt :: "rx \<Rightarrow> rx" where
  "rx_opt r = Rx_alt r Rx_eps"

definition rx_least :: "nat \<Rightarrow> rx \<Rightarrow> rx" where
  "rx_least n r = rx_seqs (replicate n r @ [Rx_star True r])"

definition rx_space :: rx where
  "rx_space = Rx_star True (Rx_char is_space)"

definition rx_quote :: rx where
  "rx_quote = Rx_char (\<lambda>c. c = CHR 0x22 \<or> c = CHR 0x27)"

section \<open>Lemmas\<close>

lemma rx_repeat_bounds:
  assumes "\<And>t u. fst t \<le> m \<Longrightarrow> u \<in> set (step t) \<Longrightarrow> fst t \<le> fst u \<and> fst u \<le> m" "fst st \<le> m" "u \<in> set (rx_repeat n step greedy st)"
  shows "fst st \<le> fst u \<and> fst u \<le> m"
  using assms(2,3)
proof (induction n arbitrary: st)
  case (Suc n)
  consider "u = st" | t where "t \<in> set (step st)" "fst st < fst t" "u \<in> set (rx_repeat n step greedy t)"
    using Suc.prems(2) by (auto simp: Let_def not_le split: if_splits)
  then show ?case
  proof cases
    case 2
    have "fst t \<le> m" using assms(1) [OF Suc.prems(1) 2(1)] by simp
    then show ?thesis using Suc.IH [OF _ 2(3)] 2(2) by simp
  qed (use Suc.prems(1) in simp)
qed simp

text \<open>A match lies in the text.\<close>

lemma rx_star_bounds:
  assumes IH: "\<And>st u. fst st \<le> length s \<Longrightarrow> u \<in> set (rx_ends r s st) \<Longrightarrow> fst st \<le> fst u \<and> fst u \<le> length s"
    and st: "fst st \<le> length s" "u \<in> set (rx_ends (Rx_star greedy r) s st)"
  shows "fst st \<le> fst u \<and> fst u \<le> length s"
proof -
  have u: "u \<in> set (rx_repeat (length s) (rx_ends r s) greedy st)" using st(2) unfolding rx_ends.simps .
  show ?thesis using rx_repeat_bounds [of "length s" "rx_ends r s" st u "length s" greedy] IH st(1) u by blast
qed

lemma rx_ends_bounds: "fst st \<le> length s \<Longrightarrow> u \<in> set (rx_ends r s st) \<Longrightarrow> fst st \<le> fst u \<and> fst u \<le> length s"
proof (induction r arbitrary: st u)
  case (Rx_star greedy r)
  show ?case by (rule rx_star_bounds [OF Rx_star.IH Rx_star.prems])
next
  case (Rx_seq a b)
  obtain t where t: "t \<in> set (rx_ends a s st)" "u \<in> set (rx_ends b s t)" using Rx_seq.prems(2) by auto
  have "fst st \<le> fst t" "fst t \<le> length s" using Rx_seq.IH(1) [OF Rx_seq.prems(1) t(1)] by blast+
  then show ?case using Rx_seq.IH(2) [OF _ t(2)] le_trans by blast
next
  case (Rx_alt a b)
  have "u \<in> set (rx_ends a s st) \<or> u \<in> set (rx_ends b s st)" using Rx_alt.prems(2) by simp
  then show ?case using Rx_alt.IH(1) [OF Rx_alt.prems(1)] Rx_alt.IH(2) [OF Rx_alt.prems(1)] by blast
next
  case (Rx_group k r)
  obtain t where "t \<in> set (rx_ends r s st)" "fst u = fst t" using Rx_group.prems(2) by auto
  then show ?case using Rx_group.IH [OF Rx_group.prems(1)] by presburger
next
  case (Rx_char p)
  have "u \<in> set (if fst st < length s \<and> p (s ! fst st) then [(Suc (fst st), snd st)] else [])" using Rx_char.prems(2) unfolding rx_ends.simps .
  then have "fst st < length s \<and> u = (Suc (fst st), snd st)" by (cases "fst st < length s \<and> p (s ! fst st)") simp_all
  then show ?case by simp
next
  case Rx_eps
  then show ?case by simp
next
  case Rx_start
  then have "u = st" by (cases "fst st = 0") simp_all
  then show ?case using Rx_start.prems(1) by simp
next
  case Rx_end
  have "u = st" using Rx_end.prems(2) by (simp split: if_split_asm)
  then show ?case using Rx_end.prems(1) by simp
next
  case Rx_boundary
  have "u = st" using Rx_boundary.prems(2) by (simp split: if_split_asm)
  then show ?case using Rx_boundary.prems(1) by simp
qed

end
