(* ===== verification/Secchecks.thy ===== *)
theory Secchecks
  imports Secrules Safety Pyre
begin

text \<open>
  Security checks that read what the pages of the routes answer (\<open>modules/security/checks\<close>: \<open>headers.py\<close>, \<open>cookies.py\<close>, \<open>cors.py\<close>, \<open>csrf.py\<close>). The
  target is a function from URLs to replies, \<open>None\<close> an \<open>httpx.HTTPError\<close>; a reply holds what \<open>httpx\<close> makes of it: the headers by name, the values of
  \<open>Set-Cookie\<close> one by one, the text. A run of a check gives the URLs it asked for, in order, and its result; \<open>nfkc_ok\<close> is the one of theory \<open>Url\<close>.
\<close>

section \<open>Contexts and replies\<close>

record http_reply =
  hp_status :: int
  hp_headers :: "(string, string) dict"
  hp_cookies :: "string list"
  hp_body :: string
  hp_elapsed :: int

type_synonym http_client = "string \<Rightarrow> http_reply option"

datatype check_error = Ck_unsafe safety_error | Ck_no_issue | Ck_bad_url | Ck_config string

type_synonym check_run = "string list \<times> (check_error + check_result)"

text \<open>What the policy reads besides the target: how it prints times, what the files of proofs hold, and the time.\<close>

record policy_world =
  pw_isofmt :: "int \<Rightarrow> string"
  pw_read :: "string \<Rightarrow> proof_source"
  pw_clock :: int

record check_context =
  cx_target :: target
  cx_routes :: "string list"
  cx_policy :: policy_world
  cx_host :: string
  cx_mode :: mode

text \<open>\<open>SafetyPolicy().enforce(ctx.target, ctx.safety.mode)\<close>: no log is attached, and the time is the current one.\<close>

definition cx_enforced :: "check_context \<Rightarrow> safety_error + safety_decision" where
  "cx_enforced ctx = fst (enforce (pw_isofmt (cx_policy ctx)) (pw_read (cx_policy ctx)) (pw_clock (cx_policy ctx)) (cx_target ctx) (Some (cx_mode ctx)) None None)"

definition probe_url :: "(string \<Rightarrow> bool) \<Rightarrow> check_context \<Rightarrow> string \<Rightarrow> (string \<times> url_parts) option" where
  "probe_url nfkc_ok ctx route =
     Option.bind (urljoin nfkc_ok (t_base_url (cx_target ctx)) route) (\<lambda>u. map_option (Pair u) (urlparse nfkc_ok [] u))"

text \<open>The loop over the routes that the checks share: a route that does not answer is passed over.\<close>

fun scan_routes ::
  "(string \<Rightarrow> (string \<times> url_parts) option) \<Rightarrow> http_client \<Rightarrow> (string \<Rightarrow> url_parts \<Rightarrow> http_reply \<Rightarrow> security_issue option list) \<Rightarrow> string list
     \<Rightarrow> string list \<times> (check_error + nat \<times> security_issue list)" where
  "scan_routes url_of get evaluate [] = ([], Inr (0, []))"
| "scan_routes url_of get evaluate (r # rs) =
     (case url_of r of
        None \<Rightarrow> ([], Inl Ck_bad_url)
      | Some (u, parts) \<Rightarrow>
          (case get u of
             None \<Rightarrow> map_prod (Cons u) id (scan_routes url_of get evaluate rs)
           | Some reply \<Rightarrow>
               (case those (evaluate r parts reply) of
                  None \<Rightarrow> ([u], Inl Ck_no_issue)
                | Some found \<Rightarrow> map_prod (Cons u) (map_sum id (map_prod Suc (append found))) (scan_routes url_of get evaluate rs))))"

definition result_of :: "string \<Rightarrow> string list \<times> (check_error + nat \<times> security_issue list) \<Rightarrow> check_run" where
  "result_of check_name scanned =
     map_prod id (map_sum id (\<lambda>(n, found).
       \<lparr>ck_check = check_name, ck_targets = n, ck_issues = found, ck_skipped = False, ck_reason = None\<rparr>)) scanned"

definition guarded :: "check_context \<Rightarrow> 'r list \<times> (check_error + check_result) \<Rightarrow> 'r list \<times> (check_error + check_result)" where
  "guarded ctx run = (case cx_enforced ctx of Inl e \<Rightarrow> ([], Inl (Ck_unsafe e)) | Inr _ \<Rightarrow> run)"

section \<open>Headers\<close>

definition header_map :: "(string, string) dict \<Rightarrow> string \<Rightarrow> string option" where
  "header_map headers = map_of (rev (map (\<lambda>(k, v). (py_lower k, v)) headers))"

definition headers_confidence :: flt where
  "headers_confidence = fl (95 / 100)"

text \<open>\<open>red\<close> is the redactor on a string.\<close>

definition evaluate_headers :: "(string \<Rightarrow> string) \<Rightarrow> string \<Rightarrow> bool \<Rightarrow> (string, string) dict \<Rightarrow> security_issue option list" where
  "evaluate_headers red route is_https headers =
     (let h = header_map headers;
          csp = h ''content-security-policy'';
          issue = (\<lambda>rule sev extra. rule_issue rule sev headers_confidence route extra)
      in (if is_https \<and> h ''strict-transport-security'' = None then [issue ''SEC-HEADERS-HSTS-MISSING'' High []] else []) @
         (case csp of
            None \<Rightarrow> [issue ''SEC-HEADERS-CSP-MISSING'' High []]
          | Some v \<Rightarrow>
              if py_in ([CHR 0x27] @ ''unsafe-inline'' @ [CHR 0x27]) (py_lower v) \<or> py_in ([CHR 0x27] @ ''unsafe-eval'' @ [CHR 0x27]) (py_lower v)
              then [issue ''SEC-HEADERS-CSP-UNSAFE-INLINE'' Medium [(''csp'', J_str (red v))]] else []) @
         (if h ''x-frame-options'' = None \<and> \<not> (case csp of None \<Rightarrow> False | Some v \<Rightarrow> py_in ''frame-ancestors'' (py_lower v))
          then [issue ''SEC-HEADERS-XFRAME-MISSING'' Medium []] else []) @
         (if py_lower (case h ''x-content-type-options'' of None \<Rightarrow> [] | Some v \<Rightarrow> v) \<noteq> ''nosniff''
          then [issue ''SEC-HEADERS-XCONTENT-NOSNIFF-MISSING'' Medium []] else []) @
         (if h ''referrer-policy'' = None then [issue ''SEC-HEADERS-REFERRER-POLICY-MISSING'' Low []] else []) @
         (if h ''permissions-policy'' = None then [issue ''SEC-HEADERS-PERMISSIONS-POLICY-MISSING'' Low []] else []))"

definition run_headers_check :: "(string \<Rightarrow> bool) \<Rightarrow> (string \<Rightarrow> string) \<Rightarrow> http_client \<Rightarrow> check_context \<Rightarrow> check_run" where
  "run_headers_check nfkc_ok red get ctx =
     guarded ctx (result_of ''headers'' (scan_routes (probe_url nfkc_ok ctx) get
       (\<lambda>route parts reply. evaluate_headers red route (up_scheme parts = ''https'') (hp_headers reply)) (cx_routes ctx)))"

section \<open>Cookies\<close>

record parsed_cookie =
  pc_name :: string
  pc_attributes :: "string list"
  pc_samesite :: "string option"
  pc_domain :: "string option"
  pc_path :: "string option"

definition empty_cookie :: parsed_cookie where
  "empty_cookie = \<lparr>pc_name = [], pc_attributes = [], pc_samesite = None, pc_domain = None, pc_path = None\<rparr>"

definition lstrip_dots :: "string \<Rightarrow> string" where
  "lstrip_dots = dropWhile (\<lambda>c. c = CHR ''.'')"

definition add_attribute :: "parsed_cookie \<Rightarrow> string \<Rightarrow> parsed_cookie" where
  "add_attribute c token =
     (case after_char CHR ''='' token of
        None \<Rightarrow> c\<lparr>pc_attributes := pc_attributes c @ [py_lower (py_strip token)]\<rparr>
      | Some rest \<Rightarrow>
          (let attr = py_lower (py_strip (before_char CHR ''='' token));
               val = py_strip rest;
               d = (if attr = ''samesite'' then c\<lparr>pc_samesite := Some (py_lower val)\<rparr>
                    else if attr = ''domain'' then c\<lparr>pc_domain := (if val = [] then None else Some (py_lower (lstrip_dots val))),
                           pc_attributes := pc_attributes c @ (if py_startswith val ''.'' then [''domain-leading-dot''] else [])\<rparr>
                    else if attr = ''path'' then c\<lparr>pc_path := Some val\<rparr> else c)
           in d\<lparr>pc_attributes := pc_attributes d @ [attr]\<rparr>))"

definition cookie_parts :: "string \<Rightarrow> string list" where
  "cookie_parts raw = filter (\<lambda>p. p \<noteq> []) (map py_strip (split_on CHR '';'' (before_char CHR '','' raw)))"

definition parse_set_cookie :: "string \<Rightarrow> parsed_cookie" where
  "parse_set_cookie raw =
     (case cookie_parts raw of
        [] \<Rightarrow> empty_cookie
      | nv # tokens \<Rightarrow> (foldl add_attribute empty_cookie tokens)\<lparr>pc_name := py_strip (before_char CHR ''='' nv)\<rparr>)"

definition is_auth_like :: "parsed_cookie \<Rightarrow> bool" where
  "is_auth_like c \<longleftrightarrow> list_ex (\<lambda>t. py_in t (py_lower (pc_name c))) [''session'', ''sess'', ''auth'', ''jwt'', ''token'', ''sid'']"

definition has_host_prefix :: "parsed_cookie \<Rightarrow> bool" where
  "has_host_prefix c \<longleftrightarrow> py_startswith (pc_name c) ''__Host-''"

definition has_secure_prefix :: "parsed_cookie \<Rightarrow> bool" where
  "has_secure_prefix c \<longleftrightarrow> py_startswith (pc_name c) ''__Secure-''"

definition overbroad_domain :: "parsed_cookie \<Rightarrow> string option \<Rightarrow> bool" where
  "overbroad_domain c host \<longleftrightarrow>
     (case (pc_domain c, host) of
        (Some d, Some h) \<Rightarrow> ''domain-leading-dot'' \<in> set (pc_attributes c) \<and> d \<noteq> py_lower h \<and> py_endswith (py_lower h) (''.'' @ d)
      | _ \<Rightarrow> False)"

definition evaluate_cookie :: "parsed_cookie \<Rightarrow> string \<Rightarrow> bool \<Rightarrow> string option \<Rightarrow> security_issue option list" where
  "evaluate_cookie c route is_https host =
     (if pc_name c = [] then []
      else let auth = is_auth_like c;
               issue = (\<lambda>rule sev extra. rule_issue rule sev headers_confidence route ((''cookie_name'', J_str (pc_name c)) # extra));
               liked = [(''auth_like'', J_bool auth)];
               has = (\<lambda>a. a \<in> set (pc_attributes c))
        in (if \<not> has ''httponly'' then [issue ''SEC-COOKIE-MISSING-HTTPONLY'' (if auth then High else Medium) liked] else []) @
           (if is_https \<and> \<not> has ''secure'' then [issue ''SEC-COOKIE-MISSING-SECURE'' (if auth then High else Medium) liked] else []) @
           (case pc_samesite c of
              None \<Rightarrow> [issue ''SEC-COOKIE-MISSING-SAMESITE'' (if auth then Medium else Low) liked]
            | Some s \<Rightarrow> if s = ''none'' \<and> \<not> has ''secure'' then [issue ''SEC-COOKIE-SAMESITE-NONE-WITHOUT-SECURE'' High []] else []) @
           (if auth \<and> \<not> (has_host_prefix c \<or> has_secure_prefix c)
            then [issue ''SEC-COOKIE-MISSING-PREFIX'' Medium
              [(''expected_prefix'', J_str (if has ''domain'' then ''__Secure-'' else ''__Host-'')), (''cwe_id'', J_str ''CWE-1004'')]] else []) @
           (if overbroad_domain c host
            then [issue ''SEC-COOKIE-OVERBROAD-DOMAIN'' Medium
              [(''domain'', case pc_domain c of None \<Rightarrow> J_null | Some d \<Rightarrow> J_str d),
               (''response_host'', case host of None \<Rightarrow> J_null | Some h \<Rightarrow> J_str (py_lower h)), (''cwe_id'', J_str ''CWE-1275'')]] else []) @
           (if pc_path c = Some ''/'' \<and> auth \<and> \<not> has_host_prefix c
            then [issue ''SEC-COOKIE-OVERBROAD-PATH'' Low [(''path'', J_str ''/''), (''cwe_id'', J_str ''CWE-1275'')]] else []))"

definition reply_host :: "url_parts \<Rightarrow> string option" where
  "reply_host parts = (case netloc_hostname (up_netloc parts) of [] \<Rightarrow> None | c # cs \<Rightarrow> Some (c # cs))"

definition run_cookies_check :: "(string \<Rightarrow> bool) \<Rightarrow> http_client \<Rightarrow> check_context \<Rightarrow> check_run" where
  "run_cookies_check nfkc_ok get ctx =
     guarded ctx (result_of ''cookies'' (scan_routes (probe_url nfkc_ok ctx) get
       (\<lambda>route parts reply. concat (map (\<lambda>raw. evaluate_cookie (parse_set_cookie raw) route (up_scheme parts = ''https'') (reply_host parts)) (hp_cookies reply)))
       (cx_routes ctx)))"

section \<open>Cross-origin requests\<close>

definition synthetic_origin :: string where
  "synthetic_origin = ''https://sentinelqa.invalid''"

definition evaluate_cors :: "string \<Rightarrow> (string, string) dict \<Rightarrow> security_issue option list" where
  "evaluate_cors route headers =
     (let h = header_map headers;
          acac = py_lower (case h ''access-control-allow-credentials'' of None \<Rightarrow> [] | Some v \<Rightarrow> v) = ''true''
      in case h ''access-control-allow-origin'' of
           None \<Rightarrow> []
         | Some acao \<Rightarrow>
             (if py_strip acao = ''*'' \<and> acac
              then [rule_issue ''SEC-CORS-WILDCARD-CREDENTIALS'' Critical (fl (9 / 10)) route [(''acao'', J_str acao), (''allow_credentials'', J_bool True)]] else []) @
             (if py_lower (py_strip acao) = py_lower synthetic_origin
              then [rule_issue ''SEC-CORS-REFLECTIVE-ALLOW-ORIGIN'' High (fl (9 / 10)) route [(''reflected_origin'', J_str synthetic_origin)]] else []))"

text \<open>\<open>preflight\<close> answers the OPTIONS requests from the synthetic origin.\<close>

definition run_cors_check :: "(string \<Rightarrow> bool) \<Rightarrow> http_client \<Rightarrow> check_context \<Rightarrow> check_run" where
  "run_cors_check nfkc_ok preflight ctx =
     guarded ctx (result_of ''cors'' (scan_routes (probe_url nfkc_ok ctx) preflight
       (\<lambda>route parts reply. evaluate_cors route (hp_headers reply)) (cx_routes ctx)))"

section \<open>Request forgery\<close>

definition form_rx :: rx where
  "form_rx = rx_seqs [rx_ilit ''<form'', Rx_boundary, Rx_group 1 (Rx_star True (Rx_char (\<lambda>c. c \<noteq> CHR ''>''))), rx_lit ''>'',
     Rx_group 2 (Rx_star False (Rx_char (\<lambda>_. True))), rx_ilit ''</form>'']"

definition method_rx :: rx where
  "method_rx = rx_seqs [rx_ilit ''method'', rx_space, rx_lit ''='', rx_space, rx_opt rx_quote, Rx_group 1 (rx_plus (Rx_char is_ascii_alpha)), rx_opt rx_quote]"

definition input_name_rx :: rx where
  "input_name_rx = rx_seqs [rx_ilit ''<input'', Rx_boundary, Rx_star True (Rx_char (\<lambda>c. c \<noteq> CHR ''>'')), Rx_boundary, rx_ilit ''name'', rx_space, rx_lit ''='',
     rx_space, rx_quote, Rx_group 1 (rx_plus (Rx_char (\<lambda>c. c \<noteq> CHR 0x22 \<and> c \<noteq> CHR 0x27))), rx_quote]"

definition meta_csrf_rx :: rx where
  "meta_csrf_rx = rx_seqs [rx_ilit ''<meta'', Rx_boundary, Rx_star True (Rx_char (\<lambda>c. c \<noteq> CHR ''>'')), Rx_boundary, rx_ilit ''name'', rx_space, rx_lit ''='',
     rx_space, rx_quote, rx_alts (map rx_ilit [''csrf-token'', ''csrf'', ''x-csrf-token'', ''x-xsrf-token'']), rx_quote]"

definition csrf_field_rx :: rx where
  "csrf_field_rx = rx_seqs [Rx_alt Rx_start (rx_lit ''_''), rx_alts (map rx_ilit [''csrf'', ''xsrf'', ''_token'', ''authenticity_token'']), Rx_boundary]"

definition csrf_field :: "string \<Rightarrow> bool" where
  "csrf_field name \<longleftrightarrow> rx_search csrf_field_rx name \<noteq> None"

definition input_names :: "string \<Rightarrow> string list" where
  "input_names body = List.map_filter (rx_group 1 body) (rx_findall input_name_rx body)"

definition form_has_csrf_token :: "string \<Rightarrow> bool" where
  "form_has_csrf_token body \<longleftrightarrow> list_ex csrf_field (input_names body)"

definition page_has_csrf_meta :: "string \<Rightarrow> bool" where
  "page_has_csrf_meta html \<longleftrightarrow> rx_search meta_csrf_rx html \<noteq> None"

definition samesite_protects :: "string list \<Rightarrow> bool" where
  "samesite_protects cookies \<longleftrightarrow> list_ex (\<lambda>raw. pc_samesite (parse_set_cookie raw) \<in> {Some ''lax'', Some ''strict''}) cookies"

definition form_method :: "string \<Rightarrow> string" where
  "form_method attrs = py_upper (case Option.bind (rx_search method_rx attrs) (rx_group 1 attrs) of None \<Rightarrow> ''GET'' | Some m \<Rightarrow> m)"

definition forms_of :: "string \<Rightarrow> (string \<times> string) list" where
  "forms_of body = map (\<lambda>m. (case rx_group 1 body m of None \<Rightarrow> [] | Some a \<Rightarrow> a, case rx_group 2 body m of None \<Rightarrow> [] | Some i \<Rightarrow> i)) (rx_findall form_rx body)"

definition evaluate_csrf :: "string \<Rightarrow> http_reply \<Rightarrow> security_issue option list" where
  "evaluate_csrf route reply =
     (let meta = page_has_csrf_meta (hp_body reply);
          samesite = samesite_protects (hp_cookies reply)
      in concat (map (\<lambda>(attrs, inner).
           if form_method attrs \<notin> set [''POST'', ''PUT'', ''PATCH'', ''DELETE''] \<or> form_has_csrf_token inner \<or> meta \<or> samesite then []
           else [rule_issue ''SEC-CSRF-MISSING-TOKEN'' High (fl (7 / 10)) route
             [(''form_method'', J_str (form_method attrs)), (''samesite_protected'', J_bool samesite), (''meta_csrf_token'', J_bool meta)]])
         (forms_of (hp_body reply))))"

definition run_csrf_check :: "(string \<Rightarrow> bool) \<Rightarrow> http_client \<Rightarrow> check_context \<Rightarrow> check_run" where
  "run_csrf_check nfkc_ok get ctx =
     guarded ctx (result_of ''csrf'' (scan_routes (probe_url nfkc_ok ctx) get (\<lambda>route parts reply. evaluate_csrf route reply) (cx_routes ctx)))"

end
