(* ===== verification/Secprobes.thy ===== *)
theory Secprobes
  imports Secchecks Runs
begin

text \<open>
  Security probes that send something (\<open>modules/security/checks\<close>: \<open>api_bola_bfla.py\<close>, \<open>ssrf_redirect.py\<close>, \<open>open_redirect.py\<close>,
  \<open>graphql_safety.py\<close>, \<open>idor.py\<close>). A run gives the requests it makes, in order, and its result; the target is a function of the request, and \<open>None\<close> is an
  \<open>httpx.HTTPError\<close>.
\<close>

section \<open>Issues and runs\<close>

text \<open>The bounds of \<open>SecurityIssue\<close>; \<open>None\<close> is a \<open>ValidationError\<close>.\<close>

definition make_issue :: "security_issue \<Rightarrow> security_issue option" where
  "make_issue i =
     (if bounded_str 1 300 (is_title i) \<and> bounded_str 1 8000 (is_description i) \<and> (case is_route i of None \<Rightarrow> True | Some r \<Rightarrow> py_len r \<le> 2048) \<and>
         (case is_recommendation i of None \<Rightarrow> True | Some r \<Rightarrow> py_len r \<le> 4000) then Some i else None)"

fun probe_all :: "('a \<Rightarrow> 'r list \<times> security_issue option list) \<Rightarrow> 'a list \<Rightarrow> 'r list \<times> security_issue list option" where
  "probe_all probe [] = ([], Some [])"
| "probe_all probe (x # xs) =
     (case probe x of (asked, found) \<Rightarrow>
        (case those found of None \<Rightarrow> (asked, None)
         | Some issues \<Rightarrow> map_prod (append asked) (map_option (append issues)) (probe_all probe xs)))"

definition probe_result :: "string \<Rightarrow> nat \<Rightarrow> 'r list \<times> security_issue list option \<Rightarrow> 'r list \<times> (check_error + check_result)" where
  "probe_result check_name targets run =
     (fst run, case snd run of None \<Rightarrow> Inl Ck_no_issue
       | Some issues \<Rightarrow> Inr \<lparr>ck_check = check_name, ck_targets = targets, ck_issues = issues, ck_skipped = False, ck_reason = None\<rparr>)"

definition skipped_result :: "string \<Rightarrow> string \<Rightarrow> check_result" where
  "skipped_result check_name reason = \<lparr>ck_check = check_name, ck_targets = 0, ck_issues = [], ck_skipped = True, ck_reason = Some reason\<rparr>"

text \<open>The gate of the probes that may change something.\<close>

definition ensure_gated :: "string \<Rightarrow> check_context \<Rightarrow> check_error option" where
  "ensure_gated check_name ctx =
     (if cx_mode ctx \<noteq> Authorized_Destructive
      then Some (Ck_config (check_name @ '' requires security.mode='' @ [CHR 0x27] @ ''authorized_destructive'' @ [CHR 0x27] @ ''.''))
      else if t_proof (cx_target ctx) = None then Some (Ck_config (check_name @ '' requires target.proof_of_authorization.''))
      else None)"

definition gated_run :: "string \<Rightarrow> check_context \<Rightarrow> 'r list \<times> (check_error + check_result) \<Rightarrow> 'r list \<times> (check_error + check_result)" where
  "gated_run check_name ctx run = guarded ctx (case ensure_gated check_name ctx of Some e \<Rightarrow> ([], Inl e) | None \<Rightarrow> run)"

text \<open>\<open>xs[:n]\<close>.\<close>

definition py_prefix :: "int \<Rightarrow> 'a list \<Rightarrow> 'a list" where
  "py_prefix n xs = (if 0 \<le> n then take (nat n) xs else take (length xs - nat (- n)) xs)"

section \<open>Broken authorization\<close>

record captured_call =
  cc_method :: string
  cc_url :: string
  cc_shape :: "string list"

record replay_headers =
  rh_identity_a :: "(string, string) dict"
  rh_identity_b :: "(string, string) dict"
  rh_b_is_admin :: bool

definition looks_admin_path :: "string \<Rightarrow> bool" where
  "looks_admin_path url \<longleftrightarrow> list_ex (\<lambda>t. py_in t (py_lower url)) [''/admin'', ''/manage'', ''/internal'', ''/super'']"

definition path_id_rx :: rx where
  "path_id_rx = rx_seqs [rx_lit ''/'',
     Rx_alt (rx_plus (Rx_char is_digit_char)) (rx_least 8 (Rx_char (\<lambda>c. is_digit_char c \<or> c \<in> set ''abcdef-''))),
     Rx_alt (rx_lit ''/'') Rx_end]"

definition has_path_id :: "string \<Rightarrow> bool" where
  "has_path_id url \<longleftrightarrow> rx_search path_id_rx url \<noteq> None"

datatype replay_class = Clean | Bola | Bfla

definition classify_replay :: "captured_call \<Rightarrow> int \<Rightarrow> json option \<Rightarrow> bool \<Rightarrow> replay_class" where
  "classify_replay call status body b_is_admin =
     (if \<not> (200 \<le> status \<and> status < 300) then Clean
      else if looks_admin_path (cc_url call) \<and> \<not> b_is_admin then Bfla
      else case body of
          Some (J_obj d) \<Rightarrow> if sort (map fst d) = cc_shape call \<and> has_path_id (cc_url call) then Bola else Clean
        | _ \<Rightarrow> Clean)"

fun evaluate_classification :: "captured_call \<Rightarrow> replay_class \<Rightarrow> security_issue option list" where
  "evaluate_classification call Clean = []"
| "evaluate_classification call Bola =
     [make_issue \<lparr>is_rule_id = ''SEC-BOLA-CROSS-TENANT-READ'', is_severity = Critical, is_confidence = fl (95 / 100),
        is_title = ''BOLA: '' @ cc_method call @ '' '' @ cc_url call @ '' exposed across identities'',
        is_description = ''Endpoint returned identity-A's response shape when called as identity B. Object-level authorization is missing. CWE-639 / OWASP API-2023-01.'',
        is_route = Some (cc_url call),
        is_evidence = [(''method'', J_str (cc_method call)), (''url'', J_str (cc_url call)), (''body_shape'', J_str (py_join '','' (cc_shape call))),
          (''cwe_id'', J_str ''CWE-639''), (''owasp_api_id'', J_str ''API-2023-01'')],
        is_recommendation = Some (''Enforce object ownership server-side; require the caller's identity to match the resource owner.'')\<rparr>]"
| "evaluate_classification call Bfla =
     [make_issue \<lparr>is_rule_id = ''SEC-BFLA-ELEVATED-ACTION'', is_severity = High, is_confidence = fl (95 / 100),
        is_title = ''BFLA: '' @ cc_method call @ '' '' @ cc_url call @ '' accepts non-admin identity'',
        is_description = ''Admin-shaped endpoint returned 2xx when called as a non-admin identity. CWE-863 / OWASP API-2023-03.'',
        is_route = Some (cc_url call),
        is_evidence = [(''method'', J_str (cc_method call)), (''url'', J_str (cc_url call)), (''cwe_id'', J_str ''CWE-863''), (''owasp_api_id'', J_str ''API-2023-03'')],
        is_recommendation = Some ''Enforce role-based authorization before the controller body runs; deny by default.''\<rparr>]"

text \<open>\<open>send\<close> is the client: the status and, when it is JSON, the body.\<close>

type_synonym replay_client = "string \<Rightarrow> string \<Rightarrow> (string, string) dict \<Rightarrow> (int \<times> json option) option"

definition replay_one :: "replay_client \<Rightarrow> replay_headers \<Rightarrow> captured_call \<Rightarrow> (string \<times> string) list \<times> security_issue option list" where
  "replay_one send headers call =
     ([(cc_method call, cc_url call)],
      case send (cc_method call) (cc_url call) (rh_identity_b headers) of
        None \<Rightarrow> [] | Some (status, body) \<Rightarrow> evaluate_classification call (classify_replay call status body (rh_b_is_admin headers)))"

definition run_bola_bfla_check ::
  "replay_client \<Rightarrow> check_context \<Rightarrow> captured_call list \<Rightarrow> replay_headers \<Rightarrow> int \<Rightarrow> (string \<times> string) list \<times> (check_error + check_result)" where
  "run_bola_bfla_check send ctx calls headers max_endpoints =
     (let chosen = py_prefix max_endpoints calls in
      gated_run ''api_bola_bfla'' ctx (probe_result ''api_bola_bfla'' (length chosen) (probe_all (replay_one send headers) chosen)))"

section \<open>Server-side requests\<close>

definition ssrf_payloads :: "string list" where
  "ssrf_payloads = [''http://127.0.0.1/'', ''http://localhost/'', ''http://169.254.169.254/'', ''http://[::1]/'', ''file:///etc/passwd'', ''gopher://127.0.0.1:6379/_PING%0a'']"

definition open_redirect_payloads :: "string list" where
  "open_redirect_payloads = [''//attacker.example.com'', ''https://attacker.example.com.legit.com.allowedhost.example'']"

definition rejection_hints :: "string list" where
  "rejection_hints = [''could not resolve'', ''invalid url'', ''blocked'', ''forbidden host'', ''not allowed'', ''ssrf'']"

record url_input =
  ui_method :: string
  ui_url :: string
  ui_parameter :: string

text \<open>
  \<open>decode("utf-8", errors="replace")\<close>: a byte that begins no character and each longest prefix of a character that is cut short is replaced by U+FFFD.
  \<open>utf8_second\<close> says which second bytes may follow a first one, \<open>utf8_need\<close> how many bytes follow it.
\<close>

definition utf8_need :: "nat \<Rightarrow> nat" where
  "utf8_need b = (if b < 128 then 0 else if 194 \<le> b \<and> b \<le> 223 then 1 else if 224 \<le> b \<and> b \<le> 239 then 2 else if 240 \<le> b \<and> b \<le> 244 then 3 else 0)"

definition utf8_second :: "nat \<Rightarrow> nat \<Rightarrow> bool" where
  "utf8_second b c \<longleftrightarrow> (if b = 224 then 160 else if b = 240 then 144 else 128) \<le> c \<and> c \<le> (if b = 237 then 159 else if b = 244 then 143 else 191)"

definition utf8_tail :: "nat \<Rightarrow> string \<Rightarrow> nat" where
  "utf8_tail b rest =
     (case rest of [] \<Rightarrow> 0
      | c # cs \<Rightarrow> if utf8_need b = 0 \<or> \<not> utf8_second b (of_char c) then 0 else Suc (length (takeWhile is_cont (take (utf8_need b - 1) cs))))"

fun decode_replace_from :: "nat \<Rightarrow> string \<Rightarrow> string" where
  "decode_replace_from 0 s = []"
| "decode_replace_from (Suc n) [] = []"
| "decode_replace_from (Suc n) (c # cs) =
     (let b = (of_char c :: nat); k = utf8_tail b cs in
      (if b < 128 \<or> (0 < utf8_need b \<and> k = utf8_need b) then c # take k cs else [CHR 0xEF, CHR 0xBF, CHR 0xBD]) @ decode_replace_from n (drop k cs))"

definition decode_replace :: "string \<Rightarrow> string" where
  "decode_replace s = decode_replace_from (length s) s"

text \<open>Runs of control characters become one space.\<close>

fun strip_controls :: "bool \<Rightarrow> string \<Rightarrow> string" where
  "strip_controls inside [] = []"
| "strip_controls inside (c # cs) =
     (if (of_char c :: nat) < 32 then (if inside then [] else '' '') @ strip_controls True cs else c # strip_controls False cs)"

definition body_excerpt :: "string \<Rightarrow> string" where
  "body_excerpt body = strip_controls False (decode_replace (take 200 body))"

text \<open>Whether it is suspected.\<close>

definition classify_ssrf_response :: "int \<Rightarrow> string \<Rightarrow> bool" where
  "classify_ssrf_response status body \<longleftrightarrow>
     \<not> (400 \<le> status \<and> status < 500) \<and> \<not> list_ex (\<lambda>hint. py_in hint (py_lower (decode_replace (take 512 body)))) rejection_hints"

definition classify_redirect_response :: "int \<Rightarrow> string option \<Rightarrow> bool" where
  "classify_redirect_response status location \<longleftrightarrow>
     (case location of None \<Rightarrow> False | Some l \<Rightarrow> 300 \<le> status \<and> status < 400 \<and> list_ex (\<lambda>bad. py_in bad l) open_redirect_payloads)"

definition evaluate_ssrf :: "url_input \<Rightarrow> string \<Rightarrow> int \<Rightarrow> string \<Rightarrow> bool \<Rightarrow> security_issue option list" where
  "evaluate_ssrf u payload status excerpt suspected =
     (if \<not> suspected then []
      else [make_issue \<lparr>is_rule_id = ''SEC-SSRF-SUSPECTED'', is_severity = High, is_confidence = fl (85 / 100),
         is_title = ''SSRF suspected: '' @ ui_method u @ '' '' @ ui_url u @ '' (param='' @ ui_parameter u @ '')'',
         is_description = ''The server returned a non-rejection response when fed `'' @ payload @ ''` into the URL-shaped input. CWE-918.'',
         is_route = Some (ui_url u),
         is_evidence = [(''method'', J_str (ui_method u)), (''url'', J_str (ui_url u)), (''parameter'', J_str (ui_parameter u)), (''payload'', J_str payload),
           (''status'', J_int status), (''body_excerpt'', J_str excerpt), (''cwe_id'', J_str ''CWE-918''), (''owasp_api_id'', J_str ''API-2023-07'')],
         is_recommendation = Some (''Validate that user-supplied URLs resolve outside the server's local network; deny loopback, link-local, '' @
           ''private CIDRs, and all non-HTTP schemes.'')\<rparr>])"

definition evaluate_redirect :: "url_input \<Rightarrow> string \<Rightarrow> int \<Rightarrow> string option \<Rightarrow> bool \<Rightarrow> security_issue option list" where
  "evaluate_redirect u payload status location flagged =
     (let shown = (case location of None \<Rightarrow> ''None'' | Some l \<Rightarrow> l) in
      if \<not> flagged then []
      else [make_issue \<lparr>is_rule_id = ''SEC-OPEN-REDIRECT'', is_severity = Medium, is_confidence = fl (95 / 100),
         is_title = ''Open redirect: '' @ ui_method u @ '' '' @ ui_url u @ '' (param='' @ ui_parameter u @ '')'',
         is_description = ''Redirect endpoint emitted a '' @ str_of_int status @ '' with `'' @ shown @ ''` in `Location` when fed `'' @ payload @ ''`. CWE-601.'',
         is_route = Some (ui_url u),
         is_evidence = [(''method'', J_str (ui_method u)), (''url'', J_str (ui_url u)), (''parameter'', J_str (ui_parameter u)), (''payload'', J_str payload),
           (''status'', J_int status), (''location'', case location of None \<Rightarrow> J_null | Some l \<Rightarrow> J_str l), (''cwe_id'', J_str ''CWE-601'')],
         is_recommendation = Some ''Restrict redirect destinations to an allowlist of known callback URLs.''\<rparr>])"

text \<open>An answer: the status, the bytes of the body, the header Location.\<close>

type_synonym payload_client = "url_input \<Rightarrow> string \<Rightarrow> (int \<times> string \<times> string option) option"

definition ssrf_one :: "payload_client \<Rightarrow> url_input \<times> bool \<times> string \<Rightarrow> (url_input \<times> string) list \<times> security_issue option list" where
  "ssrf_one send x =
     (case x of (u, redirect, payload) \<Rightarrow>
       ([(u, payload)],
        case send u payload of None \<Rightarrow> []
        | Some (status, body, location) \<Rightarrow>
            if redirect then evaluate_redirect u payload status location (classify_redirect_response status location)
            else evaluate_ssrf u payload status (body_excerpt body) (classify_ssrf_response status body)))"

definition ssrf_probes :: "url_input list \<Rightarrow> (url_input \<times> bool \<times> string) list" where
  "ssrf_probes inputs = concat (map (\<lambda>u. map (\<lambda>p. (u, False, p)) ssrf_payloads @ map (\<lambda>p. (u, True, p)) open_redirect_payloads) inputs)"

definition run_ssrf_redirect_check :: "payload_client \<Rightarrow> check_context \<Rightarrow> url_input list \<Rightarrow> (url_input \<times> string) list \<times> (check_error + check_result)" where
  "run_ssrf_redirect_check send ctx inputs =
     gated_run ''ssrf_redirect'' ctx (probe_result ''ssrf_redirect'' (length inputs) (probe_all (ssrf_one send) (ssrf_probes inputs)))"

section \<open>Open redirects\<close>

record redirect_finding =
  rf_severity :: severity
  rf_url :: string
  rf_parameter :: string
  rf_payload :: string
  rf_status :: int
  rf_location :: string
  rf_rationale :: string

definition bypass_vectors :: "string \<Rightarrow> string list" where
  "bypass_vectors trusted =
     (let attacker = ''attacker.test''; backslash = [CHR 0x5C] in
      [''//'' @ attacker, ''https://'' @ trusted @ ''@'' @ attacker, ''https://'' @ trusted @ ''%0a/'' @ attacker, ''https:/'' @ attacker,
       ''https:/'' @ backslash @ attacker, ''https://'' @ trusted @ ''.'' @ attacker, ''https://'' @ attacker @ ''.'' @ trusted,
       ''https://'' @ attacker @ backslash @ ''@'' @ trusted, ''hTTpS://'' @ attacker, ''https://3232235521/'', ''https://[::1]/'',
       ''https://%2F%2F'' @ attacker, ''https://'' @ trusted @ ''./'' @ attacker])"

text \<open>\<open>_SCHEME_HOST_RE\<close>: blanks, possibly a scheme, two slashes, and what comes up to a slash, a question mark or a hash.\<close>

definition scheme_host :: "string \<Rightarrow> string option" where
  "scheme_host location =
     (let u = dropWhile is_space location;
          scheme = takeWhile is_scheme_char u;
          rest = (if scheme \<noteq> [] \<and> is_ascii_alpha (hd scheme) \<and> take 1 (drop (length scheme) u) = '':'' then drop (Suc (length scheme)) u else u);
          netloc = takeWhile (\<lambda>c. c \<notin> set ''/?#'') (drop 2 rest)
      in if take 2 rest = ''//'' \<and> netloc \<noteq> [] then Some netloc else None)"

definition resolve_redirect_host :: "string \<Rightarrow> string option" where
  "resolve_redirect_host location =
     map_option (\<lambda>netloc. rev (dropWhile (\<lambda>c. c = CHR ''.'') (rev (py_lower (before_char CHR '':'' (after_last_char CHR ''@'' netloc))))))
       (scheme_host location)"

definition evaluate_redirect_response :: "string \<Rightarrow> string \<Rightarrow> string \<Rightarrow> int \<Rightarrow> string \<Rightarrow> string list \<Rightarrow> redirect_finding option" where
  "evaluate_redirect_response url parameter payload status location trusted =
     (if status \<notin> {301, 302, 303, 307, 308} \<or> location = [] then None
      else case resolve_redirect_host location of
          None \<Rightarrow> None
        | Some target \<Rightarrow>
            if list_ex (\<lambda>h. target = h \<or> py_endswith target (''.'' @ h)) trusted then None
            else let same = (resolve_redirect_host payload = Some target) in
              Some \<lparr>rf_severity = (if same then High else Medium), rf_url = url, rf_parameter = parameter, rf_payload = payload, rf_status = status,
                rf_location = location,
                rf_rationale = (if same then ''Attacker-controlled payload was reflected in Location header''
                  else ''Redirect target is outside the configured trusted-host allowlist'')\<rparr>)"

section \<open>GraphQL\<close>

definition introspection_query :: string where
  "introspection_query = ''{ __schema { types { name } } }''"

definition complexity_query :: string where
  "complexity_query = ''{ a:__typename b:__typename c:__typename d:__typename e:__typename }''"

definition depth_query :: string where
  "depth_query = ''{ __schema { types { fields { type { ofType { name } } } } } }''"

record graphql_probe =
  gp_endpoint :: string
  gp_introspection :: bool
  gp_depth :: bool
  gp_complexity :: bool
  gp_mutation :: bool
  gp_mutation_name :: "string option"

text \<open>The body of an answer, when there was one, it was no error and it is JSON.\<close>

definition response_is_data :: "json option \<Rightarrow> bool" where
  "response_is_data payload \<longleftrightarrow>
     (case payload of
        Some (J_obj d) \<Rightarrow> \<not> (case map_of d ''errors'' of None \<Rightarrow> False | Some e \<Rightarrow> truthy e) \<and> (case map_of d ''data'' of None \<Rightarrow> False | Some v \<Rightarrow> v \<noteq> J_null)
      | _ \<Rightarrow> False)"

type_synonym graphql_client = "string \<Rightarrow> string \<Rightarrow> json option"

definition mutation_query :: "string \<Rightarrow> string" where
  "mutation_query name = ''mutation { '' @ name @ '' }''"

definition probe_endpoint :: "graphql_client \<Rightarrow> string \<Rightarrow> string option \<Rightarrow> (string \<times> string) list \<times> graphql_probe" where
  "probe_endpoint post endpoint mutation =
     (map (Pair endpoint) ([introspection_query, depth_query, complexity_query] @ (case mutation of None \<Rightarrow> [] | Some m \<Rightarrow> [mutation_query m])),
      \<lparr>gp_endpoint = endpoint, gp_introspection = response_is_data (post endpoint introspection_query), gp_depth = response_is_data (post endpoint depth_query),
       gp_complexity = response_is_data (post endpoint complexity_query),
       gp_mutation = (case mutation of None \<Rightarrow> False | Some m \<Rightarrow> response_is_data (post endpoint (mutation_query m))), gp_mutation_name = mutation\<rparr>)"

definition graphql_issue :: "string \<Rightarrow> severity \<Rightarrow> flt \<Rightarrow> string \<Rightarrow> string \<Rightarrow> string \<Rightarrow> (string \<times> json) list \<Rightarrow> string \<Rightarrow> security_issue option" where
  "graphql_issue rule sev conf title description endpoint extra recommendation =
     make_issue \<lparr>is_rule_id = rule, is_severity = sev, is_confidence = conf, is_title = title, is_description = description, is_route = Some endpoint,
       is_evidence = (''endpoint'', J_str endpoint) # extra, is_recommendation = Some recommendation\<rparr>"

definition evaluate_probe :: "graphql_probe \<Rightarrow> security_issue option list" where
  "evaluate_probe p =
     (if gp_introspection p
      then [graphql_issue ''SEC-GRAPHQL-INTROSPECTION-ENABLED'' High (fl (99 / 100)) ''GraphQL introspection enabled in production''
        (''The introspection query returned a schema at '' @ gp_endpoint p @ ''. Production should disable introspection.'') (gp_endpoint p)
        [(''cwe_id'', J_str ''CWE-200'')] ''Disable introspection in production (e.g. Apollo `introspection: false`).''] else []) @
     (if gp_depth p
      then [graphql_issue ''SEC-GRAPHQL-NO-DEPTH-LIMIT'' Medium (fl (9 / 10)) ''GraphQL endpoint accepts depth-5 query''
        ''A depth-5 nested query returned data. The endpoint has no depth limiter and is vulnerable to nested query resource-exhaustion.'' (gp_endpoint p)
        [(''cwe_id'', J_str ''CWE-770'')] (''Install a query-depth limiter; cap depth at '' @ [CHR 0xE2, CHR 0x89, CHR 0xA4] @ ''7.'')] else []) @
     (if gp_complexity p
      then [graphql_issue ''SEC-GRAPHQL-NO-COMPLEXITY-LIMIT'' Medium (fl (9 / 10)) ''GraphQL endpoint accepts alias-bomb query''
        ''A query with five aliases for the same field returned data. The endpoint has no query-cost analyser.'' (gp_endpoint p)
        [(''cwe_id'', J_str ''CWE-770'')] ''Install a query-cost analyser.''] else []) @
     (case gp_mutation_name p of
        Some (c # cs) \<Rightarrow>
          if gp_mutation p
          then [graphql_issue ''SEC-GRAPHQL-MUTATION-NO-AUTH'' High (fl (95 / 100)) ''GraphQL mutation accepts anonymous requests''
            (''Mutation `'' @ (c # cs) @ ''` accepted an anonymous request. CWE-862 / OWASP API-2023-05.'') (gp_endpoint p)
            [(''mutation'', J_str (c # cs)), (''cwe_id'', J_str ''CWE-862''), (''owasp_api_id'', J_str ''API-2023-05'')]
            ''Gate every mutation behind authentication; assert identity before any state-changing resolver runs.''] else []
      | _ \<Rightarrow> [])"

definition graphql_one :: "graphql_client \<Rightarrow> string \<times> string option \<Rightarrow> (string \<times> string) list \<times> security_issue option list" where
  "graphql_one post x = map_prod id evaluate_probe (probe_endpoint post (fst x) (snd x))"

definition run_graphql_safety_check ::
  "graphql_client \<Rightarrow> check_context \<Rightarrow> string list \<Rightarrow> string list \<Rightarrow> (string \<times> string) list \<times> (check_error + check_result)" where
  "run_graphql_safety_check post ctx endpoints mutations =
     guarded ctx
       (if endpoints = [] then ([], Inr (skipped_result ''graphql_safety'' ''no GraphQL endpoints discovered''))
        else probe_result ''graphql_safety'' (length endpoints)
          (probe_all (graphql_one post)
            (zip endpoints (if mutations = [] then replicate (length endpoints) None else map Some mutations))))"

section \<open>Direct object references\<close>

text \<open>Whose token it is comes from the environment of the context, then from that of the process.\<close>

definition second_user_token :: "string option \<Rightarrow> (string, string) dict \<Rightarrow> (string, string) dict \<Rightarrow> string option" where
  "second_user_token token_env env process_env =
     (case token_env of
        Some (c # cs) \<Rightarrow> (case map_of env (c # cs) of Some (t # ts) \<Rightarrow> Some (t # ts) | _ \<Rightarrow> map_of process_env (c # cs))
      | _ \<Rightarrow> None)"

definition id_segment :: "string \<Rightarrow> bool" where
  "id_segment seg \<longleftrightarrow> py_isdigit seg \<or> (8 \<le> length seg \<and> list_all (\<lambda>c. hex_value c \<noteq> None) seg)"

definition path_segments :: "string \<Rightarrow> string list" where
  "path_segments p = filter (\<lambda>s. s \<noteq> []) (split_on CHR ''/'' p)"

definition candidate_segments :: "string \<Rightarrow> (nat \<times> string) list" where
  "candidate_segments p = filter (\<lambda>(i, seg). id_segment seg) (enumerate 0 (path_segments p))"

definition replace_segment :: "string \<Rightarrow> nat \<Rightarrow> string \<Rightarrow> string" where
  "replace_segment p i new_value =
     ''/'' @ py_join ''/'' ((path_segments p)[i := new_value]) @ (if py_endswith p ''/'' then ''/'' else [])"

definition idor_replacements :: "string option \<Rightarrow> string \<Rightarrow> string list" where
  "idor_replacements user_id exclude =
     (case user_id of Some (c # cs) \<Rightarrow> if c # cs \<noteq> exclude then [c # cs] else [] | _ \<Rightarrow> []) @ (if exclude \<noteq> ''1'' then [''1''] else []) @ [''me'']"

text \<open>The replacements of one route, up to the first that is answered with a 2xx: the addresses asked for, how many were answered, the hit.\<close>

fun idor_try :: "(string \<Rightarrow> int option) \<Rightarrow> (string \<Rightarrow> string) \<Rightarrow> string list \<Rightarrow> string list \<times> nat \<times> (string \<times> int) option" where
  "idor_try get url_of [] = ([], 0, None)"
| "idor_try get url_of (r # rs) =
     (case get (url_of r) of
        None \<Rightarrow> map_prod (Cons (url_of r)) id (idor_try get url_of rs)
      | Some status \<Rightarrow>
          if 200 \<le> status \<and> status < 300 then ([url_of r], 1, Some (r, status))
          else map_prod (Cons (url_of r)) (map_prod Suc id) (idor_try get url_of rs))"

fun idor_scan ::
  "(string \<Rightarrow> int option) \<Rightarrow> (string \<Rightarrow> (string \<times> url_parts) option) \<Rightarrow> string option \<Rightarrow> string list \<Rightarrow> string list \<times> (check_error + nat \<times> security_issue list)" where
  "idor_scan get url_of user_id [] = ([], Inr (0, []))"
| "idor_scan get url_of user_id (route # routes) =
     (case url_of route of
        None \<Rightarrow> ([], Inl Ck_bad_url)
      | Some (u, p) \<Rightarrow>
         (case candidate_segments (up_path p) of
            [] \<Rightarrow> idor_scan get url_of user_id routes
          | (i, orig) # _ \<Rightarrow>
             (case idor_try get (\<lambda>r. urlunparse (p\<lparr>up_path := replace_segment (up_path p) i r\<rparr>)) (idor_replacements user_id orig) of
                (asked, answered, hit) \<Rightarrow>
                  (case those (case hit of None \<Rightarrow> []
                      | Some (r, status) \<Rightarrow> [rule_issue ''SEC-IDOR-CROSS-USER-ACCESS'' Critical (fl (7 / 10)) route
                          [(''original_segment'', J_str orig), (''replacement_segment'', J_str r), (''status'', J_int status),
                           (''probed_url'', J_str (urlunparse (p\<lparr>up_path := replace_segment (up_path p) i r\<rparr>)))]]) of
                     None \<Rightarrow> (asked, Inl Ck_no_issue)
                   | Some found \<Rightarrow> map_prod (append asked) (map_sum id (map_prod (\<lambda>n. answered + n) (append found))) (idor_scan get url_of user_id routes)))))"

text \<open>\<open>get\<close> asks with the token of the second user.\<close>

definition run_idor_check :: "(string \<Rightarrow> bool) \<Rightarrow> (string \<Rightarrow> string \<Rightarrow> int option) \<Rightarrow> check_context \<Rightarrow> string option \<Rightarrow> string option \<Rightarrow> check_run" where
  "run_idor_check nfkc_ok get ctx token user_id =
     (case token of
        None \<Rightarrow> ([], Inr (skipped_result ''idor''
          ''no second-user token configured (set auth.second_user.token_env to the env var holding the token)''))
      | Some t \<Rightarrow> guarded ctx (result_of ''idor'' (idor_scan (get t) (probe_url nfkc_ok ctx) user_id (cx_routes ctx))))"

end
