(* ===== verification/Secsarif.thy ===== *)
theory Secsarif
  imports Secrules
begin

text \<open>
  The catalogue, the registry and the taxonomy against the categories of the findings: what a check of the security module reports has which SARIF rule
  and which CWE.
\<close>

section \<open>The catalogue is consistent\<close>

lemma rule_table:
  "map (\<lambda>r. (ru_id r, ru_category r, ru_level r)) security_rules =
    [(''SEC-HEADERS-HSTS-MISSING'', ''security/headers/hsts_missing'', ''error''),
     (''SEC-HEADERS-CSP-MISSING'', ''security/headers/csp_missing'', ''error''),
     (''SEC-HEADERS-CSP-UNSAFE-INLINE'', ''security/headers/csp_unsafe_inline'', ''warning''),
     (''SEC-HEADERS-XFRAME-MISSING'', ''security/headers/xframe_missing'', ''warning''),
     (''SEC-HEADERS-XCONTENT-NOSNIFF-MISSING'', ''security/headers/xcontent_nosniff_missing'', ''warning''),
     (''SEC-HEADERS-REFERRER-POLICY-MISSING'', ''security/headers/referrer_policy_missing'', ''note''),
     (''SEC-HEADERS-PERMISSIONS-POLICY-MISSING'', ''security/headers/permissions_policy_missing'', ''note''),
     (''SEC-COOKIE-MISSING-SECURE'', ''security/cookies/missing_secure'', ''error''),
     (''SEC-COOKIE-MISSING-HTTPONLY'', ''security/cookies/missing_httponly'', ''error''),
     (''SEC-COOKIE-MISSING-SAMESITE'', ''security/cookies/missing_samesite'', ''warning''),
     (''SEC-COOKIE-SAMESITE-NONE-WITHOUT-SECURE'', ''security/cookies/samesite_none_without_secure'', ''error''),
     (''SEC-CORS-WILDCARD-CREDENTIALS'', ''security/cors/wildcard_credentials'', ''error''),
     (''SEC-CORS-REFLECTIVE-ALLOW-ORIGIN'', ''security/cors/reflective_allow_origin'', ''error''),
     (''SEC-CSRF-MISSING-TOKEN'', ''security/csrf/missing_token'', ''error''),
     (''SEC-XSS-REFLECTED'', ''security/xss/reflected'', ''error''),
     (''SEC-XSS-STORED'', ''security/xss/stored'', ''error''),
     (''SEC-SQLI-BEHAVIORAL'', ''security/sqli/behavioral'', ''error''),
     (''SEC-IDOR-CROSS-USER-ACCESS'', ''security/idor/cross_user_access'', ''error''),
     (''SEC-FRONTEND-SECRET-IN-BUNDLE'', ''security/frontend/secret_in_bundle'', ''error''),
     (''SEC-FRONTEND-TOKEN-IN-STORAGE'', ''security/frontend/token_in_storage'', ''warning''),
     (''SEC-FRONTEND-PII-IN-DOM'', ''security/frontend/pii_in_dom'', ''warning''),
     (''SEC-DEPS-VULNERABLE'', ''security/deps/vulnerable'', ''warning''),
     (''SEC-SAST-FINDING'', ''security/sast/finding'', ''warning''),
     (''SEC-JWT-ALG-NONE'', ''security/jwt_weakness/sec-jwt-alg-none'', ''error''),
     (''SEC-JWT-WEAK-HS256-SECRET'', ''security/jwt_weakness/sec-jwt-weak-hs256-secret'', ''error''),
     (''SEC-JWT-MISSING-EXP'', ''security/jwt_weakness/sec-jwt-missing-exp'', ''warning''),
     (''SEC-JWT-EXPIRED'', ''security/jwt_weakness/sec-jwt-expired'', ''warning''),
     (''SEC-JWT-MISSING-ISS-AUD'', ''security/jwt_weakness/sec-jwt-missing-iss-aud'', ''note''),
     (''SEC-COOKIE-MISSING-PREFIX'', ''security/cookies/sec-cookie-missing-prefix'', ''warning''),
     (''SEC-COOKIE-OVERBROAD-DOMAIN'', ''security/cookies/sec-cookie-overbroad-domain'', ''warning''),
     (''SEC-COOKIE-OVERBROAD-PATH'', ''security/cookies/sec-cookie-overbroad-path'', ''note''),
     (''SEC-TLS-VERSION-LEGACY'', ''security/tls_posture/sec-tls-version-legacy'', ''error''),
     (''SEC-TLS-WEAK-CIPHER'', ''security/tls_posture/sec-tls-weak-cipher'', ''warning''),
     (''SEC-TLS-CERT-EXPIRED'', ''security/tls_posture/sec-tls-cert-expired'', ''error''),
     (''SEC-TLS-CERT-EXPIRING-SOON'', ''security/tls_posture/sec-tls-cert-expiring-soon'', ''warning''),
     (''SEC-TLS-HSTS-MISSING'', ''security/tls_posture/sec-tls-hsts-missing'', ''warning''),
     (''SEC-TLS-HSTS-TOO-SHORT'', ''security/tls_posture/sec-tls-hsts-too-short'', ''warning''),
     (''SEC-GRAPHQL-INTROSPECTION-ENABLED'', ''security/graphql_safety/sec-graphql-introspection-enabled'', ''error''),
     (''SEC-GRAPHQL-NO-DEPTH-LIMIT'', ''security/graphql_safety/sec-graphql-no-depth-limit'', ''warning''),
     (''SEC-GRAPHQL-NO-COMPLEXITY-LIMIT'', ''security/graphql_safety/sec-graphql-no-complexity-limit'', ''warning''),
     (''SEC-GRAPHQL-MUTATION-NO-AUTH'', ''security/graphql_safety/sec-graphql-mutation-no-auth'', ''error''),
     (''SEC-BOLA-CROSS-TENANT-READ'', ''security/api_bola_bfla/sec-bola-cross-tenant-read'', ''error''),
     (''SEC-BFLA-ELEVATED-ACTION'', ''security/api_bola_bfla/sec-bfla-elevated-action'', ''error''),
     (''SEC-BUNDLE-SECRET-AWS'', ''security/bundle_secrets/sec-bundle-secret-aws'', ''error''),
     (''SEC-BUNDLE-SECRET-GCP'', ''security/bundle_secrets/sec-bundle-secret-gcp'', ''warning''),
     (''SEC-BUNDLE-SECRET-AZURE'', ''security/bundle_secrets/sec-bundle-secret-azure'', ''error''),
     (''SEC-BUNDLE-SECRET-STRIPE'', ''security/bundle_secrets/sec-bundle-secret-stripe'', ''error''),
     (''SEC-BUNDLE-SECRET-GITHUB'', ''security/bundle_secrets/sec-bundle-secret-github'', ''error''),
     (''SEC-BUNDLE-SECRET-SLACK'', ''security/bundle_secrets/sec-bundle-secret-slack'', ''error''),
     (''SEC-BUNDLE-SECRET-PRIVATE-KEY'', ''security/bundle_secrets/sec-bundle-secret-private-key'', ''error''),
     (''SEC-SSRF-SUSPECTED'', ''security/ssrf_redirect/sec-ssrf-suspected'', ''error''),
     (''SEC-OPEN-REDIRECT'', ''security/ssrf_redirect/sec-open-redirect'', ''warning'')]"
  by (simp add: security_rules_def catalogue_defs)

definition rule_ids :: "string list" where
  "rule_ids = map fst (map (\<lambda>r. (ru_id r, ru_category r, ru_level r)) security_rules)"

definition rule_categories :: "string list" where
  "rule_categories = map (\<lambda>x. fst (snd x)) (map (\<lambda>r. (ru_id r, ru_category r, ru_level r)) security_rules)"

lemma rule_ids_def': "rule_ids = map ru_id security_rules"
  by (simp add: rule_ids_def comp_def)

lemma rule_categories_def': "rule_categories = map ru_category security_rules"
  by (simp add: rule_categories_def comp_def)

lemma rule_ids_distinct: "distinct rule_ids"
  unfolding rule_ids_def rule_table by code_simp

lemma rule_categories_distinct: "distinct rule_categories"
  unfolding rule_categories_def rule_table by code_simp

lemma rule_by_id_known: "i \<in> set rule_ids \<Longrightarrow> \<exists>r. rule_by_id i = Some r"
proof -
  assume "i \<in> set rule_ids"
  then have "i \<in> fst ` set (rev (map (\<lambda>r. (ru_id r, r)) security_rules))" unfolding rule_ids_def' by (simp add: image_image)
  then have "map_of (rev (map (\<lambda>r. (ru_id r, r)) security_rules)) i \<noteq> None" using map_of_eq_None_iff by metis
  then show ?thesis unfolding rule_by_id_def by blast
qed

lemma register_rules_fresh:
  assumes "distinct (map ru_category rs)" "set (map ru_category rs) \<inter> set (map fst reg) = {}"
  shows "register_rules rs reg = Some (reg @ map (\<lambda>r. (ru_category r, to_sarif_rule r)) rs)"
  using assms
proof (induction rs arbitrary: reg)
  case (Cons r rs)
  have "map_of reg (ru_category r) = None" using Cons.prems(2) by (auto simp: map_of_eq_None_iff)
  then have "sarif_register (to_sarif_rule r) reg = Some (reg @ [(ru_category r, to_sarif_rule r)])"
    by (simp add: sarif_register_def to_sarif_rule_def)
  moreover have "ru_category r \<notin> set (known_categories reg)" using Cons.prems(2) by (auto simp: known_categories_def)
  moreover have "register_rules rs (reg @ [(ru_category r, to_sarif_rule r)]) =
      Some ((reg @ [(ru_category r, to_sarif_rule r)]) @ map (\<lambda>r. (ru_category r, to_sarif_rule r)) rs)"
    using Cons.prems by (intro Cons.IH) auto
  ultimately show ?case by simp
qed simp

lemma registered:
  "register_security_rules (False, []) = Some (True, map (\<lambda>r. (ru_category r, to_sarif_rule r)) security_rules)"
proof -
  have "distinct (map ru_category security_rules)" using rule_categories_distinct unfolding rule_categories_def' .
  then show ?thesis using register_rules_fresh [of security_rules "[]"] by (simp add: register_security_rules_def)
qed

text \<open>The checks the module runs, with the rules each of them reports.\<close>

definition reported_rules :: "(string \<times> string) list" where
  "reported_rules =
     map (Pair ''headers'') [''SEC-HEADERS-HSTS-MISSING'', ''SEC-HEADERS-CSP-MISSING'', ''SEC-HEADERS-CSP-UNSAFE-INLINE'', ''SEC-HEADERS-XFRAME-MISSING'',
       ''SEC-HEADERS-XCONTENT-NOSNIFF-MISSING'', ''SEC-HEADERS-REFERRER-POLICY-MISSING'', ''SEC-HEADERS-PERMISSIONS-POLICY-MISSING''] @
     map (Pair ''cookies'') [''SEC-COOKIE-MISSING-HTTPONLY'', ''SEC-COOKIE-MISSING-SECURE'', ''SEC-COOKIE-MISSING-SAMESITE'',
       ''SEC-COOKIE-SAMESITE-NONE-WITHOUT-SECURE'', ''SEC-COOKIE-MISSING-PREFIX'', ''SEC-COOKIE-OVERBROAD-DOMAIN'', ''SEC-COOKIE-OVERBROAD-PATH''] @
     [(''cors'', ''SEC-CORS-WILDCARD-CREDENTIALS''), (''cors'', ''SEC-CORS-REFLECTIVE-ALLOW-ORIGIN''), (''csrf'', ''SEC-CSRF-MISSING-TOKEN''),
      (''xss_reflected'', ''SEC-XSS-REFLECTED''), (''xss_stored'', ''SEC-XSS-STORED''), (''sqli'', ''SEC-SQLI-BEHAVIORAL''),
      (''idor'', ''SEC-IDOR-CROSS-USER-ACCESS''), (''frontend_secrets'', ''SEC-FRONTEND-SECRET-IN-BUNDLE''),
      (''frontend_secrets'', ''SEC-FRONTEND-TOKEN-IN-STORAGE''), (''frontend_secrets'', ''SEC-FRONTEND-PII-IN-DOM''),
      (''dependency_scan'', ''SEC-DEPS-VULNERABLE''), (''sast'', ''SEC-SAST-FINDING'')]"

definition scope_rules :: "string list" where
  "scope_rules = [''SEC-COOKIE-MISSING-PREFIX'', ''SEC-COOKIE-OVERBROAD-DOMAIN'', ''SEC-COOKIE-OVERBROAD-PATH'']"

lemma lower_letters:
  "lower_char CHR ''A'' = CHR ''a''" "lower_char CHR ''B'' = CHR ''b''" "lower_char CHR ''C'' = CHR ''c''" "lower_char CHR ''D'' = CHR ''d''"
  "lower_char CHR ''E'' = CHR ''e''" "lower_char CHR ''F'' = CHR ''f''" "lower_char CHR ''G'' = CHR ''g''" "lower_char CHR ''H'' = CHR ''h''"
  "lower_char CHR ''I'' = CHR ''i''" "lower_char CHR ''J'' = CHR ''j''" "lower_char CHR ''K'' = CHR ''k''" "lower_char CHR ''L'' = CHR ''l''"
  "lower_char CHR ''M'' = CHR ''m''" "lower_char CHR ''N'' = CHR ''n''" "lower_char CHR ''O'' = CHR ''o''" "lower_char CHR ''P'' = CHR ''p''"
  "lower_char CHR ''Q'' = CHR ''q''" "lower_char CHR ''R'' = CHR ''r''" "lower_char CHR ''S'' = CHR ''s''" "lower_char CHR ''T'' = CHR ''t''"
  "lower_char CHR ''U'' = CHR ''u''" "lower_char CHR ''V'' = CHR ''v''" "lower_char CHR ''W'' = CHR ''w''" "lower_char CHR ''X'' = CHR ''x''"
  "lower_char CHR ''Y'' = CHR ''y''" "lower_char CHR ''Z'' = CHR ''z''"
  "lower_char CHR ''-'' = CHR ''-''"
  by (simp_all add: lower_char_def char_of_eq_iff)

lemma reported_table:
  "map (\<lambda>(c, i). (c, i, issue_category c i)) reported_rules =
    [(''headers'', ''SEC-HEADERS-HSTS-MISSING'', ''security/headers/sec-headers-hsts-missing''),
     (''headers'', ''SEC-HEADERS-CSP-MISSING'', ''security/headers/sec-headers-csp-missing''),
     (''headers'', ''SEC-HEADERS-CSP-UNSAFE-INLINE'', ''security/headers/sec-headers-csp-unsafe-inline''),
     (''headers'', ''SEC-HEADERS-XFRAME-MISSING'', ''security/headers/sec-headers-xframe-missing''),
     (''headers'', ''SEC-HEADERS-XCONTENT-NOSNIFF-MISSING'', ''security/headers/sec-headers-xcontent-nosniff-missing''),
     (''headers'', ''SEC-HEADERS-REFERRER-POLICY-MISSING'', ''security/headers/sec-headers-referrer-policy-missing''),
     (''headers'', ''SEC-HEADERS-PERMISSIONS-POLICY-MISSING'', ''security/headers/sec-headers-permissions-policy-missing''),
     (''cookies'', ''SEC-COOKIE-MISSING-HTTPONLY'', ''security/cookies/sec-cookie-missing-httponly''),
     (''cookies'', ''SEC-COOKIE-MISSING-SECURE'', ''security/cookies/sec-cookie-missing-secure''),
     (''cookies'', ''SEC-COOKIE-MISSING-SAMESITE'', ''security/cookies/sec-cookie-missing-samesite''),
     (''cookies'', ''SEC-COOKIE-SAMESITE-NONE-WITHOUT-SECURE'', ''security/cookies/sec-cookie-samesite-none-without-secure''),
     (''cookies'', ''SEC-COOKIE-MISSING-PREFIX'', ''security/cookies/sec-cookie-missing-prefix''),
     (''cookies'', ''SEC-COOKIE-OVERBROAD-DOMAIN'', ''security/cookies/sec-cookie-overbroad-domain''),
     (''cookies'', ''SEC-COOKIE-OVERBROAD-PATH'', ''security/cookies/sec-cookie-overbroad-path''),
     (''cors'', ''SEC-CORS-WILDCARD-CREDENTIALS'', ''security/cors/sec-cors-wildcard-credentials''),
     (''cors'', ''SEC-CORS-REFLECTIVE-ALLOW-ORIGIN'', ''security/cors/sec-cors-reflective-allow-origin''),
     (''csrf'', ''SEC-CSRF-MISSING-TOKEN'', ''security/csrf/sec-csrf-missing-token''),
     (''xss_reflected'', ''SEC-XSS-REFLECTED'', ''security/xss_reflected/sec-xss-reflected''),
     (''xss_stored'', ''SEC-XSS-STORED'', ''security/xss_stored/sec-xss-stored''),
     (''sqli'', ''SEC-SQLI-BEHAVIORAL'', ''security/sqli/sec-sqli-behavioral''),
     (''idor'', ''SEC-IDOR-CROSS-USER-ACCESS'', ''security/idor/sec-idor-cross-user-access''),
     (''frontend_secrets'', ''SEC-FRONTEND-SECRET-IN-BUNDLE'', ''security/frontend_secrets/sec-frontend-secret-in-bundle''),
     (''frontend_secrets'', ''SEC-FRONTEND-TOKEN-IN-STORAGE'', ''security/frontend_secrets/sec-frontend-token-in-storage''),
     (''frontend_secrets'', ''SEC-FRONTEND-PII-IN-DOM'', ''security/frontend_secrets/sec-frontend-pii-in-dom''),
     (''dependency_scan'', ''SEC-DEPS-VULNERABLE'', ''security/dependency_scan/sec-deps-vulnerable''),
     (''sast'', ''SEC-SAST-FINDING'', ''security/sast/sec-sast-finding'')]"
  by (simp add: reported_rules_def issue_category_def py_lower_def lower_letters)

lemma reported_categories:
  "list_all (\<lambda>(c, i, k). i \<in> set rule_ids \<and> (k \<in> set rule_categories \<longleftrightarrow> i \<in> set scope_rules)) (map (\<lambda>(c, i). (c, i, issue_category c i)) reported_rules)"
  unfolding rule_ids_def rule_categories_def rule_table reported_table by code_simp

text \<open>
  C23. The curated rules are not found. Once the catalogue is registered, the SARIF rule of a finding is the placeholder of its category for every rule
  that a check of the module reports, three rules on the scope of cookies excepted: the catalogue files the others under categories that no finding
  has.
\<close>

theorem curated_rules_missed:
  assumes "register_security_rules (False, []) = Some (True, reg)" "(c, i) \<in> set reported_rules" "i \<notin> set scope_rules"
  shows "sarif_get reg (f_category (issue_to_finding show c run_id target artifact stamp ids (issue\<lparr>is_rule_id := i\<rparr>))) =
    synthesize (issue_category c i)"
proof -
  have reg: "reg = map (\<lambda>r. (ru_category r, to_sarif_rule r)) security_rules" using assms(1) unfolding registered by simp
  have "issue_category c i \<notin> set rule_categories" using reported_categories assms(2,3) by (force simp: list_all_iff)
  then have "map_of reg (issue_category c i) = None" unfolding reg rule_categories_def' by (auto simp: map_of_eq_None_iff)
  moreover have "f_category (issue_to_finding show c run_id target artifact stamp ids (issue\<lparr>is_rule_id := i\<rparr>)) = issue_category c i"
    by (simp add: issue_to_finding_def Let_def split: prod.split)
  ultimately show ?thesis by (simp add: sarif_get_def)
qed

lemma reported_taxonomy:
  "list_all (\<lambda>(c, i, k). fst (taxonomy_lookup k) = None \<longleftrightarrow> c = ''frontend_secrets'' \<or> c = ''dependency_scan'')
     (map (\<lambda>(c, i). (c, i, issue_category c i)) reported_rules)"
  unfolding reported_table by code_simp

text \<open>
  Which findings carry a CWE. A finding made of an issue whose evidence names no CWE has one by the taxonomy, for every rule that a check of the
  module reports, except that of the front-end secrets and of the dependency scan there is none: the taxonomy knows their categories by other
  names.
\<close>

theorem cwe_coverage:
  assumes "(c, i) \<in> set reported_rules" "map_of (is_evidence issue) ''cwe_id'' = None"
  shows "(tf_cwe (issue_to_finding show c run_id target artifact stamp ids (issue\<lparr>is_rule_id := i\<rparr>)) = None) \<longleftrightarrow>
    c = ''frontend_secrets'' \<or> c = ''dependency_scan''"
proof -
  have "tf_cwe (issue_to_finding show c run_id target artifact stamp ids (issue\<lparr>is_rule_id := i\<rparr>)) = fst (taxonomy_lookup (issue_category c i))"
    using assms(2) by (simp add: issue_to_finding_def Let_def evidence_tag_def split: prod.split)
  then show ?thesis using reported_taxonomy assms(1) by (force simp: list_all_iff)
qed


section \<open>Witnesses\<close>

definition sample_issue :: security_issue where
  "sample_issue =
     \<lparr>is_rule_id = [], is_severity = High, is_confidence = 1, is_title = ''t'', is_description = ''d'', is_route = Some ''/'', is_evidence = [],
      is_recommendation = None\<rparr>"

definition sample_security_finding :: "string \<Rightarrow> string \<Rightarrow> tagged_finding" where
  "sample_security_finding c i =
     issue_to_finding (\<lambda>_. []) c ''RUN-AAAAAAAAAAAA'' ''https://h'' ''security/x.json'' 0 (''EVD-AAAAAAAAAAAA'', ''FND-AAAAAAAAAAAA'') (sample_issue\<lparr>is_rule_id := i\<rparr>)"

lemma curated_rules_missed_witness:
  "\<exists>reg. register_security_rules (False, []) = Some (True, reg) \<and>
     sarif_get reg (f_category (sample_security_finding ''headers'' ''SEC-HEADERS-HSTS-MISSING'')) = synthesize ''security/headers/sec-headers-hsts-missing''"
proof -
  have m: "(''headers'', ''SEC-HEADERS-HSTS-MISSING'') \<in> set reported_rules" "''SEC-HEADERS-HSTS-MISSING'' \<notin> set scope_rules"
    by (simp_all add: reported_rules_def scope_rules_def)
  have "issue_category ''headers'' ''SEC-HEADERS-HSTS-MISSING'' = ''security/headers/sec-headers-hsts-missing''"
    by (simp add: issue_category_def py_lower_def lower_letters)
  then have "sarif_get (map (\<lambda>r. (ru_category r, to_sarif_rule r)) security_rules) (f_category (sample_security_finding ''headers'' ''SEC-HEADERS-HSTS-MISSING'')) =
      synthesize ''security/headers/sec-headers-hsts-missing''"
    unfolding sample_security_finding_def curated_rules_missed [OF registered m] by (rule arg_cong)
  with registered show ?thesis by (intro exI conjI)
qed

lemma cwe_coverage_witness:
  "tf_cwe (sample_security_finding ''dependency_scan'' ''SEC-DEPS-VULNERABLE'') = None \<and>
     tf_cwe (sample_security_finding ''idor'' ''SEC-IDOR-CROSS-USER-ACCESS'') \<noteq> None"
proof -
  have d: "(''dependency_scan'', ''SEC-DEPS-VULNERABLE'') \<in> set reported_rules" and i: "(''idor'', ''SEC-IDOR-CROSS-USER-ACCESS'') \<in> set reported_rules"
    by (simp_all add: reported_rules_def)
  have none: "map_of (is_evidence sample_issue) ''cwe_id'' = None" by (simp add: sample_issue_def)
  have "tf_cwe (sample_security_finding ''dependency_scan'' ''SEC-DEPS-VULNERABLE'') = None"
    unfolding sample_security_finding_def cwe_coverage [OF d none] by simp
  moreover have "tf_cwe (sample_security_finding ''idor'' ''SEC-IDOR-CROSS-USER-ACCESS'') \<noteq> None"
    unfolding sample_security_finding_def cwe_coverage [OF i none] by simp
  ultimately show ?thesis by blast
qed

end
