(* ===== verification/Secproofs.thy ===== *)
theory Secproofs
  imports Secsarif Secchecks
begin

text \<open>
  The checks of theory \<open>Secchecks\<close>: what they ask for, that they report rules of the catalogue only, how cookies are read, and where they are wrong.
\<close>

section \<open>Runs of checks\<close>

lemma those_every: "(\<And>x. x \<in> set xs \<Longrightarrow> \<exists>y. x = Some y \<and> P y) \<Longrightarrow> \<exists>ys. those xs = Some ys \<and> (\<forall>y\<in>set ys. P y)"
proof (induction xs)
  case (Cons x xs)
  obtain y where "x = Some y" "P y" using Cons.prems [of x] by auto
  moreover obtain ys where "those xs = Some ys" "\<forall>y\<in>set ys. P y" using Cons.IH Cons.prems by (meson list.set_intros(2))
  ultimately show ?case by auto
qed simp

text \<open>The addresses the routes join to, up to the first route that joins to none.\<close>

definition joined :: "(string \<Rightarrow> (string \<times> url_parts) option) \<Rightarrow> string list \<Rightarrow> string list" where
  "joined url_of rs = map (\<lambda>r. fst (the (url_of r))) (takeWhile (\<lambda>r. url_of r \<noteq> None) rs)"

text \<open>What one route contributes to the issues of a check.\<close>

definition route_issues ::
  "(string \<Rightarrow> (string \<times> url_parts) option) \<Rightarrow> http_client \<Rightarrow> (string \<Rightarrow> url_parts \<Rightarrow> http_reply \<Rightarrow> security_issue option list) \<Rightarrow> string
     \<Rightarrow> security_issue option list" where
  "route_issues url_of get evaluate r =
     (case url_of r of None \<Rightarrow> [] | Some (u, parts) \<Rightarrow> (case get u of None \<Rightarrow> [] | Some reply \<Rightarrow> evaluate r parts reply))"

lemma those_map_Some: "those xs = Some ys \<Longrightarrow> map Some ys = xs"
  by (induction xs arbitrary: ys) (auto split: option.splits)

text \<open>What a run over routes asks for and returns, when no issue is invalid.\<close>

lemma scan_routes_exact:
  assumes "\<forall>r\<in>set rs. \<forall>p h. None \<notin> set (evaluate r p h)"
  shows "fst (scan_routes url_of get evaluate rs) = joined url_of rs \<and>
    (if \<exists>r\<in>set rs. url_of r = None then snd (scan_routes url_of get evaluate rs) = Inl Ck_bad_url
     else \<exists>found. snd (scan_routes url_of get evaluate rs) = Inr (length (filter (\<lambda>u. get u \<noteq> None) (joined url_of rs)), found) \<and>
       map Some found = concat (map (route_issues url_of get evaluate) rs))"
  using assms
proof (induction rs)
  case (Cons r rs)
  have IH: "fst (scan_routes url_of get evaluate rs) = joined url_of rs \<and>
    (if \<exists>r\<in>set rs. url_of r = None then snd (scan_routes url_of get evaluate rs) = Inl Ck_bad_url
     else \<exists>found. snd (scan_routes url_of get evaluate rs) = Inr (length (filter (\<lambda>u. get u \<noteq> None) (joined url_of rs)), found) \<and>
       map Some found = concat (map (route_issues url_of get evaluate) rs))"
    using Cons.prems by (intro Cons.IH) simp
  obtain asked res where s: "scan_routes url_of get evaluate rs = (asked, res)" by (cases "scan_routes url_of get evaluate rs")
  show ?case
  proof (cases "url_of r")
    case (Some x)
    then obtain u p where x: "url_of r = Some (u, p)" by (cases x) simp
    have j: "joined url_of (r # rs) = u # joined url_of rs" by (simp add: joined_def x)
    have step: "\<exists>shown. route_issues url_of get evaluate r = map Some shown \<and> scan_routes url_of get evaluate (r # rs) =
        (u # asked, map_sum id (\<lambda>(n, found). (if get u \<noteq> None then Suc n else n, shown @ found)) res)"
    proof (cases "get u")
      case None
      then show ?thesis by (cases res) (auto simp: s x route_issues_def)
    next
      case (Some h)
      have "None \<notin> set (evaluate r p h)" using Cons.prems by simp
      then obtain shown where f: "those (evaluate r p h) = Some shown"
        using those_every [of "evaluate r p h" "\<lambda>_. True"] by (metis not_None_eq)
      then show ?thesis using those_map_Some [OF f] Some
        by (intro exI [of _ shown]) (cases res; auto simp: s x route_issues_def)
    qed
    then obtain shown where st: "route_issues url_of get evaluate r = map Some shown" "scan_routes url_of get evaluate (r # rs) =
        (u # asked, map_sum id (\<lambda>(n, found). (if get u \<noteq> None then Suc n else n, shown @ found)) res)" by blast
    note IH' = IH [unfolded s fst_conv snd_conv]
    show ?thesis
    proof (cases "\<exists>r\<in>set rs. url_of r = None")
      case True
      then have "asked = joined url_of rs" "res = Inl Ck_bad_url" using IH' by (simp_all only: if_True)
      then show ?thesis using True st(2) by (simp add: j)
    next
      case False
      then obtain found where t: "asked = joined url_of rs" "res = Inr (length (filter (\<lambda>u. get u \<noteq> None) (joined url_of rs)), found)"
        "map Some found = concat (map (route_issues url_of get evaluate) rs)" using IH' by (auto simp only: if_False)
      have "\<not> (\<exists>r'\<in>set (r # rs). url_of r' = None)" using False x by simp
      moreover have "length (filter (\<lambda>u. get u \<noteq> None) (u # joined url_of rs)) =
          (if get u \<noteq> None then Suc (length (filter (\<lambda>u. get u \<noteq> None) (joined url_of rs))) else length (filter (\<lambda>u. get u \<noteq> None) (joined url_of rs)))"
        by (simp only: filter.simps list.size if_distrib split: if_split) simp
      moreover have "map Some (shown @ found) = concat (map (route_issues url_of get evaluate) (r # rs))" using t(3) st(1) by simp
      ultimately show ?thesis unfolding st(2) t(1,2) j by (simp only: if_False fst_conv snd_conv map_sum.simps prod.case) blast
    qed
  qed (simp add: joined_def)
qed (simp add: joined_def)

definition reports :: "string \<Rightarrow> security_issue \<Rightarrow> bool" where
  "reports check_name i \<longleftrightarrow> (check_name, is_rule_id i) \<in> set reported_rules"

lemma reported_known: "(c, i) \<in> set reported_rules \<Longrightarrow> i \<in> set rule_ids"
  using reported_categories by (force simp: list_all_iff)

lemma rule_issue_reports:
  assumes "(c, rule) \<in> set reported_rules" "py_len route \<le> 2048"
  shows "\<exists>i. rule_issue rule sev conf route extra = Some i \<and> reports c i"
proof -
  obtain r where "rule_by_id rule = Some r" using rule_by_id_known [OF reported_known [OF assms(1)]] by blast
  then show ?thesis using assms by (simp add: rule_issue_def reports_def)
qed

lemma reported_here:
  "(''headers'', ''SEC-HEADERS-HSTS-MISSING'') \<in> set reported_rules" "(''headers'', ''SEC-HEADERS-CSP-MISSING'') \<in> set reported_rules"
  "(''headers'', ''SEC-HEADERS-CSP-UNSAFE-INLINE'') \<in> set reported_rules" "(''headers'', ''SEC-HEADERS-XFRAME-MISSING'') \<in> set reported_rules"
  "(''headers'', ''SEC-HEADERS-XCONTENT-NOSNIFF-MISSING'') \<in> set reported_rules" "(''headers'', ''SEC-HEADERS-REFERRER-POLICY-MISSING'') \<in> set reported_rules"
  "(''headers'', ''SEC-HEADERS-PERMISSIONS-POLICY-MISSING'') \<in> set reported_rules" "(''cookies'', ''SEC-COOKIE-MISSING-HTTPONLY'') \<in> set reported_rules"
  "(''cookies'', ''SEC-COOKIE-MISSING-SECURE'') \<in> set reported_rules" "(''cookies'', ''SEC-COOKIE-MISSING-SAMESITE'') \<in> set reported_rules"
  "(''cookies'', ''SEC-COOKIE-SAMESITE-NONE-WITHOUT-SECURE'') \<in> set reported_rules" "(''cookies'', ''SEC-COOKIE-MISSING-PREFIX'') \<in> set reported_rules"
  "(''cookies'', ''SEC-COOKIE-OVERBROAD-DOMAIN'') \<in> set reported_rules" "(''cookies'', ''SEC-COOKIE-OVERBROAD-PATH'') \<in> set reported_rules"
  "(''cors'', ''SEC-CORS-WILDCARD-CREDENTIALS'') \<in> set reported_rules" "(''cors'', ''SEC-CORS-REFLECTIVE-ALLOW-ORIGIN'') \<in> set reported_rules"
  "(''csrf'', ''SEC-CSRF-MISSING-TOKEN'') \<in> set reported_rules"
  by (simp_all add: reported_rules_def)

lemmas reported_issue = reported_here [THEN rule_issue_reports]

lemma evaluate_headers_reports: "py_len route \<le> 2048 \<Longrightarrow> x \<in> set (evaluate_headers red route is_https headers) \<Longrightarrow> \<exists>i. x = Some i \<and> reports ''headers'' i"
  unfolding evaluate_headers_def Let_def set_append Un_iff
  using reported_issue(1-7) by (elim disjE) (auto split: if_split_asm option.split_asm)


section \<open>Reading cookies\<close>

definition clean_text :: "string \<Rightarrow> bool" where
  "clean_text s \<longleftrightarrow> (\<forall>c\<in>set s. c \<noteq> CHR '';'' \<and> c \<noteq> CHR '','' \<and> c \<noteq> CHR ''='' \<and> \<not> is_space c)"

definition attribute_text :: "string \<times> string option \<Rightarrow> string" where
  "attribute_text a = (case snd a of None \<Rightarrow> fst a | Some v \<Rightarrow> fst a @ ''='' @ v)"

definition render_cookie :: "string \<Rightarrow> string \<Rightarrow> (string \<times> string option) list \<Rightarrow> string" where
  "render_cookie name val attrs = (name @ ''='' @ val) @ concat (map (\<lambda>a. '';'' @ '' '' @ attribute_text a) attrs)"

definition clean_attribute :: "string \<times> string option \<Rightarrow> bool" where
  "clean_attribute a \<longleftrightarrow> fst a \<noteq> [] \<and> clean_text (fst a) \<and> (case snd a of None \<Rightarrow> True | Some v \<Rightarrow> clean_text v)"

text \<open>The last value of an attribute.\<close>

definition last_value :: "string \<Rightarrow> (string \<times> string option) list \<Rightarrow> string option" where
  "last_value key attrs = map_of (rev (List.map_filter (\<lambda>(k, v). map_option (Pair (py_lower k)) v) attrs)) key"

lemma after_char_append: "c \<notin> set a \<Longrightarrow> after_char c (a @ c # b) = Some b"
  by (induction a) (auto simp: after_char_def)

lemma after_char_None: "c \<notin> set a \<Longrightarrow> after_char c a = None"
  by (induction a) (auto simp: after_char_def)

lemma before_char_append: "c \<notin> set a \<Longrightarrow> before_char c (a @ c # b) = a"
  by (induction a) (auto simp: before_char_def)

lemma before_char_id: "c \<notin> set a \<Longrightarrow> before_char c a = a"
  by (induction a) (auto simp: before_char_def)

lemma strip_padded: "\<forall>c\<in>set s. \<not> is_space c \<Longrightarrow> py_strip (CHR '' '' # s) = s"
  using strip_id [of s] by (simp add: py_strip_def is_space_def)

lemma split_attributes:
  assumes "CHR '';'' \<notin> set a" "\<forall>t\<in>set ts. CHR '';'' \<notin> set t"
  shows "split_on CHR '';'' (a @ concat (map (\<lambda>t. '';'' @ '' '' @ t) ts)) = a # map (\<lambda>t. CHR '' '' # t) ts"
  using assms
proof (induction ts arbitrary: a)
  case Nil
  then show ?case using split_on_notin [of "CHR '';''" a] by simp
next
  case (Cons t ts)
  have "split_on CHR '';'' (a @ CHR '';'' # (CHR '' '' # t) @ concat (map (\<lambda>t. '';'' @ '' '' @ t) ts)) =
      a # split_on CHR '';'' ((CHR '' '' # t) @ concat (map (\<lambda>t. '';'' @ '' '' @ t) ts))" by (rule split_on_sep) (rule Cons.prems(1))
  also have "split_on CHR '';'' ((CHR '' '' # t) @ concat (map (\<lambda>t. '';'' @ '' '' @ t) ts)) = (CHR '' '' # t) # map (\<lambda>t. CHR '' '' # t) ts"
    using Cons.prems(2) by (intro Cons.IH) simp_all
  finally show ?case by simp
qed

lemma equals_no_space: "\<not> is_space CHR ''=''"
  by (simp add: is_space_def)

lemma attribute_text_clean:
  assumes "clean_attribute a" "c \<in> set (attribute_text a)"
  shows "c \<noteq> CHR '';'' \<and> c \<noteq> CHR '','' \<and> \<not> is_space c"
proof (cases "snd a")
  case None
  then show ?thesis using assms unfolding clean_attribute_def clean_text_def attribute_text_def by simp
next
  case (Some v)
  then have "c \<in> set (fst a) \<or> c = CHR ''='' \<or> c \<in> set v" "clean_text (fst a)" "clean_text v"
    using assms unfolding clean_attribute_def attribute_text_def by auto
  then show ?thesis using equals_no_space unfolding clean_text_def by (elim disjE) simp_all
qed

lemma not_in_attributes:
  "\<forall>t\<in>set ts. c \<notin> set t \<Longrightarrow> c \<noteq> CHR '';'' \<Longrightarrow> c \<noteq> CHR '' '' \<Longrightarrow> c \<notin> set (concat (map (\<lambda>t. '';'' @ '' '' @ t) ts))"
  by (induction ts) auto

lemma attribute_text_nonempty: "clean_attribute a \<Longrightarrow> attribute_text a \<noteq> []"
  by (cases "snd a") (simp_all add: clean_attribute_def attribute_text_def)

lemma render_no_comma:
  assumes "clean_text name" "clean_text val" "list_all clean_attribute attrs"
  shows "CHR '','' \<notin> set (render_cookie name val attrs)"
proof -
  have "CHR '','' \<notin> set t" if t: "t \<in> set (map attribute_text attrs)" for t
  proof -
    obtain x where "clean_attribute x" "t = attribute_text x" using t assms(3) by (auto simp: list_all_iff)
    then show ?thesis using attribute_text_clean by blast
  qed
  then have "CHR '','' \<notin> set (concat (map (\<lambda>t. '';'' @ '' '' @ t) (map attribute_text attrs)))" by (intro not_in_attributes) simp_all
  moreover have "CHR '','' \<notin> set name" "CHR '','' \<notin> set val" using assms(1,2) unfolding clean_text_def by blast+
  ultimately show ?thesis by (simp add: render_cookie_def comp_def)
qed

lemma render_cookie_parts:
  assumes "clean_text name" "clean_text val" "list_all clean_attribute attrs"
  shows "cookie_parts (render_cookie name val attrs) = (name @ ''='' @ val) # map attribute_text attrs"
proof -
  let ?nv = "name @ ''='' @ val" and ?ts = "map attribute_text attrs"
  have a: "c \<in> set ?nv \<longleftrightarrow> c \<in> set name \<or> c = CHR ''='' \<or> c \<in> set val" for c by auto
  have nv: "c \<noteq> CHR '';'' \<and> c \<noteq> CHR '','' \<and> \<not> is_space c" if "c \<in> set ?nv" for c
    using that assms(1,2) equals_no_space unfolding a clean_text_def by (elim disjE) simp_all
  have ts: "t \<noteq> []" "c \<in> set t \<Longrightarrow> c \<noteq> CHR '';'' \<and> c \<noteq> CHR '','' \<and> \<not> is_space c" if t: "t \<in> set ?ts" for t c
  proof -
    obtain x where "clean_attribute x" "t = attribute_text x" using t assms(3) by (auto simp: list_all_iff)
    then show "t \<noteq> []" "c \<in> set t \<Longrightarrow> c \<noteq> CHR '';'' \<and> c \<noteq> CHR '','' \<and> \<not> is_space c"
      using attribute_text_nonempty attribute_text_clean by simp_all
  qed
  let ?r = "?nv @ concat (map (\<lambda>t. '';'' @ '' '' @ t) ?ts)"
  have r: "render_cookie name val attrs = ?r" by (simp add: render_cookie_def comp_def)
  have "CHR '','' \<notin> set ?r" using render_no_comma [OF assms] unfolding r .
  then have b: "before_char CHR '','' ?r = ?r" by (rule before_char_id)
  have sp: "split_on CHR '';'' ?r = ?nv # map (\<lambda>t. CHR '' '' # t) ?ts"
    by (rule split_attributes) (use nv ts(2) in blast)+
  have st: "py_strip ?nv = ?nv" using nv by (intro strip_id) blast
  have "py_strip (CHR '' '' # t) = t" if "t \<in> set ?ts" for t using ts(2) [OF that] by (intro strip_padded) blast
  then have "map (\<lambda>t. py_strip (CHR '' '' # t)) ?ts = ?ts" by (rule map_idI)
  then have m: "map py_strip (map (\<lambda>t. CHR '' '' # t) ?ts) = ?ts" by (simp add: comp_def)
  have f: "filter (\<lambda>p. p \<noteq> []) ?ts = ?ts" using ts(1) by (intro filter_True) blast
  have "?nv \<noteq> []" by simp
  then show ?thesis unfolding cookie_parts_def r b sp list.map(2) st m filter.simps(2) f by simp
qed


lemma add_attribute_text:
  assumes "clean_attribute (k, v)"
  shows "pc_name (add_attribute c (attribute_text (k, v))) = pc_name c"
    "a \<noteq> ''domain-leading-dot'' \<Longrightarrow> a \<in> set (pc_attributes (add_attribute c (attribute_text (k, v)))) \<longleftrightarrow> a \<in> set (pc_attributes c) \<or> a = py_lower k"
    "pc_samesite (add_attribute c (attribute_text (k, v))) =
      (case v of Some x \<Rightarrow> if py_lower k = ''samesite'' then Some (py_lower x) else pc_samesite c | None \<Rightarrow> pc_samesite c)"
    "pc_path (add_attribute c (attribute_text (k, v))) =
      (case v of Some x \<Rightarrow> if py_lower k = ''path'' then Some x else pc_path c | None \<Rightarrow> pc_path c)"
proof -
  have k: "CHR ''='' \<notin> set k" "py_strip k = k" using assms strip_id [of k] by (auto simp: clean_attribute_def clean_text_def)
  have step: "add_attribute c (attribute_text (k, v)) =
      (case v of None \<Rightarrow> c\<lparr>pc_attributes := pc_attributes c @ [py_lower k]\<rparr>
       | Some x \<Rightarrow> (let attr = py_lower k;
            d = (if attr = ''samesite'' then c\<lparr>pc_samesite := Some (py_lower x)\<rparr>
                 else if attr = ''domain'' then c\<lparr>pc_domain := (if x = [] then None else Some (py_lower (lstrip_dots x))),
                        pc_attributes := pc_attributes c @ (if py_startswith x ''.'' then [''domain-leading-dot''] else [])\<rparr>
                 else if attr = ''path'' then c\<lparr>pc_path := Some x\<rparr> else c)
          in d\<lparr>pc_attributes := pc_attributes d @ [attr]\<rparr>))"
  proof (cases v)
    case None
    then show ?thesis using after_char_None [OF k(1)] by (simp add: add_attribute_def attribute_text_def k(2))
  next
    case (Some x)
    have "py_strip x = x" using assms Some strip_id [of x] by (auto simp: clean_attribute_def clean_text_def)
    then show ?thesis
      using after_char_append [OF k(1), of x] before_char_append [OF k(1), of x] Some
      by (simp add: add_attribute_def attribute_text_def k(2) Let_def)
  qed
  show "pc_name (add_attribute c (attribute_text (k, v))) = pc_name c" unfolding step by (cases v) (simp_all add: Let_def)
  show "a \<noteq> ''domain-leading-dot'' \<Longrightarrow> a \<in> set (pc_attributes (add_attribute c (attribute_text (k, v)))) \<longleftrightarrow> a \<in> set (pc_attributes c) \<or> a = py_lower k"
    unfolding step by (cases v) (auto simp: Let_def)
  show "pc_samesite (add_attribute c (attribute_text (k, v))) =
      (case v of Some x \<Rightarrow> if py_lower k = ''samesite'' then Some (py_lower x) else pc_samesite c | None \<Rightarrow> pc_samesite c)"
    unfolding step by (cases v) (simp_all add: Let_def)
  show "pc_path (add_attribute c (attribute_text (k, v))) =
      (case v of Some x \<Rightarrow> if py_lower k = ''path'' then Some x else pc_path c | None \<Rightarrow> pc_path c)"
    unfolding step by (cases v) (simp_all add: Let_def)
qed

lemma add_attributes:
  assumes "list_all clean_attribute attrs"
  shows "pc_name (foldl add_attribute c (map attribute_text attrs)) = pc_name c"
    "a \<noteq> ''domain-leading-dot'' \<Longrightarrow> a \<in> set (pc_attributes (foldl add_attribute c (map attribute_text attrs))) \<longleftrightarrow>
       a \<in> set (pc_attributes c) \<or> a \<in> (\<lambda>x. py_lower (fst x)) ` set attrs"
    "pc_samesite (foldl add_attribute c (map attribute_text attrs)) =
       (case last_value ''samesite'' attrs of Some x \<Rightarrow> Some (py_lower x) | None \<Rightarrow> pc_samesite c)"
    "pc_path (foldl add_attribute c (map attribute_text attrs)) = (case last_value ''path'' attrs of Some x \<Rightarrow> Some x | None \<Rightarrow> pc_path c)"
proof -
  have last: "last_value key ((k, v) # xs) =
      (case last_value key xs of Some x \<Rightarrow> Some x | None \<Rightarrow> (case v of Some x \<Rightarrow> if py_lower k = key then Some x else None | None \<Rightarrow> None))" for key k v xs
    by (cases v) (auto simp: last_value_def map_filter_simps map_add_def split: option.split)
  have "pc_name (foldl add_attribute c (map attribute_text attrs)) = pc_name c \<and>
    (a \<noteq> ''domain-leading-dot'' \<longrightarrow> (a \<in> set (pc_attributes (foldl add_attribute c (map attribute_text attrs))) \<longleftrightarrow>
       a \<in> set (pc_attributes c) \<or> a \<in> (\<lambda>x. py_lower (fst x)) ` set attrs)) \<and>
    pc_samesite (foldl add_attribute c (map attribute_text attrs)) =
       (case last_value ''samesite'' attrs of Some x \<Rightarrow> Some (py_lower x) | None \<Rightarrow> pc_samesite c) \<and>
    pc_path (foldl add_attribute c (map attribute_text attrs)) = (case last_value ''path'' attrs of Some x \<Rightarrow> Some x | None \<Rightarrow> pc_path c)"
    using assms
  proof (induction attrs arbitrary: c)
    case Nil
    then show ?case by (simp add: last_value_def map_filter_simps)
  next
    case (Cons x xs)
    obtain k v where x: "x = (k, v)" by (cases x)
    have c: "clean_attribute (k, v)" "list_all clean_attribute xs" using Cons.prems by (simp_all add: x)
    note step = add_attribute_text [where c = c, OF c(1)]
    show ?case using Cons.IH [where c = "add_attribute c (attribute_text (k, v))", OF c(2)] step
      by (cases "last_value ''samesite'' xs"; cases "last_value ''path'' xs") (auto simp: x last split: option.split)
  qed
  then show "pc_name (foldl add_attribute c (map attribute_text attrs)) = pc_name c"
    "a \<noteq> ''domain-leading-dot'' \<Longrightarrow> a \<in> set (pc_attributes (foldl add_attribute c (map attribute_text attrs))) \<longleftrightarrow>
       a \<in> set (pc_attributes c) \<or> a \<in> (\<lambda>x. py_lower (fst x)) ` set attrs"
    "pc_samesite (foldl add_attribute c (map attribute_text attrs)) =
       (case last_value ''samesite'' attrs of Some x \<Rightarrow> Some (py_lower x) | None \<Rightarrow> pc_samesite c)"
    "pc_path (foldl add_attribute c (map attribute_text attrs)) = (case last_value ''path'' attrs of Some x \<Rightarrow> Some x | None \<Rightarrow> pc_path c)"
    by blast+
qed


lemma rule_issue_id:
  assumes "(c, rule) \<in> set reported_rules" "py_len route \<le> 2048"
  shows "\<exists>i. rule_issue rule sev conf route extra = Some i \<and> is_rule_id i = rule"
  using rule_issue_reports [OF assms, of sev conf extra] by (auto simp: rule_issue_def split: if_splits)

lemma cookie_read:
  assumes "clean_text name" "clean_text val" "list_all clean_attribute attrs"
  shows "pc_name (parse_set_cookie (render_cookie name val attrs)) = name \<and>
    (\<forall>a. a \<noteq> ''domain-leading-dot'' \<longrightarrow> (a \<in> set (pc_attributes (parse_set_cookie (render_cookie name val attrs))) \<longleftrightarrow>
       a \<in> (\<lambda>x. py_lower (fst x)) ` set attrs)) \<and>
    pc_samesite (parse_set_cookie (render_cookie name val attrs)) = map_option py_lower (last_value ''samesite'' attrs) \<and>
    pc_path (parse_set_cookie (render_cookie name val attrs)) = last_value ''path'' attrs"
proof -
  let ?c = "foldl add_attribute empty_cookie (map attribute_text attrs)"
  have n: "CHR ''='' \<notin> set name" "\<forall>c\<in>set name. \<not> is_space c" using assms(1) unfolding clean_text_def by blast+
  have "before_char CHR ''='' (name @ ''='' @ val) = name" using before_char_append [OF n(1), of val] by simp
  moreover have "py_strip name = name" using n(2) by (rule strip_id)
  ultimately have p: "parse_set_cookie (render_cookie name val attrs) = ?c\<lparr>pc_name := name\<rparr>"
    unfolding parse_set_cookie_def render_cookie_parts [OF assms] by simp
  note a = add_attributes [where c = empty_cookie, OF assms(3)]
  have e: "pc_attributes empty_cookie = []" "pc_samesite empty_cookie = None" "pc_path empty_cookie = None" by (simp_all add: empty_cookie_def)
  show ?thesis unfolding p using a(2) by (auto simp: a(3,4) e split: option.split)
qed

text \<open>When each rule of the cookies is reported.\<close>

definition rules_in :: "security_issue option list \<Rightarrow> string set" where
  "rules_in xs = is_rule_id ` {i. Some i \<in> set xs}"

lemma rules_in_simps [simp]:
  "rules_in [] = {}" "rules_in (xs @ ys) = rules_in xs \<union> rules_in ys"
  by (auto simp: rules_in_def)

lemma rules_in_single: "(c, rule) \<in> set reported_rules \<Longrightarrow> py_len route \<le> 2048 \<Longrightarrow> rules_in [rule_issue rule sev conf route extra] = {rule}"
  using rule_issue_id [of c rule route sev conf extra] by (auto simp: rules_in_def)

lemma rules_in_if: "(c, rule) \<in> set reported_rules \<Longrightarrow> py_len route \<le> 2048 \<Longrightarrow>
    rules_in (if b then [rule_issue rule sev conf route extra] else []) = (if b then {rule} else {})"
  using rules_in_single by simp

lemmas rules_here = reported_here [THEN rules_in_single] reported_here [THEN rules_in_if]

lemma cookie_rules_in:
  assumes "py_len route \<le> 2048"
  shows "rules_in (evaluate_cookie c route is_https host) =
    (if pc_name c = [] then {} else
      (if ''httponly'' \<notin> set (pc_attributes c) then {''SEC-COOKIE-MISSING-HTTPONLY''} else {}) \<union>
      (if is_https \<and> ''secure'' \<notin> set (pc_attributes c) then {''SEC-COOKIE-MISSING-SECURE''} else {}) \<union>
      (if pc_samesite c = None then {''SEC-COOKIE-MISSING-SAMESITE''} else {}) \<union>
      (if pc_samesite c = Some ''none'' \<and> ''secure'' \<notin> set (pc_attributes c) then {''SEC-COOKIE-SAMESITE-NONE-WITHOUT-SECURE''} else {}) \<union>
      (if is_auth_like c \<and> \<not> has_host_prefix c \<and> \<not> has_secure_prefix c then {''SEC-COOKIE-MISSING-PREFIX''} else {}) \<union>
      (if overbroad_domain c host then {''SEC-COOKIE-OVERBROAD-DOMAIN''} else {}) \<union>
      (if pc_path c = Some ''/'' \<and> is_auth_like c \<and> \<not> has_host_prefix c then {''SEC-COOKIE-OVERBROAD-PATH''} else {}))"
proof (cases "pc_name c = []")
  case False
  show ?thesis
    unfolding evaluate_cookie_def Let_def if_not_P [OF False]
    by (cases "pc_samesite c") (simp_all add: rules_here(8-14,25-31) [OF assms] Un_assoc del: Un_insert_left Un_insert_right append.simps split del: if_split)
qed (simp add: evaluate_cookie_def)

text \<open>
  C26. Reading back a cookie. From a Set-Cookie header printed from a name, a value and attributes without separators or spaces, the check reads
  that name, the names of the attributes in lower case (the mark of a leading dot apart), the last SameSite value in lower case and the last
  Path.
\<close>

theorem cookie_roundtrip:
  assumes "clean_text name" "clean_text val" "list_all clean_attribute attrs"
  shows "pc_name (parse_set_cookie (render_cookie name val attrs)) = name \<and>
    (\<forall>a. a \<noteq> ''domain-leading-dot'' \<longrightarrow> (a \<in> set (pc_attributes (parse_set_cookie (render_cookie name val attrs))) \<longleftrightarrow>
       a \<in> (\<lambda>x. py_lower (fst x)) ` set attrs)) \<and>
    pc_samesite (parse_set_cookie (render_cookie name val attrs)) = map_option py_lower (last_value ''samesite'' attrs) \<and>
    pc_path (parse_set_cookie (render_cookie name val attrs)) = last_value ''path'' attrs"
  using cookie_read [OF assms] .

lemma cookie_roundtrip_witness:
  "pc_name (parse_set_cookie (render_cookie ''sid'' ''abc'' [(''HttpOnly'', None), (''Path'', Some ''/app'')])) = ''sid'' \<and>
   pc_path (parse_set_cookie (render_cookie ''sid'' ''abc'' [(''HttpOnly'', None), (''Path'', Some ''/app'')])) = Some ''/app''"
proof -
  have "clean_text ''sid''" "clean_text ''abc''" by code_simp+
  moreover have "list_all clean_attribute [(''HttpOnly'', None), (''Path'', Some ''/app'')]" by code_simp
  moreover have "last_value ''path'' [(''HttpOnly'', None), (''Path'', Some ''/app'')] = Some ''/app''" by code_simp
  ultimately show ?thesis
    using cookie_roundtrip [of "''sid''" "''abc''" "[(''HttpOnly'', None), (''Path'', Some ''/app'')]"] by simp
qed

text \<open>
  C24. An expiry date hides the flags after it. Whatever follows the comma of an Expires attribute (the rest of its date, Secure, HttpOnly, SameSite)
  is not read: over HTTPS a cookie is reported as lacking HttpOnly, Secure or SameSite exactly when that attribute is not among those before
  the Expires attribute, whether or not it comes after it.
\<close>

theorem expires_hides_flags:
  assumes "clean_text name" "name \<noteq> []" "clean_text val" "list_all clean_attribute attrs" "clean_text day" "py_len route \<le> 2048"
  shows "parse_set_cookie (render_cookie name val attrs @ ''; Expires='' @ day @ '','' @ rest) = parse_set_cookie (render_cookie name val attrs @ ''; Expires='' @ day) \<and>
    (let ids = rules_in (evaluate_cookie (parse_set_cookie (render_cookie name val attrs @ ''; Expires='' @ day @ '','' @ rest)) route True host) in
      (''SEC-COOKIE-MISSING-HTTPONLY'' \<in> ids \<longleftrightarrow> ''httponly'' \<notin> (\<lambda>a. py_lower (fst a)) ` set attrs) \<and>
      (''SEC-COOKIE-MISSING-SECURE'' \<in> ids \<longleftrightarrow> ''secure'' \<notin> (\<lambda>a. py_lower (fst a)) ` set attrs) \<and>
      (''SEC-COOKIE-MISSING-SAMESITE'' \<in> ids \<longleftrightarrow> last_value ''samesite'' attrs = None))"
proof -
  let ?attrs = "attrs @ [(''Expires'', Some day)]"
  let ?shown = "render_cookie name val ?attrs" and ?raw = "render_cookie name val attrs @ ''; Expires='' @ day @ '','' @ rest"
  have "clean_text ''Expires''" by code_simp
  then have at: "list_all clean_attribute ?attrs" using assms(4,5) by (simp add: clean_attribute_def)
  have shown: "?shown = render_cookie name val attrs @ ''; Expires='' @ day" by (simp add: render_cookie_def attribute_text_def)
  then have raw: "?raw = ?shown @ '','' @ rest" by simp
  have "CHR '','' \<notin> set ?shown" by (rule render_no_comma [OF assms(1,3) at])
  then have "before_char CHR '','' ?raw = before_char CHR '','' ?shown"
    unfolding raw using before_char_append [of "CHR '',''" ?shown rest] before_char_id [of "CHR '',''" ?shown] by simp
  then have same: "parse_set_cookie ?raw = parse_set_cookie ?shown" by (simp only: parse_set_cookie_def cookie_parts_def)
  define c where "c = parse_set_cookie ?shown"
  have "lower_char c = c" if "c \<in> set ''xpires''" for c using that by (auto simp: lower_char_def)
  then have low: "py_lower ''Expires'' = ''expires''" by (simp add: py_lower_def lower_letters)
  note rt = cookie_read [OF assms(1,3) at, folded c_def]
  have last: "last_value ''samesite'' ?attrs = last_value ''samesite'' attrs"
    by (simp add: last_value_def List.map_filter_def low)
  have n: "pc_name c = name" "pc_samesite c = map_option py_lower (last_value ''samesite'' attrs)" using rt by (simp_all add: last)
  have a: "''httponly'' \<in> set (pc_attributes c) \<longleftrightarrow> ''httponly'' \<in> (\<lambda>a. py_lower (fst a)) ` set attrs"
    "''secure'' \<in> set (pc_attributes c) \<longleftrightarrow> ''secure'' \<in> (\<lambda>a. py_lower (fst a)) ` set attrs"
    using rt by (simp_all add: low)
  show ?thesis
    unfolding same shown [symmetric] c_def [symmetric] Let_def using cookie_rules_in [OF assms(6), of c True host] assms(2) n a by simp
qed

lemma expires_hides_flags_witness:
  "''SEC-COOKIE-MISSING-SECURE'' \<in> rules_in (evaluate_cookie (parse_set_cookie (render_cookie ''sid'' ''abc'' [(''HttpOnly'', None)] @
      ''; Expires='' @ ''Wed'' @ '','' @ '' 21 Oct 2026 07:28:00 GMT; Secure; HttpOnly'')) ''/'' True None) \<and>
   ''SEC-COOKIE-MISSING-HTTPONLY'' \<notin> rules_in (evaluate_cookie (parse_set_cookie (render_cookie ''sid'' ''abc'' [(''HttpOnly'', None)] @
      ''; Expires='' @ ''Wed'' @ '','' @ '' 21 Oct 2026 07:28:00 GMT; Secure; HttpOnly'')) ''/'' True None)"
proof -
  have h: "clean_text ''sid''" "''sid'' \<noteq> []" "clean_text ''abc''" "list_all clean_attribute [(''HttpOnly'', None)]" "clean_text ''Wed''"
    "py_len ''/'' \<le> 2048" by code_simp+
  have low: "py_lower ''HttpOnly'' = ''httponly''" by code_simp
  have "''secure'' \<notin> (\<lambda>a. py_lower (fst a)) ` set [(''HttpOnly'', None :: string option)]"
    "''httponly'' \<in> (\<lambda>a. py_lower (fst a)) ` set [(''HttpOnly'', None :: string option)]" by (simp_all add: low)
  then show ?thesis
    using expires_hides_flags [OF h, of "'' 21 Oct 2026 07:28:00 GMT; Secure; HttpOnly''" None] unfolding Let_def by blast
qed


section \<open>What a check asks for\<close>

lemma evaluate_cookie_reports:
  assumes "py_len route \<le> 2048" "x \<in> set (evaluate_cookie c route is_https host)"
  shows "\<exists>i. x = Some i \<and> reports ''cookies'' i"
proof (cases "pc_name c = []")
  case False
  show ?thesis
    using assms unfolding evaluate_cookie_def Let_def if_not_P [OF False] set_append Un_iff
    by (elim disjE) (simp_all split: if_split_asm option.split_asm add: reported_issue(8-14))
qed (use assms in \<open>simp add: evaluate_cookie_def\<close>)

lemma evaluate_cors_reports: "py_len route \<le> 2048 \<Longrightarrow> x \<in> set (evaluate_cors route headers) \<Longrightarrow> \<exists>i. x = Some i \<and> reports ''cors'' i"
  unfolding evaluate_cors_def Let_def
  by (cases "header_map headers ''access-control-allow-origin''") (simp, simp split: if_split_asm add: reported_issue(15,16), blast intro: reported_issue(15,16))

lemma evaluate_csrf_reports: "py_len route \<le> 2048 \<Longrightarrow> x \<in> set (evaluate_csrf route reply) \<Longrightarrow> \<exists>i. x = Some i \<and> reports ''csrf'' i"
  unfolding evaluate_csrf_def Let_def using reported_issue(17) by (auto split: if_split_asm)

text \<open>When each rule of the other checks is reported.\<close>

lemma header_rules_in:
  assumes "py_len route \<le> 2048"
  shows "rules_in (evaluate_headers red route is_https headers) =
    (if is_https \<and> header_map headers ''strict-transport-security'' = None then {''SEC-HEADERS-HSTS-MISSING''} else {}) \<union>
    (case header_map headers ''content-security-policy'' of None \<Rightarrow> {''SEC-HEADERS-CSP-MISSING''}
     | Some v \<Rightarrow> if py_in ([CHR 0x27] @ ''unsafe-inline'' @ [CHR 0x27]) (py_lower v) \<or> py_in ([CHR 0x27] @ ''unsafe-eval'' @ [CHR 0x27]) (py_lower v)
         then {''SEC-HEADERS-CSP-UNSAFE-INLINE''} else {}) \<union>
    (if header_map headers ''x-frame-options'' = None \<and>
        \<not> (case header_map headers ''content-security-policy'' of None \<Rightarrow> False | Some v \<Rightarrow> py_in ''frame-ancestors'' (py_lower v))
     then {''SEC-HEADERS-XFRAME-MISSING''} else {}) \<union>
    (if py_lower (case header_map headers ''x-content-type-options'' of None \<Rightarrow> [] | Some v \<Rightarrow> v) \<noteq> ''nosniff''
     then {''SEC-HEADERS-XCONTENT-NOSNIFF-MISSING''} else {}) \<union>
    (if header_map headers ''referrer-policy'' = None then {''SEC-HEADERS-REFERRER-POLICY-MISSING''} else {}) \<union>
    (if header_map headers ''permissions-policy'' = None then {''SEC-HEADERS-PERMISSIONS-POLICY-MISSING''} else {})"
  unfolding evaluate_headers_def Let_def
  by (cases "header_map headers ''content-security-policy''")
    (simp_all only: option.case rules_in_simps rules_here(1-7,18-24) [OF assms] Un_assoc)

lemma cors_rules_in:
  assumes "py_len route \<le> 2048"
  shows "rules_in (evaluate_cors route headers) =
    (case header_map headers ''access-control-allow-origin'' of None \<Rightarrow> {}
     | Some origin \<Rightarrow>
        (if py_strip origin = ''*'' \<and> py_lower (case header_map headers ''access-control-allow-credentials'' of None \<Rightarrow> [] | Some v \<Rightarrow> v) = ''true''
         then {''SEC-CORS-WILDCARD-CREDENTIALS''} else {}) \<union>
        (if py_lower (py_strip origin) = py_lower synthetic_origin then {''SEC-CORS-REFLECTIVE-ALLOW-ORIGIN''} else {}))"
  unfolding evaluate_cors_def Let_def
  by (cases "header_map headers ''access-control-allow-origin''")
    (simp_all only: option.case rules_in_simps rules_here(15,16,32,33) [OF assms])

lemma csrf_silent:
  "evaluate_csrf route reply \<noteq> [] \<longleftrightarrow>
    (\<exists>(attrs, inner)\<in>set (forms_of (hp_body reply)). form_method attrs \<in> {''POST'', ''PUT'', ''PATCH'', ''DELETE''} \<and> \<not> form_has_csrf_token inner) \<and>
    \<not> page_has_csrf_meta (hp_body reply) \<and> \<not> samesite_protects (hp_cookies reply)"
proof -
  have some: "concat (map f xs) \<noteq> [] \<longleftrightarrow> (\<exists>x\<in>set xs. f x \<noteq> [])" for f :: "string \<times> string \<Rightarrow> security_issue option list" and xs by simp
  have "(case x of (attrs, inner) \<Rightarrow> if form_method attrs \<notin> set [''POST'', ''PUT'', ''PATCH'', ''DELETE''] \<or> form_has_csrf_token inner \<or> meta \<or> lax then []
      else [e attrs]) \<noteq> [] \<longleftrightarrow> (case x of (attrs, inner) \<Rightarrow> form_method attrs \<in> {''POST'', ''PUT'', ''PATCH'', ''DELETE''} \<and> \<not> form_has_csrf_token inner) \<and> \<not> meta \<and> \<not> lax"
    for x meta lax and e :: "string \<Rightarrow> security_issue option" by (cases x) auto
  then show ?thesis unfolding evaluate_csrf_def Let_def some by (simp only: bex_simps)
qed

lemma mem_if: "x \<in> (if b then {y} else {}) \<longleftrightarrow> b \<and> x = y"
  by simp

lemma py_lower_Nil: "py_lower [] = []"
  by (simp add: py_lower_def)

lemma header_absent: "header_map headers n = None \<longleftrightarrow> n \<notin> (\<lambda>h. py_lower (fst h)) ` set headers"
  by (force simp: header_map_def map_of_eq_None_iff)



definition page_check :: "(string \<Rightarrow> bool) \<Rightarrow> (string \<Rightarrow> string) \<Rightarrow> http_client \<Rightarrow> check_context \<Rightarrow> string \<Rightarrow> check_run" where
  "page_check nfkc_ok red get ctx name =
     (if name = ''headers'' then run_headers_check nfkc_ok red get ctx else if name = ''cookies'' then run_cookies_check nfkc_ok get ctx
      else if name = ''cors'' then run_cors_check nfkc_ok get ctx else run_csrf_check nfkc_ok get ctx)"

definition page_checks :: "string list" where
  "page_checks = [''headers'', ''cookies'', ''cors'', ''csrf'']"

text \<open>What the four checks make of one answer.\<close>

definition page_evaluator :: "(string \<Rightarrow> string) \<Rightarrow> string \<Rightarrow> string \<Rightarrow> url_parts \<Rightarrow> http_reply \<Rightarrow> security_issue option list" where
  "page_evaluator red name route parts reply =
     (if name = ''headers'' then evaluate_headers red route (up_scheme parts = ''https'') (hp_headers reply)
      else if name = ''cookies'' then concat (map (\<lambda>raw. evaluate_cookie (parse_set_cookie raw) route (up_scheme parts = ''https'') (reply_host parts)) (hp_cookies reply))
      else if name = ''cors'' then evaluate_cors route (hp_headers reply) else evaluate_csrf route reply)"

lemma page_check_scan:
  assumes "name \<in> set page_checks"
  shows "page_check nfkc_ok red get ctx name =
    guarded ctx (result_of name (scan_routes (probe_url nfkc_ok ctx) get (page_evaluator red name) (cx_routes ctx)))"
  using assms unfolding page_checks_def list.set
  by (elim insertE emptyE)
    (simp_all add: page_check_def page_evaluator_def [abs_def] run_headers_check_def run_cookies_check_def run_cors_check_def run_csrf_check_def)

lemma page_evaluator_reports:
  assumes "name \<in> set page_checks" "py_len route \<le> 2048" "x \<in> set (page_evaluator red name route parts reply)"
  shows "\<exists>i. x = Some i \<and> reports name i"
proof -
  consider "name = ''headers''" | "name = ''cookies''" | "name = ''cors''" | "name = ''csrf''" using assms(1) by (auto simp: page_checks_def)
  then show ?thesis
  proof cases
    case 1 then show ?thesis using assms(2,3) evaluate_headers_reports by (simp add: page_evaluator_def)
  next
    case 2 then show ?thesis using assms(2,3) evaluate_cookie_reports by (auto simp: page_evaluator_def)
  next
    case 3 then show ?thesis using assms(2,3) evaluate_cors_reports by (simp add: page_evaluator_def)
  next
    case 4 then show ?thesis using assms(2,3) evaluate_csrf_reports by (simp add: page_evaluator_def)
  qed
qed

lemma enforced_inside:
  assumes "cx_enforced ctx = Inr d"
  shows "\<exists>host. extract_host (t_base_url (cx_target ctx)) = Inr host \<and>
    (is_local host \<or> normalize_host host \<in> normalize_host ` set (t_allowed_hosts (cx_target ctx)))"
  using assms unfolding cx_enforced_def enforce_def Let_def by (auto simp: is_allowlisted_iff split: sum.splits if_splits)

text \<open>
  C15. A check asks for its routes, all of them and nothing else. When the policy refuses the target and the mode, none of the four checks of the pages
  asks for anything, and so every address is asked for on behalf of a target whose host is local or allowed. Otherwise a check asks for the address that
  each route (of at most 2,048 characters) joins to, once and in order. It ends at the first route that joins to no address, with an error; unless there
  is one it has a result, which counts the addresses that answered and holds, route by route, what the check makes of each answer,
  every issue under a rule that is listed for that check; it never fails on a rule that is missing.
\<close>

theorem page_checks_sound:
  assumes "name \<in> set page_checks" "\<forall>r\<in>set (cx_routes ctx). py_len r \<le> 2048"
  shows "case page_check nfkc_ok red get ctx name of (asked, res) \<Rightarrow>
    (asked \<noteq> [] \<longrightarrow> (\<exists>host. extract_host (t_base_url (cx_target ctx)) = Inr host \<and>
       (is_local host \<or> normalize_host host \<in> normalize_host ` set (t_allowed_hosts (cx_target ctx))))) \<and>
    (\<forall>e. cx_enforced ctx = Inl e \<longrightarrow> asked = [] \<and> res = Inl (Ck_unsafe e)) \<and>
    (\<forall>d. cx_enforced ctx = Inr d \<longrightarrow>
      asked = map (\<lambda>r. fst (the (probe_url nfkc_ok ctx r))) (takeWhile (\<lambda>r. probe_url nfkc_ok ctx r \<noteq> None) (cx_routes ctx)) \<and>
      (if \<exists>r\<in>set (cx_routes ctx). probe_url nfkc_ok ctx r = None then res = Inl Ck_bad_url
       else \<exists>c. res = Inr c \<and> ck_check c = name \<and> ck_targets c = length (filter (\<lambda>u. get u \<noteq> None) asked) \<and>
         map Some (ck_issues c) = concat (map (\<lambda>r. case probe_url nfkc_ok ctx r of None \<Rightarrow> [] | Some (u, parts) \<Rightarrow>
           (case get u of None \<Rightarrow> [] | Some reply \<Rightarrow> page_evaluator red name r parts reply)) (cx_routes ctx)) \<and>
         (\<forall>i\<in>set (ck_issues c). (name, is_rule_id i) \<in> set reported_rules)))"
proof -
  let ?url = "probe_url nfkc_ok ctx" and ?ev = "page_evaluator red name"
  have rep: "\<exists>i. x = Some i \<and> reports name i" if "r \<in> set (cx_routes ctx)" "x \<in> set (?ev r p h)" for r p h x
    using page_evaluator_reports [OF assms(1)] assms(2) that by blast
  then have valid: "\<forall>r\<in>set (cx_routes ctx). \<forall>p h. None \<notin> set (?ev r p h)" by blast
  obtain asked res where s: "scan_routes ?url get ?ev (cx_routes ctx) = (asked, res)" by (cases "scan_routes ?url get ?ev (cx_routes ctx)")
  note ok = scan_routes_exact [OF valid, of ?url get, unfolded s fst_conv snd_conv]
  have all: "joined ?url (cx_routes ctx) = map (\<lambda>r. fst (the (?url r))) (takeWhile (\<lambda>r. ?url r \<noteq> None) (cx_routes ctx))" by (rule joined_def)
  have listed: "reports name i" if "map Some found = concat (map (route_issues ?url get ?ev) (cx_routes ctx))" "i \<in> set found" for found i
  proof -
    have "Some i \<in> set (concat (map (route_issues ?url get ?ev) (cx_routes ctx)))" unfolding that(1) [symmetric] using that(2) by simp
    then obtain r where "r \<in> set (cx_routes ctx)" "Some i \<in> set (route_issues ?url get ?ev r)" by auto
    then show ?thesis using rep by (force simp: route_issues_def split: option.splits prod.splits)
  qed
  note run = page_check_scan [OF assms(1), of nfkc_ok red get ctx]
  show ?thesis
  proof (cases "cx_enforced ctx")
    case (Inl e)
    then show ?thesis by (simp add: run guarded_def)
  next
    case (Inr d)
    then have r: "page_check nfkc_ok red get ctx name = result_of name (asked, res)" by (simp add: run guarded_def s)
    show ?thesis
    proof (cases "\<exists>r\<in>set (cx_routes ctx). ?url r = None")
      case True
      then show ?thesis using ok enforced_inside [OF Inr] Inr unfolding r by (simp add: result_of_def all)
    next
      case False
      then obtain found where f: "res = Inr (length (filter (\<lambda>u. get u \<noteq> None) asked), found)" "asked = joined ?url (cx_routes ctx)"
        "map Some found = concat (map (route_issues ?url get ?ev) (cx_routes ctx))" using ok unfolding if_not_P [OF False] by blast
      have "\<forall>i\<in>set found. (name, is_rule_id i) \<in> set reported_rules" using listed [OF f(3)] by (simp add: reports_def)
      then show ?thesis
        using False enforced_inside [OF Inr] Inr f unfolding r by (simp add: result_of_def all route_issues_def [abs_def])
    qed
  qed
qed

definition sample_policy_world :: policy_world where
  "sample_policy_world = \<lparr>pw_isofmt = str_of_int, pw_read = (\<lambda>_. Src_proof \<lparr>po_host = ''a.b'', po_actor = ''alice'', po_scope = [''destructive''],
     po_issued_at = 0, po_expires_at = 100\<rparr>), pw_clock = 50\<rparr>"

definition sample_page_context :: "string list \<Rightarrow> check_context" where
  "sample_page_context routes = \<lparr>cx_target = sample_target ''http://a.b'' [''a.b''] Safe, cx_routes = routes, cx_policy = sample_policy_world,
     cx_host = ''a.b'', cx_mode = Safe\<rparr>"

lemma sample_host: "extract_host ''http://a.b'' = Inr ''a.b''" "is_local ''a.b'' = False" "is_allowlisted ''a.b'' [''a.b'']"
proof -
  show "extract_host ''http://a.b'' = Inr ''a.b''"
    by (simp add: extract_host_def url_eval normalize_host_def py_strip_def is_space_def py_startswith_def)
  show "is_local ''a.b'' = False"
    by (simp add: is_local_def normalize_host_def ip_eval py_strip_def is_space_def py_startswith_def py_lower_def lower_char_def local_hosts_def)
  show "is_allowlisted ''a.b'' [''a.b'']"
    by (simp add: is_allowlisted_def normalize_host_def ip_eval py_strip_def is_space_def py_startswith_def py_lower_def lower_char_def)
qed

lemma sample_page_enforced: "\<exists>d. cx_enforced (sample_page_context routes) = Inr d"
proof -
  have "bounded_str (Suc 0) 512 ''a.b''" "bounded_str (Suc 0) 2000 (allow_reason False Safe)"
    by (simp_all add: bounded_str_def py_len_def is_cont_def allow_reason_def)
  then show ?thesis
    by (simp add: cx_enforced_def enforce_def Let_def sample_page_context_def sample_target_def sample_host proof_evidence_def safety_decision_of_def)
qed

lemma sample_page_routes [simp]: "cx_routes (sample_page_context routes) = routes"
  by (simp add: sample_page_context_def)

lemma page_checks_sound_witness:
  "\<exists>c. page_check (\<lambda>_. True) (\<lambda>s. s) (\<lambda>u. if u = ''http://a.b/x'' then Some \<lparr>hp_status = 200, hp_headers = [], hp_cookies = [], hp_body = [], hp_elapsed = 0\<rparr> else None)
     (sample_page_context [''/x'', ''https://c.d/e'']) ''headers'' = ([''http://a.b/x'', ''https://c.d/e''], Inr c) \<and> ck_targets c = 1 \<and>
     ''SEC-HEADERS-CSP-MISSING'' \<in> set (map is_rule_id (ck_issues c))"
proof -
  let ?ctx = "sample_page_context [''/x'', ''https://c.d/e'']" and ?reply = "\<lparr>hp_status = 200, hp_headers = [], hp_cookies = [], hp_body = [], hp_elapsed = 0\<rparr>"
  let ?get = "\<lambda>u. if u = ''http://a.b/x'' then Some ?reply else None"
  let ?run = "page_check (\<lambda>_. True) (\<lambda>s. s) ?get ?ctx ''headers''"
  have "map_option fst (probe_url (\<lambda>_. True) ?ctx ''/x'') = Some ''http://a.b/x''" "map_option fst (probe_url (\<lambda>_. True) ?ctx ''https://c.d/e'') = Some ''https://c.d/e''"
    by code_simp+
  then obtain p q where u: "probe_url (\<lambda>_. True) ?ctx ''/x'' = Some (''http://a.b/x'', p)" "probe_url (\<lambda>_. True) ?ctx ''https://c.d/e'' = Some (''https://c.d/e'', q)" by auto
  obtain d where d: "cx_enforced ?ctx = Inr d" using sample_page_enforced by blast
  have short: "\<forall>r\<in>set (cx_routes ?ctx). py_len r \<le> 2048" by (simp add: py_len_def is_cont_def)
  obtain asked res where r: "?run = (asked, res)" by (cases ?run)
  obtain c where c: "asked = [''http://a.b/x'', ''https://c.d/e'']" "res = Inr c" "ck_targets c = 1"
    "map Some (ck_issues c) = page_evaluator (\<lambda>s. s) ''headers'' ''/x'' p ?reply"
    using page_checks_sound [where name = "''headers''" and ctx = ?ctx and nfkc_ok = "\<lambda>_. True" and red = "\<lambda>s. s" and get = ?get, unfolded r prod.case] short d u
    by (auto simp: page_checks_def)
  have "rules_in (map Some (ck_issues c)) = set (map is_rule_id (ck_issues c))" by (auto simp: rules_in_def)
  moreover have "''SEC-HEADERS-CSP-MISSING'' \<in> rules_in (page_evaluator (\<lambda>s. s) ''headers'' ''/x'' p ?reply)"
    using header_rules_in [of "''/x''"] short by (simp add: page_evaluator_def header_map_def)
  ultimately show ?thesis using r c by simp
qed

text \<open>
  A route can lead elsewhere. A route that is an address of another scheme than the target's (an https address, say, for a target that is http) is asked
  for as it stands, on whatever host it names: the policy was asked about the target, and the route is not held against it.
\<close>

theorem foreign_route_probed:
  assumes "name \<in> set page_checks" "cx_enforced ctx = Inr d" "cx_routes ctx = [route]"
    and "urlparse nfkc_ok [] (t_base_url (cx_target ctx)) = Some b" "urlparse nfkc_ok [] route = Some p" "up_scheme p \<noteq> []" "up_scheme p \<noteq> up_scheme b"
    and "t_base_url (cx_target ctx) \<noteq> []" "route \<noteq> []"
  shows "fst (page_check nfkc_ok red get ctx name) = [route]"
proof -
  have "urlparse nfkc_ok (up_scheme b) route = Some p"
    using assms(5,6) by (auto simp: urlparse_def split_scheme_def Let_def split: if_splits prod.splits)
  then have "urljoin nfkc_ok (t_base_url (cx_target ctx)) route = Some route"
    using assms(4,7-9) by (simp add: urljoin_def)
  then have u: "probe_url nfkc_ok ctx route = Some (route, p)" using assms(5) by (simp add: probe_url_def)
  show ?thesis unfolding page_check_scan [OF assms(1)] guarded_def assms(2,3) result_of_def by (simp add: u split: option.split)
qed

lemma foreign_route_probed_witness:
  "fst (page_check (\<lambda>_. True) (\<lambda>s. s) (\<lambda>_. None) (sample_page_context [''https://c.d/e'']) ''headers'') = [''https://c.d/e'']"
proof -
  have t: "t_base_url (cx_target (sample_page_context [''https://c.d/e''])) = ''http://a.b''" by (simp add: sample_page_context_def sample_target_def)
  have "map_option up_scheme (urlparse (\<lambda>_. True) [] ''http://a.b'') = Some ''http''" by code_simp
  then obtain b where b: "urlparse (\<lambda>_. True) [] ''http://a.b'' = Some b" "up_scheme b = ''http''" by auto
  have "map_option up_scheme (urlparse (\<lambda>_. True) [] ''https://c.d/e'') = Some ''https''" by code_simp
  then obtain p where p: "urlparse (\<lambda>_. True) [] ''https://c.d/e'' = Some p" "up_scheme p = ''https''" by auto
  obtain d where "cx_enforced (sample_page_context [''https://c.d/e'']) = Inr d" using sample_page_enforced by blast
  from foreign_route_probed [of "''headers''", OF _ this sample_page_routes b(1) [folded t] p(1)] show ?thesis using b p by (simp add: page_checks_def t)
qed

section \<open>Findings that cannot be made\<close>

lemma py_len_tail: "py_len s \<le> py_len (c # s)"
  by (simp add: py_len_def)

lemma those_Some_mem: "those xs = Some ys \<Longrightarrow> x \<in> set xs \<Longrightarrow> \<exists>y\<in>set ys. x = Some y"
  by (induction xs arbitrary: ys) (auto split: option.splits)

lemma py_join_part: "x \<in> set xs \<Longrightarrow> py_len x \<le> py_len (py_join sep xs)"
  by (induction xs) (auto simp: py_join_def split: list.splits)

lemma extras_length:
  assumes "(k, J_str v) \<in> set extra"
  shows "py_len v \<le> py_len (extras_text show extra)"
proof -
  have "k @ ''='' @ v \<in> set (map (\<lambda>(k, v). k @ ''='' @ evidence_text show v) (sort_key fst extra))"
    using assms by (force simp: evidence_text_def)
  then have "py_len (k @ ''='' @ v) \<le> py_len (extras_text show extra)" unfolding extras_text_def by (rule py_join_part)
  then show ?thesis using py_len_tail [of v "CHR ''=''"] by simp
qed

lemma long_evidence_invalid:
  assumes "(k, J_str v) \<in> set (is_evidence i)" "8000 < py_len v"
  shows "\<not> valid_tagged (issue_to_finding show c run_id target artifact stamp ids i)"
proof -
  have l: "8000 < py_len (extras_text show (is_evidence i))" using extras_length [OF assms(1)] assms(2) by (rule less_le_trans [rotated])
  then have "extras_text show (is_evidence i) \<noteq> []" by (auto simp: py_len_def)
  then have "8000 < py_len (f_description (issue_to_finding show c run_id target artifact stamp ids i))"
    using less_le_trans [OF l, of "py_len (is_description i @ [newline, newline] @ ''Evidence: '' @ extras_text show (is_evidence i))"]
    by (simp only: issue_to_finding_def Let_def if_False finding.simps py_len_append le_add2 add.assoc split: prod.split) (simp add: trans_le_add2)
  then show ?thesis by (simp add: valid_tagged_def valid_finding_def bounded_str_def finding.defs)
qed

lemma those_None: "None \<in> set xs \<Longrightarrow> those xs = None"
  by (induction xs) (auto split: option.split)

text \<open>
  C22. A long policy stops the module. When a page answers with a content security policy of more than 8,000 characters that allows inline scripts, and
  the check of the headers reports it, no findings can be made of the results, whatever else they hold: the policy is copied into a description that
  may have 8,000 characters.
\<close>

theorem long_policy_aborts:
  assumes "header_map headers ''content-security-policy'' = Some v" "py_in ([CHR 0x27] @ ''unsafe-inline'' @ [CHR 0x27]) (py_lower v)"
    and "8000 < py_len (red v)" "those (evaluate_headers red route is_https headers) = Some found"
    and "ck \<in> set checks" "set found \<subseteq> set (ck_issues ck)"
  shows "findings_from_checks show run_id target artifacts stamp ids checks = None"
proof -
  have "rule_issue ''SEC-HEADERS-CSP-UNSAFE-INLINE'' Medium headers_confidence route [(''csp'', J_str (red v))] \<in> set (evaluate_headers red route is_https headers)"
    using assms(1,2) by (simp add: evaluate_headers_def Let_def)
  then obtain i where i: "i \<in> set found" "rule_issue ''SEC-HEADERS-CSP-UNSAFE-INLINE'' Medium headers_confidence route [(''csp'', J_str (red v))] = Some i"
    using those_Some_mem [OF assms(4)] by blast
  then have ev: "(''csp'', J_str (red v)) \<in> set (is_evidence i)" by (auto simp: rule_issue_def split: if_splits)
  define xs where "xs = concat (map (\<lambda>c. map (Pair (ck_check c)) (ck_issues c)) checks)"
  have "(ck_check ck, i) \<in> set xs" using assms(5,6) i(1) unfolding xs_def by auto
  then obtain k where "k < length xs" "xs ! k = (ck_check ck, i)" unfolding in_set_conv_nth by blast
  then have mem: "(k, ck_check ck, i) \<in> set (enumerate 0 xs)" by (simp add: in_set_enumerate_eq)
  have "None \<in> set (map (\<lambda>(k, check_name, issue).
         let f = issue_to_finding show check_name run_id target
             (case map_of artifacts check_name of None \<Rightarrow> ''security/'' @ check_name @ ''.json'' | Some a \<Rightarrow> a) stamp (ids k) issue
         in if valid_tagged f then Some f else None) (enumerate 0 xs))"
    unfolding set_map by (rule image_eqI [OF _ mem]) (simp add: Let_def long_evidence_invalid [OF ev assms(3)])
  then show ?thesis unfolding findings_from_checks_def xs_def by (rule those_None)
qed

definition long_policy :: string where
  "long_policy = [CHR 0x27] @ ''unsafe-inline'' @ [CHR 0x27] @ replicate 8000 CHR ''x''"

lemma long_policy_aborts_witness:
  "\<exists>found. those (evaluate_headers (\<lambda>s. s) ''/'' True [(''Content-Security-Policy'', long_policy)]) = Some found \<and>
     findings_from_checks (\<lambda>_. []) ''RUN-AAAAAAAAAAAA'' ''https://h'' [] 0 (\<lambda>_. (''EVD-AAAAAAAAAAAA'', ''FND-AAAAAAAAAAAA''))
       [\<lparr>ck_check = ''headers'', ck_targets = 1, ck_issues = found, ck_skipped = False, ck_reason = None\<rparr>] = None"
proof -
  let ?headers = "[(''Content-Security-Policy'', long_policy)]"
  have "py_lower ''Content-Security-Policy'' = ''content-security-policy''" by code_simp
  then have h: "header_map ?headers ''content-security-policy'' = Some long_policy" by (simp add: header_map_def)
  let ?q = "[CHR 0x27] @ ''unsafe-inline'' @ [CHR 0x27]"
  have "py_lower ?q = ?q" by code_simp
  moreover have "long_policy = ?q @ replicate 8000 CHR ''x''" by (simp add: long_policy_def)
  ultimately have "py_lower long_policy = [] @ ?q @ py_lower (replicate 8000 CHR ''x'')" by (metis append_Nil py_lower_append)
  then have u: "py_in ?q (py_lower long_policy)" unfolding py_in_iff by blast
  have long: "8000 < py_len long_policy" by (simp add: long_policy_def py_len_def is_cont_def)
  have "py_len ''/'' \<le> 2048" by code_simp
  then obtain found where f: "those (evaluate_headers (\<lambda>s. s) ''/'' True ?headers) = Some found"
    using those_every [of "evaluate_headers (\<lambda>s. s) ''/'' True ?headers" "reports ''headers''"] evaluate_headers_reports by blast
  have "findings_from_checks (\<lambda>_. []) ''RUN-AAAAAAAAAAAA'' ''https://h'' [] 0 (\<lambda>_. (''EVD-AAAAAAAAAAAA'', ''FND-AAAAAAAAAAAA''))
      [\<lparr>ck_check = ''headers'', ck_targets = 1, ck_issues = found, ck_skipped = False, ck_reason = None\<rparr>] = None"
    by (rule long_policy_aborts [OF h u long f], rule list.set_intros(1)) simp
  with f show ?thesis by (intro exI conjI)
qed

section \<open>Anti-forgery tokens\<close>

lemma plain_letters:
  "lower_char CHR ''a'' = CHR ''a''" "lower_char CHR ''c'' = CHR ''c''" "lower_char CHR ''d'' = CHR ''d''" "lower_char CHR ''e'' = CHR ''e''"
  "lower_char CHR ''f'' = CHR ''f''" "lower_char CHR ''h'' = CHR ''h''" "lower_char CHR ''i'' = CHR ''i''" "lower_char CHR ''k'' = CHR ''k''"
  "lower_char CHR ''l'' = CHR ''l''" "lower_char CHR ''m'' = CHR ''m''" "lower_char CHR ''n'' = CHR ''n''" "lower_char CHR ''o'' = CHR ''o''"
  "lower_char CHR ''r'' = CHR ''r''" "lower_char CHR ''s'' = CHR ''s''" "lower_char CHR ''t'' = CHR ''t''" "lower_char CHR ''u'' = CHR ''u''"
  "lower_char CHR ''w'' = CHR ''w''" "lower_char CHR ''x'' = CHR ''x''" "lower_char CHR ''y'' = CHR ''y''" "lower_char CHR ''_'' = CHR ''_''"
  by (simp_all add: lower_char_def)

lemma word_letters: "is_word CHR ''_''" "is_word CHR ''c''" "is_word CHR ''m''" "is_word CHR ''n''"  "is_word CHR ''f''"
  by (simp_all add: is_word_def)

lemma mark_letters:
  "lower_char CHR ''<'' = CHR ''<''" "lower_char CHR ''>'' = CHR ''>''" "lower_char CHR ''='' = CHR ''=''" "lower_char CHR 0x27 = CHR 0x27"
  "lower_char CHR '' '' = CHR '' ''" "lower_char CHR ''/'' = CHR ''/''" "lower_char CHR ''p'' = CHR ''p''"
  by (simp_all add: lower_char_def)
lemmas rx_simps = rx_search_def rx_match_at_def rx_ilit_def rx_lit_def plain_letters mark_letters lower_letters word_at_def word_letters rx_findall_def
   rx_space_def rx_quote_def rx_opt_def rx_plus_def rx_group_def
lemma csrf_token_field: "\<not> csrf_field ''csrf_token''"
  by (simp add: csrf_field_def csrf_field_rx_def rx_search_def rx_match_at_def rx_ilit_def rx_lit_def plain_letters word_at_def word_letters)

lemma csrfmiddlewaretoken_field: "\<not> csrf_field ''csrfmiddlewaretoken''"
  by (simp add: csrf_field_def csrf_field_rx_def rx_search_def rx_match_at_def rx_ilit_def rx_lit_def plain_letters word_at_def word_letters)

text \<open>
  The usual name of a token is not recognised. A form that is posted with an input called csrf_token, or csrfmiddlewaretoken, and no other, is
  reported as having no token, when the page has no meta token and no cookie with a SameSite value that protects it.
\<close>

theorem csrf_token_reported:
  assumes "forms_of (hp_body reply) = [(attrs, inner)]" "form_method attrs = ''POST''" "input_names inner = [field]"
    and "field = ''csrf_token'' \<or> field = ''csrfmiddlewaretoken''"
    and "\<not> page_has_csrf_meta (hp_body reply)" "\<not> samesite_protects (hp_cookies reply)" "py_len route \<le> 2048"
  shows "map (map_option is_rule_id) (evaluate_csrf route reply) = [Some ''SEC-CSRF-MISSING-TOKEN'']"
proof -
  have "\<not> form_has_csrf_token inner" using csrf_token_field csrfmiddlewaretoken_field assms(3,4) by (auto simp: form_has_csrf_token_def)
  moreover obtain i where "rule_issue ''SEC-CSRF-MISSING-TOKEN'' High (fl (7 / 10)) route
      [(''form_method'', J_str ''POST''), (''samesite_protected'', J_bool False), (''meta_csrf_token'', J_bool False)] = Some i"
    "is_rule_id i = ''SEC-CSRF-MISSING-TOKEN''" using rule_issue_id [OF reported_here(17) assms(7)] by blast
  ultimately show ?thesis using assms(1,2,5,6) by (simp add: evaluate_csrf_def Let_def)
qed

lemma csrf_token_reported_witness:
  "\<exists>reply. map (map_option is_rule_id) (evaluate_csrf ''/'' reply) = [Some ''SEC-CSRF-MISSING-TOKEN''] \<and>
     map (input_names \<circ> snd) (forms_of (hp_body reply)) = [[''csrf_token'']]"
proof -
  let ?body = "''<form method=post><input name='csrf_token'></form>''"
  let ?reply = "\<lparr>hp_status = 200, hp_headers = [], hp_cookies = [], hp_body = ?body, hp_elapsed = 0\<rparr>"
  have u: "py_upper ''post'' = ''POST''" by code_simp
  have m: "form_method '' method=post'' = ''POST''" by (simp add: form_method_def method_rx_def rx_simps is_space_def is_ascii_alpha_def u)
  have f: "forms_of ?body = [('' method=post'', ''<input name='csrf_token'>'')]"
    by (simp add: forms_of_def form_rx_def rx_simps is_space_def is_word_def is_digit_char_def eval_nat_numeral del: Let_def)
  have i: "input_names ''<input name='csrf_token'>'' = [''csrf_token'']"
    by (simp add: input_names_def input_name_rx_def rx_simps map_filter_simps is_space_def is_word_def is_digit_char_def eval_nat_numeral del: Let_def)
  have short: "py_len ''/'' \<le> 2048" by code_simp
  have c: "\<not> page_has_csrf_meta ?body"
    by (simp add: page_has_csrf_meta_def meta_csrf_rx_def rx_simps is_space_def is_word_def is_digit_char_def eval_nat_numeral del: Let_def)
  have "map (map_option is_rule_id) (evaluate_csrf ''/'' ?reply) = [Some ''SEC-CSRF-MISSING-TOKEN'']"
    by (rule csrf_token_reported [of ?reply, OF _ m i]) (simp_all only: http_reply.select_convs f c short samesite_protects_def list_ex_iff list.set empty_iff bex_simps HOL.simp_thms)
  then show ?thesis using f i by (intro exI [of _ ?reply]) simp
qed

end
