(* ===== verification/Probeproofs.thy ===== *)
theory Probeproofs
  imports Secprobes Secproofs
begin

text \<open>The probes of theory \<open>Secprobes\<close>: what they send and when, what they report, and where they are wrong.\<close>

section \<open>Runs of probes\<close>

lemma probe_all_prefix: "\<exists>k. fst (probe_all probe xs) = concat (map (\<lambda>x. fst (probe x)) (take k xs))"
proof (induction xs)
  case (Cons x xs)
  obtain k where k: "fst (probe_all probe xs) = concat (map (\<lambda>x. fst (probe x)) (take k xs))" using Cons.IH by blast
  obtain asked found where x: "probe x = (asked, found)" by (cases "probe x")
  show ?case
  proof (cases "those found")
    case None
    then show ?thesis using x by (intro exI [of _ "Suc 0"]) simp
  next
    case (Some issues)
    then show ?thesis using k x by (intro exI [of _ "Suc k"]) simp
  qed
qed simp

lemma probe_all_found:
  "(\<And>x. x \<in> set xs \<Longrightarrow> those (snd (probe x)) = Some (found x)) \<Longrightarrow>
     probe_all probe xs = (concat (map (\<lambda>x. fst (probe x)) xs), Some (concat (map found xs)))"
proof (induction xs)
  case (Cons x xs)
  have "probe_all probe xs = (concat (map (\<lambda>x. fst (probe x)) xs), Some (concat (map found xs)))" using Cons.prems by (intro Cons.IH) simp
  moreover have "those (snd (probe x)) = Some (found x)" using Cons.prems by simp
  ultimately show ?case by (cases "probe x") simp
qed simp

lemma gated_run_eq:
  assumes "cx_enforced ctx = Inr d" "cx_mode ctx = Authorized_Destructive" "t_proof (cx_target ctx) = Some p"
  shows "gated_run check_name ctx run = run"
  using assms by (simp add: gated_run_def guarded_def ensure_gated_def)

lemma fst_probe_result [simp]: "fst (probe_result check_name n run) = fst run"
  by (simp add: probe_result_def)

definition ssrf_requests :: "url_input list \<Rightarrow> (url_input \<times> string) list" where
  "ssrf_requests inputs = concat (map (\<lambda>u. map (Pair u) (ssrf_payloads @ open_redirect_payloads)) inputs)"

lemma ssrf_requests_alt: "map (\<lambda>(u, r, p). (u, p)) (ssrf_probes inputs) = ssrf_requests inputs"
  by (simp add: ssrf_probes_def ssrf_requests_def map_concat comp_def)

lemma ssrf_asked: "fst (ssrf_one send x) = [case x of (u, r, p) \<Rightarrow> (u, p)]"
  by (simp add: ssrf_one_def split: prod.split)

text \<open>A probe that makes one request per item either makes them all, or stops at an item with an error.\<close>

lemma probe_all_single:
  assumes "\<And>x. fst (probe x) = [f x]"
  shows "case snd (probe_all probe xs) of Some issues \<Rightarrow> fst (probe_all probe xs) = map f xs
    | None \<Rightarrow> \<exists>k. 0 < k \<and> k \<le> length xs \<and> fst (probe_all probe xs) = take k (map f xs)"
proof (induction xs)
  case (Cons x xs)
  obtain found where x: "probe x = ([f x], found)" using assms [of x] by (cases "probe x") simp
  show ?case
  proof (cases "those found")
    case None
    then show ?thesis by (auto simp: x intro!: exI [of _ "Suc 0"])
  next
    case (Some issues)
    show ?thesis
    proof (cases "snd (probe_all probe xs)")
      case None
      then obtain k where "0 < k" "k \<le> length xs" "fst (probe_all probe xs) = take k (map f xs)" using Cons.IH by auto
      then show ?thesis using None Some by (auto simp: x intro!: exI [of _ "Suc k"])
    next
      case (Some rest)
      then show ?thesis using Cons.IH \<open>those found = Some issues\<close> by (simp add: x)
    qed
  qed
qed simp

lemma gated_run_cases:
  "gated_run check_name ctx run =
    (if (\<exists>d. cx_enforced ctx = Inr d) \<and> cx_mode ctx = Authorized_Destructive \<and> t_proof (cx_target ctx) \<noteq> None then run
     else ([], case cx_enforced ctx of Inl e \<Rightarrow> Inl (Ck_unsafe e) | Inr _ \<Rightarrow> Inl (the (ensure_gated check_name ctx))))"
  by (auto simp: gated_run_def guarded_def ensure_gated_def split: sum.split option.split)

text \<open>What a run sends: all of the requests when it has a result, and otherwise at least one, but not necessarily all.\<close>

definition sends :: "'r list \<Rightarrow> 'r list \<times> (check_error + check_result) \<Rightarrow> bool" where
  "sends requests run \<longleftrightarrow>
     (case snd run of Inr c \<Rightarrow> fst run = requests
      | Inl e \<Rightarrow> e = Ck_no_issue \<and> (\<exists>k. 0 < k \<and> k \<le> length requests \<and> fst run = take k requests))"

lemma probe_result_sends:
  assumes "\<And>x. fst (probe x) = [f x]"
  shows "sends (map f xs) (probe_result check_name n (probe_all probe xs))"
  using probe_all_single [where probe = probe and f = f and xs = xs, OF assms]
  by (cases "snd (probe_all probe xs)") (auto simp: sends_def probe_result_def)

lemma py_prefix_length: "0 \<le> n \<Longrightarrow> length (py_prefix n xs) \<le> nat n"
  by (simp add: py_prefix_def)

text \<open>
  C16. What the intrusive probes send. Unless the policy allows the target, the mode is the destructive one and there is a proof of authorization, the probe of
  authorization and the probe of server-side requests send nothing and have no result. When all three hold, the first sends the captured calls of its slice
  \<open>calls[:max_endpoints]\<close>, each once and in order (so no more than its cap, when that is not negative), and the second sends its eight payloads to each input,
  input by input: a run that has a result has sent all of these and nothing else, and a run that ends with an error, which only an issue that
  breaks the bounds of its model causes, has sent a first part of them that is not empty.
\<close>

theorem intrusive_probes_bounded:
  shows "(if (\<exists>d. cx_enforced ctx = Inr d) \<and> cx_mode ctx = Authorized_Destructive \<and> t_proof (cx_target ctx) \<noteq> None then
      sends (map (\<lambda>c. (cc_method c, cc_url c)) (py_prefix n calls)) (run_bola_bfla_check replay_send ctx calls headers n) \<and>
      sends (concat (map (\<lambda>u. map (Pair u) (ssrf_payloads @ open_redirect_payloads)) inputs)) (run_ssrf_redirect_check send ctx inputs)
    else fst (run_bola_bfla_check replay_send ctx calls headers n) = [] \<and> isl (snd (run_bola_bfla_check replay_send ctx calls headers n)) \<and>
      fst (run_ssrf_redirect_check send ctx inputs) = [] \<and> isl (snd (run_ssrf_redirect_check send ctx inputs))) \<and>
    (0 \<le> n \<longrightarrow> length (fst (run_bola_bfla_check replay_send ctx calls headers n)) \<le> nat n) \<and>
    length (ssrf_payloads @ open_redirect_payloads) = 8"
proof -
  let ?open = "(\<exists>d. cx_enforced ctx = Inr d) \<and> cx_mode ctx = Authorized_Destructive \<and> t_proof (cx_target ctx) \<noteq> None"
  let ?bola = "run_bola_bfla_check replay_send ctx calls headers n" and ?ssrf = "run_ssrf_redirect_check send ctx inputs"
  have b: "sends (map (\<lambda>c. (cc_method c, cc_url c)) (py_prefix n calls)) ?bola" if ?open
    unfolding run_bola_bfla_check_def Let_def gated_run_cases if_P [OF that] by (rule probe_result_sends) (simp add: replay_one_def)
  have s: "sends (concat (map (\<lambda>u. map (Pair u) (ssrf_payloads @ open_redirect_payloads)) inputs)) ?ssrf" if ?open
    unfolding run_ssrf_redirect_check_def gated_run_cases if_P [OF that] ssrf_requests_def [symmetric] ssrf_requests_alt [symmetric]
    by (rule probe_result_sends) (rule ssrf_asked)
  have closed: "fst ?bola = [] \<and> isl (snd ?bola) \<and> fst ?ssrf = [] \<and> isl (snd ?ssrf)" if "\<not> ?open"
    unfolding run_bola_bfla_check_def run_ssrf_redirect_check_def Let_def gated_run_cases if_not_P [OF that] by (auto split: sum.split)
  have "length (fst ?bola) \<le> nat n" if "0 \<le> n"
  proof (cases ?open)
    case True
    have "length (fst ?bola) \<le> length (py_prefix n calls)" using b [OF True] by (auto simp: sends_def split: sum.splits)
    then show ?thesis using py_prefix_length [OF that, of calls] by simp
  qed (use closed in simp)
  moreover have "length (ssrf_payloads @ open_redirect_payloads) = 8" by (simp add: ssrf_payloads_def open_redirect_payloads_def)
  moreover have "if ?open then
      sends (map (\<lambda>c. (cc_method c, cc_url c)) (py_prefix n calls)) ?bola \<and>
      sends (concat (map (\<lambda>u. map (Pair u) (ssrf_payloads @ open_redirect_payloads)) inputs)) ?ssrf
    else fst ?bola = [] \<and> isl (snd ?bola) \<and> fst ?ssrf = [] \<and> isl (snd ?ssrf)"
  proof (cases ?open)
    case True
    show ?thesis unfolding if_P [OF True] using b [OF True] s [OF True] by (rule conjI)
  next
    case False
    show ?thesis unfolding if_not_P [OF False] using closed [OF False] .
  qed
  ultimately show ?thesis by blast
qed

section \<open>Verdicts on server-side requests\<close>

definition titled :: "url_input \<Rightarrow> bool" where
  "titled u \<longleftrightarrow> py_len (''SSRF suspected: '' @ ui_method u @ '' '' @ ui_url u @ '' (param='' @ ui_parameter u @ '')'') \<le> 300"

lemma bounded_short: "s \<noteq> [] \<Longrightarrow> \<not> is_cont (hd s) \<Longrightarrow> length s \<le> n \<Longrightarrow> bounded_str 1 n s"
  using le_trans [OF py_len_le_length, of s n] by (cases s) (simp_all add: bounded_str_def py_len_def)

lemma ssrf_payload_length: "p \<in> set ssrf_payloads \<Longrightarrow> length p \<le> 40"
  by (auto simp: ssrf_payloads_def)

lemma evaluate_ssrf_issue:
  assumes "titled u" "py_len (ui_url u) \<le> 2048" "p \<in> set ssrf_payloads"
  shows "\<exists>i. evaluate_ssrf u p status excerpt True = [Some i] \<and> is_rule_id i = ''SEC-SSRF-SUSPECTED'' \<and> is_severity i = High"
proof -
  have d: "bounded_str 1 8000 (''The server returned a non-rejection response when fed `'' @ p @ ''` into the URL-shaped input. CWE-918.'')"
    using ssrf_payload_length [OF assms(3)] by (intro bounded_short) (simp_all add: is_cont_def)
  have t: "bounded_str 1 300 (''SSRF suspected: '' @ ui_method u @ '' '' @ ui_url u @ '' (param='' @ ui_parameter u @ '')'')"
    using assms(1) by (simp add: titled_def bounded_str_def py_len_def is_cont_def)
  have r: "py_len (''Validate that user-supplied URLs resolve outside the server's local network; deny loopback, link-local, '' @
      ''private CIDRs, and all non-HTTP schemes.'') \<le> 4000" by (rule le_trans [OF py_len_le_length]) simp
  show ?thesis unfolding evaluate_ssrf_def make_issue_def security_issue.simps option.case
    using d t r assms(2) by simp
qed

lemma ssrf_probes_count:
  "concat (map (\<lambda>(u, r, p). if r then [] else [x]) (ssrf_probes inputs)) = replicate (6 * length inputs) x"
proof (induction inputs)
  case (Cons u inputs)
  have "ssrf_probes (u # inputs) = map (\<lambda>p. (u, False, p)) ssrf_payloads @ map (\<lambda>p. (u, True, p)) open_redirect_payloads @ ssrf_probes inputs"
    by (simp add: ssrf_probes_def)
  then show ?case using Cons.IH by (simp add: ssrf_payloads_def open_redirect_payloads_def eval_nat_numeral)
qed (simp add: ssrf_probes_def)

text \<open>
  A parameter that nobody reads. A server that answers an input in the same way whatever is sent, with status 200 and a page whose beginning has none of
  the six hints of a rejection, is reported six times as suspected of server-side requests, with severity high, for every input.
\<close>

theorem ignored_parameter_suspected:
  assumes "cx_enforced ctx = Inr d" "cx_mode ctx = Authorized_Destructive" "t_proof (cx_target ctx) = Some proof_file"
    and "\<forall>u\<in>set inputs. titled u \<and> py_len (ui_url u) \<le> 2048 \<and> (\<forall>payload. send u payload = Some (200, page u, None)) \<and>
      \<not> list_ex (\<lambda>hint. py_in hint (py_lower (decode_replace (take 512 (page u))))) rejection_hints"
  shows "\<exists>c. snd (run_ssrf_redirect_check send ctx inputs) = Inr c \<and>
    map (\<lambda>i. (is_rule_id i, is_severity i)) (ck_issues c) = replicate (6 * length inputs) (''SEC-SSRF-SUSPECTED'', High)"
proof -
  define found where "found = (\<lambda>x. the (those (snd (ssrf_one send x))))"
  have one: "those (snd (ssrf_one send x)) = Some (found x) \<and>
      map (\<lambda>i. (is_rule_id i, is_severity i)) (found x) = (case x of (u, r, p) \<Rightarrow> if r then [] else [(''SEC-SSRF-SUSPECTED'', High)])"
    if x: "x \<in> set (ssrf_probes inputs)" for x
  proof -
    obtain u r p where xs: "x = (u, r, p)" by (cases x)
    have u: "u \<in> set inputs" "\<not> r \<Longrightarrow> p \<in> set ssrf_payloads" using x by (auto simp: xs ssrf_probes_def)
    have send: "send u p = Some (200, page u, None)" "titled u" "py_len (ui_url u) \<le> 2048" "classify_ssrf_response 200 (page u)"
      using assms(4) u(1) by (auto simp: classify_ssrf_response_def)
    show ?thesis
    proof (cases r)
      case True
      then have "snd (ssrf_one send x) = []" by (simp add: xs ssrf_one_def send(1) evaluate_redirect_def classify_redirect_response_def)
      then show ?thesis using True by (simp add: found_def xs)
    next
      case False
      obtain i where i: "evaluate_ssrf u p 200 (body_excerpt (page u)) True = [Some i]" "is_rule_id i = ''SEC-SSRF-SUSPECTED''" "is_severity i = High"
        using evaluate_ssrf_issue [OF send(2,3) u(2) [OF False]] by blast
      have "snd (ssrf_one send x) = [Some i]" using False send(4) i(1) by (simp add: xs ssrf_one_def send(1))
      then show ?thesis using False i(2,3) by (simp add: found_def xs)
    qed
  qed
  have "probe_all (ssrf_one send) (ssrf_probes inputs) =
      (concat (map (\<lambda>x. fst (ssrf_one send x)) (ssrf_probes inputs)), Some (concat (map found (ssrf_probes inputs))))"
    using one by (intro probe_all_found) blast
  then have "\<exists>c. snd (run_ssrf_redirect_check send ctx inputs) = Inr c \<and> ck_issues c = concat (map found (ssrf_probes inputs))"
    by (simp add: run_ssrf_redirect_check_def gated_run_eq [OF assms(1-3)] probe_result_def)
  moreover have "map (\<lambda>i. (is_rule_id i, is_severity i)) (concat (map found (ssrf_probes inputs))) =
      concat (map (\<lambda>(u, r, p). if r then [] else [(''SEC-SSRF-SUSPECTED'', High)]) (ssrf_probes inputs))"
    using one by (simp add: map_concat comp_def cong: map_cong)
  ultimately show ?thesis unfolding ssrf_probes_count by auto
qed

text \<open>
  A long address stops the probe. When the title of the issue for the first input is longer than 300 characters and its first payload is not rejected,
  the probe ends there with an error: it sends that payload and nothing else, and has no result.
\<close>

theorem long_input_aborts:
  assumes "cx_enforced ctx = Inr d" "cx_mode ctx = Authorized_Destructive" "t_proof (cx_target ctx) = Some proof_file"
    and "\<not> titled u" "send u ''http://127.0.0.1/'' = Some (status, body, location)" "classify_ssrf_response status body"
  shows "run_ssrf_redirect_check send ctx (u # inputs) = ([(u, ''http://127.0.0.1/'')], Inl Ck_no_issue)"
proof -
  have "make_issue \<lparr>is_rule_id = ''SEC-SSRF-SUSPECTED'', is_severity = High, is_confidence = fl (85 / 100),
         is_title = ''SSRF suspected: '' @ ui_method u @ '' '' @ ui_url u @ '' (param='' @ ui_parameter u @ '')'', is_description = desc,
         is_route = r, is_evidence = e, is_recommendation = rec\<rparr> = None" for desc r e rec
    using assms(4) by (simp add: make_issue_def titled_def bounded_str_def)
  then have "ssrf_one send (u, False, ''http://127.0.0.1/'') = ([(u, ''http://127.0.0.1/'')], [None])"
    using assms(5,6) by (simp add: ssrf_one_def evaluate_ssrf_def)
  then show ?thesis
    by (simp add: run_ssrf_redirect_check_def gated_run_eq [OF assms(1-3)] ssrf_probes_def ssrf_payloads_def probe_result_def)
qed

section \<open>Redirects\<close>

definition plain_host :: "string \<Rightarrow> bool" where
  "plain_host h \<longleftrightarrow> h \<noteq> [] \<and> last h \<noteq> CHR ''.'' \<and> list_all (\<lambda>c. c \<notin> set ''/?#@:'' \<and> lower_char c = c) h"

lemma plain_host_chars:
  assumes "plain_host h"
  shows "CHR ''@'' \<notin> set h" "CHR '':'' \<notin> set h" "py_lower h = h" "takeWhile (\<lambda>c. c \<notin> set ''/?#'') h = h"
    "rev (dropWhile (\<lambda>c. c = CHR ''.'') (rev h)) = h"
proof -
  show "CHR ''@'' \<notin> set h" "CHR '':'' \<notin> set h" using assms by (auto simp: plain_host_def list_all_iff)
  show "py_lower h = h" using assms by (auto simp: plain_host_def list_all_iff py_lower_def intro: map_idI)
  show "takeWhile (\<lambda>c. c \<notin> set ''/?#'') h = h" unfolding takeWhile_eq_all_conv using assms by (auto simp: plain_host_def list_all_iff)
  have "rev h \<noteq> []" "hd (rev h) \<noteq> CHR ''.''" using assms by (simp_all add: plain_host_def hd_rev)
  then have "dropWhile (\<lambda>c. c = CHR ''.'') (rev h) = rev h" by (cases "rev h") simp_all
  then show "rev (dropWhile (\<lambda>c. c = CHR ''.'') (rev h)) = h" by simp
qed

lemma redirect_at_host:
  assumes "plain_host h"
  shows "resolve_redirect_host (''https://attacker.test'' @ [CHR 0x5C] @ ''@'' @ h) = Some h"
proof -
  let ?u = "''https://attacker.test'' @ [CHR 0x5C] @ ''@''"
  have scheme: "dropWhile is_space (?u @ h) = ?u @ h" "takeWhile is_scheme_char (?u @ h) = ''https''" "is_ascii_alpha CHR ''h''"
    by (simp_all add: is_space_def is_scheme_char_def is_ascii_alpha_def is_digit_char_def)
  have "takeWhile (\<lambda>c. c \<notin> set ''/?#'') ((''attacker.test'' @ [CHR 0x5C] @ ''@'') @ h) = (''attacker.test'' @ [CHR 0x5C] @ ''@'') @ h"
    using plain_host_chars(4) [OF assms] by simp
  then have "scheme_host (?u @ h) = Some ((''attacker.test'' @ [CHR 0x5C] @ ''@'') @ h)"
    unfolding scheme_host_def Let_def scheme using scheme(3) by simp
  moreover have "after_last_char CHR ''@'' ((''attacker.test'' @ [CHR 0x5C] @ ''@'') @ h) = h"
  proof -
    have "takeWhile (\<lambda>x. x \<noteq> CHR ''@'') (rev h @ CHR ''@'' # rev (''attacker.test'' @ [CHR 0x5C])) = rev h"
      using plain_host_chars(1) [OF assms] by (subst takeWhile_append2) auto
    then show ?thesis by (simp add: after_last_char_def)
  qed
  moreover have "before_char CHR '':'' h = h"
    unfolding before_char_def takeWhile_eq_all_conv using plain_host_chars(2) [OF assms] by auto
  ultimately show ?thesis using plain_host_chars(3,5) [OF assms] by (simp add: resolve_redirect_host_def)
qed

text \<open>
  Vectors that are judged safe. A server that redirects to one of three of the vectors the module itself lists as bypasses (one slash after the scheme;
  one slash and a backslash; a backslash before an at sign) is judged safe, for every trusted host: no finding is made.
\<close>

theorem bypass_vectors_pass:
  assumes "plain_host h" "location \<in> {''https:/attacker.test'', ''https:/'' @ [CHR 0x5C] @ ''attacker.test'', ''https://attacker.test'' @ [CHR 0x5C] @ ''@'' @ h}"
  shows "location \<in> set (bypass_vectors h) \<and> evaluate_redirect_response url parameter location status location [h] = None"
proof
  show "location \<in> set (bypass_vectors h)" using assms(2) by (elim insertE) (simp_all add: bypass_vectors_def Let_def)
  have "resolve_redirect_host ''https:/attacker.test'' = None" "resolve_redirect_host (''https:/'' @ [CHR 0x5C] @ ''attacker.test'') = None"
    by (simp_all add: resolve_redirect_host_def scheme_host_def is_space_def is_scheme_char_def is_ascii_alpha_def is_digit_char_def)
  then have "resolve_redirect_host location = None \<or> resolve_redirect_host location = Some h"
    using assms(2) redirect_at_host [OF assms(1)] by (elim insertE) simp_all
  then show "evaluate_redirect_response url parameter location status location [h] = None"
    by (auto simp: evaluate_redirect_response_def)
qed

section \<open>GraphQL\<close>

lemma graphql_asked: "fst (graphql_one post x) = map (Pair (fst x)) ([introspection_query, depth_query, complexity_query] @
    (case snd x of None \<Rightarrow> [] | Some m \<Rightarrow> [mutation_query m]))"
  by (simp add: graphql_one_def probe_endpoint_def map_prod_def)

text \<open>
  Endpoints that are counted and not tested. When mutations are given, only as many endpoints as there are mutations are asked anything, yet the result
  counts all of them as scanned.
\<close>

theorem graphql_untested_counted:
  assumes "endpoints \<noteq> []" "mutations \<noteq> []" "run_graphql_safety_check post ctx endpoints mutations = (asked, Inr c)"
  shows "ck_targets c = length endpoints \<and> fst ` set asked \<subseteq> set (take (length mutations) endpoints)"
proof -
  let ?pairs = "zip endpoints (map Some mutations)"
  obtain d where "cx_enforced ctx = Inr d" using assms(3) by (cases "cx_enforced ctx") (simp_all add: run_graphql_safety_check_def guarded_def)
  then have run: "probe_result ''graphql_safety'' (length endpoints) (probe_all (graphql_one post) ?pairs) = (asked, Inr c)"
    using assms by (simp add: run_graphql_safety_check_def guarded_def)
  then have "ck_targets c = length endpoints" by (auto simp: probe_result_def split: option.splits)
  moreover have "fst ` set asked \<subseteq> set (take (length mutations) endpoints)"
  proof -
    have "asked = fst (probe_all (graphql_one post) ?pairs)" using run by (simp add: probe_result_def)
    then obtain k where "asked = concat (map (\<lambda>x. fst (graphql_one post x)) (take k ?pairs))" using probe_all_prefix by metis
    moreover have "q \<in> set (fst (graphql_one post x)) \<Longrightarrow> fst q = fst x" for q x unfolding graphql_asked by auto
    ultimately have "fst ` set asked \<subseteq> fst ` set (take k ?pairs)" by (auto intro: rev_image_eqI)
    also have "\<dots> \<subseteq> fst ` set ?pairs" by (intro image_mono set_take_subset)
    also have "\<dots> = set (map fst ?pairs)" by simp
    also have "map fst ?pairs = take (length mutations) endpoints" by (simp add: map_fst_zip_take min_def)
    finally show ?thesis .
  qed
  ultimately show ?thesis by blast
qed

section \<open>Direct object references\<close>

lemma idor_try_bounds:
  "idor_try get url_of rs = (asked, answered, hit) \<Longrightarrow> length asked \<le> length rs \<and> answered \<le> length asked \<and> set asked \<subseteq> url_of ` set rs \<and>
     (case hit of None \<Rightarrow> True | Some (r, status) \<Rightarrow> r \<in> set rs \<and> get (url_of r) = Some status \<and> 200 \<le> status \<and> status < 300)"
proof (induction rs arbitrary: asked answered hit)
  case (Cons r rs)
  obtain a n h where t: "idor_try get url_of rs = (a, n, h)" by (cases "idor_try get url_of rs")
  note IH = Cons.IH [OF t]
  show ?case
  proof (cases "get (url_of r)")
    case None
    then show ?thesis using Cons.prems IH by (auto simp: t split: option.splits)
  next
    case (Some status)
    then show ?thesis using Cons.prems IH by (auto simp: t split: option.splits if_splits)
  qed
qed simp

lemma replacements_three: "length (idor_replacements user_id orig) \<le> 3"
  by (simp add: idor_replacements_def split: option.split list.split)

lemma idor_scan_bounds:
  "idor_scan get url_of user_id routes = (asked, res) \<Longrightarrow> length asked \<le> 3 * length routes \<and>
     (case res of Inl e \<Rightarrow> True | Inr (n, found) \<Rightarrow> n \<le> length asked \<and> length found \<le> length routes \<and>
        (\<forall>i\<in>set found. is_rule_id i = ''SEC-IDOR-CROSS-USER-ACCESS'' \<and> is_severity i = Critical))"
proof (induction routes arbitrary: asked res)
  case (Cons route routes)
  obtain asked' res' where t: "idor_scan get url_of user_id routes = (asked', res')" by (cases "idor_scan get url_of user_id routes")
  note IH = Cons.IH [OF t]
  show ?case
  proof (cases "url_of route")
    case None
    then show ?thesis using Cons.prems by auto
  next
    case (Some x)
    then obtain u p where x: "url_of route = Some (u, p)" by (cases x) simp
    show ?thesis
    proof (cases "candidate_segments (up_path p)")
      case Nil
      then show ?thesis using Cons.prems IH by (auto simp: x t split: sum.splits)
    next
      case (Cons cand cands)
      obtain i orig where cand: "candidate_segments (up_path p) = (i, orig) # cands" using Cons by (cases cand) simp
      let ?url = "\<lambda>r. urlunparse (p\<lparr>up_path := replace_segment (up_path p) i r\<rparr>)"
      obtain a n hit where tried: "idor_try get ?url (idor_replacements user_id orig) = (a, n, hit)"
        by (cases "idor_try get ?url (idor_replacements user_id orig)")
      have a: "length a \<le> 3" "n \<le> length a" using idor_try_bounds [OF tried] replacements_three [of user_id orig] by linarith+
      define opts where "opts = (case hit of None \<Rightarrow> []
                      | Some (r, status) \<Rightarrow> [rule_issue ''SEC-IDOR-CROSS-USER-ACCESS'' Critical (fl (7 / 10)) route
                          [(''original_segment'', J_str orig), (''replacement_segment'', J_str r), (''status'', J_int status),
                           (''probed_url'', J_str (?url r))]])"
      have run: "(asked, res) = (case those opts of None \<Rightarrow> (a, Inl Ck_no_issue)
          | Some found \<Rightarrow> map_prod (append a) (map_sum id (map_prod (\<lambda>m. n + m) (append found))) (idor_scan get url_of user_id routes))"
        using \<open>idor_scan get url_of user_id (route # routes) = (asked, res)\<close> by (simp add: x cand tried opts_def)
      show ?thesis
      proof (cases "those opts")
        case None
        then show ?thesis using run a by simp
      next
        case (Some found)
        have "length found \<le> 1 \<and> (\<forall>i\<in>set found. is_rule_id i = ''SEC-IDOR-CROSS-USER-ACCESS'' \<and> is_severity i = Critical)"
          using Some by (auto simp: opts_def rule_issue_def split: option.splits if_splits)
        then show ?thesis using run [unfolded t] Some a IH by (cases res') auto
      qed
    qed
  qed
qed simp

text \<open>
  C21. The bounds of the check of object references. It skips when the second user has no token and asks nothing then. It asks for at most three addresses per
  route, reports at most one issue per route, all critical, and counts no more targets than it has asked for.
\<close>

theorem idor_bounded:
  assumes "run_idor_check nfkc_ok get ctx token user_id = (asked, res)"
  shows "(token = None \<longrightarrow> asked = [] \<and> (\<exists>c. res = Inr c \<and> ck_skipped c)) \<and> length asked \<le> 3 * length (cx_routes ctx) \<and>
    (case res of Inl e \<Rightarrow> True
     | Inr c \<Rightarrow> ck_targets c \<le> length asked \<and> length (ck_issues c) \<le> length (cx_routes ctx) \<and>
         (\<forall>i\<in>set (ck_issues c). is_rule_id i = ''SEC-IDOR-CROSS-USER-ACCESS'' \<and> is_severity i = Critical))"
proof (cases token)
  case None
  then show ?thesis using assms by (auto simp: run_idor_check_def skipped_result_def)
next
  case (Some t)
  obtain a r where scan: "idor_scan (get t) (probe_url nfkc_ok ctx) user_id (cx_routes ctx) = (a, r)"
    by (cases "idor_scan (get t) (probe_url nfkc_ok ctx) user_id (cx_routes ctx)")
  note b = idor_scan_bounds [OF scan]
  show ?thesis
  proof (cases "cx_enforced ctx")
    case (Inl e)
    then have "asked = []" "res = Inl (Ck_unsafe e)" using assms by (simp_all add: run_idor_check_def Some guarded_def)
    then show ?thesis by (simp add: Some)
  next
    case (Inr d)
    then have "asked = a" "res = map_sum id (\<lambda>(n, found).
        \<lparr>ck_check = ''idor'', ck_targets = n, ck_issues = found, ck_skipped = False, ck_reason = None\<rparr>) r"
      using assms by (simp_all add: run_idor_check_def Some guarded_def result_of_def scan)
    then show ?thesis using b by (cases r) (auto simp: Some)
  qed
qed

text \<open>
  One's own record is called another's. When the second user is refused the record with the identifier 1 and gets the page about himself at the same place
  (me), a critical issue says that he reached another user's record.
\<close>

theorem own_record_reported:
  assumes "cx_enforced ctx = Inr d" "cx_routes ctx = [route]" "py_len route \<le> 2048" "probe_url nfkc_ok ctx route = Some (u, p)"
    and "candidate_segments (up_path p) = (i, orig) # cands" "orig \<noteq> ''1''"
    and "get token (urlunparse (p\<lparr>up_path := replace_segment (up_path p) i ''1''\<rparr>)) = Some 403"
    and "get token (urlunparse (p\<lparr>up_path := replace_segment (up_path p) i ''me''\<rparr>)) = Some 200"
  shows "\<exists>c. snd (run_idor_check nfkc_ok get ctx (Some token) None) = Inr c \<and>
    map (\<lambda>i. (is_rule_id i, is_severity i, map_of (is_evidence i) ''replacement_segment'')) (ck_issues c) =
      [(''SEC-IDOR-CROSS-USER-ACCESS'', Critical, Some (J_str ''me''))]"
proof -
  have "(''idor'', ''SEC-IDOR-CROSS-USER-ACCESS'') \<in> set reported_rules" by (simp add: reported_rules_def)
  then obtain r where r: "rule_by_id ''SEC-IDOR-CROSS-USER-ACCESS'' = Some r" using rule_by_id_known [OF reported_known] by blast
  have "idor_replacements None orig = [''1'', ''me'']" using assms(6) by (simp add: idor_replacements_def)
  then have "snd (idor_scan (get token) (probe_url nfkc_ok ctx) None [route]) = Inr (2, [\<lparr>is_rule_id = ''SEC-IDOR-CROSS-USER-ACCESS'', is_severity = Critical,
      is_confidence = fl (7 / 10), is_title = ru_title r, is_description = ru_description r, is_route = Some route,
      is_evidence = [(''original_segment'', J_str orig), (''replacement_segment'', J_str ''me''), (''status'', J_int 200),
        (''probed_url'', J_str (urlunparse (p\<lparr>up_path := replace_segment (up_path p) i ''me''\<rparr>)))],
      is_recommendation = Some (ru_recommendation r)\<rparr>])"
    using assms(3-5,7,8) r by (simp add: rule_issue_def)
  then show ?thesis using assms(1,2) by (simp add: run_idor_check_def guarded_def result_of_def)
qed

section \<open>Witnesses\<close>

definition sample_probe_context :: "string list \<Rightarrow> check_context" where
  "sample_probe_context routes = (sample_page_context routes)\<lparr>cx_mode := Authorized_Destructive\<rparr>"

definition sample_input :: url_input where
  "sample_input = \<lparr>ui_method = ''GET'', ui_url = ''http://a.b/x'', ui_parameter = ''q''\<rparr>"

lemma sample_probe_enforced: "\<exists>d. cx_enforced (sample_probe_context routes) = Inr d"
proof -
  have b: "bounded_str (Suc 0) 512 ''a.b''" "bounded_str (Suc 0) 2000 (allow_reason False Authorized_Destructive)"
    by (simp_all add: bounded_str_def py_len_def is_cont_def allow_reason_def)
  have c: "covers \<lparr>po_host = ''a.b'', po_actor = ''alice'', po_scope = [''destructive''], po_issued_at = 0, po_expires_at = 100\<rparr> ''a.b'' ''destructive'' 50"
    by (simp add: covers_def)
  show ?thesis
    by (simp add: cx_enforced_def enforce_def Let_def sample_probe_context_def sample_page_context_def sample_target_def sample_host sample_policy_world_def
        proof_evidence_def require_proof_def load_proof_def safety_decision_of_def b c)
qed

lemma sample_probe_gate:
  "cx_enforced (sample_probe_context routes) = Inr (projr (cx_enforced (sample_probe_context routes)))"
  "cx_mode (sample_probe_context routes) = Authorized_Destructive" "t_proof (cx_target (sample_probe_context routes)) = Some ''proof.yaml''"
  "cx_routes (sample_probe_context routes) = routes"
  using sample_probe_enforced [of routes] by (auto simp: sample_probe_context_def sample_page_context_def sample_target_def)

lemma intrusive_probes_bounded_witness:
  "sends [(''GET'', ''/x'')] (run_bola_bfla_check (\<lambda>_ _ _. None) (sample_probe_context [])
       [\<lparr>cc_method = ''GET'', cc_url = ''/x'', cc_shape = []\<rparr>, \<lparr>cc_method = ''GET'', cc_url = ''/y'', cc_shape = []\<rparr>]
       \<lparr>rh_identity_a = [], rh_identity_b = [], rh_b_is_admin = False\<rparr> 1) \<and>
   sends (map (Pair sample_input) (ssrf_payloads @ open_redirect_payloads)) (run_ssrf_redirect_check (\<lambda>_ _. None) (sample_probe_context []) [sample_input])"
proof -
  have "(\<exists>d. cx_enforced (sample_probe_context []) = Inr d) \<and> cx_mode (sample_probe_context []) = Authorized_Destructive \<and>
      t_proof (cx_target (sample_probe_context [])) \<noteq> None"
    using sample_probe_enforced sample_probe_gate(2,3) by simp
  then show ?thesis
    using intrusive_probes_bounded [where replay_send = "\<lambda>_ _ _. None" and ctx = "sample_probe_context []" and n = 1 and send = "\<lambda>_ _. None"
        and calls = "[\<lparr>cc_method = ''GET'', cc_url = ''/x'', cc_shape = []\<rparr>, \<lparr>cc_method = ''GET'', cc_url = ''/y'', cc_shape = []\<rparr>]"
        and headers = "\<lparr>rh_identity_a = [], rh_identity_b = [], rh_b_is_admin = False\<rparr>" and inputs = "[sample_input]"]
    by (simp add: py_prefix_def)
qed

lemma sample_titled: "titled sample_input" "py_len (ui_url sample_input) \<le> 2048"
  by code_simp+

lemma ignored_parameter_suspected_witness:
  "\<exists>c. snd (run_ssrf_redirect_check (\<lambda>_ _. Some (200, ''42'', None)) (sample_probe_context []) [sample_input]) = Inr c \<and>
     map (\<lambda>i. (is_rule_id i, is_severity i)) (ck_issues c) = replicate 6 (''SEC-SSRF-SUSPECTED'', High)"
proof -
  have "\<not> list_ex (\<lambda>hint. py_in hint (py_lower (decode_replace (take 512 ''42'')))) rejection_hints" by code_simp
  then show ?thesis
    using ignored_parameter_suspected [OF sample_probe_gate(1-3), of "[sample_input]" "\<lambda>_ _. Some (200, ''42'', None)" "\<lambda>_. ''42''"] sample_titled by simp
qed

lemma long_input_aborts_witness:
  "run_ssrf_redirect_check (\<lambda>_ _. Some (200, ''42'', None)) (sample_probe_context []) [sample_input\<lparr>ui_parameter := replicate 300 CHR ''p''\<rparr>, sample_input] =
     ([(sample_input\<lparr>ui_parameter := replicate 300 CHR ''p''\<rparr>, ''http://127.0.0.1/'')], Inl Ck_no_issue)"
proof -
  have "\<not> titled (sample_input\<lparr>ui_parameter := replicate 300 CHR ''p''\<rparr>)" by (simp add: titled_def sample_input_def py_len_def is_cont_def)
  moreover have "classify_ssrf_response 200 ''42''" by code_simp
  ultimately show ?thesis by (intro long_input_aborts [OF sample_probe_gate(1-3)]) simp_all
qed

lemma bypass_vectors_pass_witness:
  "evaluate_redirect_response ''/go'' ''to'' (''https://attacker.test'' @ [CHR 0x5C] @ ''@app.example.com'') 302
     (''https://attacker.test'' @ [CHR 0x5C] @ ''@app.example.com'') [''app.example.com''] = None"
proof -
  have "plain_host ''app.example.com''" by code_simp
  from bypass_vectors_pass [OF this, of "''https://attacker.test'' @ [CHR 0x5C] @ ''@'' @ ''app.example.com''"] show ?thesis by simp
qed

lemma graphql_untested_counted_witness:
  "\<exists>asked c. run_graphql_safety_check (\<lambda>_ _. None) (sample_probe_context []) [''/a'', ''/b''] [''m''] = (asked, Inr c) \<and>
     ck_targets c = 2 \<and> ''/b'' \<notin> fst ` set asked"
proof -
  have "\<exists>asked c. run_graphql_safety_check (\<lambda>_ _. None) (sample_probe_context []) [''/a'', ''/b''] [''m''] = (asked, Inr c)"
    using sample_probe_enforced [of "[]"]
    by (auto simp: run_graphql_safety_check_def guarded_def graphql_one_def probe_endpoint_def evaluate_probe_def response_is_data_def probe_result_def)
  then obtain asked c where run: "run_graphql_safety_check (\<lambda>_ _. None) (sample_probe_context []) [''/a'', ''/b''] [''m''] = (asked, Inr c)" by blast
  from graphql_untested_counted [OF _ _ this] have "ck_targets c = 2 \<and> fst ` set asked \<subseteq> {''/a''}" by simp
  with run show ?thesis by auto
qed

lemma idor_bounded_witness:
  "\<exists>asked res. run_idor_check (\<lambda>_. True) (\<lambda>_ _. None) (sample_probe_context [''/u/1'']) (Some ''t'') None = (asked, res) \<and> length asked \<le> 3"
proof -
  obtain asked res where run: "run_idor_check (\<lambda>_. True) (\<lambda>_ _. None) (sample_probe_context [''/u/1'']) (Some ''t'') None = (asked, res)"
    by (cases "run_idor_check (\<lambda>_. True) (\<lambda>_ _. None) (sample_probe_context [''/u/1'']) (Some ''t'') None")
  from idor_bounded [OF run] run show ?thesis by (simp add: sample_probe_gate(4))
qed

lemma own_record_reported_witness:
  "\<exists>c. snd (run_idor_check (\<lambda>_. True) (\<lambda>_ url. Some (if url = ''http://a.b/u/me'' then 200 else 403)) (sample_probe_context [''/u/7'']) (Some ''t'') None) = Inr c \<and>
     map (\<lambda>i. (is_rule_id i, is_severity i, map_of (is_evidence i) ''replacement_segment'')) (ck_issues c) =
       [(''SEC-IDOR-CROSS-USER-ACCESS'', Critical, Some (J_str ''me''))]"
proof -
  let ?p = "\<lparr>up_scheme = ''http'', up_netloc = ''a.b'', up_path = ''/u/7'', up_params = [], up_query = [], up_fragment = []\<rparr>"
  have u: "probe_url (\<lambda>_. True) (sample_probe_context [''/u/7'']) ''/u/7'' = Some (''http://a.b/u/7'', ?p)" by code_simp
  have c: "candidate_segments (up_path ?p) = [(1, ''7'')]" by code_simp
  have one: "urlunparse (?p\<lparr>up_path := replace_segment (up_path ?p) 1 ''1''\<rparr>) = ''http://a.b/u/1''" by code_simp
  have me: "urlunparse (?p\<lparr>up_path := replace_segment (up_path ?p) 1 ''me''\<rparr>) = ''http://a.b/u/me''" by code_simp
  have short: "py_len ''/u/7'' \<le> 2048" by code_simp
  show ?thesis
    by (rule own_record_reported [OF sample_probe_gate(1) sample_probe_gate(4) short u c]) (simp_all only: one me, simp_all)
qed

end
