(* ===== verification/Spec2Isabelle.thy ===== *)
theory Spec2Isabelle
  imports Gate Safety Redaction Shards Quarantine Analyzer Llm Lifecycle Fingerprint Difflib Healer Fix Discovery Ci Planning Runs Probeproofs
begin

text \<open>
  SentinelQA, the Python program of this repository: it crawls a web application, plans and generates tests, runs them and a set of check modules,
  turns the findings into a quality score and a release decision, and repairs tests that drifted. This library models the logic that decides: which
  targets may be touched, what is crawled and planned, how outcomes become findings, how findings become a score and a decision, what is repaired and
  what is written to a spec, how work is shared and what the security checks ask for and report. Every definition translates the Python function or class of the same
  name (a name that clashes with one of the logic, or with another module's, is extended), every operation of a component that is called modelled is here
  with all its branches, and the map of the manifest gives the lines of each.

  \<^bold>\<open>How the parts interact.\<close> A run (\<open>engine/orchestrator/run_lifecycle.py\<close>, theory \<open>Lifecycle\<close>) asks the safety policy (\<open>Safety\<close>), discovers the application through
  the cache (\<open>Cache\<close>, keyed by \<open>Fingerprint\<close>), plans, runs the modules one by one or in a thread pool, and hands results to the score (\<open>Scoring\<close>) and the gate
  (\<open>Gate\<close>); the exit code is read off the final status. Discovery is \<open>Crawler\<close> and \<open>Discovery\<close>; the plan is \<open>Flows\<close> and \<open>Planning\<close>; modules turn event streams of
  the test runner into outcomes and findings (\<open>Runner\<close>, \<open>Quarantine\<close>), failures are analysed (\<open>AnalyzerModel\<close>, \<open>Categorize\<close>, \<open>Analyzer\<close>), distributed runs go
  through the shard queue (\<open>Shards\<close>). After a run the healer proposes repairs (\<open>Healer\<close>, on \<open>Difflib\<close>), \<open>sentinel fix\<close> applies them (\<open>Fix\<close>), runs are
  compared (\<open>Runs\<close>) and findings leave as SARIF (\<open>Sarif\<close>). \<open>sentinel ci\<close> chooses what runs (\<open>Ci\<close>). Calls of language models go through \<open>Llm\<close>; every record
  that is written goes through \<open>Redaction\<close>. The security module is \<open>Secrules\<close>, \<open>Secchecks\<close> and \<open>Secprobes\<close>.

  \<^bold>\<open>The theories.\<close>
  \<^item> \<open>Prelude\<close>: strings, dictionaries and the locales \<open>machine\<close> and \<open>growing_machine\<close>. \<open>PyFloat\<close>: binary64 arithmetic, locale \<open>rounding\<close>. \<open>NetAddr\<close>, \<open>Url\<close>, \<open>Difflib\<close>, \<open>Pyre\<close>: what the
    program uses of \<open>ipaddress\<close>, \<open>urllib.parse\<close>, \<open>difflib\<close> and \<open>re\<close>.
  \<^item> \<open>Ids\<close>, \<open>Domain\<close>: identifiers and entities of \<open>engine/domain\<close>, with the bounds its models validate.
  \<^item> \<open>Scoring\<close> (\<open>engine/scoring/model.py\<close>): \<open>compute_score\<close>; the score is in range and does not rise with defects. \<open>Gate\<close> (\<open>blockers.py\<close>, \<open>decision.py\<close>,
    \<open>policy_gate.py\<close>): \<open>apply_policy_gate\<close>; when it is green, that it is monotone in the findings and does not depend on their order.
  \<^item> \<open>Safety\<close> (\<open>engine/policy/safety.py\<close>, \<open>proof_of_authorization.py\<close>): \<open>enforce\<close> allows no host but local and listed ones, and no destructive mode without a proof.
    \<open>Redaction\<close> (\<open>redaction.py\<close>): what stands under a secret key does not influence what is written.
  \<^item> \<open>Shards\<close> (\<open>engine/runner/shards\<close>): states and operations of the coordinator, invariant \<open>coord_inv\<close>, exclusiveness of leases, and the locale
    \<open>shard_coordinator\<close> that a worker relies on; \<open>drain\<close> has the number of tasks as fuel, and \<open>worker_drains\<close> shows that it is enough.
  \<^item> \<open>Runner\<close> (\<open>results.py\<close>, \<open>sharding.py\<close>, \<open>engine/modules/base.py\<close>), \<open>Quarantine\<close>: aggregation of events; when a module is green; quarantined tests.
  \<^item> \<open>AnalyzerModel\<close>, \<open>Categorize\<close>, \<open>Analyzer\<close> (\<open>engine/analyzer\<close>): signals, eleven rules and their ranking, retry decisions; the pipeline is total on well-formed input.
  \<^item> \<open>Llm\<close> (\<open>engine/llm\<close>): budget, token buckets, registry, \<open>complete\<close>, and what seven providers read from an answer and charge for it; every answered call is let through by
    the caps and recorded at its price, which the caps need not cover (\<open>opus_overspends\<close>).
  \<^item> \<open>Cache\<close>, \<open>Fingerprint\<close> (\<open>engine/cache\<close>): below the root, the store refines a map for the keys that do not begin with two dots (locales \<open>keyed_store\<close> and \<open>map_store\<close>); the walk terminates (\<open>while_option\<close>) and equal fingerprints mean equal sources.
  \<^item> \<open>Lifecycle\<close>: \<open>lifecycle_execute\<close> with its phases, hooks and trace; what exit code 0 says about the results of the modules, and that nothing happens before the policy. What the modules return is an input; that
    modules which run at the same time share the directory of the run is not modelled.
  \<^item> \<open>Crawler\<close>, \<open>Discovery\<close> (\<open>engine/discovery\<close>): the crawl and its log of requests: pages and robots texts stay in scope, redirects need not (\<open>redirects_leave_scope\<close>);
    it is a breadth-first search; risks are between 0 and 1. Its loop terminates by the page budget and the queue.
  \<^item> \<open>Flows\<close>, \<open>Planning\<close> (\<open>engine/planner\<close>): extractors and planner; the flows of a plan correspond one to one to the subjects of the graph (\<open>plan_subjects\<close>), a plan is
    consistent, and exists for graphs of short texts.
  \<^item> \<open>Ci\<close> (\<open>engine/ci\<close>, \<open>changed_modules.py\<close>, \<open>ci_cmd.py\<close>): the smoke tests are the floor of every selection.
  \<^item> \<open>Healer\<close> (\<open>engine/healer\<close>), \<open>Fix\<close> (\<open>fix_cmd.py\<close>): repairs replace the name literal of one \<open>getByRole\<close> call and no assertion; only specs the healer manages are changed, by repairs of a permitted kind, and what is written is what the diff shows.
  \<^item> \<open>Runs\<close> (\<open>engine/runs\<close>, \<open>run_diff.py\<close>): when a comparison reports a regression; no data of a run becomes markup.
  \<^item> \<open>Sarif\<close> (\<open>sarif_rules.py\<close>, \<open>sarif_writer.py\<close>): every reference of the document resolves.
  \<^item> \<open>Secrules\<close> (\<open>rules.py\<close>, \<open>cwe_mapping.py\<close>, \<open>findings.py\<close> of \<open>modules/security\<close>) with \<open>Secsarif\<close>: the catalogue against the categories of the findings. \<open>Secchecks\<close> with \<open>Secproofs\<close>:
    headers, cookies, cross-origin answers and forms; nothing is asked of a target the policy refuses, every route is asked for otherwise; when each rule reports a page; cookies are read as they are printed, and the inputs that mislead the checks. \<open>Secprobes\<close> with \<open>Probeproofs\<close>: probes of authorization,
    server-side requests, redirects, GraphQL and object references; when they send, what and how much, and where their verdicts are wrong.

  \<^bold>\<open>Interfaces.\<close> \<open>machine\<close> and \<open>growing_machine\<close> are interpreted on the coordinator (\<open>coord\<close>) and the token bucket (\<open>bucket\<close>), \<open>rounding\<close> on binary64 (\<open>fl64\<close>), \<open>shard_coordinator\<close> on the
  in-memory coordinator (\<open>mem\<close>), \<open>map_store\<close>, which extends \<open>keyed_store\<close>, on the disk cache (\<open>disk\<close>); the properties of these components rest on the facts of the interpretations.

  \<^bold>\<open>Conventions, bounds and fuel.\<close> Text is the list of the bytes of its UTF-8 encoding and lengths count code points; case, blanks and digits are those of ASCII. A float is the rational it denotes, every
  operation rounds; infinities and NaN do not arise. Times are microseconds. Exceptions are values of sums and options. The only fuel is that of the identifier
  generator, which draws batches of random bytes (\<open>slug_loop_enough\<close>: one batch more than the source needs), of \<open>drain\<close>, and of loops over the positions of a text,
  which are as many as its length; all other loops are total functions with a measure or \<open>while_option\<close>. What is not Python under \<open>src/\<close>, or not deterministic, is an argument: clocks, random bytes, SHA-256, the network, the file system where it is not
  a tree or a map, YAML and JSON decoders, pydantic coercion, BeautifulSoup, Playwright, language models. The model of \<open>str.lower\<close> and of \<open>\<w>\<close> is that of ASCII
  text, and the results of the modules and the order in which threads finish are arguments of the lifecycle. The clock of a claim loop (\<open>drain\<close>) stands still.

  \<^bold>\<open>Not modelled.\<close> Code that only draws, prints or transports: most of the command line, reports other than SARIF and the diff of runs, logging, integrations, the servers of \<open>packages\<close>, the runners of Playwright, authentication by a
  browser, image and accessibility engines. Code whose content is a template or a prompt: the generator, the explainers, the planner's and the
  healer's language-model adapters. Declarations that pydantic checks: most of \<open>engine/config/schema.py\<close>. Code with logic of its own that was not reached: the modules other
  than security (accessibility, api, chaos, compliance, functional, llm audit, performance, supply chain, visual), the remaining security checks (TLS, tokens, bundles, injection, personal data, dependencies, static analysis) and the
  security module that runs them, plugins, the flake database, real-user monitoring. The Redis backend of the shard queue is Lua and a server; its contract is that of \<open>Shards\<close>.
\<close>

end
